(* ===== verification/Sat_Prelude.thy ===== *)
theory Sat_Prelude
  imports Complex_Main "HOL-Library.AList" "HOL-Library.List_Lexorder" "HOL-Library.Char_ord"
begin

text \<open>
  The vocabulary the components share: results that may throw, the error-and-state monad in
  which the asynchronous code is written and its Hoare rules, JavaScript numbers, decimal
  strings, insertion-ordered maps, and the collections of rewrite and introduction rules that
  the component proofs rely on.
\<close>

named_theorems throw_simps \<open>unfolding of the operations that may throw\<close>
named_theorems hoare_intro \<open>rules that decompose a triple along the program\<close>

section \<open>Results\<close>

text \<open>A thrown exception is \<open>Inl\<close>, a returned value is \<open>Inr\<close>.\<close>

fun bindR :: "'e + 'a \<Rightarrow> ('a \<Rightarrow> 'e + 'b) \<Rightarrow> 'e + 'b" where
  "bindR (Inl e) f = Inl e"
| "bindR (Inr x) f = f x"

lemma bindR_Inr_iff: "bindR r f = Inr y \<longleftrightarrow> (\<exists>x. r = Inr x \<and> f x = Inr y)"
  by (cases r) auto

lemma bindR_Inl_iff: "bindR r f = Inl e \<longleftrightarrow> r = Inl e \<or> (\<exists>x. r = Inr x \<and> f x = Inl e)"
  by (cases r) auto

definition isOk :: "'e + 'a \<Rightarrow> bool" where
  "isOk r \<longleftrightarrow> (case r of Inl _ \<Rightarrow> False | Inr _ \<Rightarrow> True)"

lemma isOk_simps [simp]: "isOk (Inr x)" "\<not> isOk (Inl e)"
  by (simp_all add: isOk_def)

text \<open>A loop that maps a fallible function over a list and stops at the first exception.\<close>

fun mapR :: "('a \<Rightarrow> 'e + 'b) \<Rightarrow> 'a list \<Rightarrow> 'e + 'b list" where
  "mapR f [] = Inr []"
| "mapR f (x # xs) = bindR (f x) (\<lambda>y. bindR (mapR f xs) (\<lambda>ys. Inr (y # ys)))"

lemma mapR_length: "mapR f xs = Inr ys \<Longrightarrow> length ys = length xs"
  by (induction xs arbitrary: ys) (auto simp: bindR_Inr_iff)

lemma mapR_set: "mapR f xs = Inr ys \<Longrightarrow> y \<in> set ys \<Longrightarrow> \<exists>x \<in> set xs. f x = Inr y"
  by (induction xs arbitrary: ys) (auto simp: bindR_Inr_iff)

lemma mapR_Inr_all: "(\<And>x. x \<in> set xs \<Longrightarrow> f x = Inr (g x)) \<Longrightarrow> mapR f xs = Inr (map g xs)"
  by (induction xs) auto

section \<open>State with exceptions\<close>

text \<open>
  An \<open>async\<close> function that mutates objects and may throw is a function of the state that
  gives a result and the state left behind, also when it throws: what was mutated before the
  exception stays mutated.
\<close>

type_synonym ('s, 'a) em = "'s \<Rightarrow> (string + 'a) \<times> 's"

definition returnM :: "'a \<Rightarrow> ('s, 'a) em" where
  "returnM x s = (Inr x, s)"

definition throwM :: "string \<Rightarrow> ('s, 'a) em" where
  "throwM e s = (Inl e, s)"

definition bindM :: "('s, 'a) em \<Rightarrow> ('a \<Rightarrow> ('s, 'b) em) \<Rightarrow> ('s, 'b) em" where
  "bindM m f s = (case m s of (Inl e, t) \<Rightarrow> (Inl e, t) | (Inr x, t) \<Rightarrow> f x t)"

definition catchM :: "('s, 'a) em \<Rightarrow> (string \<Rightarrow> ('s, 'a) em) \<Rightarrow> ('s, 'a) em" where
  "catchM m h s = (case m s of (Inl e, t) \<Rightarrow> h e t | (Inr x, t) \<Rightarrow> (Inr x, t))"

definition modifyM :: "('s \<Rightarrow> 's) \<Rightarrow> ('s, unit) em" where
  "modifyM f s = (Inr (), f s)"

definition getM :: "('s \<Rightarrow> 'a) \<Rightarrow> ('s, 'a) em" where
  "getM f s = (Inr (f s), s)"

definition liftR :: "string + 'a \<Rightarrow> ('s, 'a) em" where
  "liftR r s = (r, s)"

lemmas em_defs = returnM_def throwM_def bindM_def catchM_def modifyM_def getM_def liftR_def

text \<open>
  Triples: from a state in \<open>P\<close>, a normal return satisfies \<open>Q\<close> and an exception satisfies \<open>E\<close>.
  Every program of the model is a total function, so a triple speaks of the one outcome there is.
\<close>

definition triple ::
  "('s \<Rightarrow> bool) \<Rightarrow> ('s, 'a) em \<Rightarrow> ('a \<Rightarrow> 's \<Rightarrow> bool) \<Rightarrow> (string \<Rightarrow> 's \<Rightarrow> bool) \<Rightarrow> bool" where
  "triple P m Q E \<longleftrightarrow>
     (\<forall>s. P s \<longrightarrow> (case m s of (Inl e, t) \<Rightarrow> E e t | (Inr x, t) \<Rightarrow> Q x t))"

lemma tripleI:
  "(\<And>s x t. P s \<Longrightarrow> m s = (Inr x, t) \<Longrightarrow> Q x t) \<Longrightarrow>
   (\<And>s e t. P s \<Longrightarrow> m s = (Inl e, t) \<Longrightarrow> E e t) \<Longrightarrow> triple P m Q E"
  by (auto simp: triple_def split: prod.splits sum.splits)

lemma triple_ret: "triple P m Q E \<Longrightarrow> P s \<Longrightarrow> m s = (Inr x, t) \<Longrightarrow> Q x t"
  by (fastforce simp: triple_def)

lemma triple_exn: "triple P m Q E \<Longrightarrow> P s \<Longrightarrow> m s = (Inl e, t) \<Longrightarrow> E e t"
  by (fastforce simp: triple_def)

lemma triple_conseq:
  "triple P m Q E \<Longrightarrow> (\<And>s. P' s \<Longrightarrow> P s) \<Longrightarrow> (\<And>x s. Q x s \<Longrightarrow> Q' x s) \<Longrightarrow>
   (\<And>e s. E e s \<Longrightarrow> E' e s) \<Longrightarrow> triple P' m Q' E'"
  by (fastforce simp: triple_def split: prod.splits sum.splits)

lemma triple_return [hoare_intro]: "(\<And>s. P s \<Longrightarrow> Q x s) \<Longrightarrow> triple P (returnM x) Q E"
  by (auto simp: triple_def returnM_def)

lemma triple_throw [hoare_intro]: "(\<And>s. P s \<Longrightarrow> E e s) \<Longrightarrow> triple P (throwM e) Q E"
  by (auto simp: triple_def throwM_def)

lemma triple_modify [hoare_intro]: "(\<And>s. P s \<Longrightarrow> Q () (f s)) \<Longrightarrow> triple P (modifyM f) Q E"
  by (auto simp: triple_def modifyM_def)

lemma triple_get [hoare_intro]: "(\<And>s. P s \<Longrightarrow> Q (f s) s) \<Longrightarrow> triple P (getM f) Q E"
  by (auto simp: triple_def getM_def)

lemma triple_liftR [hoare_intro]:
  "(\<And>s x. P s \<Longrightarrow> r = Inr x \<Longrightarrow> Q x s) \<Longrightarrow> (\<And>s e. P s \<Longrightarrow> r = Inl e \<Longrightarrow> E e s) \<Longrightarrow>
   triple P (liftR r) Q E"
  by (auto simp: triple_def liftR_def split: sum.splits)

lemma triple_bind:
  "triple P m R E \<Longrightarrow> (\<And>x. triple (R x) (f x) Q E) \<Longrightarrow> triple P (bindM m f) Q E"
  by (fastforce simp: triple_def bindM_def split: prod.splits sum.splits)

lemma triple_catch:
  "triple P m Q R \<Longrightarrow> (\<And>e. triple (R e) (h e) Q E) \<Longrightarrow> triple P (catchM m h) Q E"
  by (fastforce simp: triple_def catchM_def split: prod.splits sum.splits)

lemma triple_if [hoare_intro]:
  "(b \<Longrightarrow> triple P m Q E) \<Longrightarrow> (\<not> b \<Longrightarrow> triple P n Q E) \<Longrightarrow> triple P (if b then m else n) Q E"
  by simp

text \<open>Running a composed program on a given state, for evaluation.\<close>

lemma run_bind_ok: "m s = (Inr x, t) \<Longrightarrow> bindM m f s = f x t"
  by (simp add: bindM_def)

lemma run_bind_exn: "m s = (Inl e, t) \<Longrightarrow> bindM m f s = (Inl e, t)"
  by (simp add: bindM_def)

section \<open>Numbers\<close>

text \<open>
  A JavaScript number is a finite value or one of the three special values. Finite values are
  kept exactly, as rationals; the rounding of binary floating point is outside the model. Money
  never uses this type beyond its integers: it is \<open>BigInt\<close> in the code and \<^typ>\<open>int\<close> here.
\<close>

datatype jsnum = Fin rat | NaN | PosInf | NegInf

fun isFinite :: "jsnum \<Rightarrow> bool" where
  "isFinite (Fin _) = True"
| "isFinite _ = False"

fun isInteger :: "jsnum \<Rightarrow> bool" where
  "isInteger (Fin q) = (of_int \<lfloor>q\<rfloor> = q)"
| "isInteger _ = False"

definition max_safe_integer :: int where
  "max_safe_integer = 9007199254740991"

fun isSafeInteger :: "jsnum \<Rightarrow> bool" where
  "isSafeInteger (Fin q) = (of_int \<lfloor>q\<rfloor> = q \<and> \<bar>\<lfloor>q\<rfloor>\<bar> \<le> max_safe_integer)"
| "isSafeInteger _ = False"

text \<open>\<open>Math.round\<close> rounds halves upwards.\<close>

definition math_round :: "rat \<Rightarrow> int" where
  "math_round q = \<lfloor>q + 1 / 2\<rfloor>"

lemma math_round_int [simp]: "math_round (of_int n) = n"
  unfolding math_round_def by (simp add: floor_eq_iff)

lemma math_round_mono: "p \<le> q \<Longrightarrow> math_round p \<le> math_round q"
  unfolding math_round_def by (rule floor_mono) simp

lemma math_round_bounds:
  assumes "of_int a \<le> q" and "q \<le> of_int b"
  shows "a \<le> math_round q \<and> math_round q \<le> b"
  using math_round_mono [OF assms(1)] math_round_mono [OF assms(2)] by simp

text \<open>\<open>BigInt\<close> division truncates towards zero.\<close>

definition big_div :: "int \<Rightarrow> int \<Rightarrow> int" where
  "big_div a b = sgn a * sgn b * (\<bar>a\<bar> div \<bar>b\<bar>)"

lemma big_div_nonneg: "0 \<le> a \<Longrightarrow> 0 < b \<Longrightarrow> big_div a b = a div b"
  by (cases "a = 0") (simp_all add: big_div_def)

definition clampQ :: "rat \<Rightarrow> rat \<Rightarrow> rat \<Rightarrow> rat" where
  "clampQ lo hi x = max lo (min hi x)"

lemma clampQ_bounds: "lo \<le> hi \<Longrightarrow> lo \<le> clampQ lo hi x \<and> clampQ lo hi x \<le> hi"
  by (simp add: clampQ_def)

lemma clampQ_id [simp]: "lo \<le> x \<Longrightarrow> x \<le> hi \<Longrightarrow> clampQ lo hi x = x"
  by (simp add: clampQ_def)

lemma clampQ_mono: "x \<le> y \<Longrightarrow> clampQ lo hi x \<le> clampQ lo hi y"
  by (auto simp: clampQ_def max_def min_def)

section \<open>Decimal strings\<close>

definition digit_char :: "nat \<Rightarrow> char" where
  "digit_char d = char_of (48 + d)"

definition is_digit :: "char \<Rightarrow> bool" where
  "is_digit c \<longleftrightarrow> 48 \<le> (of_char c :: nat) \<and> (of_char c :: nat) \<le> 57"

definition digit_val :: "char \<Rightarrow> nat" where
  "digit_val c = of_char c - 48"

fun nat_to_string :: "nat \<Rightarrow> string" where
  "nat_to_string n =
     (if n < 10 then [digit_char n] else nat_to_string (n div 10) @ [digit_char (n mod 10)])"

declare nat_to_string.simps [simp del]

definition string_to_nat :: "string \<Rightarrow> nat" where
  "string_to_nat s = foldl (\<lambda>n c. n * 10 + digit_val c) 0 s"

text \<open>\<open>BigInt.prototype.toString\<close>.\<close>

definition int_to_string :: "int \<Rightarrow> string" where
  "int_to_string i = (if i < 0 then CHR ''-'' # nat_to_string (nat (- i)) else nat_to_string (nat i))"

lemma digit_val_char [simp]: "d < 10 \<Longrightarrow> digit_val (digit_char d) = d"
  by (simp add: digit_val_def digit_char_def)

lemma is_digit_char [simp]: "d < 10 \<Longrightarrow> is_digit (digit_char d)"
  by (simp add: is_digit_def digit_char_def)

lemma nat_to_string_digits: "list_all is_digit (nat_to_string n)"
proof (induction n rule: nat_to_string.induct)
  case (1 n)
  then show ?case by (cases "n < 10") (simp_all add: nat_to_string.simps [of n])
qed

lemma nat_to_string_nonempty [simp]: "nat_to_string n \<noteq> []" "[] \<noteq> nat_to_string n"
  by (simp_all add: nat_to_string.simps [of n])

lemma string_to_nat_snoc: "string_to_nat (s @ [c]) = string_to_nat s * 10 + digit_val c"
  by (simp add: string_to_nat_def)

lemma string_to_nat_to_string [simp]: "string_to_nat (nat_to_string n) = n"
proof (induction n rule: nat_to_string.induct)
  case (1 n)
  show ?case
  proof (cases "n < 10")
    case True
    then show ?thesis by (simp add: nat_to_string.simps [of n] string_to_nat_def)
  next
    case False
    with "1.IH" show ?thesis
      by (simp add: nat_to_string.simps [of n] string_to_nat_snoc)
  qed
qed

lemma nat_to_string_inj [simp]: "nat_to_string m = nat_to_string n \<longleftrightarrow> m = n"
  by (metis string_to_nat_to_string)

lemma minus_not_digit: "\<not> is_digit (CHR ''-'')"
  by (simp add: is_digit_def)

lemma nat_to_string_hd: "is_digit (hd (nat_to_string n))"
  using nat_to_string_digits [of n] by (cases "nat_to_string n") auto

lemma int_to_string_inj [simp]: "int_to_string i = int_to_string j \<longleftrightarrow> i = j"
proof
  assume eq: "int_to_string i = int_to_string j"
  have neq: "CHR ''-'' # xs \<noteq> nat_to_string n" for xs n
    using nat_to_string_hd [of n] minus_not_digit by (metis list.sel(1))
  show "i = j"
    using eq neq [symmetric] neq
    by (auto simp: int_to_string_def split: if_splits)
qed simp

lemma int_to_string_nonempty [simp]: "int_to_string i \<noteq> []" "[] \<noteq> int_to_string i"
  by (simp_all add: int_to_string_def)

lemma int_to_string_digits [simp]: "0 \<le> n \<Longrightarrow> list_all is_digit (int_to_string n)"
  using nat_to_string_digits by (simp add: int_to_string_def)

lemma string_to_nat_int_to_string [simp]: "0 \<le> n \<Longrightarrow> string_to_nat (int_to_string n) = nat n"
  by (simp add: int_to_string_def)

text \<open>\<open>BigInt(s)\<close> on a text that is a decimal integer.\<close>

definition string_to_int :: "string \<Rightarrow> int" where
  "string_to_int s =
     (case s of [] \<Rightarrow> 0 | c # r \<Rightarrow> if c = CHR ''-'' then - int (string_to_nat r) else int (string_to_nat s))"

lemma string_to_int_to_string [simp]: "string_to_int (int_to_string i) = i"
proof (cases "i < 0")
  case False
  obtain c r where cr: "nat_to_string (nat i) = c # r"
    by (cases "nat_to_string (nat i)") auto
  with nat_to_string_hd [of "nat i"] have "c \<noteq> CHR ''-''" by (auto simp: minus_not_digit)
  with False cr string_to_nat_to_string [of "nat i"] show ?thesis
    by (simp add: string_to_int_def int_to_string_def)
qed (simp add: string_to_int_def int_to_string_def)

section \<open>Lists\<close>

lemma sum_list_member_le: "\<forall>x \<in> set xs. 0 \<le> x \<Longrightarrow> b \<in> set xs \<Longrightarrow> b \<le> (sum_list xs :: int)"
proof (induction xs)
  case (Cons x xs)
  then have "0 \<le> sum_list xs" by (intro sum_list_nonneg) auto
  with Cons show ?case by auto
qed simp

section \<open>Insertion-ordered maps\<close>

text \<open>
  A JavaScript \<open>Map\<close> iterates in insertion order and \<open>set\<close> on a present key keeps its place:
  an association list with distinct keys under \<^const>\<open>AList.update\<close>, read by \<^const>\<open>map_of\<close>.
\<close>

type_synonym ('k, 'v) jsmap = "('k \<times> 'v) list"

abbreviation mset_key :: "'k \<Rightarrow> 'v \<Rightarrow> ('k, 'v) jsmap \<Rightarrow> ('k, 'v) jsmap" where
  "mset_key k v m \<equiv> AList.update k v m"

abbreviation mdelete :: "'k \<Rightarrow> ('k, 'v) jsmap \<Rightarrow> ('k, 'v) jsmap" where
  "mdelete k m \<equiv> AList.delete k m"

abbreviation mwf :: "('k, 'v) jsmap \<Rightarrow> bool" where
  "mwf m \<equiv> distinct (map fst m)"

lemma map_of_mset [simp]: "map_of (mset_key k v m) = (map_of m)(k \<mapsto> v)"
  by (rule update_conv')

lemma map_of_mdelete [simp]: "map_of (mdelete k m) = (map_of m)(k := None)"
  by (rule delete_conv')

lemma mwf_mset [simp]: "mwf m \<Longrightarrow> mwf (mset_key k v m)"
  by (rule distinct_update)

lemma mwf_mdelete [simp]: "mwf m \<Longrightarrow> mwf (mdelete k m)"
  by (rule distinct_delete)

lemma mset_key_fresh: "map_of m k = None \<Longrightarrow> mset_key k v m = m @ [(k, v)]"
  by (induction m) (auto split: if_splits)

lemma mset_key_keys:
  "map_of m k \<noteq> None \<Longrightarrow> map fst (mset_key k v m) = map fst m"
  by (induction m) (auto split: if_splits)

lemma map_of_in_values: "map_of m k = Some v \<Longrightarrow> v \<in> set (map snd m)"
  by (force dest: map_of_SomeD)

text \<open>An insert-if-absent, the one write of every exactly-once ledger.\<close>

definition insert_if_absent :: "'k \<Rightarrow> 'v \<Rightarrow> ('k, 'v) jsmap \<Rightarrow> (bool \<times> 'v) \<times> ('k, 'v) jsmap" where
  "insert_if_absent k v m =
     (case map_of m k of Some w \<Rightarrow> ((False, w), m) | None \<Rightarrow> ((True, v), mset_key k v m))"

lemma insert_if_absent_lookup:
  "insert_if_absent k v m = ((b, w), m') \<Longrightarrow> map_of m' k = Some w"
  by (auto simp: insert_if_absent_def split: option.splits)

lemma insert_if_absent_frame:
  "insert_if_absent k v m = (r, m') \<Longrightarrow> map_of m j = Some x \<Longrightarrow> map_of m' j = Some x"
  by (auto simp: insert_if_absent_def split: option.splits)

lemma insert_if_absent_wf:
  "mwf m \<Longrightarrow> insert_if_absent k v m = (r, m') \<Longrightarrow> mwf m'"
  by (auto simp: insert_if_absent_def split: option.splits)

lemma insert_if_absent_again:
  "insert_if_absent k v m = ((b, w), m') \<Longrightarrow> insert_if_absent k u m' = ((False, w), m')"
  by (auto simp: insert_if_absent_def split: option.splits)

section \<open>Truthiness and defaults\<close>

text \<open>\<open>a ?? b\<close> and \<open>s || d\<close> on an optional string, where the empty string is falsy too.\<close>

definition coalesce :: "'a option \<Rightarrow> 'a \<Rightarrow> 'a" where
  "coalesce a b = (case a of None \<Rightarrow> b | Some x \<Rightarrow> x)"

definition truthy :: "string option \<Rightarrow> bool" where
  "truthy s \<longleftrightarrow> (case s of None \<Rightarrow> False | Some x \<Rightarrow> x \<noteq> [])"

definition or_str :: "string option \<Rightarrow> string \<Rightarrow> string" where
  "or_str s d = (case s of None \<Rightarrow> d | Some x \<Rightarrow> if x = [] then d else x)"

definition or_null :: "string option \<Rightarrow> string option" where
  "or_null s = (if truthy s then s else None)"

lemma coalesce_simps [simp]: "coalesce None b = b" "coalesce (Some x) b = x"
  by (simp_all add: coalesce_def)

lemma or_str_simps [simp]: "or_str None d = d" "or_str (Some []) d = d" "or_str (Some (c # s)) d = c # s"
  by (simp_all add: or_str_def)

lemma truthy_simps [simp]: "\<not> truthy None" "\<not> truthy (Some [])" "truthy (Some (c # s))"
  by (simp_all add: truthy_def)

lemma truthy_Some [simp]: "truthy (Some x) \<longleftrightarrow> x \<noteq> []"
  by (simp add: truthy_def)

end
