(* ===== verification/Money.thy ===== *)
theory Money
  imports Sat_Prelude
begin

text \<open>
  \<^verbatim>\<open>vnext/fees/money.js\<close>: the integer money primitives. An amount arrives as a
  \<open>bigint\<close>, a number, a string or something else; it leaves as a non-negative integer of minor
  units or as a thrown \<open>FeeError\<close>, which is kept by its code. The lemmas show that every amount
  that is accepted is non-negative and exact, and bound the basis-point share of an amount.
\<close>

datatype fee_error =
  CONFIG | CURRENCY_MISMATCH | NEGATIVE | PRECISION | TYPE_ERROR | BPS_RANGE | FEE_MISMATCH | INTERNAL

text \<open>Where a \<open>FeeError\<close> meets other exceptions it is the text of its code.\<close>

fun fee_error_name :: "fee_error \<Rightarrow> string" where
  "fee_error_name CONFIG = ''CONFIG''"
| "fee_error_name CURRENCY_MISMATCH = ''CURRENCY_MISMATCH''"
| "fee_error_name NEGATIVE = ''NEGATIVE''"
| "fee_error_name PRECISION = ''PRECISION''"
| "fee_error_name TYPE_ERROR = ''TYPE''"
| "fee_error_name BPS_RANGE = ''BPS_RANGE''"
| "fee_error_name FEE_MISMATCH = ''FEE_MISMATCH''"
| "fee_error_name INTERNAL = ''INTERNAL''"

definition throw_fee :: "fee_error + 'a \<Rightarrow> string + 'a" where
  "throw_fee r = (case r of Inl e \<Rightarrow> Inl (fee_error_name e) | Inr x \<Rightarrow> Inr x)"

lemma throw_fee_simps [simp]: "throw_fee (Inl e) = Inl (fee_error_name e)" "throw_fee (Inr x) = Inr x"
  by (simp_all add: throw_fee_def)

lemma throw_fee_Inr_iff [simp]: "throw_fee r = Inr x \<longleftrightarrow> r = Inr x"
  by (cases r) simp_all

text \<open>What a monetary argument can be; \<open>undefined\<close>, \<open>null\<close> and objects are \<open>AOther\<close>.\<close>

datatype amount = ABig int | ANum jsnum | AStr string | AOther

fun num_neg :: "jsnum \<Rightarrow> bool" where
  "num_neg (Fin q) = (q < 0)"
| "num_neg NegInf = True"
| "num_neg _ = False"

fun num_to_int :: "jsnum \<Rightarrow> int" where
  "num_to_int (Fin q) = \<lfloor>q\<rfloor>"
| "num_to_int _ = 0"

fun toMinor :: "amount \<Rightarrow> fee_error + int" where
  "toMinor (ABig v) = (if v < 0 then Inl NEGATIVE else Inr v)"
| "toMinor (ANum n) =
     (if \<not> isInteger n then Inl PRECISION
      else if \<not> isSafeInteger n then Inl PRECISION
      else if num_neg n then Inl NEGATIVE
      else Inr (num_to_int n))"
| "toMinor (AStr s) =
     (if s \<noteq> [] \<and> list_all is_digit s then Inr (int (string_to_nat s)) else Inl PRECISION)"
| "toMinor AOther = Inl TYPE_ERROR"

definition bpsOf :: "int \<Rightarrow> int \<Rightarrow> fee_error + int" where
  "bpsOf base bps = (if base < 0 then Inl NEGATIVE else Inr (big_div (base * bps) 10000))"

definition assertBps :: "int \<Rightarrow> fee_error + int" where
  "assertBps bps =
     (if bps < 0 then Inl BPS_RANGE else if bps > 10000 then Inl BPS_RANGE else Inr bps)"

text \<open>The text \<open>String(p)\<close> must match \<^verbatim>\<open>^\d+(\.\d{1,2})?$\<close>.\<close>

definition percent_ok :: "string \<Rightarrow> bool" where
  "percent_ok s \<longleftrightarrow>
     takeWhile is_digit s \<noteq> [] \<and>
     (case dropWhile is_digit s of
        [] \<Rightarrow> True
      | c # f \<Rightarrow> c = CHR ''.'' \<and> (length f = 1 \<or> length f = 2) \<and> list_all is_digit f)"

definition parsePercentToBps :: "string \<Rightarrow> fee_error + int" where
  "parsePercentToBps s =
     (if \<not> percent_ok s then Inl PRECISION
      else let i = takeWhile is_digit s; f = drop 1 (dropWhile is_digit s)
           in Inr (int (string_to_nat i) * 100 + int (string_to_nat (take 2 (f @ ''00'')))))"

definition positiveSpread :: "int \<Rightarrow> int \<Rightarrow> int" where
  "positiveSpread buyer supplier = (let d = buyer - supplier in if d > 0 then d else 0)"

section \<open>Accepted amounts\<close>

lemma toMinor_nonneg [dest]: "toMinor v = Inr n \<Longrightarrow> 0 \<le> n"
proof (cases v)
  case (ANum x)
  then show "toMinor v = Inr n \<Longrightarrow> 0 \<le> n" by (cases x) (auto split: if_splits)
qed (auto split: if_splits)

text \<open>An accepted number is the integer it denotes, and the integer survives the string form.\<close>

lemma toMinor_num_exact: "toMinor (ANum x) = Inr n \<Longrightarrow> x = Fin (of_int n) \<and> \<bar>n\<bar> \<le> max_safe_integer"
  by (cases x) (auto split: if_splits)

lemma toMinor_string [simp]: "0 \<le> n \<Longrightarrow> toMinor (AStr (int_to_string n)) = Inr n"
  using nat_to_string_digits by (simp add: int_to_string_def)

lemma toMinor_big [simp]: "0 \<le> n \<Longrightarrow> toMinor (ABig n) = Inr n"
  by simp

lemma toMinor_safe_num [simp]: "0 \<le> n \<Longrightarrow> n \<le> max_safe_integer \<Longrightarrow> toMinor (ANum (Fin (of_int n))) = Inr n"
  by simp

section \<open>Basis points\<close>

lemma assertBps_Inr [simp]: "assertBps b = Inr c \<longleftrightarrow> c = b \<and> 0 \<le> b \<and> b \<le> 10000"
  by (auto simp: assertBps_def)

lemma bpsOf_Inr: "0 \<le> b \<Longrightarrow> bpsOf a b = Inr c \<longleftrightarrow> 0 \<le> a \<and> c = (a * b) div 10000"
  by (auto simp: bpsOf_def big_div_nonneg)

lemma bps_share_nonneg: "0 \<le> a \<Longrightarrow> 0 \<le> b \<Longrightarrow> 0 \<le> (a * b) div (10000 :: int)"
  by (simp add: pos_imp_zdiv_nonneg_iff)

lemma bps_share_le: "0 \<le> a \<Longrightarrow> b \<le> 10000 \<Longrightarrow> (a * b) div (10000 :: int) \<le> a"
proof -
  assume "0 \<le> a" "b \<le> 10000"
  then have "a * b \<le> a * 10000" by (rule mult_left_mono [rotated])
  then have "(a * b) div 10000 \<le> (a * 10000) div 10000" by (rule zdiv_mono1) simp
  then show ?thesis by simp
qed

lemma bps_share_full [simp]: "(a * 10000) div (10000 :: int) = a"
  by simp

lemma bps_share_mono: "0 \<le> b \<Longrightarrow> a \<le> a' \<Longrightarrow> (a * b) div (10000 :: int) \<le> (a' * b) div 10000"
  by (intro zdiv_mono1 mult_right_mono) auto

text \<open>Floors of shares never add up to more than the floor of the joint share.\<close>

lemma bps_share_sum:
  "(a * b) div 10000 + (a * c) div (10000 :: int) \<le> (a * (b + c)) div 10000"
proof -
  have "((a * b) div 10000 + (a * c) div 10000) * 10000 \<le> a * b + a * c"
    using mult_div_mod_eq [of 10000 "a * b"] mult_div_mod_eq [of 10000 "a * c"]
      pos_mod_sign [of 10000 "a * b"] pos_mod_sign [of 10000 "a * c"]
    by (simp add: distrib_right)
  then have "((a * b) div 10000 + (a * c) div 10000) * 10000 div 10000 \<le> (a * b + a * c) div 10000"
    by (rule zdiv_mono1) simp
  then show ?thesis by (simp add: distrib_left)
qed

lemma bps_share_sum_list:
  "sum_list (map (\<lambda>b. (a * b) div 10000) bs) \<le> (a * sum_list bs) div (10000 :: int)"
proof (induction bs)
  case (Cons b bs)
  then show ?case using bps_share_sum [of a b "sum_list bs"] by simp
qed simp

section \<open>Percentages and spreads\<close>

lemma parsePercentToBps_nonneg [dest]: "parsePercentToBps s = Inr b \<Longrightarrow> 0 \<le> b"
  by (auto simp: parsePercentToBps_def Let_def split: if_splits)

text \<open>A whole percentage \<open>p\<close> is \<open>100 * p\<close> basis points, two decimals add their hundredths.\<close>

lemma takeWhile_dot: "list_all is_digit i \<Longrightarrow> takeWhile is_digit (i @ CHR ''.'' # f) = i"
  and dropWhile_dot: "list_all is_digit i \<Longrightarrow> dropWhile is_digit (i @ CHR ''.'' # f) = CHR ''.'' # f"
  by (induction i) (auto simp: is_digit_def)

lemma parsePercent_whole: "parsePercentToBps (nat_to_string p) = Inr (100 * int p)"
proof -
  have "\<forall>c \<in> set (nat_to_string p). is_digit c"
    using nat_to_string_digits by (simp add: list_all_iff)
  then have tw: "takeWhile is_digit (nat_to_string p) = nat_to_string p"
    and dw: "dropWhile is_digit (nat_to_string p) = []"
    by simp_all
  have z: "string_to_nat ''00'' = 0" by (simp add: string_to_nat_def digit_val_def)
  show ?thesis
    unfolding parsePercentToBps_def percent_ok_def tw dw by (simp add: z)
qed

lemma parsePercent_hundredths:
  assumes "d < 10" "e < 10"
  shows "parsePercentToBps (nat_to_string p @ [CHR ''.'', digit_char d, digit_char e]) =
    Inr (100 * int p + 10 * int d + int e)"
proof -
  have i: "list_all is_digit (nat_to_string p)" by (rule nat_to_string_digits)
  show ?thesis
    using assms
    by (simp add: parsePercentToBps_def percent_ok_def takeWhile_dot [OF i] dropWhile_dot [OF i]
        string_to_nat_def [of "[digit_char d, digit_char e]"])
qed

lemma positiveSpread_eq: "positiveSpread b s = max 0 (b - s)"
  by (simp add: positiveSpread_def Let_def max_def)

lemma positiveSpread_nonneg [simp]: "0 \<le> positiveSpread b s"
  by (simp add: positiveSpread_eq)

lemmas money_simps = bindR_Inr_iff bindR_Inl_iff bpsOf_Inr positiveSpread_eq

section \<open>Properties\<close>

text \<open>
  Converting an amount to minor units is exact or refused. A number is accepted only when it
  is a whole, non-negative, safe integer, and gives that integer; a text exactly when it is a run
  of digits; no text of a negative amount is accepted, and the text of every accepted amount reads
  back as the amount.\<close>

theorem toMinor_exact:
  "(toMinor (ANum x) = Inr n \<longleftrightarrow> x = Fin (of_int n) \<and> 0 \<le> n \<and> n \<le> max_safe_integer) \<and>
   (toMinor (AStr (int_to_string m)) = Inr n \<longleftrightarrow> n = m \<and> 0 \<le> m) \<and>
   (toMinor (ABig m) = Inr n \<longleftrightarrow> n = m \<and> 0 \<le> m) \<and> toMinor AOther = Inl TYPE_ERROR"
proof (intro conjI)
  show "toMinor (ANum x) = Inr n \<longleftrightarrow> x = Fin (of_int n) \<and> 0 \<le> n \<and> n \<le> max_safe_integer"
  proof
    assume "toMinor (ANum x) = Inr n"
    then show "x = Fin (of_int n) \<and> 0 \<le> n \<and> n \<le> max_safe_integer"
      using toMinor_num_exact toMinor_nonneg by fastforce
  qed simp
  have "m < 0 \<Longrightarrow> int_to_string m = CHR ''-'' # nat_to_string (nat (- m))" by (simp add: int_to_string_def)
  then have "m < 0 \<Longrightarrow> toMinor (AStr (int_to_string m)) \<noteq> Inr n"
    using minus_not_digit by auto
  then show "toMinor (AStr (int_to_string m)) = Inr n \<longleftrightarrow> n = m \<and> 0 \<le> m"
    using toMinor_string [of m] by (cases "m < 0") auto
qed auto

end
