(* ===== verification/Canonical_Json.thy ===== *)
theory Canonical_Json
  imports Sat_Prelude "HOL-Library.Multiset"
begin

text \<open>
  \<^verbatim>\<open>utils/canonical_json.js\<close>: the JSON values that are hashed, the recursive key sort
  \<open>sortObject\<close>, the text \<open>JSON.stringify\<close> gives them and \<open>canonicalJSON\<close> itself. The
  lemmas show that the text depends on the value up to key order only, and that the text of an
  object is a prefix code: it determines the object and where it ends. The hash chain of the
  journal and the audit hashes rest on this.

  Numbers are the integers that the journal stores (sequence numbers, timestamps, minor units).
  Objects are association lists in enumeration order with keys that are no array indices, as
  all keys of this code are.
\<close>

datatype json =
    JNull
  | JBool bool
  | JNum int
  | JStr string
  | JArr "json list"
  | JObj "(string \<times> json) list"

section \<open>Text\<close>

definition hex_digit :: "nat \<Rightarrow> char" where
  "hex_digit n = (if n < 10 then char_of (48 + n) else char_of (87 + n))"

text \<open>The escapes of \<open>JSON.stringify\<close>.\<close>

definition esc :: "char \<Rightarrow> string" where
  "esc c =
     (let n = (of_char c :: nat) in
      if n = 34 then [CHR 92, CHR 34]
      else if n = 92 then [CHR 92, CHR 92]
      else if n = 8 then [CHR 92, CHR ''b'']
      else if n = 9 then [CHR 92, CHR ''t'']
      else if n = 10 then [CHR 92, CHR ''n'']
      else if n = 12 then [CHR 92, CHR ''f'']
      else if n = 13 then [CHR 92, CHR ''r'']
      else if n < 32 then [CHR 92, CHR ''u'', CHR ''0'', CHR ''0'', hex_digit (n div 16), hex_digit (n mod 16)]
      else [c])"

definition quote :: "string \<Rightarrow> string" where
  "quote s = CHR 34 # concat (map esc s) @ [CHR 34]"

fun join_tail :: "char \<Rightarrow> string list \<Rightarrow> string" where
  "join_tail c [] = [c]"
| "join_tail c (x # xs) = CHR '','' # x @ join_tail c xs"

fun bracket :: "char \<Rightarrow> char \<Rightarrow> string list \<Rightarrow> string" where
  "bracket b c [] = [b, c]"
| "bracket b c (x # xs) = b # x @ join_tail c xs"

fun stringify :: "json \<Rightarrow> string" where
  "stringify JNull = ''null''"
| "stringify (JBool b) = (if b then ''true'' else ''false'')"
| "stringify (JNum i) = int_to_string i"
| "stringify (JStr s) = quote s"
| "stringify (JArr xs) = bracket CHR ''['' CHR '']'' (map stringify xs)"
| "stringify (JObj kvs) =
     bracket CHR ''{'' CHR ''}'' (map (\<lambda>(k, v). quote k @ CHR '':'' # stringify v) kvs)"

section \<open>Canonical form\<close>

fun sortObject :: "json \<Rightarrow> json" where
  "sortObject (JArr xs) = JArr (map sortObject xs)"
| "sortObject (JObj kvs) = JObj (sort_key fst (map (\<lambda>(k, v). (k, sortObject v)) kvs))"
| "sortObject v = v"

definition canonicalJSON :: "json \<Rightarrow> string" where
  "canonicalJSON v = stringify (sortObject v)"

text \<open>\<open>sha256Hex\<close> is the digest of the platform's crypto module: an argument.\<close>

definition hashObject :: "(string \<Rightarrow> string) \<Rightarrow> json \<Rightarrow> string" where
  "hashObject sha256Hex v = sha256Hex (canonicalJSON v)"

section \<open>The text is a prefix code\<close>

definition hex_val :: "char \<Rightarrow> nat" where
  "hex_val c = (let n = of_char c in if n < 58 then n - 48 else n - 87)"

lemma hex_val_digit [simp]: "n < 16 \<Longrightarrow> hex_val (hex_digit n) = n"
  by (simp add: hex_val_def hex_digit_def Let_def)

text \<open>Reading one escaped character back; a closing quote is no character.\<close>

definition unesc :: "string \<Rightarrow> (char \<times> string) option" where
  "unesc s =
     (case s of
        [] \<Rightarrow> None
      | c # r \<Rightarrow>
          if c = CHR 34 then None
          else if c \<noteq> CHR 92 then Some (c, r)
          else (case r of
                  [] \<Rightarrow> None
                | x # r' \<Rightarrow>
                    if x = CHR ''u'' then Some (char_of (16 * hex_val (r' ! 2) + hex_val (r' ! 3)), drop 4 r')
                    else if x = CHR ''b'' then Some (char_of (8 :: nat), r')
                    else if x = CHR ''t'' then Some (char_of (9 :: nat), r')
                    else if x = CHR ''n'' then Some (char_of (10 :: nat), r')
                    else if x = CHR ''f'' then Some (char_of (12 :: nat), r')
                    else if x = CHR ''r'' then Some (char_of (13 :: nat), r')
                    else Some (x, r')))"

lemma unesc_esc: "unesc (esc c @ u) = Some (c, u)"
proof -
  define n where "n = (of_char c :: nat)"
  have c: "c = char_of n" by (simp add: n_def)
  have nlt: "n < 256" by (simp add: n_def)
  consider "n = 34" | "n = 92" | "n \<in> {8, 9, 10, 12, 13}" | "n < 32" "n \<notin> {8, 9, 10, 12, 13}"
    | "\<not> n < 32" "n \<noteq> 34" "n \<noteq> 92" by auto
  then show ?thesis
  proof cases
    case 1
    then have "(of_char c :: nat) = of_char (CHR 34)" by (simp add: n_def)
    then have "c = CHR 34" by (simp only: of_char_eq_iff)
    then show ?thesis by (simp add: unesc_def esc_def)
  next
    case 2
    then have "(of_char c :: nat) = of_char (CHR 92)" by (simp add: n_def)
    then have "c = CHR 92" by (simp only: of_char_eq_iff)
    then show ?thesis by (simp add: unesc_def esc_def)
  next
    case 4
    then have "esc c = [CHR 92, CHR ''u'', CHR ''0'', CHR ''0'', hex_digit (n div 16), hex_digit (n mod 16)]"
      by (simp add: esc_def Let_def n_def [symmetric])
    then show ?thesis using 4 by (simp add: unesc_def c)
  next
    case 5
    then have "esc c = [c]" by (simp add: esc_def Let_def n_def [symmetric])
    moreover have "c \<noteq> CHR 34" "c \<noteq> CHR 92" using 5 by (auto simp: n_def)
    ultimately show ?thesis by (simp add: unesc_def)
  qed (auto simp: unesc_def esc_def Let_def c)
qed

lemma esc_prefix: "esc c @ u = esc d @ v \<Longrightarrow> c = d \<and> u = v"
  by (metis unesc_esc option.inject prod.inject)

lemma esc_no_quote: "esc c @ u \<noteq> CHR 34 # v"
proof
  assume "esc c @ u = CHR 34 # v"
  with unesc_esc [of c u] have "unesc (CHR 34 # v) = Some (c, u)" by simp
  then show False by (simp add: unesc_def)
qed

lemma escs_prefix:
  "concat (map esc s) @ CHR 34 # u = concat (map esc t) @ CHR 34 # v \<Longrightarrow> s = t \<and> u = v"
proof (induction s arbitrary: t)
  case Nil
  show ?case
  proof (cases t)
    case (Cons d t')
    with Nil have "CHR 34 # u = esc d @ (concat (map esc t') @ CHR 34 # v)" by simp
    then show ?thesis using esc_no_quote by metis
  qed (use Nil in simp)
next
  case (Cons c s)
  note IH = Cons.IH
  show ?case
  proof (cases t)
    case Nil
    with Cons.prems have "esc c @ (concat (map esc s) @ CHR 34 # u) = CHR 34 # v" by simp
    then show ?thesis using esc_no_quote by metis
  next
    case (Cons d t')
    with Cons.prems have "esc c @ (concat (map esc s) @ CHR 34 # u) = esc d @ (concat (map esc t') @ CHR 34 # v)"
      by simp
    from esc_prefix [OF this] have "c = d" "s = t' \<and> u = v" using IH by blast+
    then show ?thesis using Cons by simp
  qed
qed

lemma quote_prefix: "quote s @ u = quote t @ v \<Longrightarrow> s = t \<and> u = v"
  by (rule escs_prefix) (simp add: quote_def)

text \<open>A text that follows a value inside a larger text starts with a delimiter.\<close>

definition delimited :: "string \<Rightarrow> bool" where
  "delimited r \<longleftrightarrow> (case r of [] \<Rightarrow> True | c # _ \<Rightarrow> c \<in> {CHR '','', CHR '']'', CHR ''}''})"

lemma delimited_simps [simp]:
  "delimited []" "delimited (CHR '','' # r)" "delimited (CHR '']'' # r)" "delimited (CHR ''}'' # r)"
  by (simp_all add: delimited_def)

lemma delimited_nondigit: "delimited r \<Longrightarrow> r = c # r' \<Longrightarrow> \<not> is_digit c"
  by (auto simp: delimited_def is_digit_def)

lemma digits_prefix:
  assumes "list_all is_digit a" "list_all is_digit b" "delimited r" "delimited s" "a @ r = b @ s"
  shows "a = b \<and> r = s"
proof -
  have *: "takeWhile is_digit (x @ y) = x" if "list_all is_digit x" "delimited y" for x y
    using that delimited_nondigit [OF that(2)]
    by (cases y) (auto simp: takeWhile_append list_all_iff)
  have "a = b" using * [OF assms(1,3)] * [OF assms(2,4)] assms(5) by metis
  with assms(5) show ?thesis by simp
qed

lemma int_to_string_prefix:
  assumes "int_to_string i @ r = int_to_string j @ s" "delimited r" "delimited s"
  shows "i = j \<and> r = s"
proof -
  have neq: "CHR ''-'' # xs \<noteq> nat_to_string n @ ys" for xs ys n
    using nat_to_string_hd [of n] minus_not_digit
    by (metis list.sel(1) hd_append2 nat_to_string_nonempty)
  have pre: "m = n \<and> r = s" if "nat_to_string m @ r = nat_to_string n @ s" for m n
    using digits_prefix [OF nat_to_string_digits nat_to_string_digits assms(2,3) that] by simp
  show ?thesis
  proof (cases "i < 0"; cases "j < 0")
    assume "i < 0" "j < 0"
    with assms(1) have "nat_to_string (nat (- i)) @ r = nat_to_string (nat (- j)) @ s"
      by (simp add: int_to_string_def)
    from pre [OF this] \<open>i < 0\<close> \<open>j < 0\<close> show ?thesis by auto
  next
    assume "\<not> i < 0" "\<not> j < 0"
    with assms(1) have "nat_to_string (nat i) @ r = nat_to_string (nat j) @ s"
      by (simp add: int_to_string_def)
    from pre [OF this] \<open>\<not> i < 0\<close> \<open>\<not> j < 0\<close> show ?thesis by auto
  qed (use assms(1) in \<open>simp_all add: int_to_string_def neq neq [symmetric]\<close>)
qed

lemma int_to_string_head: "\<exists>c u. int_to_string i = c # u \<and> (is_digit c \<or> c = CHR ''-'')"
proof (cases "i < 0")
  case False
  then show ?thesis using nat_to_string_hd [of "nat i"]
    by (cases "nat_to_string (nat i)") (auto simp: int_to_string_def)
qed (simp add: int_to_string_def)

text \<open>The first character tells the kind of value, and is never a delimiter.\<close>

lemma stringify_head:
  "\<exists>c u. stringify v = c # u \<and>
     (case v of
        JNull \<Rightarrow> c = CHR ''n'' | JBool b \<Rightarrow> c = (if b then CHR ''t'' else CHR ''f'')
      | JNum _ \<Rightarrow> is_digit c \<or> c = CHR ''-'' | JStr _ \<Rightarrow> c = CHR 34
      | JArr _ \<Rightarrow> c = CHR ''['' | JObj _ \<Rightarrow> c = CHR ''{'')"
proof (cases v)
  case (JArr xs)
  then show ?thesis by (cases xs) auto
next
  case (JObj kvs)
  then show ?thesis by (cases kvs) auto
next
  case (JNum i)
  then show ?thesis using int_to_string_head [of i] by auto
qed (auto simp: quote_def)

text \<open>The kind of a value as a number, read off the first character.\<close>

definition kind_char :: "char \<Rightarrow> nat" where
  "kind_char c =
     (if c = CHR ''n'' then 0 else if c = CHR ''t'' then 1 else if c = CHR ''f'' then 2
      else if c = CHR 34 then 3 else if c = CHR ''['' then 4 else if c = CHR ''{'' then 5
      else if is_digit c \<or> c = CHR ''-'' then 6 else 7)"

fun kind :: "json \<Rightarrow> nat" where
  "kind JNull = 0" | "kind (JBool b) = (if b then 1 else 2)" | "kind (JNum _) = 6"
| "kind (JStr _) = 3" | "kind (JArr _) = 4" | "kind (JObj _) = 5"

lemma stringify_kind: "stringify v \<noteq> [] \<and> kind_char (hd (stringify v)) = kind v"
  using stringify_head [of v]
  by (cases v) (auto simp: kind_char_def is_digit_def)

lemma kind_lt: "kind v < 7"
  by (cases v) auto

lemma stringify_same_kind: "stringify a @ r = stringify b @ s \<Longrightarrow> kind a = kind b"
  using stringify_kind [of a] stringify_kind [of b] by (metis hd_append2)

lemma stringify_not_close: "c \<in> {CHR '','', CHR '']'', CHR ''}''} \<Longrightarrow> stringify v @ u \<noteq> c # w"
proof
  assume c: "c \<in> {CHR '','', CHR '']'', CHR ''}''}" and "stringify v @ u = c # w"
  then have "hd (stringify v) = c" using stringify_kind [of v] by (metis hd_append2 list.sel(1))
  moreover have "kind_char c = 7" using c by (auto simp: kind_char_def is_digit_def)
  ultimately show False using stringify_kind [of v] kind_lt [of v] by auto
qed

text \<open>
  The elements of a bracketed list: if the text of each element can be cut off, so can the
  text of the list, by induction on the list.
\<close>

lemma join_tail_prefix:
  assumes cut: "\<And>x y u w. x \<in> set xs \<Longrightarrow> f x @ u = f y @ w \<Longrightarrow> delimited u \<Longrightarrow> delimited w \<Longrightarrow> x = y \<and> u = w"
    and c: "c \<in> {CHR '']'', CHR ''}''}"
    and eq: "join_tail c (map f xs) @ r = join_tail c (map f ys) @ s"
  shows "xs = ys \<and> r = s"
  using cut eq
proof (induction xs arbitrary: ys)
  case Nil
  then show ?case using c by (cases ys) auto
next
  case (Cons x xs)
  have d: "delimited (join_tail c zs @ w)" for zs w
    using c by (cases zs) auto
  obtain y ys' where ys: "ys = y # ys'"
    using Cons.prems(2) c by (cases ys) auto
  with Cons.prems(2) have
    "f x @ (join_tail c (map f xs) @ r) = f y @ (join_tail c (map f ys') @ s)" by simp
  from Cons.prems(1) [OF _ this] d
  have "x = y" and "join_tail c (map f xs) @ r = join_tail c (map f ys') @ s" by auto
  then show ?case using Cons.IH [of ys'] Cons.prems(1) ys by auto
qed

lemma bracket_prefix:
  assumes cut: "\<And>x y u w. x \<in> set xs \<Longrightarrow> f x @ u = f y @ w \<Longrightarrow> delimited u \<Longrightarrow> delimited w \<Longrightarrow> x = y \<and> u = w"
    and c: "c \<in> {CHR '']'', CHR ''}''}"
    and no: "\<And>x u w. f x @ u \<noteq> c # w"
    and eq: "bracket b c (map f xs) @ r = bracket b c (map f ys) @ s"
  shows "xs = ys \<and> r = s"
proof (cases xs)
  case Nil
  then show ?thesis using eq no by (cases ys) (auto dest: sym)
next
  case (Cons x xs')
  then obtain y ys' where ys: "ys = y # ys'"
    using eq no by (cases ys) auto
  have d: "delimited (join_tail c zs @ w)" for zs w
    using c by (cases zs) auto
  from eq Cons ys have
    "f x @ (join_tail c (map f xs') @ r) = f y @ (join_tail c (map f ys') @ s)" by simp
  from cut [OF _ this] d Cons
  have "x = y" and tl: "join_tail c (map f xs') @ r = join_tail c (map f ys') @ s" by auto
  with join_tail_prefix [OF _ c tl] cut Cons ys show ?thesis by auto
qed

lemma member_prefix:
  assumes "(\<lambda>(k, v). quote k @ CHR '':'' # stringify v) x @ u =
           (\<lambda>(k, v). quote k @ CHR '':'' # stringify v) y @ w"
  shows "fst x = fst y \<and> stringify (snd x) @ u = stringify (snd y) @ w"
proof -
  have "quote (fst x) @ CHR '':'' # stringify (snd x) @ u = quote (fst y) @ CHR '':'' # stringify (snd y) @ w"
    using assms by (simp add: case_prod_beta)
  from quote_prefix [OF this] show ?thesis by simp
qed

lemma stringify_prefix:
  "stringify a @ r = stringify b @ s \<Longrightarrow> delimited r \<Longrightarrow> delimited s \<Longrightarrow> a = b \<and> r = s"
proof (induction a arbitrary: b r s)
  case JNull
  then show ?case using stringify_same_kind [OF JNull.prems(1)] by (cases b) (auto split: if_splits)
next
  case (JBool x)
  then show ?case using stringify_same_kind [OF JBool.prems(1)] by (cases b) (auto split: if_splits)
next
  case (JNum i)
  obtain j where "b = JNum j"
    using stringify_same_kind [OF JNum.prems(1)] by (cases b) (auto split: if_splits)
  then show ?case using int_to_string_prefix [of i r j s] JNum.prems by simp
next
  case (JStr x)
  obtain y where "b = JStr y"
    using stringify_same_kind [OF JStr.prems(1)] by (cases b) (auto split: if_splits)
  then show ?case using quote_prefix [of x r y s] JStr.prems by simp
next
  case (JArr xs)
  obtain ys where b: "b = JArr ys"
    using stringify_same_kind [OF JArr.prems(1)] by (cases b) (auto split: if_splits)
  have "xs = ys \<and> r = s"
  proof (rule bracket_prefix [where f = stringify])
    show "bracket CHR ''['' CHR '']'' (map stringify xs) @ r = bracket CHR ''['' CHR '']'' (map stringify ys) @ s"
      using JArr.prems(1) b by simp
  qed (use JArr.IH stringify_not_close in auto)
  with b show ?case by simp
next
  case (JObj xs)
  obtain ys where b: "b = JObj ys"
    using stringify_same_kind [OF JObj.prems(1)] by (cases b) (auto split: if_splits)
  let ?f = "\<lambda>(k, v). quote k @ CHR '':'' # stringify v"
  have "xs = ys \<and> r = s"
  proof (rule bracket_prefix [where f = ?f])
    fix x y u w
    assume x: "x \<in> set xs" and eq: "?f x @ u = ?f y @ w" and d: "delimited u" "delimited w"
    from member_prefix [OF eq] have k: "fst x = fst y"
      and v: "stringify (snd x) @ u = stringify (snd y) @ w" by auto
    have "snd x = snd y \<and> u = w"
      by (rule JObj.IH [OF _ _ v d]) (use x in \<open>auto simp: prod_set_simps snds.simps\<close>)
    with k show "x = y \<and> u = w" by (simp add: prod_eq_iff)
  next
    fix x u w
    show "?f x @ u \<noteq> CHR ''}'' # w" by (simp add: quote_def case_prod_beta)
  next
    show "bracket CHR ''{'' CHR ''}'' (map ?f xs) @ r = bracket CHR ''{'' CHR ''}'' (map ?f ys) @ s"
      using JObj.prems(1) b by simp
  qed simp_all
  with b show ?case by simp
qed

lemma stringify_inj: "stringify a = stringify b \<longleftrightarrow> a = b"
  using stringify_prefix [of a "[]" b "[]"] by auto

text \<open>An object closes its own bracket: no delimiter has to follow.\<close>

lemma stringify_obj_prefix:
  assumes "stringify (JObj a) @ r = stringify (JObj b) @ s"
  shows "a = b \<and> r = s"
proof (rule bracket_prefix [where f = "\<lambda>(k, v). quote k @ CHR '':'' # stringify v"])
  fix x y u w
  assume eq: "(\<lambda>(k, v). quote k @ CHR '':'' # stringify v) x @ u =
              (\<lambda>(k, v). quote k @ CHR '':'' # stringify v) y @ w"
    and d: "delimited u" "delimited w"
  from member_prefix [OF eq] stringify_prefix [OF _ d]
  show "x = y \<and> u = w" by (auto simp: prod_eq_iff)
qed (use assms in \<open>auto simp: quote_def\<close>)

section \<open>Canonical text and values up to key order\<close>

lemma canonicalJSON_eq_iff: "canonicalJSON a = canonicalJSON b \<longleftrightarrow> sortObject a = sortObject b"
  by (simp add: canonicalJSON_def stringify_inj)

lemma sort_key_fst_unique:
  assumes "mset xs = mset ys" "distinct (map fst xs)"
  shows "sort_key fst xs = sort_key fst ys"
proof -
  have filt: "filter (\<lambda>x. fst x = k) xs = filter (\<lambda>x. fst x = k) ys" for k
  proof -
    have len: "length (filter (\<lambda>x. fst x = k) zs) \<le> 1" if "distinct (map fst zs)" for zs :: "('a \<times> 'b) list"
      using that by (induction zs) (auto simp: filter_empty_conv rev_image_eqI)
    have dy: "distinct (map fst ys)"
      using assms by (metis distinct_map mset_eq_imp_distinct_iff mset_map)
    have "mset (filter (\<lambda>x. fst x = k) xs) = mset (filter (\<lambda>x. fst x = k) ys)"
      using assms(1) by (simp add: mset_filter)
    then show ?thesis
      using len [OF assms(2)] len [OF dy]
      by (cases "filter (\<lambda>x. fst x = k) xs"; cases "filter (\<lambda>x. fst x = k) ys") auto
  qed
  have "filter (\<lambda>x. fst k = fst x) (sort_key fst ys) = filter (\<lambda>x. fst k = fst x) xs" for k
    using sort_key_stable [of fst "fst k" ys] filt [of "fst k"] by (simp add: eq_commute)
  then show ?thesis
    by (intro properties_for_sort_key) (use assms(1) in auto)
qed

lemma sortObject_perm:
  assumes "mset kvs = mset kws" "distinct (map fst kvs)"
  shows "sortObject (JObj kvs) = sortObject (JObj kws)"
proof -
  have "mset (map (\<lambda>(k, v). (k, sortObject v)) kvs) = mset (map (\<lambda>(k, v). (k, sortObject v)) kws)"
    using assms(1) by simp
  moreover have "distinct (map fst (map (\<lambda>(k, v). (k, sortObject v)) kvs))"
    using assms(2) by (simp add: case_prod_beta comp_def)
  ultimately show ?thesis by (simp add: sort_key_fst_unique)
qed

lemma sortObject_idem: "sortObject (sortObject v) = sortObject v"
proof (induction v)
  case (JObj kvs)
  let ?g = "\<lambda>(k, v). (k, sortObject v)"
  have ids: "map ?g xs = xs" if "set xs \<subseteq> ?g ` set kvs" for xs
  proof -
    have "?g x = x" if "x \<in> ?g ` set kvs" for x
    proof -
      from that obtain k v where kv: "(k, v) \<in> set kvs" and x: "x = (k, sortObject v)" by auto
      have "sortObject (sortObject v) = sortObject v"
        by (rule JObj.IH [OF kv]) (simp add: snds.simps)
      with x show ?thesis by simp
    qed
    then have "\<And>x. x \<in> set xs \<Longrightarrow> ?g x = x" using that by blast
    then show ?thesis by (rule map_idI)
  qed
  have "map ?g (sort_key fst (map ?g kvs)) = sort_key fst (map ?g kvs)"
    by (rule ids) simp
  then show ?case by (simp add: sort_key_id_if_sorted)
qed (auto simp: map_idI)

text \<open>A canonical text followed by anything is cut at the end of the object.\<close>

lemma canonicalJSON_obj_prefix:
  assumes "canonicalJSON (JObj a) @ r = canonicalJSON (JObj b) @ s"
  shows "sortObject (JObj a) = sortObject (JObj b) \<and> r = s"
  using assms stringify_obj_prefix by (auto simp: canonicalJSON_def)

section \<open>Properties\<close>

lemma sorted_keys_eq:
  assumes "sorted (map fst xs)" "distinct (map fst xs)" "sorted (map fst ys)" "distinct (map fst ys)" "map_of xs = map_of ys"
  shows "xs = ys"
proof -
  have keys: "map fst xs = map fst ys"
    by (rule sorted_distinct_set_unique) (use assms in \<open>simp_all, metis dom_map_of_conv_image_fst\<close>)
  then have len: "length xs = length ys" by (metis length_map)
  show ?thesis
  proof (rule nth_equalityI [OF len])
    fix i assume i: "i < length xs"
    have "fst (xs ! i) = fst (ys ! i)" using keys i len by (metis nth_map)
    moreover have "map_of xs (fst (xs ! i)) = Some (snd (xs ! i))" "map_of ys (fst (ys ! i)) = Some (snd (ys ! i))"
      using assms(2,4) i len by (auto intro!: map_of_is_SomeI)
    ultimately show "xs ! i = ys ! i" using assms(5) by (simp add: prod_eq_iff)
  qed
qed

lemma map_of_sort_key: "distinct (map fst kvs) \<Longrightarrow> map_of (sort_key fst kvs) = map_of kvs"
  by (rule map_of_eqI) (auto simp: distinct_map intro: inj_on_subset dest: map_of_SomeD)

text \<open>
  Two objects get the same canonical text exactly when they have the same keys and the values
  of each key get the same canonical text, in whatever order the keys were written; so the text
  identifies an object by its content.\<close>

theorem canonical_object_ext:
  assumes "distinct (map fst kvs)" "distinct (map fst kws)"
  shows "canonicalJSON (JObj kvs) = canonicalJSON (JObj kws) \<longleftrightarrow>
    (\<forall>k. map_option canonicalJSON (map_of kvs k) = map_option canonicalJSON (map_of kws k))"
proof -
  let ?s = "map (\<lambda>(k, v). (k, sortObject v))"
  have d: "distinct (map fst (?s xs)) \<longleftrightarrow> distinct (map fst xs)" for xs :: "(string \<times> json) list"
    by (simp add: comp_def case_prod_beta)
  have m: "map_of (sort_key fst (?s xs)) k = map_option sortObject (map_of xs k)" if "distinct (map fst xs)" for xs :: "(string \<times> json) list" and k
    using that d [of xs] by (simp add: map_of_sort_key map_of_map)
  have s: "sorted (map fst (sort_key fst (?s xs)))" for xs :: "(string \<times> json) list" by simp
  have ds: "distinct (map fst (sort_key fst (?s xs)))" if "distinct (map fst xs)" for xs :: "(string \<times> json) list"
    using that d [of xs] by (metis distinct_map mset_eq_imp_distinct_iff mset_map mset_sort)
  have "sort_key fst (?s kvs) = sort_key fst (?s kws) \<longleftrightarrow>
      (\<forall>k. map_option sortObject (map_of kvs k) = map_option sortObject (map_of kws k))"
    using m [OF assms(1)] m [OF assms(2)] sorted_keys_eq [OF s ds [OF assms(1)] s ds [OF assms(2)]] by fastforce
  moreover have "map_option sortObject a = map_option sortObject b \<longleftrightarrow> map_option canonicalJSON a = map_option canonicalJSON b" for a b
    by (cases a; cases b) (simp_all add: canonicalJSON_eq_iff)
  ultimately show ?thesis by (simp add: canonicalJSON_eq_iff)
qed

theorem canonical_object_ext_witness:
  "canonicalJSON (JObj [(''b'', JNum 1), (''a'', JObj [(''y'', JNull), (''x'', JNum 2)])]) =
   canonicalJSON (JObj [(''a'', JObj [(''x'', JNum 2), (''y'', JNull)]), (''b'', JNum 1)])"
  using canonical_object_ext [of "[(''b'', JNum 1), (''a'', JObj [(''y'', JNull), (''x'', JNum 2)])]"
      "[(''a'', JObj [(''x'', JNum 2), (''y'', JNull)]), (''b'', JNum 1)]"]
  by (simp add: canonicalJSON_eq_iff)

end
