(* ===== verification/Fee_Engine.thy ===== *)
theory Fee_Engine
  imports Money Canonical_Json
begin

text \<open>
  \<^verbatim>\<open>vnext/fees/fee_engine.js\<close>: the fee of a transaction from a policy, the settlement
  context and the outcome of the execution. Every branch of \<open>computeFee\<close> is modelled, the
  thrown errors included, down to the audit hash over the canonical text of the instruction.
  The echo of the raw policy parameters (\<open>sanitizeParams\<close>) and the \<open>machine\<close> part of the
  explanation repeat inputs and are left out. The lemmas show that a fee is never negative, is
  bounded by what it is a share of, that splits add up to the fee exactly, and that the guards
  the code calls unreachable are.
\<close>

record tier =
  upTo :: "amount option"
  tier_bps :: amount

text \<open>The parameters of one fee component; an absent amount is \<^const>\<open>AOther\<close>.\<close>

record fee_component =
  ctype :: string
  camount :: amount
  cbps :: amount
  cpercent :: string
  captureBps :: "amount option"
  tiers :: "tier list option"

record fee_split =
  split_receiver :: string
  split_bps :: amount

record fee_policy =
  params :: fee_component
  components :: "fee_component list option"
  flatAmount :: "amount option"
  policy_currency :: "string option"
  policy_receiver :: "string option"
  policy_splits :: "fee_split list option"

record subscription =
  active :: bool
  sub_flatAmount :: "amount option"

record settlement_ctx =
  s_txId :: "string option"
  s_currency :: "string option"
  s_payer :: "string option"
  s_receiver :: "string option"
  s_settlementMode :: "string option"
  baseAmount :: "amount option"
  buyerAmount :: "amount option"
  supplierCost :: "amount option"
  supplierCurrency :: "string option"
  s_subscription :: "subscription option"

text \<open>What the engine reads of a routing decision.\<close>

record fee_decision =
  fd_decisionId :: "string option"
  fd_currency :: "string option"

record fee_ctx =
  ctx_base :: int
  ctx_buyer :: int
  ctx_supplier :: int

record fee_instruction =
  fi_txId :: string
  fi_decisionId :: "string option"
  feeType :: string
  feeAmount :: string
  fi_currency :: string
  fi_base :: string
  fi_payer :: string
  fi_receiver :: string
  fi_settlementMode :: string
  fi_splits :: "(string \<times> string) list option"
  fi_human :: string
  auditHash :: string

section \<open>Components\<close>

definition FEE_TYPES :: "string list" where
  "FEE_TYPES = [''zero'', ''fixed'', ''bps'', ''percentage'', ''spread'', ''hybrid'', ''subscription'', ''dynamic'']"

definition assertCurrency :: "string \<Rightarrow> string option \<Rightarrow> fee_error + unit" where
  "assertCurrency expected got =
     (case got of None \<Rightarrow> Inr () | Some g \<Rightarrow> if g = expected then Inr () else Inl CURRENCY_MISMATCH)"

text \<open>The loop over the tiers: the first open tier or the first whose limit covers the base.\<close>

fun pick_tier :: "int \<Rightarrow> tier \<Rightarrow> tier list \<Rightarrow> fee_error + tier" where
  "pick_tier base chosen [] = Inr chosen"
| "pick_tier base chosen (t # ts) =
     (case upTo t of
        None \<Rightarrow> Inr t
      | Some u \<Rightarrow> bindR (toMinor u) (\<lambda>n. if base \<le> n then Inr t else pick_tier base chosen ts))"

definition computeComponent :: "string \<Rightarrow> fee_component \<Rightarrow> fee_ctx \<Rightarrow> fee_error + int" where
  "computeComponent ty p ctx =
     (if ty = ''zero'' then Inr 0
      else if ty = ''fixed'' then toMinor (camount p)
      else if ty = ''bps'' then
        bindR (toMinor (cbps p)) (\<lambda>b. bindR (assertBps b) (bpsOf (ctx_base ctx)))
      else if ty = ''percentage'' then
        bindR (parsePercentToBps (cpercent p)) (\<lambda>b. bindR (assertBps b) (bpsOf (ctx_base ctx)))
      else if ty = ''spread'' then
        bindR (case captureBps p of None \<Rightarrow> Inr 10000 | Some c \<Rightarrow> toMinor c)
          (\<lambda>b. bindR (assertBps b) (bpsOf (positiveSpread (ctx_buyer ctx) (ctx_supplier ctx))))
      else if ty = ''dynamic'' then
        (case tiers p of
           None \<Rightarrow> Inl CONFIG
         | Some ts \<Rightarrow>
             if ts = [] then Inl CONFIG
             else bindR (pick_tier (ctx_base ctx) (last ts) ts)
                    (\<lambda>t. bindR (toMinor (tier_bps t)) (\<lambda>b. bindR (assertBps b) (bpsOf (ctx_base ctx)))))
      else Inl CONFIG)"

fun sum_components :: "fee_component list \<Rightarrow> fee_ctx \<Rightarrow> int \<Rightarrow> fee_error + int" where
  "sum_components [] ctx acc = Inr acc"
| "sum_components (c # cs) ctx acc =
     bindR (computeComponent (ctype c) c ctx) (\<lambda>x. sum_components cs ctx (acc + x))"

section \<open>Texts\<close>

fun amount_text :: "amount \<Rightarrow> string" where
  "amount_text (ABig n) = int_to_string n"
| "amount_text (ANum x) = int_to_string (num_to_int x)"
| "amount_text (AStr s) = s"
| "amount_text AOther = ''undefined''"

definition humanFor :: "string \<Rightarrow> fee_ctx \<Rightarrow> int \<Rightarrow> string \<Rightarrow> string \<Rightarrow> fee_component \<Rightarrow> string" where
  "humanFor ty ctx fee currency receiver p =
     (let f = int_to_string fee; b = int_to_string (ctx_base ctx) in
      if ty = ''zero'' then ''Zero fee ('' @ currency @ '').''
      else if ty = ''fixed'' then ''Fixed fee of '' @ f @ '' '' @ currency @ '' to '' @ receiver @ ''.''
      else if ty = ''bps'' then amount_text (cbps p) @ '' bps of base '' @ b @ '' '' @ currency @ '' = '' @ f @ '' ''
        @ currency @ '' to '' @ receiver @ '' (floor).''
      else if ty = ''percentage'' then cpercent p @ ''% of base '' @ b @ '' '' @ currency @ '' = '' @ f @ '' ''
        @ currency @ '' to '' @ receiver @ '' (floor).''
      else if ty = ''spread'' then ''Spread capture on max(0, '' @ int_to_string (ctx_buyer ctx) @ '' - ''
        @ int_to_string (ctx_supplier ctx) @ '') = '' @ f @ '' '' @ currency @ '' to '' @ receiver @ ''.''
      else if ty = ''hybrid'' then ''Hybrid fee = '' @ f @ '' '' @ currency @ '' to '' @ receiver @ '' (sum of components).''
      else if ty = ''subscription'' then ''Subscription override: flat '' @ f @ '' '' @ currency @ '' to '' @ receiver @ ''.''
      else if ty = ''dynamic'' then ''Dynamic tiered fee on base '' @ b @ '' '' @ currency @ '' = '' @ f @ '' ''
        @ currency @ '' to '' @ receiver @ ''.''
      else ''Fee '' @ f @ '' '' @ currency @ ''.'')"

section \<open>Splits\<close>

fun alloc_splits :: "int \<Rightarrow> fee_split list \<Rightarrow> int \<Rightarrow> (string \<times> string) list \<Rightarrow> fee_error + int \<times> (string \<times> string) list" where
  "alloc_splits fee [] allocated out = Inr (allocated, out)"
| "alloc_splits fee (sp # sps) allocated out =
     bindR (toMinor (split_bps sp)) (\<lambda>b0. bindR (assertBps b0) (\<lambda>b. bindR (bpsOf fee b) (\<lambda>amt.
       alloc_splits fee sps (allocated + amt) (out @ [(split_receiver sp, int_to_string amt)]))))"

definition split_total :: "(string \<times> string) list \<Rightarrow> int" where
  "split_total xs = sum_list (map (string_to_int \<circ> snd) xs)"

definition computeSplits :: "string \<Rightarrow> int \<Rightarrow> fee_split list option \<Rightarrow> fee_error + (string \<times> string) list option" where
  "computeSplits receiverBase fee sps =
     (case sps of
        None \<Rightarrow> Inr None
      | Some l \<Rightarrow>
          if l = [] \<or> \<not> fee > 0 then Inr None
          else bindR (alloc_splits fee l 0 []) (\<lambda>(allocated, out).
            if allocated > fee then Inl CONFIG
            else let splits = (receiverBase, int_to_string (fee - allocated)) # out
                 in if split_total splits \<noteq> fee then Inl INTERNAL else Inr (Some splits)))"

section \<open>The fee\<close>

definition fee_amount :: "string option \<Rightarrow> settlement_ctx \<Rightarrow> fee_policy \<Rightarrow> fee_ctx \<Rightarrow> fee_error + string \<times> int" where
  "fee_amount status settlement pol ctx =
     (if status \<noteq> Some ''success'' then Inr (''zero'', 0)
      else if (case s_subscription settlement of None \<Rightarrow> False | Some sub \<Rightarrow> active sub) then
        bindR (toMinor (coalesce (sub_flatAmount (the (s_subscription settlement))) (ABig 0)))
          (\<lambda>f. Inr (''subscription'', f))
      else let ty = ctype (params pol) in
        if ty \<notin> set FEE_TYPES then Inl CONFIG
        else if ty = ''hybrid'' then
          (case components pol of
             None \<Rightarrow> Inl CONFIG
           | Some cs \<Rightarrow> if cs = [] then Inl CONFIG else bindR (sum_components cs ctx 0) (\<lambda>f. Inr (ty, f)))
        else if ty = ''subscription'' then
          bindR (toMinor (coalesce (flatAmount pol) (ABig 0))) (\<lambda>f. Inr (ty, f))
        else bindR (computeComponent ty (params pol) ctx) (\<lambda>f. Inr (ty, f)))"

definition opt_minor :: "amount option \<Rightarrow> fee_error + int" where
  "opt_minor a = (case a of None \<Rightarrow> Inr 0 | Some v \<Rightarrow> toMinor v)"

definition core_json :: "fee_instruction \<Rightarrow> json" where
  "core_json i = JObj
     [(''version'', JStr ''fee-v1''),
      (''txId'', JStr (fi_txId i)),
      (''decisionId'', case fi_decisionId i of None \<Rightarrow> JNull | Some d \<Rightarrow> JStr d),
      (''feeType'', JStr (feeType i)),
      (''feeAmount'', JStr (feeAmount i)),
      (''currency'', JStr (fi_currency i)),
      (''base'', JStr (fi_base i)),
      (''payer'', JStr (fi_payer i)),
      (''receiver'', JStr (fi_receiver i)),
      (''settlementMode'', JStr (fi_settlementMode i)),
      (''splits'', case fi_splits i of None \<Rightarrow> JNull
         | Some l \<Rightarrow> JArr (map (\<lambda>(r, a). JObj [(''receiver'', JStr r), (''amount'', JStr a)]) l))]"

definition seal :: "(string \<Rightarrow> string) \<Rightarrow> fee_instruction \<Rightarrow> fee_instruction" where
  "seal sha i = i\<lparr>auditHash := ''fee_'' @ hashObject sha (core_json i)\<rparr>"

definition computeFee ::
  "(string \<Rightarrow> string) \<Rightarrow> fee_decision option \<Rightarrow> string option \<Rightarrow> settlement_ctx option \<Rightarrow> fee_policy option
   \<Rightarrow> fee_error + fee_instruction" where
  "computeFee sha decision status settlement feePolicy =
     (case settlement of None \<Rightarrow> Inl CONFIG | Some st \<Rightarrow>
      if \<not> truthy (s_currency st) then Inl CONFIG
      else if \<not> truthy (s_txId st) then Inl CONFIG
      else (case feePolicy of None \<Rightarrow> Inl CONFIG | Some pol \<Rightarrow>
        if ctype (params pol) = [] then Inl CONFIG
        else
          let currency = the (s_currency st) in
          bindR (assertCurrency currency (policy_currency pol)) (\<lambda>_.
          bindR (assertCurrency currency (supplierCurrency st)) (\<lambda>_.
          bindR (assertCurrency currency (case decision of None \<Rightarrow> None | Some d \<Rightarrow> fd_currency d)) (\<lambda>_.
          let receiverBase = or_str (policy_receiver pol) (or_str (s_receiver st) ''satelink-treasury'') in
          bindR (opt_minor (baseAmount st)) (\<lambda>b.
          bindR (opt_minor (buyerAmount st)) (\<lambda>buyer.
          bindR (opt_minor (supplierCost st)) (\<lambda>sup.
          let ctx = \<lparr>ctx_base = b, ctx_buyer = buyer, ctx_supplier = sup\<rparr> in
          bindR (fee_amount status st pol ctx) (\<lambda>(ty, fee).
          if fee < 0 then Inl NEGATIVE
          else bindR (computeSplits receiverBase fee (policy_splits pol)) (\<lambda>splits.
          Inr (seal sha
            \<lparr>fi_txId = the (s_txId st),
             fi_decisionId = (case decision of None \<Rightarrow> None | Some d \<Rightarrow> or_null (fd_decisionId d)),
             feeType = ty, feeAmount = int_to_string fee, fi_currency = currency, fi_base = int_to_string b,
             fi_payer = or_str (s_payer st) ''anon'', fi_receiver = receiverBase,
             fi_settlementMode = or_str (s_settlementMode st) ''POST'', fi_splits = splits,
             fi_human = humanFor ty ctx fee currency receiverBase (params pol),
             auditHash = []\<rparr>)))))))))))"

section \<open>Components are non-negative and bounded\<close>

lemma bps_component:
  assumes "bindR r (\<lambda>b. bindR (assertBps b) (bpsOf a)) = Inr x"
  shows "\<exists>b. r = Inr b \<and> 0 \<le> b \<and> b \<le> 10000 \<and> 0 \<le> a \<and> x = (a * b) div 10000"
  using assms by (auto simp: money_simps)

lemma bps_component_bounds:
  assumes "bindR r (\<lambda>b. bindR (assertBps b) (bpsOf a)) = Inr x"
  shows "0 \<le> x \<and> x \<le> a"
  using bps_component [OF assms] bps_share_nonneg bps_share_le by auto

lemma computeComponent_nonneg:
  "computeComponent ty p ctx = Inr x \<Longrightarrow> 0 \<le> x"
  by (auto simp: computeComponent_def money_simps bps_share_nonneg split: if_splits option.splits)

lemma sum_components_nonneg: "sum_components cs ctx acc = Inr x \<Longrightarrow> 0 \<le> acc \<Longrightarrow> 0 \<le> x"
  by (induction cs arbitrary: acc) (auto simp: bindR_Inr_iff dest!: computeComponent_nonneg)

lemma sum_components_sum:
  "mapR (\<lambda>c. computeComponent (ctype c) c ctx) cs = Inr xs \<Longrightarrow>
   sum_components cs ctx acc = Inr (acc + sum_list xs)"
  by (induction cs arbitrary: acc xs) (auto simp: bindR_Inr_iff)

lemma fee_amount_nonneg: "fee_amount st s pol ctx = Inr (ty, f) \<Longrightarrow> 0 \<le> f"
  by (auto simp: fee_amount_def Let_def bindR_Inr_iff split: if_splits option.splits
      dest: computeComponent_nonneg sum_components_nonneg)

section \<open>Tiers\<close>

text \<open>The specification of the tier choice on a schedule whose limits are valid amounts.\<close>

definition tier_covers :: "int \<Rightarrow> tier \<Rightarrow> bool" where
  "tier_covers base t \<longleftrightarrow> (case upTo t of None \<Rightarrow> True | Some u \<Rightarrow> (case toMinor u of Inr n \<Rightarrow> base \<le> n | Inl _ \<Rightarrow> False))"

definition tier_valid :: "tier \<Rightarrow> bool" where
  "tier_valid t \<longleftrightarrow> (case upTo t of None \<Rightarrow> True | Some u \<Rightarrow> isOk (toMinor u))"

lemma pick_tier_find:
  "\<forall>t \<in> set ts. tier_valid t \<Longrightarrow>
   pick_tier base d ts = Inr (case find (tier_covers base) ts of None \<Rightarrow> d | Some t \<Rightarrow> t)"
proof (induction ts)
  case (Cons t ts)
  show ?case
  proof (cases "upTo t")
    case (Some u)
    with Cons.prems obtain n where "toMinor u = Inr n"
      by (auto simp: tier_valid_def isOk_def split: sum.splits)
    with Some Cons show ?thesis by (simp add: tier_covers_def)
  qed (simp add: tier_covers_def)
qed simp

section \<open>Splits\<close>

lemma alloc_splits_shares:
  "alloc_splits fee sps al out = Inr (al', out') \<Longrightarrow> 0 \<le> fee \<Longrightarrow>
   \<exists>bs. mapR (\<lambda>x. toMinor (split_bps x)) sps = Inr bs \<and> (\<forall>b \<in> set bs. 0 \<le> b \<and> b \<le> 10000) \<and>
     al' = al + sum_list (map (\<lambda>b. (fee * b) div 10000) bs) \<and>
     out' = out @ zip (map split_receiver sps) (map (\<lambda>b. int_to_string ((fee * b) div 10000)) bs)"
proof (induction sps arbitrary: al out)
  case (Cons sp sps)
  from Cons.prems obtain b where b: "toMinor (split_bps sp) = Inr b" "0 \<le> b" "b \<le> 10000"
    and rest: "alloc_splits fee sps (al + (fee * b) div 10000)
      (out @ [(split_receiver sp, int_to_string ((fee * b) div 10000))]) = Inr (al', out')"
    by (auto simp: money_simps)
  from Cons.IH [OF rest Cons.prems(2)] obtain bs where
    "mapR (\<lambda>x. toMinor (split_bps x)) sps = Inr bs" "\<forall>b \<in> set bs. 0 \<le> b \<and> b \<le> 10000"
    "al' = al + (fee * b) div 10000 + sum_list (map (\<lambda>b. (fee * b) div 10000) bs)"
    "out' = (out @ [(split_receiver sp, int_to_string ((fee * b) div 10000))]) @
        zip (map split_receiver sps) (map (\<lambda>b. int_to_string ((fee * b) div 10000)) bs)"
    by blast
  with b show ?case by (intro exI [of _ "b # bs"]) auto
qed auto

lemma split_total_simps [simp]:
  "split_total [] = 0" "split_total ((r, a) # xs) = string_to_int a + split_total xs"
  "split_total (xs @ ys) = split_total xs + split_total ys"
  by (simp_all add: split_total_def)

lemma alloc_splits_total:
  "alloc_splits fee sps al out = Inr (al', out') \<Longrightarrow> al = split_total out \<Longrightarrow> al' = split_total out'"
proof (induction sps arbitrary: al out)
  case (Cons sp sps)
  then obtain x where "alloc_splits fee sps (split_total out + x) (out @ [(split_receiver sp, int_to_string x)]) =
      Inr (al', out')"
    by (auto simp: bindR_Inr_iff)
  then show ?case by (rule Cons.IH) simp
qed simp

lemma computeSplits_total:
  "computeSplits r fee sps = Inr (Some xs) \<Longrightarrow> split_total xs = fee"
  by (auto simp: computeSplits_def Let_def bindR_Inr_iff split: option.splits if_splits)

text \<open>The internal guard never fires: the total is the fee by construction.\<close>

lemma alloc_splits_not_internal: "alloc_splits fee sps al out \<noteq> Inl INTERNAL"
proof (induction sps arbitrary: al out)
  case (Cons sp sps)
  have "toMinor a \<noteq> Inl INTERNAL" for a
  proof (cases a)
    case (ANum x)
    then show ?thesis by (cases x) auto
  qed auto
  then show ?case using Cons by (auto simp: bindR_Inl_iff assertBps_def bpsOf_def)
qed simp

lemma computeSplits_not_internal: "computeSplits r fee sps \<noteq> Inl INTERNAL"
  using alloc_splits_not_internal alloc_splits_total [of fee _ 0 "[]"]
  by (auto simp: computeSplits_def Let_def bindR_Inl_iff split: option.splits if_splits)

text \<open>Shares that name at most the whole never allocate more than the fee.\<close>

lemma computeSplits_ok:
  assumes "mapR (\<lambda>x. toMinor (split_bps x)) sps = Inr bs" "sum_list bs \<le> 10000" "0 \<le> fee"
  shows "isOk (computeSplits r fee (Some sps))"
proof -
  have each: "0 \<le> b" if "b \<in> set bs" for b
    using mapR_set [OF assms(1) that] by auto
  then have le: "b \<le> 10000" if "b \<in> set bs" for b
    using sum_list_member_le [of bs b] each that assms(2) by force
  have alloc: "\<exists>al' out'. alloc_splits fee sps al out = Inr (al', out')" for al out
    using assms(1) each le
  proof (induction sps arbitrary: al out bs)
    case (Cons sp sps)
    from Cons.prems(1) obtain b bs' where b: "toMinor (split_bps sp) = Inr b"
      and bs: "mapR (\<lambda>x. toMinor (split_bps x)) sps = Inr bs'" "bs = b # bs'"
      by (auto simp: bindR_Inr_iff)
    let ?x = "big_div (fee * b) 10000"
    obtain al' out' where
      "alloc_splits fee sps (al + ?x) (out @ [(split_receiver sp, int_to_string ?x)]) = Inr (al', out')"
      using Cons.IH [OF bs(1)] Cons.prems(2,3) bs(2) by (metis list.set_intros(2))
    then show ?case using b assms(3) Cons.prems(2,3) [of b] bs(2)
      by (simp add: assertBps_def bpsOf_def not_less)
  qed simp
  then obtain al' out' where al: "alloc_splits fee sps 0 [] = Inr (al', out')" by blast
  from alloc_splits_shares [OF al assms(3)] assms(1)
  have "al' = sum_list (map (\<lambda>b. (fee * b) div 10000) bs)" by auto
  also have "\<dots> \<le> (fee * sum_list bs) div 10000" by (rule bps_share_sum_list)
  also have "\<dots> \<le> fee" using bps_share_le assms(2,3) by blast
  finally have "al' \<le> fee" .
  moreover have "split_total out' = al'" using alloc_splits_total [OF al] by simp
  ultimately show ?thesis using al by (auto simp: computeSplits_def Let_def)
qed

section \<open>Properties\<close>

lemma computeFee_parts:
  assumes "computeFee sha d status settlement pol = Inr i"
  obtains st p b buyer sup fee where "settlement = Some st" "pol = Some p" "opt_minor (baseAmount st) = Inr b"
    "opt_minor (buyerAmount st) = Inr buyer" "opt_minor (supplierCost st) = Inr sup"
    "fee_amount status st p \<lparr>ctx_base = b, ctx_buyer = buyer, ctx_supplier = sup\<rparr> = Inr (feeType i, fee)"
    "feeAmount i = int_to_string fee" "fi_base i = int_to_string b"
    "computeSplits (fi_receiver i) fee (policy_splits p) = Inr (fi_splits i)"
  using assms that
  by (auto simp: computeFee_def Let_def seal_def bindR_Inr_iff split: option.splits if_splits)

text \<open>
  C30: a fee instruction never charges a negative fee, charges nothing when the execution did not
  succeed, and its splits add up to the fee exactly, so nothing is lost or created by rounding.\<close>

theorem fee_conserved:
  assumes "computeFee sha d status settlement pol = Inr i"
  shows "0 \<le> string_to_int (feeAmount i) \<and>
    (status \<noteq> Some ''success'' \<longrightarrow> feeAmount i = ''0'' \<and> fi_splits i = None) \<and>
    (\<forall>xs. fi_splits i = Some xs \<longrightarrow> split_total xs = string_to_int (feeAmount i))"
  using assms
proof (cases rule: computeFee_parts)
  case (1 st p b buyer sup fee)
  have z: "int_to_string 0 = ''0''" by code_simp
  have "status \<noteq> Some ''success'' \<Longrightarrow> fee = 0" using 1(6) by (simp add: fee_amount_def)
  moreover have "fee = 0 \<Longrightarrow> fi_splits i = None" using 1(9) by (auto simp: computeSplits_def split: option.splits if_splits)
  ultimately show ?thesis using 1 fee_amount_nonneg [OF 1(6)] computeSplits_total z by auto
qed

text \<open>
  Fees given by basis points, by a percentage, by tiers or as a share of the spread never
  exceed what they are taken from: the base, or the positive difference of the buyer's and the
  supplier's amount.\<close>

theorem fee_share_bounded:
  assumes "computeComponent ty p ctx = Inr fee" "ty \<notin> {''zero'', ''fixed''}"
  shows "0 \<le> fee \<and> fee \<le> (if ty = ''spread'' then max 0 (ctx_buyer ctx - ctx_supplier ctx) else ctx_base ctx)"
proof (cases "ty = ''dynamic''")
  case True
  then show ?thesis using assms
    by (auto simp: computeComponent_def bindR_Inr_iff split: option.splits if_splits dest!: bps_component_bounds)
      (auto simp: money_simps bps_share_nonneg bps_share_le)
next
  case False
  then show ?thesis using assms
    by (auto simp: computeComponent_def positiveSpread_eq split: if_splits dest!: bps_component_bounds)
qed

theorem fee_share_bounded_witness:
  "\<exists>fee. computeComponent ''bps'' \<lparr>ctype = ''bps'', camount = AOther, cbps = ABig 250, cpercent = [], captureBps = None, tiers = None\<rparr>
     \<lparr>ctx_base = 999, ctx_buyer = 0, ctx_supplier = 0\<rparr> = Inr fee \<and> 0 \<le> fee \<and> fee \<le> 999"
proof -
  let ?p = "\<lparr>ctype = ''bps'', camount = AOther, cbps = ABig 250, cpercent = [], captureBps = None, tiers = None\<rparr>"
  have h: "computeComponent ''bps'' ?p \<lparr>ctx_base = 999, ctx_buyer = 0, ctx_supplier = 0\<rparr> = Inr 24"
    by (simp add: computeComponent_def assertBps_def bpsOf_def big_div_def)
  show ?thesis using h fee_share_bounded [OF h] by simp
qed

theorem fee_conserved_witness:
  "\<exists>i. computeFee (\<lambda>s. s) None (Some ''success'')
     (Some \<lparr>s_txId = Some ''t'', s_currency = Some ''USDC'', s_payer = None, s_receiver = None, s_settlementMode = None,
        baseAmount = Some (ABig 1000), buyerAmount = None, supplierCost = None, supplierCurrency = None, s_subscription = None\<rparr>)
     (Some \<lparr>params = \<lparr>ctype = ''bps'', camount = AOther, cbps = ABig 250, cpercent = [], captureBps = None, tiers = None\<rparr>,
        components = None, flatAmount = None, policy_currency = None, policy_receiver = None,
        policy_splits = Some [\<lparr>split_receiver = ''ops'', split_bps = ABig 3333\<rparr>]\<rparr>) = Inr i \<and>
     (\<forall>xs. fi_splits i = Some xs \<longrightarrow> split_total xs = string_to_int (feeAmount i)) \<and> fi_splits i \<noteq> None"
  (is "\<exists>i. ?c = Inr i \<and> _ i \<and> _ i")
proof -
  have ok: "isOk ?c \<and> (case ?c of Inr i \<Rightarrow> fi_splits i \<noteq> None | _ \<Rightarrow> False)" by code_simp
  then obtain i where h: "?c = Inr i" by (auto simp: isOk_def split: sum.splits)
  show ?thesis using ok h fee_conserved [OF h] by auto
qed

end
