(* ===== verification/Journal.thy ===== *)
theory Journal
  imports Canonical_Json
begin

text \<open>
  \<^verbatim>\<open>vnext/kernel/journal.js\<close>: the append-only, hash-linked transaction journal with its
  per-transaction index. The payload type is arbitrary; \<open>pj\<close> is its JSON value and
  \<open>sha\<close> the platform's SHA-256. The interface \<open>event_log\<close> states what the kernel, the
  registry and the ledgers rely on; this journal and the persistent one both provide it. The
  lemmas show that the index agrees with the chain, that every journal the operations can build
  verifies, and that two verified chains with the same tip hold the same entries unless the
  hash function collides.
\<close>

record 'p event =
  ev_seq :: nat
  ev_txId :: string
  ev_phase :: string
  ev_payload :: 'p
  ev_ts :: int
  hash_prev :: string
  hash_current :: string

definition GENESIS :: string where
  "GENESIS = replicate 64 (CHR ''0'')"

record 'p journal =
  j_events :: "'p event list"
  j_byTx :: "(string, 'p event list) jsmap"

definition empty_journal :: "'p journal" where
  "empty_journal = \<lparr>j_events = [], j_byTx = []\<rparr>"

definition entry_json :: "('p \<Rightarrow> json) \<Rightarrow> 'p event \<Rightarrow> json" where
  "entry_json pj e = JObj
     [(''seq'', JNum (int (ev_seq e))), (''txId'', JStr (ev_txId e)), (''phase'', JStr (ev_phase e)),
      (''payload'', pj (ev_payload e)), (''ts'', JNum (ev_ts e))]"

text \<open>The hash of an entry over the hash before it.\<close>

definition entry_hash :: "(string \<Rightarrow> string) \<Rightarrow> ('p \<Rightarrow> json) \<Rightarrow> 'p event \<Rightarrow> string \<Rightarrow> string" where
  "entry_hash sha pj e prev = sha (canonicalJSON (entry_json pj e) @ prev)"

definition tip :: "'p event list \<Rightarrow> string" where
  "tip es = (if es = [] then GENESIS else hash_current (last es))"

definition make_event ::
  "(string \<Rightarrow> string) \<Rightarrow> ('p \<Rightarrow> json) \<Rightarrow> 'p event list \<Rightarrow> string \<Rightarrow> string \<Rightarrow> 'p \<Rightarrow> int \<Rightarrow> 'p event" where
  "make_event sha pj es txId phase payload ts =
     (let e = \<lparr>ev_seq = length es, ev_txId = txId, ev_phase = phase, ev_payload = payload, ev_ts = ts,
               hash_prev = tip es, hash_current = []\<rparr>
      in e\<lparr>hash_current := entry_hash sha pj e (tip es)\<rparr>)"

definition append_event ::
  "(string \<Rightarrow> string) \<Rightarrow> ('p \<Rightarrow> json) \<Rightarrow> string \<Rightarrow> string \<Rightarrow> 'p \<Rightarrow> int \<Rightarrow> 'p journal \<Rightarrow> 'p event \<times> 'p journal" where
  "append_event sha pj txId phase payload ts j =
     (let e = make_event sha pj (j_events j) txId phase payload ts in
      (e, \<lparr>j_events = j_events j @ [e],
           j_byTx = mset_key txId (coalesce (map_of (j_byTx j) txId) [] @ [e]) (j_byTx j)\<rparr>))"

definition read_tx :: "string \<Rightarrow> 'p journal \<Rightarrow> 'p event list" where
  "read_tx txId j = coalesce (map_of (j_byTx j) txId) []"

definition all_events :: "'p journal \<Rightarrow> 'p event list" where
  "all_events j = j_events j"

fun verify_from :: "(string \<Rightarrow> string) \<Rightarrow> ('p \<Rightarrow> json) \<Rightarrow> string \<Rightarrow> 'p event list \<Rightarrow> bool" where
  "verify_from sha pj prev [] = True"
| "verify_from sha pj prev (e # es) =
     (if hash_prev e \<noteq> prev \<or> hash_current e \<noteq> entry_hash sha pj e prev then False
      else verify_from sha pj (hash_current e) es)"

definition verifyChain :: "(string \<Rightarrow> string) \<Rightarrow> ('p \<Rightarrow> json) \<Rightarrow> 'p event list \<Rightarrow> bool" where
  "verifyChain sha pj es = verify_from sha pj GENESIS es"

section \<open>The interface of an event log\<close>

locale event_log =
  fixes app :: "string \<Rightarrow> string \<Rightarrow> 'p \<Rightarrow> int \<Rightarrow> 'j \<Rightarrow> 'j"
    and evs :: "'j \<Rightarrow> 'p event list"
    and rd :: "string \<Rightarrow> 'j \<Rightarrow> 'p event list"
    and verified :: "'j \<Rightarrow> bool"
    and inv :: "'j \<Rightarrow> bool"
  assumes evs_app: "inv j \<Longrightarrow> \<exists>e. evs (app t p x ts j) = evs j @ [e] \<and> ev_txId e = t \<and> ev_phase e = p
      \<and> ev_payload e = x \<and> ev_ts e = ts \<and> ev_seq e = length (evs j)"
    and rd_evs: "inv j \<Longrightarrow> rd t j = filter (\<lambda>e. ev_txId e = t) (evs j)"
    and inv_app: "inv j \<Longrightarrow> inv (app t p x ts j)"
    and inv_verified: "inv j \<Longrightarrow> verified j"
begin

text \<open>A sequence of appends, as a client issues them.\<close>

definition app_all :: "(string \<times> string \<times> 'p \<times> int) list \<Rightarrow> 'j \<Rightarrow> 'j" where
  "app_all xs j = fold (\<lambda>(t, p, x, ts). app t p x ts) xs j"

lemma inv_app_all: "inv j \<Longrightarrow> inv (app_all xs j)"
  unfolding app_all_def by (induction xs arbitrary: j) (auto intro: inv_app)

lemma verified_app_all: "inv j \<Longrightarrow> verified (app_all xs j)"
  by (rule inv_verified) (rule inv_app_all)

lemma evs_app_all:
  "inv j \<Longrightarrow> map (\<lambda>e. (ev_txId e, ev_phase e, ev_payload e, ev_ts e)) (evs (app_all xs j)) =
     map (\<lambda>e. (ev_txId e, ev_phase e, ev_payload e, ev_ts e)) (evs j) @ xs"
proof (induction xs arbitrary: j)
  case (Cons x xs)
  obtain t p y ts where x: "x = (t, p, y, ts)" by (cases x)
  from evs_app [OF Cons.prems, of t p y ts] obtain e where
    e: "evs (app t p y ts j) = evs j @ [e]" "ev_txId e = t" "ev_phase e = p" "ev_payload e = y" "ev_ts e = ts"
    by blast
  have "app_all (x # xs) j = app_all xs (app t p y ts j)" by (simp add: app_all_def x)
  with Cons.IH [OF inv_app [OF Cons.prems]] e x show ?case by simp
qed (simp add: app_all_def)

text \<open>One stream is read back in the order in which it was written, whatever was interleaved.\<close>

lemma read_app_all:
  assumes "inv j"
  shows "map ev_phase (rd t (app_all xs j)) =
    map ev_phase (rd t j) @ map (fst \<circ> snd) (filter (\<lambda>x. fst x = t) xs)"
proof -
  let ?f = "\<lambda>e. (ev_txId e, ev_phase e, ev_payload e, ev_ts e)"
  have red: "map ev_phase (filter (\<lambda>e. ev_txId e = t) es) =
      map (fst \<circ> snd) (filter (\<lambda>x. fst x = t) (map ?f es))" for es :: "'p event list"
    by (induction es) auto
  show ?thesis
    using evs_app_all [OF assms] by (simp add: rd_evs assms inv_app_all red)
qed

end

section \<open>The in-memory journal\<close>

definition journal_inv :: "(string \<Rightarrow> string) \<Rightarrow> ('p \<Rightarrow> json) \<Rightarrow> 'p journal \<Rightarrow> bool" where
  "journal_inv sha pj j \<longleftrightarrow>
     verifyChain sha pj (j_events j) \<and>
     map ev_seq (j_events j) = [0..<length (j_events j)] \<and>
     (\<forall>t. coalesce (map_of (j_byTx j) t) [] = filter (\<lambda>e. ev_txId e = t) (j_events j))"

lemma make_event_simps [simp]:
  "ev_seq (make_event sha pj es t p x ts) = length es"
  "ev_txId (make_event sha pj es t p x ts) = t"
  "ev_phase (make_event sha pj es t p x ts) = p"
  "ev_payload (make_event sha pj es t p x ts) = x"
  "ev_ts (make_event sha pj es t p x ts) = ts"
  "hash_prev (make_event sha pj es t p x ts) = tip es"
  by (simp_all add: make_event_def Let_def)

lemma entry_hash_update [simp]: "entry_hash sha pj (e\<lparr>hash_current := h\<rparr>) p = entry_hash sha pj e p"
  by (simp add: entry_hash_def entry_json_def)

lemma make_event_hash [simp]:
  "hash_current (make_event sha pj es t p x ts) =
   entry_hash sha pj (make_event sha pj es t p x ts) (tip es)"
  by (simp add: make_event_def Let_def entry_hash_def entry_json_def)

lemma tip_simps [simp]: "tip [] = GENESIS" "tip (es @ [e]) = hash_current e"
  by (simp_all add: tip_def)

definition end_hash :: "string \<Rightarrow> 'p event list \<Rightarrow> string" where
  "end_hash prev es = (if es = [] then prev else hash_current (last es))"

lemma verify_from_snoc:
  "verify_from sha pj prev (es @ [e]) \<longleftrightarrow>
     verify_from sha pj prev es \<and> hash_prev e = end_hash prev es \<and>
     hash_current e = entry_hash sha pj e (end_hash prev es)"
proof (induction es arbitrary: prev)
  case (Cons d es)
  then show ?case by (cases es) (auto simp: end_hash_def)
qed (auto simp: end_hash_def)

lemma verifyChain_snoc:
  "verifyChain sha pj (es @ [e]) \<longleftrightarrow>
     verifyChain sha pj es \<and> hash_prev e = tip es \<and> hash_current e = entry_hash sha pj e (tip es)"
  by (simp add: verifyChain_def verify_from_snoc tip_def end_hash_def)

lemma verifyChain_Nil [simp]: "verifyChain sha pj []"
  by (simp add: verifyChain_def)

lemma verifyChain_make_event:
  "verifyChain sha pj es \<Longrightarrow> verifyChain sha pj (es @ [make_event sha pj es t p x ts])"
  by (simp add: verifyChain_snoc)

lemma journal_inv_empty: "journal_inv sha pj empty_journal"
  by (simp add: journal_inv_def empty_journal_def)

lemma journal_inv_append:
  "journal_inv sha pj j \<Longrightarrow> journal_inv sha pj (snd (append_event sha pj t p x ts j))"
  by (auto simp: journal_inv_def append_event_def Let_def verifyChain_make_event coalesce_def
      split: option.splits)

interpretation mem_log: event_log
  "\<lambda>t p x ts j. snd (append_event sha pj t p x ts j)" all_events read_tx
  "\<lambda>j. verifyChain sha pj (all_events j)" "journal_inv sha pj"
  for sha :: "string \<Rightarrow> string" and pj :: "'p \<Rightarrow> json"
proof (unfold_locales, goal_cases)
  case (1 j t p x ts)
  show ?case
    by (intro exI [of _ "make_event sha pj (j_events j) t p x ts"])
      (simp add: append_event_def all_events_def Let_def)
next
  case (2 j t)
  then show ?case by (simp add: journal_inv_def read_tx_def all_events_def)
next
  case (3 j t p x ts)
  then show ?case by (rule journal_inv_append)
next
  case (4 j)
  then show ?case by (simp add: journal_inv_def all_events_def)
qed

section \<open>Tamper evidence\<close>

text \<open>The texts that were hashed to make a chain.\<close>

definition preimages :: "('p \<Rightarrow> json) \<Rightarrow> 'p event list \<Rightarrow> string set" where
  "preimages pj es = (\<lambda>e. canonicalJSON (entry_json pj e) @ hash_prev e) ` set es"

text \<open>
  \<open>sha\<close> has no collision among the given texts and none of them hashes to the constant that
  starts every chain.
\<close>

definition collision_free :: "(string \<Rightarrow> string) \<Rightarrow> string set \<Rightarrow> bool" where
  "collision_free sha A \<longleftrightarrow> inj_on sha A \<and> GENESIS \<notin> sha ` A"

lemma collision_free_mono: "collision_free sha B \<Longrightarrow> A \<subseteq> B \<Longrightarrow> collision_free sha A"
  unfolding collision_free_def by (meson image_mono inj_on_subset subset_iff)

lemma tip_of_chain:
  assumes "verifyChain sha pj (es @ [e])"
  shows "hash_current e = sha (canonicalJSON (entry_json pj e) @ hash_prev e)" and "hash_prev e = tip es"
  using assms by (simp_all add: verifyChain_snoc entry_hash_def)

definition chain_content :: "('p \<Rightarrow> json) \<Rightarrow> 'p event list \<Rightarrow> (json \<times> string \<times> string) list" where
  "chain_content pj es = map (\<lambda>e. (sortObject (entry_json pj e), hash_prev e, hash_current e)) es"

lemma verified_chains_agree:
  assumes "verifyChain sha pj es" "verifyChain sha pj fs"
    "collision_free sha (preimages pj es \<union> preimages pj fs)" "tip es = tip fs"
  shows "chain_content pj es = chain_content pj fs"
  using assms
proof (induction es arbitrary: fs rule: rev_induct)
  case Nil
  show ?case
  proof (cases fs rule: rev_cases)
    case (snoc fs' f)
    with Nil.prems(2) have "hash_current f = sha (canonicalJSON (entry_json pj f) @ hash_prev f)"
      using tip_of_chain(1) by blast
    then have "tip fs \<in> sha ` preimages pj fs" using snoc by (simp add: preimages_def)
    with Nil.prems(3,4) show ?thesis by (auto simp: collision_free_def)
  qed simp
next
  case (snoc e es)
  let ?pre = "\<lambda>e. canonicalJSON (entry_json pj e) @ hash_prev e"
  from snoc.prems(1) have e: "hash_current e = sha (?pre e)" "hash_prev e = tip es"
    using tip_of_chain by blast+
  show ?case
  proof (cases fs rule: rev_cases)
    case Nil
    with snoc.prems(3,4) e(1) show ?thesis by (simp add: collision_free_def preimages_def)
  next
    case (snoc fs' f)
    with snoc.prems(2) have f: "hash_current f = sha (?pre f)" "hash_prev f = tip fs'"
      using tip_of_chain by blast+
    from snoc.prems(4) snoc have hh: "hash_current e = hash_current f" by simp
    with e f have "sha (?pre e) = sha (?pre f)" by simp
    moreover have "?pre e \<in> preimages pj (es @ [e]) \<union> preimages pj fs"
      "?pre f \<in> preimages pj (es @ [e]) \<union> preimages pj fs"
      using snoc by (simp_all add: preimages_def)
    ultimately have "?pre e = ?pre f"
      using snoc.prems(3) unfolding collision_free_def by (blast dest: inj_onD)
    then have same: "sortObject (entry_json pj e) = sortObject (entry_json pj f)" "hash_prev e = hash_prev f"
      unfolding entry_json_def by (auto dest: canonicalJSON_obj_prefix)
    have "chain_content pj es = chain_content pj fs'"
    proof (rule snoc.IH)
      show "verifyChain sha pj es" using snoc.prems(1) by (simp add: verifyChain_snoc)
      show "verifyChain sha pj fs'" using snoc.prems(2) snoc by (simp add: verifyChain_snoc)
      show "collision_free sha (preimages pj es \<union> preimages pj fs')"
        by (rule collision_free_mono [OF snoc.prems(3)]) (auto simp: preimages_def snoc)
      show "tip es = tip fs'" using e f same by simp
    qed
    with same hh snoc show ?thesis by (simp add: chain_content_def)
  qed
qed

text \<open>Equal canonical entries agree field by field.\<close>

lemma entry_json_inj:
  assumes "sortObject (entry_json pj e) = sortObject (entry_json pj f)"
  shows "ev_seq e = ev_seq f \<and> ev_txId e = ev_txId f \<and> ev_phase e = ev_phase f \<and>
    sortObject (pj (ev_payload e)) = sortObject (pj (ev_payload f)) \<and> ev_ts e = ev_ts f"
  using assms by (simp add: entry_json_def)

section \<open>Properties\<close>

text \<open>
  C21: the journal is tamper evident. Two chains that both verify and end in the same hash have
  the same length and agree, entry by entry, on sequence number, transaction, phase, time and the
  canonical value of the payload, unless the hash function collides on the texts hashed.\<close>

theorem journal_tamper_evident:
  assumes "verifyChain sha pj es" "verifyChain sha pj fs"
    "collision_free sha (preimages pj es \<union> preimages pj fs)" "tip es = tip fs"
  shows "length es = length fs \<and> (\<forall>n < length es.
    ev_seq (es ! n) = ev_seq (fs ! n) \<and> ev_txId (es ! n) = ev_txId (fs ! n) \<and> ev_phase (es ! n) = ev_phase (fs ! n) \<and>
    ev_ts (es ! n) = ev_ts (fs ! n) \<and> canonicalJSON (pj (ev_payload (es ! n))) = canonicalJSON (pj (ev_payload (fs ! n))))"
proof -
  have eq: "chain_content pj es = chain_content pj fs" by (rule verified_chains_agree [OF assms])
  have len: "length es = length fs" by (rule map_eq_imp_length_eq [OF eq [unfolded chain_content_def]])
  have "sortObject (entry_json pj (es ! n)) = sortObject (entry_json pj (fs ! n))" if "n < length es" for n
  proof -
    have "map (\<lambda>e. sortObject (entry_json pj e)) es = map (\<lambda>e. sortObject (entry_json pj e)) fs"
      using arg_cong [OF eq, of "map fst"] unfolding chain_content_def map_map comp_def fst_conv .
    from arg_cong [OF this, of "\<lambda>l. l ! n"] that len show ?thesis by simp
  qed
  note same = this [THEN entry_json_inj]
  show ?thesis unfolding canonicalJSON_eq_iff
  proof (intro conjI allI impI)
    fix n assume n: "n < length es"
    show "ev_seq (es ! n) = ev_seq (fs ! n)" using same [OF n] by (elim conjE)
    show "ev_txId (es ! n) = ev_txId (fs ! n)" using same [OF n] by (elim conjE)
    show "ev_phase (es ! n) = ev_phase (fs ! n)" using same [OF n] by (elim conjE)
    show "ev_ts (es ! n) = ev_ts (fs ! n)" using same [OF n] by (elim conjE)
    show "sortObject (pj (ev_payload (es ! n))) = sortObject (pj (ev_payload (fs ! n)))" using same [OF n] by (elim conjE)
  qed (rule len)
qed

theorem journal_tamper_evident_witness:
  "\<exists>e f. verifyChain (\<lambda>s. s) JNum [e] \<and> verifyChain (\<lambda>s. s) JNum [f] \<and> tip [e] = tip [f] \<and> ev_payload e = 5 \<and>
     canonicalJSON (JNum (ev_payload e)) = canonicalJSON (JNum (ev_payload f))"
proof -
  let ?e = "make_event (\<lambda>s. s) JNum [] ''t'' ''ROUTE'' 5 7"
  have v: "verifyChain (\<lambda>s. s) JNum [?e]" using verifyChain_make_event [of "\<lambda>s. s" JNum "[]"] by simp
  have c: "collision_free (\<lambda>s. s) (preimages JNum [?e] \<union> preimages JNum [?e])"
    using stringify_kind by (auto simp: collision_free_def preimages_def GENESIS_def canonicalJSON_def dest: arg_cong [of _ _ length])
  show ?thesis using v journal_tamper_evident [OF v v c refl] by (intro exI [of _ ?e]) simp
qed

text \<open>
  Every journal that appends can build verifies, and reading a transaction gives its events,
  all of them and in the order they were appended.\<close>

theorem journal_verifies:
  "let j = fold (\<lambda>(t, p, x, ts) j. snd (append_event sha pj t p x ts j)) xs empty_journal
   in verifyChain sha pj (all_events j) \<and> length (all_events j) = length xs \<and>
      map ev_phase (read_tx t j) = map (\<lambda>x. fst (snd x)) (filter (\<lambda>x. fst x = t) xs)"
proof -
  define j where "j = fold (\<lambda>(t, p, x, ts) j. snd (append_event sha pj t p x ts j)) xs empty_journal"
  have j: "j = mem_log.app_all sha pj xs empty_journal" unfolding j_def mem_log.app_all_def by simp
  have i: "journal_inv sha pj empty_journal" by (rule journal_inv_empty)
  have "map (\<lambda>e. (ev_txId e, ev_phase e, ev_payload e, ev_ts e)) (all_events j) = xs"
    using mem_log.evs_app_all [OF i] by (simp add: j all_events_def empty_journal_def)
  then have "length (all_events j) = length xs" by (metis length_map)
  moreover have "read_tx t empty_journal = []" by (simp add: read_tx_def empty_journal_def)
  ultimately have "verifyChain sha pj (all_events j) \<and> length (all_events j) = length xs \<and>
      map ev_phase (read_tx t j) = map (\<lambda>x. fst (snd x)) (filter (\<lambda>x. fst x = t) xs)"
    using mem_log.verified_app_all [OF i] mem_log.read_app_all [OF i] by (simp add: j comp_def)
  then show ?thesis unfolding j_def Let_def .
qed

end
