(* ===== verification/Fee_Ledger.thy ===== *)
theory Fee_Ledger
  imports Fee_Engine Journal
begin

text \<open>
  \<^verbatim>\<open>vnext/fees/fee_ledger.js\<close>: the exactly-once record of fee instructions over the
  shared journal. The journal also holds events of other components; their payloads are opaque
  here. The lemmas show that a transaction is charged at most once, that a different fee for the
  same transaction is refused without effect, and that the index can be rebuilt from the journal
  alone.
\<close>

datatype 'q fee_payload = FeeP fee_instruction | OtherP 'q

record 'q fee_ledger =
  fl_index :: "(string, fee_instruction) jsmap"
  fl_journal :: "'q fee_payload journal"

definition fee_stream :: "string \<Rightarrow> string" where
  "fee_stream txId = ''fee:'' @ txId"

definition fee_record ::
  "(string \<Rightarrow> string) \<Rightarrow> ('q fee_payload \<Rightarrow> json) \<Rightarrow> int \<Rightarrow> fee_instruction \<Rightarrow> 'q fee_ledger
   \<Rightarrow> (fee_error + bool \<times> fee_instruction) \<times> 'q fee_ledger" where
  "fee_record sha pj now i l =
     (if fi_txId i = [] then (Inl CONFIG, l)
      else if auditHash i = [] then (Inl CONFIG, l)
      else
        (case map_of (fl_index l) (fi_txId i) of
           Some old \<Rightarrow>
             if auditHash old \<noteq> auditHash i then (Inl FEE_MISMATCH, l) else (Inr (True, old), l)
         | None \<Rightarrow>
             (Inr (False, i),
              \<lparr>fl_index = mset_key (fi_txId i) i (fl_index l),
               fl_journal = snd (append_event sha pj (fee_stream (fi_txId i)) ''FEE'' (FeeP i) now (fl_journal l))\<rparr>)))"

definition fee_get :: "string \<Rightarrow> 'q fee_ledger \<Rightarrow> fee_instruction option" where
  "fee_get txId l = map_of (fl_index l) txId"

definition is_fee_event :: "'q fee_payload event \<Rightarrow> bool" where
  "is_fee_event e \<longleftrightarrow> ev_phase e = ''FEE'' \<and> take 4 (ev_txId e) = ''fee:''"

fun replay_fee :: "(string, fee_instruction) jsmap \<Rightarrow> 'q fee_payload event \<Rightarrow> (string, fee_instruction) jsmap" where
  "replay_fee idx e =
     (if is_fee_event e then (case ev_payload e of FeeP i \<Rightarrow> mset_key (fi_txId i) i idx | OtherP _ \<Rightarrow> idx) else idx)"

definition fee_replay :: "'q fee_payload journal \<Rightarrow> (string, fee_instruction) jsmap" where
  "fee_replay j = foldl replay_fee [] (all_events j)"

text \<open>Another component appends to the shared journal, never under a \<open>fee:\<close> stream.\<close>

definition foreign_append ::
  "(string \<Rightarrow> string) \<Rightarrow> ('q fee_payload \<Rightarrow> json) \<Rightarrow> string \<Rightarrow> string \<Rightarrow> 'q \<Rightarrow> int \<Rightarrow> 'q fee_ledger \<Rightarrow> 'q fee_ledger" where
  "foreign_append sha pj t p x ts l = l\<lparr>fl_journal := snd (append_event sha pj t p (OtherP x) ts (fl_journal l))\<rparr>"

section \<open>Reachable ledgers\<close>

inductive ledger_reach ::
  "(string \<Rightarrow> string) \<Rightarrow> ('q fee_payload \<Rightarrow> json) \<Rightarrow> 'q fee_ledger \<Rightarrow> bool" for sha pj where
  start: "ledger_reach sha pj \<lparr>fl_index = [], fl_journal = empty_journal\<rparr>"
| rec: "ledger_reach sha pj l \<Longrightarrow> ledger_reach sha pj (snd (fee_record sha pj now i l))"
| other: "ledger_reach sha pj l \<Longrightarrow> take 4 t \<noteq> ''fee:'' \<Longrightarrow> ledger_reach sha pj (foreign_append sha pj t p x ts l)"

definition fee_events_of :: "string \<Rightarrow> 'q fee_ledger \<Rightarrow> 'q fee_payload event list" where
  "fee_events_of txId l = filter (\<lambda>e. is_fee_event e \<and> ev_txId e = fee_stream txId) (all_events (fl_journal l))"

lemma all_events_append [simp]:
  "all_events (snd (append_event sha pj t p x ts j)) = all_events j @ [make_event sha pj (j_events j) t p x ts]"
  by (simp add: all_events_def append_event_def Let_def)

lemma fee_replay_append:
  "fee_replay (snd (append_event sha pj t p x ts j)) =
   replay_fee (fee_replay j) (make_event sha pj (j_events j) t p x ts)"
  by (simp add: fee_replay_def)

lemma fee_replay_record:
  "fee_replay (fl_journal l) = fl_index l \<Longrightarrow>
   fee_replay (fl_journal (snd (fee_record sha pj now i l))) = fl_index (snd (fee_record sha pj now i l))"
  by (simp add: fee_record_def fee_replay_append is_fee_event_def fee_stream_def split: option.splits)

lemma ledger_replay: "ledger_reach sha pj l \<Longrightarrow> fee_replay (fl_journal l) = fl_index l"
proof (induction rule: ledger_reach.induct)
  case start
  show ?case by (simp add: fee_replay_def empty_journal_def all_events_def)
next
  case (rec l now i)
  show ?case by (rule fee_replay_record [OF rec.IH])
next
  case (other l t p x ts)
  then show ?case by (simp add: foreign_append_def fee_replay_append is_fee_event_def)
qed

lemma fee_events_record:
  "fee_events_of t (snd (fee_record sha pj now i l)) =
   (if fi_txId i = t \<and> t \<noteq> [] \<and> auditHash i \<noteq> [] \<and> map_of (fl_index l) t = None
    then fee_events_of t l @ [make_event sha pj (j_events (fl_journal l)) (fee_stream t) ''FEE'' (FeeP i) now]
    else fee_events_of t l)"
  by (auto simp: fee_events_of_def fee_record_def is_fee_event_def fee_stream_def split: option.splits)

lemma fee_index_record:
  "map_of (fl_index (snd (fee_record sha pj now i l))) t =
   (if fi_txId i = t \<and> t \<noteq> [] \<and> auditHash i \<noteq> [] \<and> map_of (fl_index l) t = None
    then Some i else map_of (fl_index l) t)"
  by (auto simp: fee_record_def split: option.splits)

text \<open>One charge per transaction: the journal has a fee event for it iff the index has an entry.\<close>

lemma ledger_once:
  "ledger_reach sha pj l \<Longrightarrow>
   map ev_payload (fee_events_of t l) = (case fee_get t l of None \<Rightarrow> [] | Some i \<Rightarrow> [FeeP i])"
proof (induction rule: ledger_reach.induct)
  case start
  show ?case by (simp add: fee_events_of_def fee_get_def empty_journal_def all_events_def)
next
  case (rec l now i)
  then show ?case
    by (auto simp: fee_events_record fee_get_def fee_index_record split: option.splits)
next
  case (other l u p x ts)
  then show ?case
    by (auto simp: foreign_append_def fee_events_of_def fee_get_def is_fee_event_def fee_stream_def)
qed

lemma ledger_chain: "ledger_reach sha pj l \<Longrightarrow> journal_inv sha pj (fl_journal l)"
  by (induction rule: ledger_reach.induct)
    (auto simp: journal_inv_empty fee_record_def foreign_append_def journal_inv_append split: option.splits)

section \<open>Properties\<close>

text \<open>
  The fee ledger charges a transaction at most once and can be rebuilt. On every ledger that
  recordings, interleaved with appends of other components to the shared journal, can build, the
  index is what a replay of the journal gives, the journal holds exactly one fee event for each
  recorded transaction and none for the others, and the chain verifies.\<close>

theorem fee_ledger_once:
  assumes "ledger_reach sha pj l"
  shows "fee_replay (fl_journal l) = fl_index l \<and>
    map ev_payload (fee_events_of t l) = (case fee_get t l of None \<Rightarrow> [] | Some i \<Rightarrow> [FeeP i]) \<and>
    verifyChain sha pj (all_events (fl_journal l))"
  using ledger_replay [OF assms] ledger_once [OF assms] ledger_chain [OF assms]
  by (simp add: journal_inv_def all_events_def)

theorem fee_ledger_once_witness:
  "\<exists>(l :: nat fee_ledger) i. ledger_reach (\<lambda>s. s) (\<lambda>_. JNull) l \<and> fee_get ''t'' l = Some i \<and>
     map ev_payload (fee_events_of ''t'' l) = [FeeP i]"
proof -
  let ?i = "\<lparr>fi_txId = ''t'', fi_decisionId = None, feeType = ''zero'', feeAmount = ''0'', fi_currency = ''USDC'', fi_base = ''0'',
    fi_payer = ''p'', fi_receiver = ''r'', fi_settlementMode = ''POST'', fi_splits = None, fi_human = [], auditHash = ''h''\<rparr>"
  let ?l = "snd (fee_record (\<lambda>s. s) (\<lambda>_. JNull) 1 ?i (snd (fee_record (\<lambda>s. s) (\<lambda>_. JNull) 0 ?i
    \<lparr>fl_index = [], fl_journal = empty_journal\<rparr>))) :: nat fee_ledger"
  have r: "ledger_reach (\<lambda>s. s) (\<lambda>_. JNull) ?l" by (intro ledger_reach.rec ledger_reach.start)
  have g: "fee_get ''t'' ?l = Some ?i" by (simp add: fee_get_def fee_index_record)
  show ?thesis using r g fee_ledger_once [OF r, of "''t''"] by auto
qed

end
