(* ===== verification/Durable_Store.thy ===== *)
theory Durable_Store
  imports Journal
begin

text \<open>
  The two implementations of the \<open>DurableStore\<close> interface:
  \<^verbatim>\<open>vnext/reliability/memory_durable_store.js\<close> over JavaScript maps and
  \<^verbatim>\<open>vnext/reliability/pg_durable_store.js\<close> over tables, where each SQL statement is the
  table operation it denotes. The interface \<open>once_ledger\<close> states the exactly-once contract
  that the idempotency store, the outbound guard, the treasury and the withdrawals rely on; all
  four ledgers of both stores provide it. Stored JSON comes back as the value it was.
\<close>

record 'p erow =
  er_seq :: nat
  er_stream_id :: string
  er_phase :: string
  er_payload :: 'p
  er_ts :: int
  er_hash_prev :: string
  er_hash_current :: string

record outbound_entry =
  ob_idem_key :: string
  ob_amount :: string
  ob_ref :: "string option"
  ob_ts :: int

record treasury_entry =
  tr_tx_id :: string
  tr_amount_in :: string
  tr_cost :: string
  tr_spread :: string
  tr_unit :: string
  tr_tx_in_ref :: "string option"
  tr_payer :: "string option"
  tr_ts :: int

record withdrawal_entry =
  wd_idem_key :: string
  wd_amount :: string
  wd_dest :: string
  wd_ref :: "string option"
  wd_status :: string
  wd_ts :: int

record 'r dlq_entry =
  dl_tx_id :: string
  dl_reason :: string
  dl_attempts :: nat
  dl_request :: 'r
  dl_failed_at :: int

section \<open>The exactly-once contract\<close>

locale once_ledger =
  fixes add :: "'e \<Rightarrow> 'd \<Rightarrow> (bool \<times> 'e) \<times> 'd"
    and get :: "'k \<Rightarrow> 'd \<Rightarrow> 'e option"
    and key :: "'e \<Rightarrow> 'k"
  assumes add_absent: "get (key e) d = None \<Longrightarrow> fst (add e d) = (True, e)"
    and add_present: "get (key e) d = Some x \<Longrightarrow> add e d = ((False, x), d)"
    and get_add: "get (key e) d = None \<Longrightarrow> get k (snd (add e d)) = (if k = key e then Some e else get k d)"
begin

fun add_all :: "'e list \<Rightarrow> 'd \<Rightarrow> bool list \<times> 'd" where
  "add_all [] d = ([], d)"
| "add_all (e # es) d =
     (let ((b, _), d') = add e d; (bs, d'') = add_all es d' in (b # bs, d''))"

lemma add_get: "get (key e) (snd (add e d)) \<noteq> None"
  by (cases "get (key e) d") (simp_all add: add_present get_add)

lemma add_keeps: "get k d = Some x \<Longrightarrow> get k (snd (add e d)) = Some x"
  by (cases "get (key e) d") (auto simp: add_present get_add)

text \<open>The first entry for a key wins and is never replaced.\<close>

lemma first_wins:
  "get k (snd (add_all es d)) = (case get k d of Some x \<Rightarrow> Some x | None \<Rightarrow> find (\<lambda>e. key e = k) es)"
proof (induction es arbitrary: d)
  case (Cons e es)
  have "snd (add_all (e # es) d) = snd (add_all es (snd (add e d)))"
    by (simp add: Let_def case_prod_beta)
  then show ?case using Cons.IH [of "snd (add e d)"]
    by (cases "get (key e) d") (auto simp: add_present get_add split: option.splits)
qed (simp split: option.splits)

text \<open>At most one of any number of writers of a key is told that it inserted.\<close>

lemma add_all_present: "get k d = Some x \<Longrightarrow>
  filter (\<lambda>p. snd p \<and> key (fst p) = k) (zip es (fst (add_all es d))) = []"
proof (induction es arbitrary: d)
  case (Cons e es)
  have "get k (snd (add e d)) = Some x" using Cons.prems by (rule add_keeps)
  moreover have "key e = k \<Longrightarrow> \<not> fst (fst (add e d))" using Cons.prems add_present by auto
  ultimately show ?case using Cons.IH by (auto simp: Let_def case_prod_beta)
qed simp

lemma one_winner: "length (filter (\<lambda>p. snd p \<and> key (fst p) = k) (zip es (fst (add_all es d)))) \<le> 1"
proof (induction es arbitrary: d)
  case (Cons e es)
  obtain x where "key e = k \<Longrightarrow> get k (snd (add e d)) = Some x"
    using add_get [of e d] by blast
  then have "key e = k \<Longrightarrow> filter (\<lambda>p. snd p \<and> key (fst p) = k) (zip es (fst (add_all es (snd (add e d))))) = []"
    by (rule add_all_present)
  then show ?case using Cons.IH [of "snd (add e d)"] by (auto simp add: Let_def case_prod_beta)
qed simp

end

section \<open>The memory store\<close>

record ('p, 'v, 's, 'r) backing =
  b_events :: "'p erow list"
  b_kv :: "(string, 'v) jsmap"
  b_suppliers :: "(string, 's \<times> int) jsmap"
  b_dlq :: "(string, 'r dlq_entry) jsmap"
  b_outbound :: "(string, outbound_entry) jsmap"
  b_treasury :: "(string, treasury_entry) jsmap"
  b_withdrawal :: "(string, withdrawal_entry) jsmap"
  b_locks :: "nat list"

definition createMemoryBacking :: "('p, 'v, 's, 'r) backing" where
  "createMemoryBacking = \<lparr>b_events = [], b_kv = [], b_suppliers = [], b_dlq = [],
     b_outbound = [], b_treasury = [], b_withdrawal = [], b_locks = []\<rparr>"

text \<open>An event before the store numbers it.\<close>

record 'p durable_event =
  de_stream_id :: string
  de_phase :: string
  de_payload :: 'p
  de_ts :: int
  de_hash_prev :: string
  de_hash_current :: string

definition row_of :: "nat \<Rightarrow> 'p durable_event \<Rightarrow> 'p erow" where
  "row_of seq ev = \<lparr>er_seq = seq, er_stream_id = de_stream_id ev, er_phase = de_phase ev,
     er_payload = de_payload ev, er_ts = de_ts ev, er_hash_prev = de_hash_prev ev,
     er_hash_current = de_hash_current ev\<rparr>"

definition appendEvent :: "'p durable_event \<Rightarrow> ('p, 'v, 's, 'r) backing \<Rightarrow> 'p erow \<times> ('p, 'v, 's, 'r) backing" where
  "appendEvent ev b =
     (let rec = row_of (length (b_events b) + 1) ev in (rec, b\<lparr>b_events := b_events b @ [rec]\<rparr>))"

definition readStream :: "string \<Rightarrow> ('p, 'v, 's, 'r) backing \<Rightarrow> 'p erow list" where
  "readStream streamId b = filter (\<lambda>e. er_stream_id e = streamId) (b_events b)"

definition allEvents :: "('p, 'v, 's, 'r) backing \<Rightarrow> 'p erow list" where
  "allEvents b = b_events b"

definition lastHash :: "('p, 'v, 's, 'r) backing \<Rightarrow> string" where
  "lastHash b = (if b_events b = [] then GENESIS else er_hash_current (last (b_events b)))"

definition kvGet :: "string \<Rightarrow> ('p, 'v, 's, 'r) backing \<Rightarrow> 'v option" where
  "kvGet key b = map_of (b_kv b) key"

definition kvSetIfAbsent :: "string \<Rightarrow> 'v \<Rightarrow> ('p, 'v, 's, 'r) backing \<Rightarrow> (bool \<times> 'v) \<times> ('p, 'v, 's, 'r) backing" where
  "kvSetIfAbsent key v b = (let (r, m) = insert_if_absent key v (b_kv b) in (r, b\<lparr>b_kv := m\<rparr>))"

definition supplierUpsert :: "string \<Rightarrow> 's \<Rightarrow> int \<Rightarrow> ('p, 'v, 's, 'r) backing \<Rightarrow> ('p, 'v, 's, 'r) backing" where
  "supplierUpsert i snapshot ts b = b\<lparr>b_suppliers := mset_key i (snapshot, ts) (b_suppliers b)\<rparr>"

definition supplierDelete :: "string \<Rightarrow> ('p, 'v, 's, 'r) backing \<Rightarrow> ('p, 'v, 's, 'r) backing" where
  "supplierDelete i b = b\<lparr>b_suppliers := mdelete i (b_suppliers b)\<rparr>"

definition supplierAll :: "('p, 'v, 's, 'r) backing \<Rightarrow> (string \<times> 's \<times> int) list" where
  "supplierAll b = b_suppliers b"

definition dlqAdd :: "'r dlq_entry \<Rightarrow> ('p, 'v, 's, 'r) backing \<Rightarrow> ('p, 'v, 's, 'r) backing" where
  "dlqAdd e b = b\<lparr>b_dlq := mset_key (dl_tx_id e) e (b_dlq b)\<rparr>"

definition dlqAll :: "('p, 'v, 's, 'r) backing \<Rightarrow> 'r dlq_entry list" where
  "dlqAll b = map snd (b_dlq b)"

definition dlqGet :: "string \<Rightarrow> ('p, 'v, 's, 'r) backing \<Rightarrow> 'r dlq_entry option" where
  "dlqGet txId b = map_of (b_dlq b) txId"

definition outboundAdd :: "outbound_entry \<Rightarrow> ('p, 'v, 's, 'r) backing \<Rightarrow> (bool \<times> outbound_entry) \<times> ('p, 'v, 's, 'r) backing" where
  "outboundAdd e b = (let (r, m) = insert_if_absent (ob_idem_key e) e (b_outbound b) in (r, b\<lparr>b_outbound := m\<rparr>))"

definition outboundGet :: "string \<Rightarrow> ('p, 'v, 's, 'r) backing \<Rightarrow> outbound_entry option" where
  "outboundGet k b = map_of (b_outbound b) k"

definition outboundRowsSince :: "int \<Rightarrow> ('p, 'v, 's, 'r) backing \<Rightarrow> (string \<times> int) list" where
  "outboundRowsSince ts b =
     map (\<lambda>e. (ob_amount e, ob_ts e)) (filter (\<lambda>e. ob_ts e \<ge> ts) (map snd (b_outbound b)))"

definition treasuryAdd :: "treasury_entry \<Rightarrow> ('p, 'v, 's, 'r) backing \<Rightarrow> (bool \<times> treasury_entry) \<times> ('p, 'v, 's, 'r) backing" where
  "treasuryAdd e b = (let (r, m) = insert_if_absent (tr_tx_id e) e (b_treasury b) in (r, b\<lparr>b_treasury := m\<rparr>))"

definition treasuryGet :: "string \<Rightarrow> ('p, 'v, 's, 'r) backing \<Rightarrow> treasury_entry option" where
  "treasuryGet k b = map_of (b_treasury b) k"

definition treasuryRows :: "string option \<Rightarrow> ('p, 'v, 's, 'r) backing \<Rightarrow> treasury_entry list" where
  "treasuryRows unit b =
     filter (\<lambda>e. \<not> truthy unit \<or> unit = Some (tr_unit e)) (map snd (b_treasury b))"

definition withdrawalAdd :: "withdrawal_entry \<Rightarrow> ('p, 'v, 's, 'r) backing \<Rightarrow> (bool \<times> withdrawal_entry) \<times> ('p, 'v, 's, 'r) backing" where
  "withdrawalAdd e b = (let (r, m) = insert_if_absent (wd_idem_key e) e (b_withdrawal b) in (r, b\<lparr>b_withdrawal := m\<rparr>))"

definition withdrawalGet :: "string \<Rightarrow> ('p, 'v, 's, 'r) backing \<Rightarrow> withdrawal_entry option" where
  "withdrawalGet k b = map_of (b_withdrawal b) k"

text \<open>
  The advisory lock. Taking it is one step and giving it back another; what runs between them
  sees it held. The lock is released when \<open>fn\<close> throws as well.
\<close>

definition tryLock :: "nat \<Rightarrow> ('p, 'v, 's, 'r) backing \<Rightarrow> bool \<times> ('p, 'v, 's, 'r) backing" where
  "tryLock key b =
     (if key \<in> set (b_locks b) then (False, b) else (True, b\<lparr>b_locks := key # b_locks b\<rparr>))"

definition releaseLock :: "nat \<Rightarrow> ('p, 'v, 's, 'r) backing \<Rightarrow> ('p, 'v, 's, 'r) backing" where
  "releaseLock key b = b\<lparr>b_locks := removeAll key (b_locks b)\<rparr>"

definition withAdvisoryLock ::
  "nat \<Rightarrow> (('p, 'v, 's, 'r) backing, 'a) em \<Rightarrow> (('p, 'v, 's, 'r) backing, bool \<times> 'a option) em" where
  "withAdvisoryLock key fn b =
     (case tryLock key b of
        (False, b') \<Rightarrow> (Inr (False, None), b')
      | (True, b') \<Rightarrow>
          (case fn b' of
             (Inl e, b'') \<Rightarrow> (Inl e, releaseLock key b'')
           | (Inr x, b'') \<Rightarrow> (Inr (True, Some x), releaseLock key b'')))"

lemmas mem_ledger_defs =
  kvGet_def kvSetIfAbsent_def outboundAdd_def outboundGet_def treasuryAdd_def treasuryGet_def
  withdrawalAdd_def withdrawalGet_def insert_if_absent_def Let_def

interpretation mem_outbound: once_ledger outboundAdd outboundGet ob_idem_key
  by unfold_locales (auto simp: mem_ledger_defs)

interpretation mem_treasury: once_ledger treasuryAdd treasuryGet tr_tx_id
  by unfold_locales (auto simp: mem_ledger_defs)

interpretation mem_withdrawal: once_ledger withdrawalAdd withdrawalGet wd_idem_key
  by unfold_locales (auto simp: mem_ledger_defs)

interpretation mem_kv: once_ledger
  "\<lambda>(k, v) b. let ((i, w), b') = kvSetIfAbsent k v b in ((i, (k, w)), b')"
  "\<lambda>k b. map_option (Pair k) (kvGet k b)" fst
  by unfold_locales (auto simp: mem_ledger_defs)

section \<open>The PostgreSQL store\<close>

text \<open>
  A table with a primary key is the list of its rows in insertion order. The journal's \<open>seq\<close>
  is drawn from a sequence that never repeats a value but may skip values.
\<close>

record ('p, 'v, 's, 'r) pgdb =
  pg_seq :: nat
  pg_journal :: "'p erow list"
  pg_kv :: "(string, 'v) jsmap"
  pg_suppliers :: "(string, 's \<times> int) jsmap"
  pg_dlq :: "(string, 'r dlq_entry) jsmap"
  pg_outbound :: "(string, outbound_entry) jsmap"
  pg_treasury :: "(string, treasury_entry) jsmap"
  pg_withdrawal :: "(string, withdrawal_entry) jsmap"
  pg_locks :: "nat list"

text \<open>\<open>INSERT ... ON CONFLICT DO NOTHING RETURNING\<close>: whether a row came back, and the table.\<close>

definition insert_do_nothing :: "'k \<Rightarrow> 'e \<Rightarrow> ('k, 'e) jsmap \<Rightarrow> bool \<times> ('k, 'e) jsmap" where
  "insert_do_nothing k e t = (if map_of t k = None then (True, t @ [(k, e)]) else (False, t))"

definition pg_appendEvent :: "'p durable_event \<Rightarrow> ('p, 'v, 's, 'r) pgdb \<Rightarrow> 'p erow \<times> ('p, 'v, 's, 'r) pgdb" where
  "pg_appendEvent ev d =
     (let rec = row_of (pg_seq d + 1) ev
      in (rec, d\<lparr>pg_seq := pg_seq d + 1, pg_journal := pg_journal d @ [rec]\<rparr>))"

definition pg_readStream :: "string \<Rightarrow> ('p, 'v, 's, 'r) pgdb \<Rightarrow> 'p erow list" where
  "pg_readStream streamId d = sort_key er_seq (filter (\<lambda>e. er_stream_id e = streamId) (pg_journal d))"

definition pg_allEvents :: "('p, 'v, 's, 'r) pgdb \<Rightarrow> 'p erow list" where
  "pg_allEvents d = sort_key er_seq (pg_journal d)"

definition pg_lastHash :: "('p, 'v, 's, 'r) pgdb \<Rightarrow> string" where
  "pg_lastHash d = (if pg_allEvents d = [] then GENESIS else er_hash_current (last (pg_allEvents d)))"

definition pg_kvGet :: "string \<Rightarrow> ('p, 'v, 's, 'r) pgdb \<Rightarrow> 'v option" where
  "pg_kvGet key d = map_of (pg_kv d) key"

definition pg_kvSetIfAbsent :: "string \<Rightarrow> 'v \<Rightarrow> ('p, 'v, 's, 'r) pgdb \<Rightarrow> (bool \<times> 'v option) \<times> ('p, 'v, 's, 'r) pgdb" where
  "pg_kvSetIfAbsent key v d =
     (case insert_do_nothing key v (pg_kv d) of
        (True, t) \<Rightarrow> ((True, Some v), d\<lparr>pg_kv := t\<rparr>)
      | (False, t) \<Rightarrow> ((False, pg_kvGet key d), d))"

definition pg_supplierUpsert :: "string \<Rightarrow> 's \<Rightarrow> int \<Rightarrow> ('p, 'v, 's, 'r) pgdb \<Rightarrow> ('p, 'v, 's, 'r) pgdb" where
  "pg_supplierUpsert i snapshot ts d = d\<lparr>pg_suppliers := mset_key i (snapshot, ts) (pg_suppliers d)\<rparr>"

definition pg_supplierDelete :: "string \<Rightarrow> ('p, 'v, 's, 'r) pgdb \<Rightarrow> ('p, 'v, 's, 'r) pgdb" where
  "pg_supplierDelete i d = d\<lparr>pg_suppliers := filter (\<lambda>(k, _). k \<noteq> i) (pg_suppliers d)\<rparr>"

definition pg_dlqAdd :: "'r dlq_entry \<Rightarrow> ('p, 'v, 's, 'r) pgdb \<Rightarrow> ('p, 'v, 's, 'r) pgdb" where
  "pg_dlqAdd e d = d\<lparr>pg_dlq := snd (insert_do_nothing (dl_tx_id e) e (pg_dlq d))\<rparr>"

definition pg_dlqGet :: "string \<Rightarrow> ('p, 'v, 's, 'r) pgdb \<Rightarrow> 'r dlq_entry option" where
  "pg_dlqGet txId d = map_of (pg_dlq d) txId"

definition pg_outboundGet :: "string \<Rightarrow> ('p, 'v, 's, 'r) pgdb \<Rightarrow> outbound_entry option" where
  "pg_outboundGet k d = map_of (pg_outbound d) k"

definition pg_outboundAdd :: "outbound_entry \<Rightarrow> ('p, 'v, 's, 'r) pgdb \<Rightarrow> (bool \<times> outbound_entry) \<times> ('p, 'v, 's, 'r) pgdb" where
  "pg_outboundAdd e d =
     (case insert_do_nothing (ob_idem_key e) e (pg_outbound d) of
        (True, t) \<Rightarrow> ((True, e), d\<lparr>pg_outbound := t\<rparr>)
      | (False, t) \<Rightarrow> ((False, the (pg_outboundGet (ob_idem_key e) d)), d))"

definition pg_outboundRowsSince :: "int \<Rightarrow> ('p, 'v, 's, 'r) pgdb \<Rightarrow> (string \<times> int) list" where
  "pg_outboundRowsSince ts d =
     map (\<lambda>e. (ob_amount e, ob_ts e)) (filter (\<lambda>e. ob_ts e \<ge> ts) (map snd (pg_outbound d)))"

definition pg_treasuryGet :: "string \<Rightarrow> ('p, 'v, 's, 'r) pgdb \<Rightarrow> treasury_entry option" where
  "pg_treasuryGet k d = map_of (pg_treasury d) k"

definition pg_treasuryAdd :: "treasury_entry \<Rightarrow> ('p, 'v, 's, 'r) pgdb \<Rightarrow> (bool \<times> treasury_entry) \<times> ('p, 'v, 's, 'r) pgdb" where
  "pg_treasuryAdd e d =
     (case insert_do_nothing (tr_tx_id e) e (pg_treasury d) of
        (True, t) \<Rightarrow> ((True, e), d\<lparr>pg_treasury := t\<rparr>)
      | (False, t) \<Rightarrow> ((False, the (pg_treasuryGet (tr_tx_id e) d)), d))"

definition pg_treasuryRows :: "string option \<Rightarrow> ('p, 'v, 's, 'r) pgdb \<Rightarrow> treasury_entry list" where
  "pg_treasuryRows unit d =
     (if truthy unit then filter (\<lambda>e. Some (tr_unit e) = unit) (map snd (pg_treasury d))
      else map snd (pg_treasury d))"

definition pg_withdrawalGet :: "string \<Rightarrow> ('p, 'v, 's, 'r) pgdb \<Rightarrow> withdrawal_entry option" where
  "pg_withdrawalGet k d = map_of (pg_withdrawal d) k"

definition pg_withdrawalAdd :: "withdrawal_entry \<Rightarrow> ('p, 'v, 's, 'r) pgdb \<Rightarrow> (bool \<times> withdrawal_entry) \<times> ('p, 'v, 's, 'r) pgdb" where
  "pg_withdrawalAdd e d =
     (case insert_do_nothing (wd_idem_key e) e (pg_withdrawal d) of
        (True, t) \<Rightarrow> ((True, e), d\<lparr>pg_withdrawal := t\<rparr>)
      | (False, t) \<Rightarrow> ((False, the (pg_withdrawalGet (wd_idem_key e) d)), d))"

definition pg_withAdvisoryLock ::
  "nat \<Rightarrow> (('p, 'v, 's, 'r) pgdb, 'a) em \<Rightarrow> (('p, 'v, 's, 'r) pgdb, bool \<times> 'a option) em" where
  "pg_withAdvisoryLock key fn d =
     (if key \<in> set (pg_locks d) then (Inr (False, None), d)
      else (case fn (d\<lparr>pg_locks := key # pg_locks d\<rparr>) of
              (Inl e, d') \<Rightarrow> (Inl e, d'\<lparr>pg_locks := remove1 key (pg_locks d')\<rparr>)
            | (Inr x, d') \<Rightarrow> (Inr (True, Some x), d'\<lparr>pg_locks := remove1 key (pg_locks d')\<rparr>)))"

lemmas pg_ledger_defs =
  pg_outboundAdd_def pg_outboundGet_def pg_treasuryAdd_def pg_treasuryGet_def
  pg_withdrawalAdd_def pg_withdrawalGet_def insert_do_nothing_def

lemma map_of_snoc: "map_of m k = None \<Longrightarrow> map_of (m @ [(k, v)]) j = (if j = k then Some v else map_of m j)"
  by (auto simp: map_add_def split: option.splits)

interpretation pg_outbound_ledger: once_ledger pg_outboundAdd pg_outboundGet ob_idem_key
  by unfold_locales (auto simp: pg_ledger_defs map_of_snoc simp del: map_of_append)

interpretation pg_treasury_ledger: once_ledger pg_treasuryAdd pg_treasuryGet tr_tx_id
  by unfold_locales (auto simp: pg_ledger_defs map_of_snoc simp del: map_of_append)

interpretation pg_withdrawal_ledger: once_ledger pg_withdrawalAdd pg_withdrawalGet wd_idem_key
  by unfold_locales (auto simp: pg_ledger_defs map_of_snoc simp del: map_of_append)

section \<open>The two stores agree\<close>

text \<open>
  The abstraction from a database to a memory backing forgets the sequence numbers. The rows of
  a journal table are sorted because the sequence only grows.
\<close>

definition pg_inv :: "('p, 'v, 's, 'r) pgdb \<Rightarrow> bool" where
  "pg_inv d \<longleftrightarrow> sorted (map er_seq (pg_journal d)) \<and> (\<forall>r \<in> set (pg_journal d). er_seq r \<le> pg_seq d)"

definition renumber :: "'p erow list \<Rightarrow> 'p erow list" where
  "renumber rs = map (\<lambda>(i, r). r\<lparr>er_seq := Suc i\<rparr>) (enumerate 0 rs)"

definition abs_backing :: "('p, 'v, 's, 'r) pgdb \<Rightarrow> ('p, 'v, 's, 'r) backing" where
  "abs_backing d = \<lparr>b_events = renumber (pg_journal d), b_kv = pg_kv d, b_suppliers = pg_suppliers d,
     b_dlq = pg_dlq d, b_outbound = pg_outbound d, b_treasury = pg_treasury d,
     b_withdrawal = pg_withdrawal d, b_locks = pg_locks d\<rparr>"

lemma pg_inv_append: "pg_inv d \<Longrightarrow> pg_inv (snd (pg_appendEvent ev d))"
  by (fastforce simp: pg_inv_def pg_appendEvent_def row_of_def Let_def sorted_append)

lemma pg_allEvents_order: "pg_inv d \<Longrightarrow> pg_allEvents d = pg_journal d"
  by (simp add: pg_allEvents_def pg_inv_def sort_key_id_if_sorted)

lemma renumber_snoc: "renumber (rs @ [r]) = renumber rs @ [r\<lparr>er_seq := Suc (length rs)\<rparr>]"
  by (simp add: renumber_def enumerate_append_eq)

lemma renumber_length [simp]: "length (renumber rs) = length rs"
  by (simp add: renumber_def)

lemma pg_append_refines:
  "abs_backing (snd (pg_appendEvent ev d)) = snd (appendEvent ev (abs_backing d))"
  by (simp add: abs_backing_def pg_appendEvent_def appendEvent_def Let_def renumber_snoc row_of_def)

lemma insert_do_nothing_eq:
  "insert_do_nothing k e t = (fst (fst (insert_if_absent k e t)), snd (insert_if_absent k e t))"
  by (auto simp: insert_do_nothing_def insert_if_absent_def mset_key_fresh split: option.splits)

lemmas pg_refine_defs = abs_backing_def insert_do_nothing_eq insert_if_absent_def pg_outboundAdd_def
  pg_outboundGet_def outboundAdd_def pg_treasuryAdd_def pg_treasuryGet_def treasuryAdd_def
  pg_withdrawalAdd_def pg_withdrawalGet_def withdrawalAdd_def

lemma pg_outbound_refines:
  "(fst (pg_outboundAdd e d), abs_backing (snd (pg_outboundAdd e d))) = outboundAdd e (abs_backing d)"
  by (cases "map_of (pg_outbound d) (ob_idem_key e)") (simp_all add: pg_refine_defs)

lemma pg_treasury_refines:
  "(fst (pg_treasuryAdd e d), abs_backing (snd (pg_treasuryAdd e d))) = treasuryAdd e (abs_backing d)"
  by (cases "map_of (pg_treasury d) (tr_tx_id e)") (simp_all add: pg_refine_defs)

lemma pg_withdrawal_refines:
  "(fst (pg_withdrawalAdd e d), abs_backing (snd (pg_withdrawalAdd e d))) = withdrawalAdd e (abs_backing d)"
  by (cases "map_of (pg_withdrawal d) (wd_idem_key e)") (simp_all add: pg_refine_defs)

lemma pg_kv_refines:
  "(let ((i, w), d') = pg_kvSetIfAbsent k v d in ((i, the w), abs_backing d')) = kvSetIfAbsent k v (abs_backing d)"
  by (cases "map_of (pg_kv d) k")
    (simp_all add: pg_kvSetIfAbsent_def pg_kvGet_def kvSetIfAbsent_def pg_refine_defs)

lemma pg_rows_refine:
  "pg_treasuryRows unit d = treasuryRows unit (abs_backing d)"
  "pg_outboundRowsSince ts d = outboundRowsSince ts (abs_backing d)"
  by (auto simp: pg_treasuryRows_def treasuryRows_def pg_outboundRowsSince_def outboundRowsSince_def
      abs_backing_def intro!: filter_cong)

section \<open>Locks\<close>

text \<open>Whoever runs under a lock finds it taken, and it is free afterwards whatever happened.\<close>

lemma withAdvisoryLock_skips:
  "key \<in> set (b_locks b) \<Longrightarrow> withAdvisoryLock key fn b = (Inr (False, None), b)"
  by (simp add: withAdvisoryLock_def tryLock_def)

lemma withAdvisoryLock_releases:
  "key \<notin> set (b_locks b) \<Longrightarrow> key \<notin> set (b_locks (snd (withAdvisoryLock key fn b)))"
  by (auto simp: withAdvisoryLock_def tryLock_def releaseLock_def split: prod.splits sum.splits)

lemma withAdvisoryLock_excludes:
  "key \<notin> set (b_locks b) \<Longrightarrow>
   withAdvisoryLock key (withAdvisoryLock key fn) b = (Inr (True, Some (False, None)), b)"
  by (simp add: withAdvisoryLock_def tryLock_def releaseLock_def removeAll_id)

section \<open>Properties\<close>


text \<open>
  Under the advisory lock of a key, another attempt on the same key runs nothing and reports
  that it was skipped; once the guarded function has ended, also by an exception, the lock is free.\<close>

theorem advisory_lock_exclusive:
  assumes "key \<notin> set (b_locks b)"
  shows "withAdvisoryLock key (withAdvisoryLock key fn) b = (Inr (True, Some (False, None)), b) \<and>
    key \<notin> set (b_locks (snd (withAdvisoryLock key gn b)))"
  using withAdvisoryLock_excludes [OF assms] withAdvisoryLock_releases [OF assms] by blast

theorem advisory_lock_exclusive_witness:
  "withAdvisoryLock 4021 (withAdvisoryLock 4021 (returnM 7)) (createMemoryBacking :: (nat, nat, nat, nat) backing) =
     (Inr (True, Some (False, None :: nat option)), createMemoryBacking)"
proof -
  have h: "4021 \<notin> set (b_locks (createMemoryBacking :: (nat, nat, nat, nat) backing))" by (simp add: createMemoryBacking_def)
  show ?thesis using advisory_lock_exclusive [OF h] by blast
qed

end
