(* ===== verification/Persistent_Journal.thy ===== *)
theory Persistent_Journal
  imports Durable_Store
begin

text \<open>
  \<^verbatim>\<open>vnext/reliability/persistent_journal.js\<close>: the hash-linked journal over a durable
  store, with an in-memory mirror. Appends are serialised by the promise chain \<open>_tail\<close>, so an
  append is one step here; it can fail in the store, and then nothing changes. The lemmas show
  that the mirror and the stored rows always agree, that \<open>load\<close> after a restart gives the very
  chain that was written, and that this journal provides the same interface as the in-memory one.
\<close>

record ('p, 'v, 's, 'r) pjournal =
  pj_chain :: "'p event list"
  pj_store :: "('p, 'v, 's, 'r) backing"

definition durable_of :: "'p event \<Rightarrow> 'p durable_event" where
  "durable_of e = \<lparr>de_stream_id = ev_txId e, de_phase = ev_phase e, de_payload = ev_payload e, de_ts = ev_ts e,
     de_hash_prev = hash_prev e, de_hash_current = hash_current e\<rparr>"

text \<open>
  The argument \<open>fault\<close> is the exception of the store's insert, if it throws.
\<close>

definition persistent_append ::
  "(string \<Rightarrow> string) \<Rightarrow> ('p \<Rightarrow> json) \<Rightarrow> string option \<Rightarrow> string \<Rightarrow> string \<Rightarrow> 'p \<Rightarrow> int \<Rightarrow> (('p, 'v, 's, 'r) pjournal, 'p event) em" where
  "persistent_append sha pj fault streamId phase payload ts j =
     (let e = make_event sha pj (pj_chain j) streamId phase payload ts in
      case fault of
        Some err \<Rightarrow> (Inl err, j)
      | None \<Rightarrow> (Inr e, \<lparr>pj_chain = pj_chain j @ [e], pj_store = snd (appendEvent (durable_of e) (pj_store j))\<rparr>))"

definition event_of_row :: "nat \<Rightarrow> 'p erow \<Rightarrow> 'p event" where
  "event_of_row i r = \<lparr>ev_seq = i, ev_txId = er_stream_id r, ev_phase = er_phase r, ev_payload = er_payload r,
     ev_ts = er_ts r, hash_prev = er_hash_prev r, hash_current = er_hash_current r\<rparr>"

definition load_chain :: "'p erow list \<Rightarrow> 'p event list" where
  "load_chain rows = map (\<lambda>(i, r). event_of_row i r) (enumerate 0 rows)"

definition load_journal :: "('p, 'v, 's, 'r) backing \<Rightarrow> ('p, 'v, 's, 'r) pjournal" where
  "load_journal st = \<lparr>pj_chain = load_chain (allEvents st), pj_store = st\<rparr>"

definition persistent_read :: "string \<Rightarrow> ('p, 'v, 's, 'r) pjournal \<Rightarrow> 'p event list" where
  "persistent_read txId j = filter (\<lambda>e. ev_txId e = txId) (pj_chain j)"

text \<open>What every journal that was created over an empty store and appended to satisfies.\<close>

definition pjournal_inv :: "(string \<Rightarrow> string) \<Rightarrow> ('p \<Rightarrow> json) \<Rightarrow> ('p, 'v, 's, 'r) pjournal \<Rightarrow> bool" where
  "pjournal_inv sha pj j \<longleftrightarrow> verifyChain sha pj (pj_chain j) \<and> load_chain (allEvents (pj_store j)) = pj_chain j"

lemma load_chain_snoc: "load_chain (rows @ [r]) = load_chain rows @ [event_of_row (length rows) r]"
  by (simp add: load_chain_def enumerate_append_eq)

lemma load_chain_length [simp]: "length (load_chain rows) = length rows"
  by (simp add: load_chain_def)

lemma event_of_row_of: "event_of_row (ev_seq e) (row_of n (durable_of e)) = e"
  by (simp add: event_of_row_def row_of_def durable_of_def)

lemma pjournal_inv_init: "pjournal_inv sha pj (load_journal createMemoryBacking)"
  by (simp add: pjournal_inv_def load_journal_def createMemoryBacking_def allEvents_def load_chain_def)

lemma pjournal_inv_append:
  assumes "pjournal_inv sha pj j"
  shows "pjournal_inv sha pj (snd (persistent_append sha pj fault t p x ts j))"
proof (cases fault)
  case None
  let ?e = "make_event sha pj (pj_chain j) t p x ts"
  have len: "length (b_events (pj_store j)) = length (pj_chain j)"
    using assms load_chain_length by (metis allEvents_def pjournal_inv_def)
  have "event_of_row (length (pj_chain j)) (row_of (Suc (length (pj_chain j))) (durable_of ?e)) = ?e"
    using event_of_row_of [of ?e] by simp
  with None assms len show ?thesis
    by (simp add: pjournal_inv_def persistent_append_def Let_def verifyChain_make_event appendEvent_def
        allEvents_def load_chain_snoc)
qed (use assms in \<open>simp add: persistent_append_def Let_def\<close>)

text \<open>A restart reads back exactly what was appended.\<close>

lemma load_after_append: "pjournal_inv sha pj j \<Longrightarrow> load_journal (pj_store j) = j"
  by (simp add: pjournal_inv_def load_journal_def)

lemma persistent_append_fault [simp]:
  "persistent_append sha pj (Some err) t p x ts j = (Inl err, j)"
  by (simp add: persistent_append_def Let_def)

interpretation persistent_log: event_log
  "\<lambda>t p x ts j. snd (persistent_append sha pj None t p x ts j)" pj_chain persistent_read
  "\<lambda>j. verifyChain sha pj (pj_chain j)" "pjournal_inv sha pj"
  for sha :: "string \<Rightarrow> string" and pj :: "'p \<Rightarrow> json"
proof (unfold_locales, goal_cases)
  case (1 j t p x ts)
  show ?case
    by (intro exI [of _ "make_event sha pj (pj_chain j) t p x ts"])
      (simp add: persistent_append_def Let_def)
next
  case (2 j t)
  show ?case by (simp add: persistent_read_def)
next
  case (3 j t p x ts)
  then show ?case by (rule pjournal_inv_append)
next
  case (4 j)
  then show ?case by (simp add: pjournal_inv_def)
qed

text \<open>The two journals write the same chain from the same appends.\<close>

lemma persistent_same_chain:
  assumes "j_events m = pj_chain j"
  shows "j_events (snd (append_event sha pj t p x ts m)) = pj_chain (snd (persistent_append sha pj None t p x ts j))"
    and "fst (persistent_append sha pj None t p x ts j) = Inr (fst (append_event sha pj t p x ts m))"
  using assms by (simp_all add: append_event_def persistent_append_def Let_def)

section \<open>Properties\<close>

text \<open>
  C26: restarting loses no journal. After any sequence of appends, some of which the database
  refused, a process that loads the stored rows has the same journal as the one that wrote them,
  and its hash chain verifies; a refused append leaves no trace.\<close>

theorem journal_survives_restart:
  "let j = fold (\<lambda>(fault, t, p, x, ts) j. snd (persistent_append sha pj fault t p x ts j)) xs (load_journal createMemoryBacking)
   in load_journal (pj_store j) = j \<and> verifyChain sha pj (pj_chain j) \<and>
      length (pj_chain j) = length (filter (\<lambda>x. fst x = None) xs)"
proof -
  let ?f = "\<lambda>(fault, t, p, x, ts) j. snd (persistent_append sha pj fault t p x ts j)"
  have "pjournal_inv sha pj (fold ?f xs j) \<and>
      length (pj_chain (fold ?f xs j)) = length (pj_chain j) + length (filter (\<lambda>x. fst x = None) xs)"
    if "pjournal_inv sha pj j" for j
    using that
  proof (induction xs arbitrary: j)
    case (Cons a xs)
    obtain fault t p x ts where a: "a = (fault, t, p, x, ts)" by (metis prod.exhaust)
    have "pjournal_inv sha pj (?f a j)" using pjournal_inv_append [OF Cons.prems] by (simp add: a)
    moreover have "length (pj_chain (?f a j)) = length (pj_chain j) + (if fault = None then 1 else 0)"
      by (cases fault) (simp_all add: a persistent_append_def Let_def)
    ultimately show ?case using Cons.IH [of "?f a j"] by (simp add: a)
  qed simp
  from this [OF pjournal_inv_init] show ?thesis
    using load_after_append by (auto simp: Let_def pjournal_inv_def load_journal_def createMemoryBacking_def allEvents_def load_chain_def)
qed

end
