(* ===== verification/Recovery_Scheduler.thy ===== *)
theory Recovery_Scheduler
  imports Sat_Prelude
begin

text \<open>
  \<^verbatim>\<open>vnext/reliability/recovery_scheduler.js\<close>: the self-rescheduling timer around recovery
  sweeps. The state machine has one step per callback: a call of \<open>start\<close>, \<open>stop\<close> or \<open>runOnce\<close>,
  a timer that fires, and the settling of the sweep in flight. Beside the fields of the object
  the state keeps the timers that are armed, the ticks that wait for the sweep and the number of
  sweeps that are running. The lemmas show that sweeps never overlap, and that at most one timer
  is armed and none after \<open>stop\<close> as long as \<open>start\<close> is called only when the previous sweep has
  drained.
\<close>

record sched =
  sc_timer :: "nat option"
  sc_stopped :: bool
  sc_inFlight :: bool
  sc_sweeps :: nat
  sc_skipped :: nat
  sc_lastError :: "string option"
  sc_armed :: "nat list"
  sc_next :: nat
  sc_waiting :: nat
  sc_running :: nat

definition new_sched :: sched where
  "new_sched = \<lparr>sc_timer = None, sc_stopped = True, sc_inFlight = False, sc_sweeps = 0, sc_skipped = 0,
     sc_lastError = None, sc_armed = [], sc_next = 0, sc_waiting = 0, sc_running = 0\<rparr>"

definition schedule :: "sched \<Rightarrow> sched" where
  "schedule s = (if sc_stopped s then s
     else s\<lparr>sc_timer := Some (sc_next s), sc_armed := sc_armed s @ [sc_next s], sc_next := sc_next s + 1\<rparr>)"

definition start :: "sched \<Rightarrow> sched" where
  "start s = (if \<not> sc_stopped s then s else schedule (s\<lparr>sc_stopped := False\<rparr>))"

definition stop :: "sched \<Rightarrow> sched" where
  "stop s = (case sc_timer s of
     None \<Rightarrow> s\<lparr>sc_stopped := True\<rparr>
   | Some h \<Rightarrow> s\<lparr>sc_stopped := True, sc_armed := removeAll h (sc_armed s), sc_timer := None\<rparr>)"

text \<open>The part of \<open>runOnce\<close> before the first await.\<close>

definition run_once :: "sched \<Rightarrow> sched" where
  "run_once s = (if sc_inFlight s then s else s\<lparr>sc_inFlight := True, sc_running := sc_running s + 1\<rparr>)"

definition fire :: "nat \<Rightarrow> sched \<Rightarrow> sched" where
  "fire h s = run_once (s\<lparr>sc_armed := removeAll h (sc_armed s), sc_waiting := sc_waiting s + 1\<rparr>)"

text \<open>How a sweep ends: the lock was held elsewhere, it returned, or it threw.\<close>

datatype sweep_end = Skipped | Swept | Threw string

fun reschedule_all :: "nat \<Rightarrow> sched \<Rightarrow> sched" where
  "reschedule_all 0 s = s"
| "reschedule_all (Suc n) s = reschedule_all n (schedule s)"

definition settle :: "sweep_end \<Rightarrow> sched \<Rightarrow> sched" where
  "settle e s =
     (let s1 = (case e of Skipped \<Rightarrow> s\<lparr>sc_skipped := sc_skipped s + 1\<rparr> | Swept \<Rightarrow> s\<lparr>sc_lastError := None\<rparr>
                | Threw m \<Rightarrow> s\<lparr>sc_lastError := Some m\<rparr>);
          s2 = s1\<lparr>sc_sweeps := sc_sweeps s1 + 1, sc_inFlight := False, sc_running := sc_running s1 - 1, sc_waiting := 0\<rparr>
      in reschedule_all (sc_waiting s) s2)"

inductive sched_step :: "sched \<Rightarrow> sched \<Rightarrow> bool" where
  start: "sched_step s (start s)"
| stop: "sched_step s (stop s)"
| run_once: "sched_step s (run_once s)"
| fire: "h \<in> set (sc_armed s) \<Longrightarrow> sched_step s (fire h s)"
| settle: "sc_inFlight s \<Longrightarrow> sched_step s (settle e s)"

text \<open>The same, where \<open>start\<close> waits until no sweep is in flight, as \<open>stop\<close> and \<open>drain\<close> allow.\<close>

inductive drained_step :: "sched \<Rightarrow> sched \<Rightarrow> bool" where
  start: "\<not> sc_inFlight s \<Longrightarrow> drained_step s (start s)"
| stop: "drained_step s (stop s)"
| run_once: "drained_step s (run_once s)"
| fire: "h \<in> set (sc_armed s) \<Longrightarrow> drained_step s (fire h s)"
| settle: "sc_inFlight s \<Longrightarrow> drained_step s (settle e s)"

section \<open>Sweeps do not overlap\<close>

definition one_sweep :: "sched \<Rightarrow> bool" where
  "one_sweep s \<longleftrightarrow> sc_running s = (if sc_inFlight s then 1 else 0) \<and> (0 < sc_waiting s \<longrightarrow> sc_inFlight s)"

lemma schedule_same [simp]:
  "sc_running (schedule s) = sc_running s" "sc_inFlight (schedule s) = sc_inFlight s"
  "sc_waiting (schedule s) = sc_waiting s" "sc_stopped (schedule s) = sc_stopped s" "sc_sweeps (schedule s) = sc_sweeps s"
  by (simp_all add: schedule_def)

lemma reschedule_all_same [simp]:
  "sc_running (reschedule_all n s) = sc_running s" "sc_inFlight (reschedule_all n s) = sc_inFlight s"
  "sc_waiting (reschedule_all n s) = sc_waiting s" "sc_stopped (reschedule_all n s) = sc_stopped s"
  "sc_sweeps (reschedule_all n s) = sc_sweeps s"
  by (induction n arbitrary: s) simp_all

lemma one_sweep_step: "sched_step s t \<Longrightarrow> one_sweep s \<Longrightarrow> one_sweep t"
  by (induction rule: sched_step.induct)
    (auto simp: one_sweep_def start_def stop_def run_once_def fire_def settle_def Let_def split: option.splits sweep_end.splits)

lemma one_sweep_reach: "sched_step\<^sup>*\<^sup>* new_sched s \<Longrightarrow> one_sweep s"
  by (induction rule: rtranclp_induct) (simp add: one_sweep_def new_sched_def, erule (1) one_sweep_step)

section \<open>One timer\<close>

text \<open>
  One token is passed between an armed timer and a tick that waits; the object's handle is the
  armed timer if there is one.
\<close>

definition one_timer :: "sched \<Rightarrow> bool" where
  "one_timer s \<longleftrightarrow>
     (0 < sc_waiting s \<longrightarrow> sc_inFlight s) \<and> length (sc_armed s) + sc_waiting s \<le> 1 \<and>
     (\<forall>h \<in> set (sc_armed s). sc_timer s = Some h) \<and> (sc_stopped s \<longrightarrow> sc_armed s = [])"

lemma one_timer_step:
  assumes "drained_step s t" "one_timer s"
  shows "one_timer t"
  using assms
proof (cases rule: drained_step.cases)
  case (fire h)
  then have "sc_armed s = [h]" "sc_waiting s = 0" using assms(2)
    by (cases "sc_armed s"; auto simp: one_timer_def)+
  with fire assms(2) show ?thesis by (auto simp: one_timer_def fire_def run_once_def)
next
  case (settle e)
  then have "sc_waiting s = 0 \<or> sc_waiting s = 1 \<and> sc_armed s = []" using assms(2)
    by (cases "sc_armed s") (auto simp: one_timer_def)
  with settle assms(2) show ?thesis
    by (auto simp: one_timer_def settle_def Let_def schedule_def split: sweep_end.splits)
next
  case start
  with assms(2) show ?thesis by (auto simp: one_timer_def start_def schedule_def)
next
  case stop
  with assms(2) show ?thesis
    by (cases "sc_armed s") (auto simp: one_timer_def stop_def split: option.splits)
next
  case run_once
  with assms(2) show ?thesis by (auto simp: one_timer_def run_once_def)
qed

lemma one_timer_reach: "drained_step\<^sup>*\<^sup>* new_sched s \<Longrightarrow> one_timer s"
  by (induction rule: rtranclp_induct) (simp add: one_timer_def new_sched_def, erule (1) one_timer_step)

section \<open>Properties\<close>

text \<open>
  Recovery sweeps never overlap. Whatever starts, stops, manual runs, timer ticks and
  settlements are interleaved, at most one sweep is running, and exactly one whenever the object
  says that one is in flight.\<close>

theorem sweeps_never_overlap:
  assumes "sched_step\<^sup>*\<^sup>* new_sched s"
  shows "sc_running s \<le> 1 \<and> (sc_inFlight s \<longleftrightarrow> sc_running s = 1)"
  using one_sweep_reach [OF assms] by (simp add: one_sweep_def)

theorem sweeps_never_overlap_witness:
  "sc_running (fire 0 (run_once (start new_sched))) = 1"
proof -
  have "sched_step\<^sup>*\<^sup>* new_sched (run_once (start new_sched))"
    by (rule rtranclp.rtrancl_into_rtrancl [OF r_into_rtranclp]) (rule sched_step.start sched_step.run_once)+
  moreover have "0 \<in> set (sc_armed (run_once (start new_sched)))"
    by (simp add: run_once_def start_def schedule_def new_sched_def)
  ultimately have r: "sched_step\<^sup>*\<^sup>* new_sched (fire 0 (run_once (start new_sched)))"
    by (meson rtranclp.rtrancl_into_rtrancl sched_step.fire)
  have "sc_inFlight (fire 0 (run_once (start new_sched)))"
    by (simp add: fire_def run_once_def)
  then show ?thesis using sweeps_never_overlap [OF r] by blast
qed

text \<open>
  When \<open>start\<close> is called only while no sweep is in flight, at most one timer is armed at any
  time, the object holds its handle, and a stopped scheduler has none.\<close>

theorem one_timer_armed:
  assumes "drained_step\<^sup>*\<^sup>* new_sched s"
  shows "length (sc_armed s) \<le> 1 \<and> (\<forall>h \<in> set (sc_armed s). sc_timer s = Some h) \<and> (sc_stopped s \<longrightarrow> sc_armed s = [])"
  using one_timer_reach [OF assms] by (simp add: one_timer_def)

theorem one_timer_armed_witness: "sc_armed (start new_sched) = [0] \<and> sc_timer (start new_sched) = Some 0"
proof -
  have a: "sc_armed (start new_sched) = [0]" by (simp add: start_def schedule_def new_sched_def)
  have "drained_step new_sched (start new_sched)" by (rule drained_step.start) (simp add: new_sched_def)
  then have r: "drained_step\<^sup>*\<^sup>* new_sched (start new_sched)" ..
  show ?thesis using a one_timer_armed [OF r] by simp
qed

text \<open>
  A restart during a sweep leaves two timers. Stopping and starting again while a sweep is in
  flight arms a second timer when the sweep settles; stopping once more clears only one of them, so
  a timer stays armed after \<open>stop\<close>.\<close>

theorem restart_during_sweep:
  "let s = stop (settle e (start (stop (fire 0 (start new_sched)))))
   in sched_step\<^sup>*\<^sup>* new_sched s \<and> sc_stopped s \<and> sc_armed s \<noteq> []"
proof -
  let ?a = "start new_sched" let ?b = "fire 0 ?a" let ?c = "stop ?b" let ?d = "start ?c" let ?e = "settle e ?d"
  have "0 \<in> set (sc_armed ?a)" by (simp add: start_def schedule_def new_sched_def)
  moreover have "sc_inFlight ?d"
    by (simp add: start_def stop_def schedule_def fire_def run_once_def new_sched_def)
  ultimately have "sched_step new_sched ?a" "sched_step ?a ?b" "sched_step ?b ?c" "sched_step ?c ?d" "sched_step ?d ?e" "sched_step ?e (stop ?e)"
    by (auto intro: sched_step.intros)
  then have "sched_step\<^sup>*\<^sup>* new_sched (stop ?e)" by (meson converse_rtranclp_into_rtranclp rtranclp.rtrancl_refl)
  moreover have "sc_stopped (stop ?e) \<and> sc_armed (stop ?e) \<noteq> []"
    by (simp add: settle_def start_def stop_def schedule_def fire_def run_once_def new_sched_def Let_def split: sweep_end.split)
  ultimately show ?thesis by (simp add: Let_def)
qed

end
