(* ===== verification/Decision_Engine.thy ===== *)
theory Decision_Engine
  imports Sat_Prelude "HOL-Library.Product_Lexorder" "HOL-Library.Multiset"
begin

text \<open>
  \<^verbatim>\<open>vnext/routing/decision_engine.js\<close> and \<^verbatim>\<open>vnext/routing/policies.js\<close>: the weighted
  scoring that picks a supplier. Scores are exact rationals; the code rounds to six decimals and
  so does the model. The digest of the decision's identity is an argument, because the text of
  its weights is that of binary floating point numbers. The lemmas show that weights sum to one
  and normalised scores lie between zero and one, that the winner has the highest total with
  ties broken by identifier, that the outcome does not depend on the order of the candidates,
  and what the single-dimension policies guarantee.
\<close>

section \<open>Policies\<close>

datatype dim = Price | Latency | Availability | Reputation | HistoricalSuccess
  | PaymentCompatibility | SettlementCompatibility | Risk

definition DIMENSIONS :: "dim list" where
  "DIMENSIONS = [Price, Latency, Availability, Reputation, HistoricalSuccess,
     PaymentCompatibility, SettlementCompatibility, Risk]"

record policy =
  pol_name :: string
  pol_weights :: "(dim, rat) jsmap"

definition Policies :: "(string, policy) jsmap" where
  "Policies =
     [(''cheapest'', \<lparr>pol_name = ''cheapest'', pol_weights = [(Price, 1)]\<rparr>),
      (''lowestLatency'', \<lparr>pol_name = ''lowestLatency'', pol_weights = [(Latency, 1)]\<rparr>),
      (''highestReputation'', \<lparr>pol_name = ''highestReputation'', pol_weights = [(Reputation, 1)]\<rparr>),
      (''balanced'', \<lparr>pol_name = ''balanced'', pol_weights = map (\<lambda>d. (d, 1)) DIMENSIONS\<rparr>)]"

definition getPolicy :: "string \<Rightarrow> string + policy" where
  "getPolicy name =
     (case map_of Policies name of
        None \<Rightarrow> Inl (''unknown policy '' @ [CHR 39] @ name @ [CHR 39])
      | Some p \<Rightarrow> Inr p)"

section \<open>Scoring\<close>

record candidate =
  c_supplierId :: string
  c_adapterId :: "string option"
  c_price :: "rat option"
  c_currency :: "string option"
  c_latencyMs :: "rat option"
  c_availability :: "rat option"
  c_reputation :: "rat option"
  c_historicalSuccess :: "rat option"
  c_paymentRail :: "string option"
  c_settlementMode :: "string option"
  c_riskScore :: "rat option"
  c_chain :: "string option"
  c_url :: "string option"
  c_method :: "string option"

record routing_ctx =
  acceptedRails :: "string list option"
  acceptedModes :: "string list option"

definition round6 :: "rat \<Rightarrow> rat" where
  "round6 x = of_int (math_round (x * 1000000)) / 1000000"

definition accepts :: "string list option \<Rightarrow> string option \<Rightarrow> rat" where
  "accepts allowed v =
     (case allowed of
        None \<Rightarrow> 1
      | Some xs \<Rightarrow> if (case v of None \<Rightarrow> False | Some x \<Rightarrow> x \<in> set xs) then 1 else 0)"

fun rawBetter :: "candidate \<Rightarrow> routing_ctx \<Rightarrow> dim \<Rightarrow> rat" where
  "rawBetter c ctx Price = - coalesce (c_price c) 0"
| "rawBetter c ctx Latency = - coalesce (c_latencyMs c) 0"
| "rawBetter c ctx Availability = coalesce (c_availability c) 1"
| "rawBetter c ctx Reputation = coalesce (c_reputation c) 0"
| "rawBetter c ctx HistoricalSuccess = coalesce (c_historicalSuccess c) 1"
| "rawBetter c ctx PaymentCompatibility = accepts (acceptedRails ctx) (c_paymentRail c)"
| "rawBetter c ctx SettlementCompatibility = accepts (acceptedModes ctx) (c_settlementMode c)"
| "rawBetter c ctx Risk = 1 - coalesce (c_riskScore c) 0"

text \<open>The running minimum and maximum of a dimension; before the first value they are infinite.\<close>

fun least :: "rat option \<Rightarrow> rat list \<Rightarrow> rat option" where
  "least m [] = m"
| "least m (x # xs) = least (Some (case m of None \<Rightarrow> x | Some y \<Rightarrow> if x < y then x else y)) xs"

fun greatest :: "rat option \<Rightarrow> rat list \<Rightarrow> rat option" where
  "greatest m [] = m"
| "greatest m (x # xs) = greatest (Some (case m of None \<Rightarrow> x | Some y \<Rightarrow> if x > y then x else y)) xs"

definition normalize_one :: "(dim \<Rightarrow> rat) list \<Rightarrow> (dim \<Rightarrow> rat) \<Rightarrow> dim \<Rightarrow> rat" where
  "normalize_one rawList r d =
     (let mn = the (least None (map (\<lambda>r. r d) rawList)); mx = the (greatest None (map (\<lambda>r. r d) rawList));
          span = mx - mn
      in if span = 0 then 1 else (r d - mn) / span)"

definition normalizeDimensions :: "(dim \<Rightarrow> rat) list \<Rightarrow> (dim \<Rightarrow> rat) list" where
  "normalizeDimensions rawList = map (normalize_one rawList) rawList"

definition normalizeWeights :: "(dim, rat) jsmap \<Rightarrow> dim \<Rightarrow> rat" where
  "normalizeWeights weights =
     (let w = (\<lambda>d. coalesce (map_of weights d) 0); total = sum_list (map w DIMENSIONS)
      in if total = 0 then (\<lambda>_. 1 / of_nat (length DIMENSIONS)) else (\<lambda>d. w d / total))"

record scored =
  sc_supplierId :: string
  sc_candidate :: candidate
  perDimension :: "(dim \<times> rat) list"
  total :: rat

definition score_one :: "(dim \<Rightarrow> rat) \<Rightarrow> candidate \<Rightarrow> (dim \<Rightarrow> rat) \<Rightarrow> scored" where
  "score_one w c n = \<lparr>sc_supplierId = c_supplierId c, sc_candidate = c,
     perDimension = map (\<lambda>d. (d, round6 (n d))) DIMENSIONS,
     total = round6 (sum_list (map (\<lambda>d. w d * n d) DIMENSIONS))\<rparr>"

definition score_all :: "policy \<Rightarrow> routing_ctx \<Rightarrow> candidate list \<Rightarrow> scored list" where
  "score_all pol ctx cs =
     map2 (score_one (normalizeWeights (pol_weights pol))) cs (normalizeDimensions (map (\<lambda>c. rawBetter c ctx) cs))"

text \<open>Total descending, then identifier ascending; the sort of the language is stable.\<close>

definition rank :: "scored list \<Rightarrow> scored list" where
  "rank ss = sort_key (\<lambda>s. (- total s, sc_supplierId s)) ss"

fun lead_from :: "(dim \<Rightarrow> rat) \<Rightarrow> (dim \<times> rat) list \<Rightarrow> dim \<Rightarrow> dim list \<Rightarrow> dim" where
  "lead_from w pd best [] = best"
| "lead_from w pd best (d # ds) =
     lead_from w pd (if w d * the (map_of pd d) > w best * the (map_of pd best) then d else best) ds"

record decision_core =
  core_policy :: string
  core_weights :: "(dim \<times> rat) list"
  core_candidates :: "string list"
  core_chosen :: string
  core_scores :: "(string \<times> (dim \<times> rat) list \<times> rat) list"

record decision =
  decisionId :: string
  dec_timestamp :: int
  dec_policy :: "string \<times> (dim \<times> rat) list"
  chosen :: candidate
  rejected :: "scored list"
  weightedScores :: "(string \<times> rat) list"
  dec_scores :: "(string \<times> (dim \<times> rat) list \<times> rat) list"
  leadDimension :: dim
  confidence :: rat

definition confidence_of :: "scored list \<Rightarrow> rat" where
  "confidence_of ss =
     (let winner = total (hd ss); runnerUp = (if length ss > 1 then total (ss ! 1) else 0)
      in round6 (if winner \<le> 0 then 0 else (winner - runnerUp) / winner))"

definition select :: "(decision_core \<Rightarrow> string) \<Rightarrow> int \<Rightarrow> candidate list \<Rightarrow> policy \<Rightarrow> routing_ctx \<Rightarrow> string + decision" where
  "select hashCore now cs pol ctx =
     (if cs = [] then Inl ''DecisionEngine.select: no candidates''
      else
        (let w = normalizeWeights (pol_weights pol);
             ranked = rank (score_all pol ctx cs);
             winner = hd ranked;
             scores = map (\<lambda>s. (sc_supplierId s, perDimension s, total s)) ranked;
             core = \<lparr>core_policy = pol_name pol, core_weights = map (\<lambda>d. (d, w d)) DIMENSIONS,
                     core_candidates = map c_supplierId cs, core_chosen = sc_supplierId winner,
                     core_scores = scores\<rparr>
         in Inr \<lparr>decisionId = ''dec_'' @ take 24 (hashCore core), dec_timestamp = now,
                 dec_policy = (core_policy core, core_weights core), chosen = sc_candidate winner,
                 rejected = tl ranked, weightedScores = map (\<lambda>s. (sc_supplierId s, total s)) ranked,
                 dec_scores = scores, leadDimension = lead_from w (perDimension winner) (hd DIMENSIONS) DIMENSIONS,
                 confidence = confidence_of ranked\<rparr>))"

section \<open>Rounding and weights\<close>

lemma round6_mono: "x \<le> y \<Longrightarrow> round6 x \<le> round6 y"
  unfolding round6_def by (simp add: divide_right_mono math_round_mono)

lemma round6_simps [simp]: "round6 0 = 0" "round6 1 = 1"
  using math_round_int [of 0] math_round_int [of 1000000] by (simp_all add: round6_def)

lemma round6_unit: "0 \<le> x \<Longrightarrow> x \<le> 1 \<Longrightarrow> 0 \<le> round6 x \<and> round6 x \<le> 1"
  using round6_mono [of 0 x] round6_mono [of x 1] by simp

lemma round6_close: "\<bar>round6 x - x\<bar> \<le> 1 / 2000000"
proof -
  have "of_int (math_round (x * 1000000)) \<le> x * 1000000 + 1 / 2"
    "x * 1000000 - 1 / 2 < of_int (math_round (x * 1000000))"
    unfolding math_round_def by linarith+
  then show ?thesis unfolding round6_def abs_le_iff by (simp add: field_simps)
qed

lemma DIMENSIONS_all: "d \<in> set DIMENSIONS"
  by (cases d) (simp_all add: DIMENSIONS_def)

lemma normalizeWeights_sum: "sum_list (map (normalizeWeights ws) DIMENSIONS) = 1"
  by (simp add: normalizeWeights_def Let_def DIMENSIONS_def divide_simps)

lemma normalizeWeights_nonneg:
  assumes "\<forall>p \<in> set ws. 0 \<le> snd p"
  shows "0 \<le> normalizeWeights ws d"
proof -
  have "0 \<le> coalesce (map_of ws e) 0" for e
    using assms by (fastforce simp: coalesce_def dest: map_of_SomeD split: option.splits)
  then show ?thesis
    by (auto simp: normalizeWeights_def Let_def intro!: divide_nonneg_nonneg sum_list_nonneg)
qed

lemma normalizeWeights_single: "normalizeWeights [(d, 1)] e = (if e = d then 1 else 0)"
  by (cases d; cases e) (simp_all add: normalizeWeights_def DIMENSIONS_def)

section \<open>Normalised scores\<close>

lemma least_le: "least m xs = Some y \<Longrightarrow> (\<forall>x \<in> set xs. y \<le> x) \<and> (\<forall>z. m = Some z \<longrightarrow> y \<le> z)"
  by (induction m xs rule: least.induct) (auto split: option.splits if_splits)

lemma least_mem: "least m xs = Some y \<Longrightarrow> y \<in> set xs \<or> m = Some y"
  by (induction m xs rule: least.induct) (auto split: option.splits if_splits)

lemma least_some: "xs \<noteq> [] \<or> m \<noteq> None \<Longrightarrow> \<exists>y. least m xs = Some y"
  by (induction m xs rule: least.induct) auto

lemma greatest_least: "greatest (map_option uminus m) (map uminus xs) = map_option uminus (least m xs)"
proof (induction m xs rule: least.induct)
  case (2 m x xs)
  then show ?case by (cases m) (simp_all split: if_splits)
qed simp

lemma least_Min: "xs \<noteq> [] \<Longrightarrow> least None xs = Some (Min (set xs))"
  by (metis List.finite_set Min_eqI least_le least_mem least_some option.distinct(1))

lemma greatest_Max: "xs \<noteq> [] \<Longrightarrow> greatest None xs = Some (Max (set xs))"
proof -
  assume ne: "xs \<noteq> []"
  then have "greatest None xs = map_option uminus (least None (map uminus xs))"
    using greatest_least [of None "map uminus xs"] by (simp add: comp_def)
  also have "\<dots> = Some (- Min (uminus ` set xs))" using ne by (simp add: least_Min)
  also have "- Min (uminus ` set xs) = Max (set xs)"
    using ne by (simp add: minus_Min_eq_Max image_image)
  finally show ?thesis .
qed

lemma normalize_one_eq:
  assumes "rs \<noteq> []"
  shows "normalize_one rs r d =
    (let lo = Min ((\<lambda>r. r d) ` set rs); hi = Max ((\<lambda>r. r d) ` set rs)
     in if hi - lo = 0 then 1 else (r d - lo) / (hi - lo))"
  using assms by (simp add: normalize_one_def least_Min greatest_Max Let_def)

lemma normalize_one_unit:
  assumes "r \<in> set rs"
  shows "0 \<le> normalize_one rs r d \<and> normalize_one rs r d \<le> 1"
proof -
  let ?V = "(\<lambda>r. r d) ` set rs"
  have v: "Min ?V \<le> r d" "r d \<le> Max ?V" using assms by simp_all
  have "rs \<noteq> []" using assms by auto
  note eq = normalize_one_eq [OF this, of r d]
  show ?thesis
  proof (cases "Max ?V - Min ?V = 0")
    case False
    with v have "0 < Max ?V - Min ?V" by linarith
    with v False show ?thesis by (simp add: eq Let_def)
  qed (simp add: eq Let_def)
qed

lemma normalize_one_mono:
  assumes "rs \<noteq> []" "r d \<le> q d" "r \<in> set rs"
  shows "normalize_one rs r d \<le> normalize_one rs q d"
proof -
  let ?V = "(\<lambda>r. r d) ` set rs"
  have "Min ?V \<le> r d" "r d \<le> Max ?V" using assms(3) by simp_all
  then have "0 \<le> Max ?V - Min ?V" by linarith
  with assms(1,2) show ?thesis
    by (auto simp: normalize_one_eq Let_def intro!: divide_right_mono)
qed

lemma normalize_one_best:
  assumes "rs \<noteq> []" "\<forall>q \<in> set rs. q d \<le> r d" "r \<in> set rs"
  shows "normalize_one rs r d = 1"
proof -
  have "Max ((\<lambda>r. r d) ` set rs) = r d" using assms by (intro Max_eqI) auto
  with assms(1) show ?thesis by (simp add: normalize_one_eq Let_def)
qed

section \<open>Totals\<close>

definition score_of :: "policy \<Rightarrow> routing_ctx \<Rightarrow> candidate list \<Rightarrow> candidate \<Rightarrow> scored" where
  "score_of pol ctx cs c = score_one (normalizeWeights (pol_weights pol)) c
     (normalize_one (map (\<lambda>c. rawBetter c ctx) cs) (rawBetter c ctx))"

lemma score_all_map: "score_all pol ctx cs = map (score_of pol ctx cs) cs"
  by (simp add: score_all_def normalizeDimensions_def score_of_def zip_map2 zip_same_conv_map comp_def)

lemma score_of_simps [simp]:
  "sc_supplierId (score_of pol ctx cs c) = c_supplierId c" "sc_candidate (score_of pol ctx cs c) = c"
  by (simp_all add: score_of_def score_one_def)

text \<open>The score of a candidate depends on the set of candidates only.\<close>

lemma score_of_set: "set cs = set ds \<Longrightarrow> cs \<noteq> [] \<Longrightarrow> score_of pol ctx cs c = score_of pol ctx ds c"
proof -
  assume eq: "set cs = set ds" "cs \<noteq> []"
  then have "ds \<noteq> []" by auto
  with eq have "normalize_one (map (\<lambda>c. rawBetter c ctx) cs) r = normalize_one (map (\<lambda>c. rawBetter c ctx) ds) r" for r
    by (intro ext) (simp add: normalize_one_eq)
  then show ?thesis by (simp add: score_of_def)
qed

lemma total_unit:
  assumes "c \<in> set cs" "\<forall>p \<in> set (pol_weights pol). 0 \<le> snd p"
  shows "0 \<le> total (score_of pol ctx cs c) \<and> total (score_of pol ctx cs c) \<le> 1"
proof -
  let ?w = "normalizeWeights (pol_weights pol)"
  let ?n = "normalize_one (map (\<lambda>c. rawBetter c ctx) cs) (rawBetter c ctx)"
  have n: "0 \<le> ?n d \<and> ?n d \<le> 1" for d by (rule normalize_one_unit) (use assms(1) in simp)
  have w: "0 \<le> ?w d" for d using normalizeWeights_nonneg [OF assms(2)] .
  have "0 \<le> sum_list (map (\<lambda>d. ?w d * ?n d) DIMENSIONS)"
    by (rule sum_list_nonneg) (use n w in auto)
  moreover have "sum_list (map (\<lambda>d. ?w d * ?n d) DIMENSIONS) \<le> sum_list (map ?w DIMENSIONS)"
    by (rule sum_list_mono) (use n w mult_left_le in blast)
  ultimately show ?thesis
    using round6_unit by (simp add: score_of_def score_one_def normalizeWeights_sum)
qed

text \<open>A candidate at least as good in every dimension scores at least as high.\<close>

lemma total_mono:
  assumes "b \<in> set cs" "\<forall>p \<in> set (pol_weights pol). 0 \<le> snd p" "\<And>d. rawBetter b ctx d \<le> rawBetter a ctx d"
  shows "total (score_of pol ctx cs b) \<le> total (score_of pol ctx cs a)"
proof -
  let ?rs = "map (\<lambda>c. rawBetter c ctx) cs"
  have "?rs \<noteq> []" using assms(1) by auto
  then have "normalize_one ?rs (rawBetter b ctx) d \<le> normalize_one ?rs (rawBetter a ctx) d" for d
    by (rule normalize_one_mono) (use assms(1,3) in auto)
  then show ?thesis
    using normalizeWeights_nonneg [OF assms(2)]
    by (auto simp: score_of_def score_one_def intro!: round6_mono sum_list_mono mult_left_mono)
qed

section \<open>The winner\<close>

lemma rank_head:
  assumes "ss \<noteq> []"
  shows "hd (rank ss) \<in> set ss" and "\<forall>s \<in> set ss. (- total (hd (rank ss)), sc_supplierId (hd (rank ss))) \<le> (- total s, sc_supplierId s)"
proof -
  let ?k = "\<lambda>s. (- total s, sc_supplierId s)"
  have mset: "mset (rank ss) = mset ss" by (simp add: rank_def)
  then have ne: "rank ss \<noteq> []" and set: "set (rank ss) = set ss" using assms mset_eq_setD by auto
  then show "hd (rank ss) \<in> set ss" using hd_in_set by blast
  have "sorted (map ?k (rank ss))" by (simp add: rank_def)
  with ne have "\<forall>s \<in> set (rank ss). ?k (hd (rank ss)) \<le> ?k s"
    by (cases "rank ss") auto
  with set show "\<forall>s \<in> set ss. ?k (hd (rank ss)) \<le> ?k s" by simp
qed

lemma select_Inr:
  "cs \<noteq> [] \<Longrightarrow> select h now cs pol ctx = Inr d \<Longrightarrow> chosen d = sc_candidate (hd (rank (score_all pol ctx cs)))"
  by (auto simp: select_def Let_def)

lemma select_winner:
  assumes "select h now cs pol ctx = Inr d"
  shows "chosen d \<in> set cs"
    and "\<And>c. c \<in> set cs \<Longrightarrow> total (score_of pol ctx cs c) \<le> total (score_of pol ctx cs (chosen d))"
    and "\<And>c. c \<in> set cs \<Longrightarrow> total (score_of pol ctx cs c) = total (score_of pol ctx cs (chosen d)) \<Longrightarrow>
      c_supplierId (chosen d) \<le> c_supplierId c"
proof -
  have ne: "cs \<noteq> []" using assms by (auto simp: select_def)
  let ?ss = "map (score_of pol ctx cs) cs"
  have ch: "chosen d = sc_candidate (hd (rank ?ss))"
    using select_Inr [OF ne assms] by (simp add: score_all_map)
  have "?ss \<noteq> []" using ne by simp
  note hd = rank_head [OF this]
  from hd(1) obtain c where c: "c \<in> set cs" "hd (rank ?ss) = score_of pol ctx cs c" by auto
  with ch have cd: "chosen d = c" by simp
  then show "chosen d \<in> set cs" using c by simp
  have le: "(- total (score_of pol ctx cs c), c_supplierId c) \<le> (- total (score_of pol ctx cs b), c_supplierId b)"
    if "b \<in> set cs" for b using hd(2) that c(2) by auto
  show "total (score_of pol ctx cs b) \<le> total (score_of pol ctx cs (chosen d))" if "b \<in> set cs" for b
    using le [OF that] cd by (auto simp: less_eq_prod_def)
  show "c_supplierId (chosen d) \<le> c_supplierId b"
    if "b \<in> set cs" "total (score_of pol ctx cs b) = total (score_of pol ctx cs (chosen d))" for b
    using le [OF that(1)] that(2) cd by (auto simp: less_eq_prod_def)
qed

text \<open>With distinct identifiers the ranking is that of any other order of the candidates.\<close>

lemma rank_perm:
  assumes "mset ss = mset ts" "distinct (map sc_supplierId ss)"
  shows "rank ss = rank ts"
proof -
  let ?k = "\<lambda>s. (- total s, sc_supplierId s)"
  have set: "set ts = set ss" using assms(1) mset_eq_setD by metis
  have inj: "inj_on ?k (set ss)" using assms(2) by (auto simp: distinct_map inj_on_def)
  moreover have "distinct ss" using assms(2) by (simp add: distinct_map)
  moreover have "distinct ts" using \<open>distinct ss\<close> assms(1) by (metis mset_eq_imp_distinct_iff)
  ultimately show ?thesis
    unfolding rank_def
    by (intro map_sorted_distinct_set_unique [where f = ?k]) (simp_all add: set distinct_map)
qed

section \<open>What the policies promise\<close>

lemma single_total:
  assumes "pol_weights pol = [(d, 1)]"
  shows "total (score_of pol ctx cs c) = round6 (normalize_one (map (\<lambda>c. rawBetter c ctx) cs) (rawBetter c ctx) d)"
proof -
  have "sum_list (map (\<lambda>e. normalizeWeights [(d, 1)] e * f e) DIMENSIONS) = f d" for f :: "dim \<Rightarrow> rat"
    by (cases d) (simp_all add: normalizeWeights_single DIMENSIONS_def)
  then show ?thesis by (simp add: score_of_def score_one_def assms)
qed

text \<open>
  Under a policy of one dimension the winner is the best in that dimension, up to what the
  rounding of scores to six decimals hides.
\<close>

lemma single_dimension_winner:
  assumes "select h now cs pol ctx = Inr dec" "pol_weights pol = [(d, 1)]" "b \<in> set cs"
  shows "rawBetter b ctx d - rawBetter (chosen dec) ctx d
    \<le> (Max ((\<lambda>c. rawBetter c ctx d) ` set cs) - Min ((\<lambda>c. rawBetter c ctx d) ` set cs)) / 2000000"
proof -
  let ?V = "(\<lambda>c. rawBetter c ctx d) ` set cs"
  let ?n = "\<lambda>c. normalize_one (map (\<lambda>c. rawBetter c ctx) cs) (rawBetter c ctx) d"
  note win = select_winner [OF assms(1)]
  have "Max ?V \<in> ?V" using assms(3) by (intro Max_in) auto
  then obtain m where m: "m \<in> set cs" "rawBetter m ctx d = Max ?V" by auto
  have "?n m = 1" by (rule normalize_one_best) (use m in auto)
  with win(2) [OF m(1)] have "1 \<le> round6 (?n (chosen dec))"
    by (simp add: single_total [OF assms(2)])
  with round6_close [of "?n (chosen dec)"] have close: "1 - 1 / 2000000 \<le> ?n (chosen dec)" by linarith
  have ne: "cs \<noteq> []" using assms(3) by auto
  have b: "rawBetter b ctx d \<le> Max ?V" using assms(3) by simp
  show ?thesis
  proof (cases "Max ?V - Min ?V = 0")
    case True
    moreover have "Min ?V \<le> rawBetter (chosen dec) ctx d" using win(1) by simp
    ultimately show ?thesis using b by simp
  next
    case False
    moreover have "Min ?V \<le> Max ?V" using m(1) by (metis List.finite_set Min_le finite_imageI image_eqI m(2))
    ultimately have pos: "0 < Max ?V - Min ?V" by simp
    have "?n (chosen dec) = (rawBetter (chosen dec) ctx d - Min ?V) / (Max ?V - Min ?V)"
      using ne False by (simp add: normalize_one_eq Let_def image_image)
    with close have "(1 - 1 / 2000000) * (Max ?V - Min ?V) \<le> rawBetter (chosen dec) ctx d - Min ?V"
      using pos by (simp add: pos_le_divide_eq)
    then have "Max ?V - Min ?V - (Max ?V - Min ?V) / 2000000 \<le> rawBetter (chosen dec) ctx d - Min ?V"
      by (simp only: left_diff_distrib mult_1 times_divide_eq_left)
    with b show ?thesis by linarith
  qed
qed

lemma confidence_unit:
  assumes "cs \<noteq> []" "\<forall>p \<in> set (pol_weights pol). 0 \<le> snd p"
  shows "0 \<le> confidence_of (rank (score_all pol ctx cs)) \<and> confidence_of (rank (score_all pol ctx cs)) \<le> 1"
proof -
  let ?ss = "score_all pol ctx cs"
  have unit: "0 \<le> total s \<and> total s \<le> 1" if "s \<in> set ?ss" for s
    using that total_unit [OF _ assms(2)] by (auto simp: score_all_map)
  have ne: "?ss \<noteq> []" using assms(1) by (simp add: score_all_map)
  have mem: "set (rank ?ss) = set ?ss" by (simp add: rank_def)
  note hd = rank_head [OF ne]
  have snd: "0 \<le> total (rank ?ss ! 1) \<and> total (rank ?ss ! 1) \<le> total (hd (rank ?ss))" if "length (rank ?ss) > 1"
  proof -
    have "rank ?ss ! 1 \<in> set ?ss" using that mem by (metis nth_mem)
    with hd(2) unit show ?thesis by (fastforce simp: less_eq_prod_def)
  qed
  have h: "0 \<le> total (hd (rank ?ss))" using unit hd(1) by blast
  have "0 \<le> (if length (rank ?ss) > 1 then total (rank ?ss ! 1) else 0) \<and>
      (if length (rank ?ss) > 1 then total (rank ?ss ! 1) else 0) \<le> total (hd (rank ?ss))"
    using snd h by simp
  then show ?thesis unfolding confidence_of_def Let_def
    by (intro round6_unit [THEN conjunct1, THEN conjI, OF _ _ round6_unit [THEN conjunct2]])
      (auto simp: divide_le_eq)
qed

section \<open>Properties\<close>


text \<open>
  The order in which the candidates arrive does not matter. With distinct identifiers, any
  permutation of the candidates gives the same ranking and the same winner.\<close>

theorem select_order_independent:
  assumes "mset cs = mset ds" "distinct (map c_supplierId cs)" "cs \<noteq> []"
  shows "rank (score_all pol ctx cs) = rank (score_all pol ctx ds) \<and>
    map_sum id chosen (select h now cs pol ctx) = map_sum id chosen (select h now ds pol ctx)"
proof -
  have st: "set cs = set ds" and ne: "ds \<noteq> []" using assms(1,3) by (auto dest: mset_eq_setD)
  have "score_of pol ctx cs = score_of pol ctx ds" using score_of_set [OF st assms(3)] by blast
  then have "mset (score_all pol ctx cs) = mset (score_all pol ctx ds)"
    using assms(1) by (simp add: score_all_map)
  moreover have "distinct (map sc_supplierId (score_all pol ctx cs))"
    using assms(2) by (simp add: score_all_map comp_def)
  ultimately have "rank (score_all pol ctx cs) = rank (score_all pol ctx ds)" by (rule rank_perm)
  then show ?thesis using assms(3) ne by (simp add: select_def Let_def)
qed

text \<open>
  The cheapest policy is cheapest up to the rounding of scores to six digits: the chosen price
  exceeds no candidate's price by more than a two-millionth of the price range.\<close>

theorem cheapest_policy:
  assumes "getPolicy ''cheapest'' = Inr pol" "select h now cs pol ctx = Inr d" "b \<in> set cs"
  shows "coalesce (c_price (chosen d)) 0 - coalesce (c_price b) 0
    \<le> (Max ((\<lambda>c. coalesce (c_price c) 0) ` set cs) - Min ((\<lambda>c. coalesce (c_price c) 0) ` set cs)) / 2000000"
proof -
  have w: "pol_weights pol = [(Price, 1)]" using assms(1) by (simp add: getPolicy_def Policies_def) auto
  let ?p = "\<lambda>c. coalesce (c_price c) 0 :: rat"
  have "(\<lambda>c. rawBetter c ctx Price) ` set cs = uminus ` (?p ` set cs)" by auto
  moreover have "finite (?p ` set cs)" "?p ` set cs \<noteq> {}" using assms(3) by auto
  ultimately have "Max ((\<lambda>c. rawBetter c ctx Price) ` set cs) = - Min (?p ` set cs)"
    "Min ((\<lambda>c. rawBetter c ctx Price) ` set cs) = - Max (?p ` set cs)"
    by (metis minus_Min_eq_Max minus_Max_eq_Min)+
  with single_dimension_winner [OF assms(2) w assms(3)] show ?thesis by simp
qed

definition sample_candidate :: "string \<Rightarrow> rat \<Rightarrow> candidate" where
  "sample_candidate i p = \<lparr>c_supplierId = i, c_adapterId = None, c_price = Some p, c_currency = None, c_latencyMs = None,
     c_availability = None, c_reputation = None, c_historicalSuccess = None, c_paymentRail = None, c_settlementMode = None,
     c_riskScore = None, c_chain = None, c_url = None, c_method = None\<rparr>"

abbreviation sample_candidates :: "candidate list" where
  "sample_candidates \<equiv> [sample_candidate ''a'' 7, sample_candidate ''b'' 3]"

abbreviation open_context :: routing_ctx where
  "open_context \<equiv> \<lparr>acceptedRails = None, acceptedModes = None\<rparr>"

lemma sample_select:
  "\<exists>d. select (\<lambda>_. ''h'') 0 sample_candidates \<lparr>pol_name = ''cheapest'', pol_weights = [(Price, 1)]\<rparr> open_context = Inr d"
  by (simp add: select_def Let_def)


theorem select_order_independent_witness:
  "rank (score_all \<lparr>pol_name = ''cheapest'', pol_weights = [(Price, 1)]\<rparr> open_context sample_candidates) =
   rank (score_all \<lparr>pol_name = ''cheapest'', pol_weights = [(Price, 1)]\<rparr> open_context (rev sample_candidates))"
proof -
  have m: "mset sample_candidates = mset (rev sample_candidates)" by simp
  have d: "distinct (map c_supplierId sample_candidates)" by (simp add: sample_candidate_def)
  have n: "sample_candidates \<noteq> []" by simp
  show ?thesis using select_order_independent [OF m d n] by blast
qed

theorem cheapest_policy_witness:
  "\<exists>d. select (\<lambda>_. ''h'') 0 sample_candidates \<lparr>pol_name = ''cheapest'', pol_weights = [(Price, 1)]\<rparr> open_context = Inr d \<and>
     coalesce (c_price (chosen d)) 0 - 3 \<le> 4 / 2000000"
proof -
  obtain d where d: "select (\<lambda>_. ''h'') 0 sample_candidates \<lparr>pol_name = ''cheapest'', pol_weights = [(Price, 1)]\<rparr> open_context = Inr d"
    using sample_select by blast
  have g: "getPolicy ''cheapest'' = Inr \<lparr>pol_name = ''cheapest'', pol_weights = [(Price, 1)]\<rparr>" by (simp add: getPolicy_def Policies_def)
  have b: "sample_candidate ''b'' 3 \<in> set sample_candidates" by simp
  show ?thesis using d cheapest_policy [OF g d b] by (intro exI [of _ d]) (simp add: sample_candidate_def)
qed

end
