(* ===== verification/Supplier_Registry.thy ===== *)
theory Supplier_Registry
  imports Decision_Engine Durable_Store
begin

text \<open>
  \<^verbatim>\<open>vnext/registry/supplier_registry.js\<close>, \<^verbatim>\<open>vnext/registry/health_monitor.js\<close> and
  \<^verbatim>\<open>vnext/reliability/persistent_supplier_registry.js\<close>: the inventory of suppliers, the sweep
  that takes stale ones offline and the durable wrapper. Every mutation is journaled as a full
  snapshot. The lemmas show that replaying the journal rebuilds the registry, order included,
  that only routable suppliers that match the query become candidates, that after a sweep no
  stale supplier is a candidate, that a heartbeat undoes only what a stale heartbeat did, and
  that a restart from the durable store preserves the candidates.

  \<open>clk i\<close> is the i-th reading of the injected clock in a call.
\<close>

type_synonym readings = "nat \<Rightarrow> int"

definition HEALTHY :: string where "HEALTHY = ''healthy''"
definition DEGRADED :: string where "DEGRADED = ''degraded''"
definition MAINTENANCE :: string where "MAINTENANCE = ''maintenance''"
definition OFFLINE :: string where "OFFLINE = ''offline''"

lemmas status_defs = HEALTHY_def DEGRADED_def MAINTENANCE_def OFFLINE_def

record supplier =
  sup_supplierId :: string
  sup_adapterId :: string
  sup_capabilities :: "string list"
  supportedWorkloads :: "string list"
  supportedSettlementModes :: "string list"
  supportedPaymentRails :: "string list"
  supportedChains :: "string list"
  sup_health :: string
  sup_status :: string
  sup_availability :: rat
  sup_latency :: rat
  basePrice :: rat
  sup_currency :: string
  sup_reputation :: rat
  sup_version :: string
  offlineReason :: "string option"
  lastHeartbeat :: int
  registeredAt :: int
  updatedAt :: int
  paymentMethods :: "string list option"
  protocols :: "string list option"
  successRate :: "rat option"
  sup_source :: "string option"
  marketMeta :: "(string, json) jsmap option"

record supplier_spec =
  sp_supplierId :: "string option"
  sp_adapterId :: "string option"
  sp_capabilities :: "string list option"
  sp_workloads :: "string list option"
  sp_modes :: "string list option"
  sp_rails :: "string list option"
  sp_chains :: "string list option"
  sp_health :: "string option"
  sp_status :: "string option"
  sp_latency :: "rat option"
  sp_basePrice :: "rat option"
  sp_currency :: "string option"
  sp_reputation :: "rat option"
  sp_version :: "string option"

text \<open>What the shared journal holds: supplier snapshots, removals and foreign events.\<close>

datatype 'q reg_payload = SnapshotP supplier | RemovedP string | ForeignP 'q

record 'q registry =
  reg_suppliers :: "(string, supplier) jsmap"
  reg_journal :: "'q reg_payload journal"

definition availability_of :: "string \<Rightarrow> rat" where
  "availability_of status = (if status = HEALTHY then 1 else if status = DEGRADED then 1 / 2 else 0)"

definition supplier_stream :: "string \<Rightarrow> string" where
  "supplier_stream i = ''supplier:'' @ i"

definition record_op :: "(string \<Rightarrow> string) \<Rightarrow> ('q reg_payload \<Rightarrow> json) \<Rightarrow> string \<Rightarrow> supplier \<Rightarrow> int \<Rightarrow> 'q registry \<Rightarrow> 'q registry" where
  "record_op sha pj op s ts g =
     g\<lparr>reg_journal := snd (append_event sha pj (supplier_stream (sup_supplierId s)) op (SnapshotP s) ts (reg_journal g))\<rparr>"

text \<open>Replace a supplier and journal its snapshot: the last two lines of every mutator.\<close>

definition store_and_record :: "(string \<Rightarrow> string) \<Rightarrow> ('q reg_payload \<Rightarrow> json) \<Rightarrow> string \<Rightarrow> supplier \<Rightarrow> int \<Rightarrow> 'q registry \<Rightarrow> 'q registry" where
  "store_and_record sha pj op s ts g =
     record_op sha pj op s ts (g\<lparr>reg_suppliers := mset_key (sup_supplierId s) s (reg_suppliers g)\<rparr>)"

definition build_supplier :: "supplier_spec \<Rightarrow> int \<Rightarrow> supplier" where
  "build_supplier spec now =
     (let status = or_str (sp_status spec) HEALTHY
      in \<lparr>sup_supplierId = the (sp_supplierId spec), sup_adapterId = the (sp_adapterId spec),
          sup_capabilities = coalesce (sp_capabilities spec) [],
          supportedWorkloads = coalesce (sp_workloads spec) [],
          supportedSettlementModes = coalesce (sp_modes spec) [],
          supportedPaymentRails = coalesce (sp_rails spec) [],
          supportedChains = coalesce (sp_chains spec) [],
          sup_health = or_str (sp_health spec) ''healthy'', sup_status = status,
          sup_availability = availability_of status, sup_latency = coalesce (sp_latency spec) 0,
          basePrice = coalesce (sp_basePrice spec) 0, sup_currency = or_str (sp_currency spec) ''USDC'',
          sup_reputation = coalesce (sp_reputation spec) 50, sup_version = or_str (sp_version spec) ''1'',
          offlineReason = None, lastHeartbeat = now, registeredAt = now, updatedAt = now,
          paymentMethods = None, protocols = None, successRate = None, sup_source = None, marketMeta = None\<rparr>)"

definition register :: "(string \<Rightarrow> string) \<Rightarrow> ('q reg_payload \<Rightarrow> json) \<Rightarrow> readings \<Rightarrow> supplier_spec \<Rightarrow> ('q registry, supplier) em" where
  "register sha pj clk spec g =
     (if sp_supplierId spec = None then (Inl ''supplier missing required field supplierId'', g)
      else if sp_adapterId spec = None then (Inl ''supplier missing required field adapterId'', g)
      else let s = build_supplier spec (clk 0) in (Inr s, store_and_record sha pj ''REGISTER'' s (clk 1) g))"

definition unregister :: "(string \<Rightarrow> string) \<Rightarrow> ('q reg_payload \<Rightarrow> json) \<Rightarrow> readings \<Rightarrow> string \<Rightarrow> 'q registry \<Rightarrow> bool \<times> 'q registry" where
  "unregister sha pj clk i g =
     (case map_of (reg_suppliers g) i of
        None \<Rightarrow> (False, g)
      | Some s \<Rightarrow> (True, \<lparr>reg_suppliers = mdelete i (reg_suppliers g),
          reg_journal = snd (append_event sha pj (supplier_stream i) ''UNREGISTER'' (RemovedP i) (clk 0) (reg_journal g))\<rparr>))"

definition require :: "string \<Rightarrow> 'q registry \<Rightarrow> string + supplier" where
  "require i g =
     (case map_of (reg_suppliers g) i of
        None \<Rightarrow> Inl (''unknown supplier '' @ [CHR 39] @ i @ [CHR 39])
      | Some s \<Rightarrow> Inr s)"

text \<open>A mutator finds the supplier, changes it and journals the snapshot.\<close>

definition mutate :: "(string \<Rightarrow> string) \<Rightarrow> ('q reg_payload \<Rightarrow> json) \<Rightarrow> string \<Rightarrow> int \<Rightarrow> (supplier \<Rightarrow> supplier) \<Rightarrow> string \<Rightarrow> ('q registry, supplier) em" where
  "mutate sha pj op ts f i g =
     (case require i g of
        Inl e \<Rightarrow> (Inl e, g)
      | Inr s \<Rightarrow> (Inr (f s), store_and_record sha pj op (f s) ts g))"

definition beat :: "rat option \<Rightarrow> int option \<Rightarrow> readings \<Rightarrow> supplier \<Rightarrow> supplier" where
  "beat latency ts clk s =
     (let s = s\<lparr>lastHeartbeat := coalesce ts (clk 0)\<rparr>;
          s = (case latency of None \<Rightarrow> s | Some l \<Rightarrow> s\<lparr>sup_latency := l\<rparr>);
          s = (if sup_status s = OFFLINE \<and> offlineReason s = Some ''stale''
               then s\<lparr>sup_status := HEALTHY, offlineReason := None, sup_availability := availability_of HEALTHY\<rparr> else s)
      in s\<lparr>updatedAt := clk 1\<rparr>)"

definition heartbeat :: "(string \<Rightarrow> string) \<Rightarrow> ('q reg_payload \<Rightarrow> json) \<Rightarrow> readings \<Rightarrow> string \<Rightarrow> rat option \<Rightarrow> int option \<Rightarrow> ('q registry, supplier) em" where
  "heartbeat sha pj clk i latency ts = mutate sha pj ''HEARTBEAT'' (clk 2) (beat latency ts clk) i"

definition set_health :: "string option \<Rightarrow> string option \<Rightarrow> string option \<Rightarrow> readings \<Rightarrow> supplier \<Rightarrow> supplier" where
  "set_health status health reason clk s =
     (let s = (if truthy status
               then s\<lparr>sup_status := the status,
                      offlineReason := (if the status = OFFLINE then Some (or_str reason ''manual'') else None)\<rparr> else s);
          s = (if truthy health then s\<lparr>sup_health := the health\<rparr> else s)
      in s\<lparr>sup_availability := availability_of (sup_status s), updatedAt := clk 0\<rparr>)"

definition updateHealth :: "(string \<Rightarrow> string) \<Rightarrow> ('q reg_payload \<Rightarrow> json) \<Rightarrow> readings \<Rightarrow> string \<Rightarrow> string option \<Rightarrow> string option \<Rightarrow> string option \<Rightarrow> ('q registry, supplier) em" where
  "updateHealth sha pj clk i status health reason =
     mutate sha pj ''HEALTH'' (clk 1) (set_health status health reason clk) i"

definition updateReputation :: "(string \<Rightarrow> string) \<Rightarrow> ('q reg_payload \<Rightarrow> json) \<Rightarrow> readings \<Rightarrow> string \<Rightarrow> rat option \<Rightarrow> ('q registry, supplier) em" where
  "updateReputation sha pj clk i reputation =
     mutate sha pj ''REPUTATION'' (clk 1) (\<lambda>s.
       (case reputation of None \<Rightarrow> s | Some r \<Rightarrow> s\<lparr>sup_reputation := clampQ 0 100 r\<rparr>)\<lparr>updatedAt := clk 0\<rparr>) i"

record market_patch =
  mp_paymentMethods :: "string list option"
  mp_protocols :: "string list option"
  mp_successRate :: "rat option"
  mp_source :: "string option"
  mp_marketMeta :: "(string, json) jsmap option"

definition spread_meta :: "(string, json) jsmap option \<Rightarrow> (string, json) jsmap \<Rightarrow> (string, json) jsmap" where
  "spread_meta old new = foldl (\<lambda>m kv. mset_key (fst kv) (snd kv) m) (coalesce old []) new"

definition patch_metadata :: "market_patch \<Rightarrow> int \<Rightarrow> supplier \<Rightarrow> supplier" where
  "patch_metadata p now s =
     s\<lparr>paymentMethods := (case mp_paymentMethods p of None \<Rightarrow> paymentMethods s | x \<Rightarrow> x),
       protocols := (case mp_protocols p of None \<Rightarrow> protocols s | x \<Rightarrow> x),
       successRate := (case mp_successRate p of None \<Rightarrow> successRate s | x \<Rightarrow> x),
       sup_source := (if truthy (mp_source p) then mp_source p else sup_source s),
       marketMeta := (case mp_marketMeta p of None \<Rightarrow> marketMeta s | Some m \<Rightarrow> Some (spread_meta (marketMeta s) m)),
       updatedAt := now\<rparr>"

definition updateMetadata :: "(string \<Rightarrow> string) \<Rightarrow> ('q reg_payload \<Rightarrow> json) \<Rightarrow> readings \<Rightarrow> string \<Rightarrow> market_patch \<Rightarrow> ('q registry, supplier) em" where
  "updateMetadata sha pj clk i p = mutate sha pj ''METADATA'' (clk 1) (patch_metadata p (clk 0)) i"

definition set_price :: "rat option \<Rightarrow> string option \<Rightarrow> int \<Rightarrow> supplier \<Rightarrow> supplier" where
  "set_price price currency now s =
     (let s = (case price of None \<Rightarrow> s | Some p \<Rightarrow> s\<lparr>basePrice := p\<rparr>);
          s = (if truthy currency then s\<lparr>sup_currency := the currency\<rparr> else s)
      in s\<lparr>updatedAt := now\<rparr>)"

definition updatePrice :: "(string \<Rightarrow> string) \<Rightarrow> ('q reg_payload \<Rightarrow> json) \<Rightarrow> readings \<Rightarrow> string \<Rightarrow> rat option \<Rightarrow> string option \<Rightarrow> ('q registry, supplier) em" where
  "updatePrice sha pj clk i price currency = mutate sha pj ''PRICE'' (clk 1) (set_price price currency (clk 0)) i"

section \<open>Queries\<close>

record query =
  q_workload :: "string option"
  q_settlementMode :: "string option"
  q_paymentRail :: "string option"
  q_chain :: "string option"
  q_resource :: "string option"
  q_body :: "json option"

definition routable :: "string \<Rightarrow> bool" where
  "routable status \<longleftrightarrow> status = HEALTHY \<or> status = DEGRADED"

definition wants :: "string option \<Rightarrow> string list \<Rightarrow> bool" where
  "wants w xs \<longleftrightarrow> \<not> truthy w \<or> the w \<in> set xs"

definition matches :: "query \<Rightarrow> supplier \<Rightarrow> bool" where
  "matches q s \<longleftrightarrow> routable (sup_status s) \<and> wants (q_workload q) (supportedWorkloads s) \<and>
     wants (q_settlementMode q) (supportedSettlementModes s) \<and>
     wants (q_paymentRail q) (supportedPaymentRails s) \<and> wants (q_chain q) (supportedChains s)"

definition first_of :: "string option \<Rightarrow> string list \<Rightarrow> string option" where
  "first_of q xs = (if truthy q then q else case xs of [] \<Rightarrow> None | x # _ \<Rightarrow> or_null (Some x))"

definition to_candidate :: "query \<Rightarrow> supplier \<Rightarrow> candidate" where
  "to_candidate q s = \<lparr>c_supplierId = sup_supplierId s, c_adapterId = Some (sup_adapterId s),
     c_price = Some (basePrice s), c_currency = Some (sup_currency s), c_latencyMs = Some (sup_latency s),
     c_availability = Some (sup_availability s), c_reputation = Some (sup_reputation s),
     c_historicalSuccess = None, c_paymentRail = first_of (q_paymentRail q) (supportedPaymentRails s),
     c_settlementMode = first_of (q_settlementMode q) (supportedSettlementModes s), c_riskScore = None,
     c_chain = None, c_url = None, c_method = None\<rparr>"

definition findCandidates :: "query \<Rightarrow> 'q registry \<Rightarrow> candidate list" where
  "findCandidates q g = map (to_candidate q) (filter (matches q) (map snd (reg_suppliers g)))"

definition list_suppliers :: "string option \<Rightarrow> string option \<Rightarrow> 'q registry \<Rightarrow> supplier list" where
  "list_suppliers status workload g =
     (let every = map snd (reg_suppliers g)
      in if truthy status then filter (\<lambda>s. Some (sup_status s) = status) every
         else if truthy workload then filter (\<lambda>s. the workload \<in> set (supportedWorkloads s)) every
         else every)"

definition get_supplier :: "string \<Rightarrow> 'q registry \<Rightarrow> supplier option" where
  "get_supplier i g = map_of (reg_suppliers g) i"

definition snapshot :: "'q registry \<Rightarrow> (string, supplier) jsmap" where
  "snapshot g = reg_suppliers g"

text \<open>Replay from the journal alone.\<close>

definition replay_supplier :: "(string, supplier) jsmap \<Rightarrow> 'q reg_payload event \<Rightarrow> (string, supplier) jsmap" where
  "replay_supplier m e =
     (if take 9 (ev_txId e) \<noteq> ''supplier:'' then m
      else case ev_payload e of
        SnapshotP s \<Rightarrow> if ev_phase e = ''UNREGISTER'' then mdelete (sup_supplierId s) m else mset_key (sup_supplierId s) s m
      | RemovedP i \<Rightarrow> mdelete i m
      | ForeignP _ \<Rightarrow> m)"

definition reconstructSuppliers :: "'q reg_payload journal \<Rightarrow> (string, supplier) jsmap" where
  "reconstructSuppliers j = foldl replay_supplier [] (all_events j)"

section \<open>The health monitor\<close>

text \<open>One clock reading decides staleness; each update reads the clock again.\<close>

definition goes_offline :: "int \<Rightarrow> int \<Rightarrow> supplier \<Rightarrow> bool" where
  "goes_offline timeout now s \<longleftrightarrow>
     sup_status s \<noteq> MAINTENANCE \<and> now - lastHeartbeat s > timeout \<and> sup_status s \<noteq> OFFLINE"

fun sweep :: "(string \<Rightarrow> string) \<Rightarrow> ('q reg_payload \<Rightarrow> json) \<Rightarrow> int \<Rightarrow> int \<Rightarrow> readings \<Rightarrow> supplier list
    \<Rightarrow> 'q registry \<Rightarrow> string list \<times> 'q registry" where
  "sweep sha pj timeout now clk [] g = ([], g)"
| "sweep sha pj timeout now clk (s # ss) g =
     (if goes_offline timeout now s then
        (let g' = snd (updateHealth sha pj clk (sup_supplierId s) (Some OFFLINE) (Some ''offline'') (Some ''stale'') g);
             (ids, g'') = sweep sha pj timeout now clk ss g'
         in (sup_supplierId s # ids, g''))
      else sweep sha pj timeout now clk ss g)"

definition evaluate :: "(string \<Rightarrow> string) \<Rightarrow> ('q reg_payload \<Rightarrow> json) \<Rightarrow> int \<Rightarrow> int \<Rightarrow> readings \<Rightarrow> 'q registry \<Rightarrow> string list \<times> 'q registry" where
  "evaluate sha pj timeout now clk g = sweep sha pj timeout now clk (list_suppliers None None g) g"

section \<open>The durable wrapper\<close>

record ('p, 'v, 'r, 'q) persistent_registry =
  pr_inner :: "'q registry"
  pr_store :: "('p, 'v, supplier, 'r) backing"

definition persist :: "int \<Rightarrow> string \<Rightarrow> ('p, 'v, 'r, 'q) persistent_registry \<Rightarrow> ('p, 'v, 'r, 'q) persistent_registry" where
  "persist now i p =
     (case get_supplier i (pr_inner p) of
        None \<Rightarrow> p
      | Some s \<Rightarrow> p\<lparr>pr_store := supplierUpsert i s now (pr_store p)\<rparr>)"

text \<open>A mutator is delegated, then the snapshot is persisted; an exception persists nothing.\<close>

definition delegate :: "int \<Rightarrow> ('q registry, supplier) em \<Rightarrow> (('p, 'v, 'r, 'q) persistent_registry, supplier) em" where
  "delegate now op p =
     (case op (pr_inner p) of
        (Inl e, g) \<Rightarrow> (Inl e, p\<lparr>pr_inner := g\<rparr>)
      | (Inr s, g) \<Rightarrow> (Inr s, persist now (sup_supplierId s) (p\<lparr>pr_inner := g\<rparr>)))"

definition p_register where "p_register sha pj clk spec = delegate (clk 2) (register sha pj clk spec)"
definition p_heartbeat where "p_heartbeat sha pj clk i latency ts = delegate (clk 3) (heartbeat sha pj clk i latency ts)"
definition p_updateHealth where "p_updateHealth sha pj clk i status health reason = delegate (clk 2) (updateHealth sha pj clk i status health reason)"
definition p_updatePrice where "p_updatePrice sha pj clk i price currency = delegate (clk 2) (updatePrice sha pj clk i price currency)"

definition p_unregister :: "(string \<Rightarrow> string) \<Rightarrow> ('q reg_payload \<Rightarrow> json) \<Rightarrow> readings \<Rightarrow> string
    \<Rightarrow> ('p, 'v, 'r, 'q) persistent_registry \<Rightarrow> bool \<times> ('p, 'v, 'r, 'q) persistent_registry" where
  "p_unregister sha pj clk i p =
     (let (ok, g) = unregister sha pj clk i (pr_inner p)
      in (ok, \<lparr>pr_inner = g, pr_store = supplierDelete i (pr_store p)\<rparr>))"

text \<open>A snapshot read as the specification of a registration.\<close>

definition spec_of :: "supplier \<Rightarrow> supplier_spec" where
  "spec_of s = \<lparr>sp_supplierId = Some (sup_supplierId s), sp_adapterId = Some (sup_adapterId s),
     sp_capabilities = Some (sup_capabilities s), sp_workloads = Some (supportedWorkloads s),
     sp_modes = Some (supportedSettlementModes s), sp_rails = Some (supportedPaymentRails s),
     sp_chains = Some (supportedChains s), sp_health = Some (sup_health s), sp_status = Some (sup_status s),
     sp_latency = Some (sup_latency s), sp_basePrice = Some (basePrice s), sp_currency = Some (sup_currency s),
     sp_reputation = Some (sup_reputation s), sp_version = Some (sup_version s)\<rparr>"

definition load_registry :: "(string \<Rightarrow> string) \<Rightarrow> ('q reg_payload \<Rightarrow> json) \<Rightarrow> readings \<Rightarrow> 'q reg_payload journal
    \<Rightarrow> ('p, 'v, supplier, 'r) backing \<Rightarrow> ('p, 'v, 'r, 'q) persistent_registry" where
  "load_registry sha pj clk j st =
     \<lparr>pr_inner = foldl (\<lambda>g row. snd (register sha pj clk (spec_of (fst (snd row))) g))
                  \<lparr>reg_suppliers = [], reg_journal = j\<rparr> (supplierAll st),
      pr_store = st\<rparr>"

section \<open>Registries that the operations can build\<close>

definition sup_ok :: "supplier \<Rightarrow> bool" where
  "sup_ok s \<longleftrightarrow> sup_availability s = availability_of (sup_status s) \<and> sup_status s \<noteq> [] \<and>
     sup_health s \<noteq> [] \<and> sup_currency s \<noteq> [] \<and> sup_version s \<noteq> []"

definition reg_inv :: "'q registry \<Rightarrow> bool" where
  "reg_inv g \<longleftrightarrow>
     mwf (reg_suppliers g) \<and>
     (\<forall>(k, s) \<in> set (reg_suppliers g). sup_supplierId s = k \<and> sup_ok s) \<and>
     reconstructSuppliers (reg_journal g) = reg_suppliers g"

inductive reg_reach :: "(string \<Rightarrow> string) \<Rightarrow> ('q reg_payload \<Rightarrow> json) \<Rightarrow> 'q registry \<Rightarrow> bool" for sha pj where
  start: "reg_reach sha pj \<lparr>reg_suppliers = [], reg_journal = empty_journal\<rparr>"
| register: "reg_reach sha pj g \<Longrightarrow> reg_reach sha pj (snd (register sha pj clk spec g))"
| unregister: "reg_reach sha pj g \<Longrightarrow> reg_reach sha pj (snd (unregister sha pj clk i g))"
| heartbeat: "reg_reach sha pj g \<Longrightarrow> reg_reach sha pj (snd (heartbeat sha pj clk i latency ts g))"
| health: "reg_reach sha pj g \<Longrightarrow> reg_reach sha pj (snd (updateHealth sha pj clk i status health reason g))"
| reputation: "reg_reach sha pj g \<Longrightarrow> reg_reach sha pj (snd (updateReputation sha pj clk i r g))"
| metadata: "reg_reach sha pj g \<Longrightarrow> reg_reach sha pj (snd (updateMetadata sha pj clk i p g))"
| price: "reg_reach sha pj g \<Longrightarrow> reg_reach sha pj (snd (updatePrice sha pj clk i c cur g))"
| foreign: "reg_reach sha pj g \<Longrightarrow> take 9 t \<noteq> ''supplier:'' \<Longrightarrow>
    reg_reach sha pj (g\<lparr>reg_journal := snd (append_event sha pj t ph (ForeignP x) ts (reg_journal g))\<rparr>)"

lemma reconstruct_append:
  "reconstructSuppliers (snd (append_event sha pj t ph x ts j)) =
   replay_supplier (reconstructSuppliers j) (make_event sha pj (j_events j) t ph x ts)"
  by (simp add: reconstructSuppliers_def append_event_def all_events_def Let_def)

lemma set_mdelete: "set (mdelete k m) \<subseteq> set m"
  by (auto simp: AList.delete_eq)

lemma set_mset_key: "set (mset_key k v m) \<subseteq> insert (k, v) (set m)"
  by (induction m) auto

lemma store_and_record_inv:
  assumes "reg_inv g" "sup_ok s" "op \<noteq> ''UNREGISTER''"
  shows "reg_inv (store_and_record sha pj op s ts g)"
  using assms set_mset_key [of "sup_supplierId s" s "reg_suppliers g"]
  by (auto simp: reg_inv_def store_and_record_def record_op_def reconstruct_append replay_supplier_def
      supplier_stream_def simp del: append_event_def)

lemma require_ok: "reg_inv g \<Longrightarrow> require i g = Inr s \<Longrightarrow> sup_ok s \<and> sup_supplierId s = i"
  by (auto simp: require_def reg_inv_def dest!: map_of_SomeD split: option.splits)

lemma mutate_inv:
  assumes "reg_inv g" "op \<noteq> ''UNREGISTER''" "\<And>s. sup_ok s \<Longrightarrow> sup_ok (f s)"
  shows "reg_inv (snd (mutate sha pj op ts f i g))"
  using assms require_ok [OF assms(1)] store_and_record_inv [OF assms(1)]
  by (auto simp: mutate_def split: sum.splits)

lemma or_str_nonempty: "d \<noteq> [] \<Longrightarrow> or_str x d \<noteq> []"
  by (auto simp: or_str_def split: option.splits)

lemma build_supplier_ok: "sup_ok (build_supplier spec now)"
  by (simp add: sup_ok_def build_supplier_def Let_def or_str_nonempty status_defs)

lemma beat_ok: "sup_ok s \<Longrightarrow> sup_ok (beat latency ts clk s)"
  by (auto simp: sup_ok_def beat_def Let_def status_defs split: option.splits)

lemma set_health_ok: "sup_ok s \<Longrightarrow> sup_ok (set_health status health reason clk s)"
  by (auto simp: sup_ok_def set_health_def Let_def truthy_def split: option.splits)

lemma set_price_ok: "sup_ok s \<Longrightarrow> sup_ok (set_price p c now s)"
  by (auto simp: sup_ok_def set_price_def Let_def truthy_def split: option.splits)

lemma patch_metadata_ok: "sup_ok s \<Longrightarrow> sup_ok (patch_metadata p now s)"
  by (simp add: sup_ok_def patch_metadata_def)

lemma register_inv: "reg_inv g \<Longrightarrow> reg_inv (snd (register sha pj clk spec g))"
  by (simp add: register_def Let_def store_and_record_inv build_supplier_ok)

lemma unregister_inv: "reg_inv g \<Longrightarrow> reg_inv (snd (unregister sha pj clk i g))"
  using set_mdelete [of i "reg_suppliers g"]
  by (auto simp: unregister_def reg_inv_def reconstruct_append replay_supplier_def supplier_stream_def
      split: option.splits)

lemma reg_reach_inv: "reg_reach sha pj g \<Longrightarrow> reg_inv g"
proof (induction rule: reg_reach.induct)
  case start
  show ?case by (simp add: reg_inv_def reconstructSuppliers_def all_events_def empty_journal_def)
next
  case (reputation g clk i r)
  then show ?case unfolding updateReputation_def
    by (intro mutate_inv) (auto simp: sup_ok_def split: option.splits)
next
  case (foreign g t ph x ts)
  then show ?case by (auto simp: reg_inv_def reconstruct_append replay_supplier_def)
qed (simp_all add: register_inv unregister_inv heartbeat_def updateHealth_def updateMetadata_def updatePrice_def
    mutate_inv beat_ok set_health_ok patch_metadata_ok set_price_ok)

section \<open>The sweep\<close>

lemma beat_operator_offline:
  "sup_status s \<noteq> OFFLINE \<or> offlineReason s \<noteq> Some ''stale'' \<Longrightarrow>
   sup_status (beat latency ts clk s) = sup_status s \<and> offlineReason (beat latency ts clk s) = offlineReason s"
  by (auto simp: beat_def Let_def split: option.splits)

lemma updateHealth_lookup:
  "map_of (reg_suppliers g) i = Some s \<Longrightarrow> sup_supplierId s = i \<Longrightarrow>
   map_of (reg_suppliers (snd (updateHealth sha pj clk i st h r g))) j =
     (if j = i then Some (set_health st h r clk s) else map_of (reg_suppliers g) j)"
  by (auto simp: updateHealth_def mutate_def require_def store_and_record_def record_op_def set_health_def Let_def)

text \<open>The supplier after a sweep: offline as stale if it was due, unchanged otherwise.\<close>

definition swept :: "int \<Rightarrow> int \<Rightarrow> readings \<Rightarrow> supplier \<Rightarrow> supplier" where
  "swept timeout now clk s =
     (if goes_offline timeout now s then set_health (Some OFFLINE) (Some ''offline'') (Some ''stale'') clk s else s)"

lemma sweep_lookup:
  assumes "\<forall>s \<in> set ss. map_of (reg_suppliers g) (sup_supplierId s) = Some s" "distinct (map sup_supplierId ss)"
  shows "map_of (reg_suppliers (snd (sweep sha pj timeout now clk ss g))) j =
     (if j \<in> sup_supplierId ` set ss then map_option (swept timeout now clk) (map_of (reg_suppliers g) j)
      else map_of (reg_suppliers g) j)"
  using assms
proof (induction ss arbitrary: g)
  case (Cons s ss)
  show ?case
  proof (cases "goes_offline timeout now s")
    case True
    define g' where "g' = snd (updateHealth sha pj clk (sup_supplierId s) (Some OFFLINE) (Some ''offline'') (Some ''stale'') g)"
    have look: "map_of (reg_suppliers g') k = (if k = sup_supplierId s then
        Some (set_health (Some OFFLINE) (Some ''offline'') (Some ''stale'') clk s) else map_of (reg_suppliers g) k)" for k
      unfolding g'_def by (rule updateHealth_lookup) (use Cons.prems in simp_all)
    have "\<forall>t \<in> set ss. map_of (reg_suppliers g') (sup_supplierId t) = Some t"
    proof
      fix t assume t: "t \<in> set ss"
      then have "sup_supplierId t \<noteq> sup_supplierId s" using Cons.prems(2) by (metis distinct.simps(2) image_eqI list.set_map list.simps(9))
      with t Cons.prems(1) show "map_of (reg_suppliers g') (sup_supplierId t) = Some t" by (simp add: look)
    qed
    with Cons.IH Cons.prems have IH: "map_of (reg_suppliers (snd (sweep sha pj timeout now clk ss g'))) j =
        (if j \<in> sup_supplierId ` set ss then map_option (swept timeout now clk) (map_of (reg_suppliers g') j)
         else map_of (reg_suppliers g') j)" by simp
    have "snd (sweep sha pj timeout now clk (s # ss) g) = snd (sweep sha pj timeout now clk ss g')"
      using True by (simp add: g'_def Let_def case_prod_beta)
    moreover have "swept timeout now clk s = set_health (Some OFFLINE) (Some ''offline'') (Some ''stale'') clk s"
      using True by (simp add: swept_def)
    ultimately show ?thesis using IH Cons.prems by (simp add: look)
  next
    case False
    have "\<forall>t \<in> set ss. map_of (reg_suppliers g) (sup_supplierId t) = Some t" using Cons.prems by simp
    with Cons.IH Cons.prems have IH: "map_of (reg_suppliers (snd (sweep sha pj timeout now clk ss g))) j =
        (if j \<in> sup_supplierId ` set ss then map_option (swept timeout now clk) (map_of (reg_suppliers g) j)
         else map_of (reg_suppliers g) j)" by simp
    have "swept timeout now clk s = s" using False by (simp add: swept_def)
    with IH False Cons.prems show ?thesis by simp
  qed
qed simp

lemma reg_inv_list:
  assumes "reg_inv g"
  shows "distinct (map sup_supplierId (map snd (reg_suppliers g)))"
    and "s \<in> set (map snd (reg_suppliers g)) \<Longrightarrow> map_of (reg_suppliers g) (sup_supplierId s) = Some s"
proof -
  have "map sup_supplierId (map snd (reg_suppliers g)) = map fst (reg_suppliers g)"
    using assms by (auto simp: reg_inv_def)
  then show "distinct (map sup_supplierId (map snd (reg_suppliers g)))"
    using assms unfolding reg_inv_def by metis
  show "map_of (reg_suppliers g) (sup_supplierId s) = Some s" if "s \<in> set (map snd (reg_suppliers g))"
    using assms that by (auto simp: reg_inv_def)
qed

lemma evaluate_lookup:
  assumes "reg_inv g"
  shows "map_of (reg_suppliers (snd (evaluate sha pj timeout now clk g))) j =
    map_option (swept timeout now clk) (map_of (reg_suppliers g) j)"
proof -
  have "map_of (reg_suppliers (snd (evaluate sha pj timeout now clk g))) j =
     (if j \<in> sup_supplierId ` set (map snd (reg_suppliers g)) then map_option (swept timeout now clk) (map_of (reg_suppliers g) j)
      else map_of (reg_suppliers g) j)"
    unfolding evaluate_def list_suppliers_def Let_def
    using sweep_lookup [OF ballI [OF reg_inv_list(2) [OF assms]] reg_inv_list(1) [OF assms]] by simp
  moreover have "map_of (reg_suppliers g) j = None" if "j \<notin> sup_supplierId ` set (map snd (reg_suppliers g))"
    using that assms by (force simp: map_of_eq_None_iff reg_inv_def)
  ultimately show ?thesis by auto
qed

lemma sweep_inv: "reg_inv g \<Longrightarrow> reg_inv (snd (sweep sha pj timeout now clk ss g))"
  by (induction ss arbitrary: g)
    (auto simp: Let_def case_prod_beta updateHealth_def mutate_inv set_health_ok)

lemma set_health_heartbeat [simp]: "lastHeartbeat (set_health st h r clk s) = lastHeartbeat s"
  by (auto simp: set_health_def Let_def)

lemma swept_routable:
  "routable (sup_status (swept timeout now clk s)) \<Longrightarrow>
   now - lastHeartbeat s \<le> timeout \<and> routable (sup_status s)"
  by (auto simp: swept_def goes_offline_def routable_def set_health_def Let_def status_defs split: if_splits)

lemma findCandidates_mem:
  "c \<in> set (findCandidates q g) \<longleftrightarrow> (\<exists>s \<in> set (map snd (reg_suppliers g)). matches q s \<and> c = to_candidate q s)"
  by (auto simp: findCandidates_def)

lemma evaluate_fresh:
  assumes "reg_inv g" "c \<in> set (findCandidates q (snd (evaluate sha pj timeout now clk g)))"
  shows "\<exists>s. get_supplier (c_supplierId c) g = Some s \<and> now - lastHeartbeat s \<le> timeout \<and> routable (sup_status s)"
proof -
  let ?g = "snd (evaluate sha pj timeout now clk g)"
  have inv: "reg_inv ?g" unfolding evaluate_def by (rule sweep_inv) (rule assms(1))
  from assms(2) obtain s where s: "s \<in> set (map snd (reg_suppliers ?g))" "matches q s" "c = to_candidate q s"
    unfolding findCandidates_mem by blast
  then have s: "s \<in> set (map snd (reg_suppliers ?g))" "routable (sup_status s)" "c_supplierId c = sup_supplierId s"
    by (simp_all add: matches_def to_candidate_def)
  from reg_inv_list(2) [OF inv s(1)] evaluate_lookup [OF assms(1)] obtain t where
    "map_of (reg_suppliers g) (sup_supplierId s) = Some t" "s = swept timeout now clk t"
    by (metis map_option_eq_Some)
  with s swept_routable show ?thesis by (auto simp: get_supplier_def)
qed

section \<open>Restart\<close>

text \<open>What routing sees of a supplier; a restart keeps this and resets the rest.\<close>

definition routing_view :: "supplier \<Rightarrow> supplier" where
  "routing_view s = s\<lparr>offlineReason := None, lastHeartbeat := 0, registeredAt := 0, updatedAt := 0,
     paymentMethods := None, protocols := None, successRate := None, sup_source := None, marketMeta := None\<rparr>"

lemma rebuild_view: "sup_ok s \<Longrightarrow> routing_view (build_supplier (spec_of s) now) = routing_view s"
  by (cases s) (auto simp: sup_ok_def routing_view_def build_supplier_def spec_of_def Let_def or_str_def)

lemma matches_view: "matches q s = matches q (routing_view s)"
  by (simp add: matches_def routing_view_def)

lemma to_candidate_view: "to_candidate q s = to_candidate q (routing_view s)"
  by (simp add: to_candidate_def routing_view_def)

lemma findCandidates_alt:
  "findCandidates q g = map (to_candidate q) (filter (matches q) (map (\<lambda>p. routing_view (snd p)) (reg_suppliers g)))"
  by (simp add: findCandidates_def filter_map comp_def matches_view [symmetric] to_candidate_view [symmetric])

definition pr_inv :: "('p, 'v, 'r, 'q) persistent_registry \<Rightarrow> bool" where
  "pr_inv p \<longleftrightarrow> reg_inv (pr_inner p) \<and>
     map (\<lambda>row. (fst row, fst (snd row))) (b_suppliers (pr_store p)) = reg_suppliers (pr_inner p)"

lemma map_mset_key: "map (\<lambda>row. (fst row, f (snd row))) (mset_key k v m) = mset_key k (f v) (map (\<lambda>row. (fst row, f (snd row))) m)"
  by (induction m) auto

lemma map_mdelete: "map (\<lambda>row. (fst row, f (snd row))) (mdelete k m) = mdelete k (map (\<lambda>row. (fst row, f (snd row))) m)"
  by (induction m) auto

text \<open>What the durable wrapper relies on when it delegates a mutator.\<close>

locale registry_mutator =
  fixes op :: "('q registry, supplier) em"
  assumes throws: "op g = (Inl e, g') \<Longrightarrow> g' = g"
    and stores: "op g = (Inr s, g') \<Longrightarrow> reg_inv g \<Longrightarrow>
      reg_inv g' \<and> reg_suppliers g' = mset_key (sup_supplierId s) s (reg_suppliers g)"
begin

lemma delegate_inv:
  fixes p :: "('p, 'v, 'r, 'q) persistent_registry"
  assumes "pr_inv p"
  shows "pr_inv (snd (delegate now op p))"
proof (cases "op (pr_inner p)")
  case (Pair r g)
  show ?thesis
  proof (cases r)
    case (Inl e)
    with Pair throws have "g = pr_inner p" by blast
    with Inl Pair assms show ?thesis by (simp add: delegate_def)
  next
    case (Inr s)
    with Pair stores assms have g: "reg_inv g" "reg_suppliers g = mset_key (sup_supplierId s) s (reg_suppliers (pr_inner p))"
      unfolding pr_inv_def by blast+
    with Inr Pair assms show ?thesis
      by (simp add: delegate_def persist_def get_supplier_def supplierUpsert_def pr_inv_def map_mset_key [where f = fst])
  qed
qed

end

lemma mutate_mutator:
  fixes pj :: "'q reg_payload \<Rightarrow> json"
  assumes "\<And>s. sup_ok s \<Longrightarrow> sup_ok (f s)" "\<And>s. sup_supplierId (f s) = sup_supplierId s" "op \<noteq> ''UNREGISTER''"
  shows "registry_mutator (mutate sha pj op ts f i)"
proof
  fix g g' :: "'q registry" and e
  show "mutate sha pj op ts f i g = (Inl e, g') \<Longrightarrow> g' = g" by (auto simp: mutate_def split: sum.splits)
next
  fix g g' :: "'q registry" and s
  assume m: "mutate sha pj op ts f i g = (Inr s, g')" and inv: "reg_inv g"
  have "reg_inv (snd (mutate sha pj op ts f i g))" by (rule mutate_inv [OF inv assms(3,1)])
  with m show "reg_inv g' \<and> reg_suppliers g' = mset_key (sup_supplierId s) s (reg_suppliers g)"
    by (auto simp: mutate_def store_and_record_def record_op_def split: sum.splits)
qed

interpretation register_op: registry_mutator "register sha pj clk spec" for sha pj clk spec
proof
  fix g g' and s
  assume "register sha pj clk spec g = (Inr s, g')" "reg_inv g"
  with register_inv [of g sha pj clk spec]
  show "reg_inv g' \<and> reg_suppliers g' = mset_key (sup_supplierId s) s (reg_suppliers g)"
    by (auto simp: register_def Let_def store_and_record_def record_op_def split: if_splits)
qed (auto simp: register_def Let_def split: if_splits)

interpretation heartbeat_op: registry_mutator "heartbeat sha pj clk i latency ts" for sha pj clk i latency ts
  unfolding heartbeat_def
  by (rule mutate_mutator) (simp_all add: beat_ok, simp add: beat_def Let_def split: option.splits)

interpretation health_op: registry_mutator "updateHealth sha pj clk i status health reason" for sha pj clk i status health reason
  unfolding updateHealth_def
  by (rule mutate_mutator) (simp_all add: set_health_ok, simp add: set_health_def Let_def)

interpretation price_op: registry_mutator "updatePrice sha pj clk i price currency" for sha pj clk i price currency
  unfolding updatePrice_def
  by (rule mutate_mutator) (simp_all add: set_price_ok, simp add: set_price_def Let_def split: option.splits)

lemma unregister_pr_inv: "pr_inv p \<Longrightarrow> pr_inv (snd (p_unregister sha pj clk i p))"
proof -
  assume inv: "pr_inv p"
  then have "reg_inv (snd (unregister sha pj clk i (pr_inner p)))" by (simp add: pr_inv_def unregister_inv)
  moreover have "reg_suppliers (snd (unregister sha pj clk i (pr_inner p))) = mdelete i (reg_suppliers (pr_inner p))"
    by (force simp: unregister_def AList.delete_eq map_of_eq_None_iff intro!: filter_True [symmetric] split: option.splits)
  ultimately show ?thesis using inv
    by (simp add: p_unregister_def pr_inv_def supplierDelete_def case_prod_beta map_mdelete [where f = fst])
qed

inductive pr_reach :: "(string \<Rightarrow> string) \<Rightarrow> ('q reg_payload \<Rightarrow> json) \<Rightarrow> ('p, 'v, 'r, 'q) persistent_registry \<Rightarrow> bool" for sha pj where
  start: "b_suppliers st = [] \<Longrightarrow> pr_reach sha pj \<lparr>pr_inner = \<lparr>reg_suppliers = [], reg_journal = empty_journal\<rparr>, pr_store = st\<rparr>"
| register: "pr_reach sha pj p \<Longrightarrow> pr_reach sha pj (snd (p_register sha pj clk spec p))"
| heartbeat: "pr_reach sha pj p \<Longrightarrow> pr_reach sha pj (snd (p_heartbeat sha pj clk i latency ts p))"
| health: "pr_reach sha pj p \<Longrightarrow> pr_reach sha pj (snd (p_updateHealth sha pj clk i status health reason p))"
| price: "pr_reach sha pj p \<Longrightarrow> pr_reach sha pj (snd (p_updatePrice sha pj clk i c cur p))"
| unregister: "pr_reach sha pj p \<Longrightarrow> pr_reach sha pj (snd (p_unregister sha pj clk i p))"

lemma pr_reach_inv: "pr_reach sha pj p \<Longrightarrow> pr_inv p"
proof (induction rule: pr_reach.induct)
  case (start st)
  then show ?case by (simp add: pr_inv_def reg_inv_def reconstructSuppliers_def all_events_def empty_journal_def)
qed (simp_all add: p_register_def p_heartbeat_def p_updateHealth_def p_updatePrice_def register_op.delegate_inv
    heartbeat_op.delegate_inv health_op.delegate_inv price_op.delegate_inv unregister_pr_inv)

lemma load_suppliers:
  assumes "distinct (map (\<lambda>row. sup_supplierId (fst (snd row))) rows)"
    "\<forall>row \<in> set rows. sup_supplierId (fst (snd row)) \<notin> fst ` set (reg_suppliers g)"
  shows "reg_suppliers (foldl (\<lambda>g row. snd (register sha pj clk (spec_of (fst (snd row))) g)) g rows) =
    reg_suppliers g @ map (\<lambda>row. (sup_supplierId (fst (snd row)), build_supplier (spec_of (fst (snd row))) (clk 0))) rows"
  using assms
proof (induction rows arbitrary: g)
  case (Cons row rows)
  let ?s = "fst (snd row)"
  have "map_of (reg_suppliers g) (sup_supplierId ?s) = None" using Cons.prems(2) by (simp add: map_of_eq_None_iff)
  then have g': "reg_suppliers (snd (register sha pj clk (spec_of ?s) g)) =
      reg_suppliers g @ [(sup_supplierId ?s, build_supplier (spec_of ?s) (clk 0))]"
    by (simp add: register_def spec_of_def build_supplier_def Let_def store_and_record_def record_op_def mset_key_fresh)
  have "\<forall>r \<in> set rows. sup_supplierId (fst (snd r)) \<notin> fst ` set (reg_suppliers (snd (register sha pj clk (spec_of ?s) g)))"
    using Cons.prems unfolding g' by (auto simp: image_iff)
  with Cons.IH [of "snd (register sha pj clk (spec_of ?s) g)"] Cons.prems(1) g' show ?case by simp
qed simp

lemma load_candidates:
  assumes "pr_inv p"
  shows "findCandidates q (pr_inner (load_registry sha pj clk j (pr_store p))) = findCandidates q (pr_inner p)"
proof -
  let ?rows = "b_suppliers (pr_store p)"
  have sup: "reg_suppliers (pr_inner p) = map (\<lambda>row. (fst row, fst (snd row))) ?rows"
    using assms by (simp add: pr_inv_def)
  have ok: "\<forall>row \<in> set ?rows. sup_ok (fst (snd row)) \<and> sup_supplierId (fst (snd row)) = fst row"
    using assms sup by (auto simp: pr_inv_def reg_inv_def)
  have "distinct (map fst ?rows)" using assms sup by (simp add: pr_inv_def reg_inv_def comp_def)
  moreover have "map (\<lambda>row. sup_supplierId (fst (snd row))) ?rows = map fst ?rows" using ok by simp
  ultimately have "distinct (map (\<lambda>row. sup_supplierId (fst (snd row))) ?rows)" by metis
  note load = load_suppliers [OF this, of "\<lparr>reg_suppliers = [], reg_journal = j\<rparr>"]
  have "reg_suppliers (pr_inner (load_registry sha pj clk j (pr_store p))) =
      map (\<lambda>row. (sup_supplierId (fst (snd row)), build_supplier (spec_of (fst (snd row))) (clk 0))) ?rows"
    by (simp add: load_registry_def supplierAll_def load)
  moreover have v: "map (\<lambda>row. routing_view (build_supplier (spec_of (fst (snd row))) (clk 0))) ?rows =
      map (\<lambda>row. routing_view (fst (snd row))) ?rows"
    using ok rebuild_view by (intro map_cong) auto
  ultimately show ?thesis using sup by (simp add: findCandidates_alt comp_def v del: map_eq_conv)
qed

section \<open>Properties\<close>

text \<open>
  The registry can be rebuilt from its journal. Whatever registrations, removals, heartbeats,
  health, price, reputation and metadata updates happened, also with events of other components in
  between, replaying the journal alone gives exactly the live suppliers, each under its own
  identifier and with the availability its status stands for.\<close>

theorem registry_replay:
  assumes "reg_reach sha pj g"
  shows "reconstructSuppliers (reg_journal g) = reg_suppliers g \<and> distinct (map fst (reg_suppliers g)) \<and>
    (\<forall>(k, s) \<in> set (reg_suppliers g). sup_supplierId s = k \<and> sup_availability s = availability_of (sup_status s))"
  using reg_reach_inv [OF assms] by (auto simp: reg_inv_def sup_ok_def)

text \<open>
  After a health sweep only live suppliers are routed to. Every candidate found after the
  monitor has evaluated the registry was already routable and had been heard from within the
  timeout.\<close>

theorem sweep_leaves_fresh:
  assumes "reg_reach sha pj g" "c \<in> set (findCandidates q (snd (evaluate sha pj timeout now clk g)))"
  shows "\<exists>s. get_supplier (c_supplierId c) g = Some s \<and> now - lastHeartbeat s \<le> timeout \<and> routable (sup_status s)"
  by (rule evaluate_fresh [OF reg_reach_inv]) (fact assms)+

text \<open>
  A restart keeps the supply. Whatever the durable registry went through, a new process that
  loads it from the store finds the same candidates for every query, in the same order.\<close>

theorem restart_keeps_candidates:
  assumes "pr_reach sha pj p"
  shows "findCandidates q (pr_inner (load_registry sha pj clk j (pr_store p))) = findCandidates q (pr_inner p)"
  by (rule load_candidates [OF pr_reach_inv]) (fact assms)

definition sample_spec :: supplier_spec where
  "sample_spec = \<lparr>sp_supplierId = Some ''s1'', sp_adapterId = Some ''rpc'', sp_capabilities = None, sp_workloads = Some [''rpc''],
     sp_modes = None, sp_rails = None, sp_chains = None, sp_health = None, sp_status = None, sp_latency = None,
     sp_basePrice = Some 3, sp_currency = None, sp_reputation = None, sp_version = None\<rparr>"

abbreviation any_query :: query where
  "any_query \<equiv> \<lparr>q_workload = Some ''rpc'', q_settlementMode = None, q_paymentRail = None, q_chain = None, q_resource = None, q_body = None\<rparr>"

abbreviation sample_registry :: "nat registry" where
  "sample_registry \<equiv> snd (register (\<lambda>s. s) (\<lambda>_. JNull) (\<lambda>_. 100) sample_spec \<lparr>reg_suppliers = [], reg_journal = empty_journal\<rparr>)"

lemma sample_reach: "reg_reach (\<lambda>s. s) (\<lambda>_. JNull) sample_registry"
  by (intro reg_reach.register reg_reach.start)

theorem registry_replay_witness: "map fst (reconstructSuppliers (reg_journal sample_registry)) = [''s1'']"
proof -
  have "map fst (reg_suppliers sample_registry) = [''s1'']"
    by (simp add: register_def sample_spec_def store_and_record_def record_op_def build_supplier_def Let_def)
  then show ?thesis using registry_replay [OF sample_reach] by simp
qed

theorem sweep_leaves_fresh_witness:
  "\<exists>c s. c \<in> set (findCandidates any_query (snd (evaluate (\<lambda>s. s) (\<lambda>_. JNull) 30 120 (\<lambda>_. 120) sample_registry))) \<and>
     get_supplier (c_supplierId c) sample_registry = Some s \<and> 120 - lastHeartbeat s \<le> 30"
proof -
  have "findCandidates any_query (snd (evaluate (\<lambda>s. s) (\<lambda>_. JNull) 30 120 (\<lambda>_. 120) sample_registry)) \<noteq> []" (is "?cs \<noteq> []")
    by (simp add: register_def sample_spec_def store_and_record_def record_op_def build_supplier_def Let_def evaluate_def
        list_suppliers_def goes_offline_def findCandidates_def matches_def wants_def routable_def)
  then have c: "hd ?cs \<in> set ?cs" by simp
  show ?thesis using c sweep_leaves_fresh [OF sample_reach c] by blast
qed

theorem restart_keeps_candidates_witness:
  "\<exists>p :: (nat, nat, nat, nat) persistent_registry. findCandidates any_query (pr_inner p) \<noteq> [] \<and>
     findCandidates any_query (pr_inner (load_registry (\<lambda>s. s) (\<lambda>_. JNull) (\<lambda>_. 500) (empty_journal :: nat reg_payload journal) (pr_store p))) = findCandidates any_query (pr_inner p)"
proof -
  let ?p0 = "\<lparr>pr_inner = \<lparr>reg_suppliers = [], reg_journal = empty_journal\<rparr>, pr_store = createMemoryBacking\<rparr> :: (nat, nat, nat, nat) persistent_registry"
  let ?p = "snd (p_register (\<lambda>s. s) (\<lambda>_. JNull) (\<lambda>_. 100) sample_spec ?p0)"
  have r: "pr_reach (\<lambda>s. s) (\<lambda>_. JNull) ?p"
    by (intro pr_reach.register pr_reach.start) (simp add: createMemoryBacking_def)
  have "findCandidates any_query (pr_inner ?p) \<noteq> []"
    by (simp add: p_register_def delegate_def persist_def get_supplier_def register_def sample_spec_def store_and_record_def record_op_def
        build_supplier_def Let_def findCandidates_def matches_def wants_def routable_def)
  then show ?thesis by (intro exI [of _ ?p] conjI restart_keeps_candidates [OF r])
qed

end
