(* ===== verification/Idempotency.thy ===== *)
theory Idempotency
  imports Durable_Store
begin

text \<open>
  \<^verbatim>\<open>vnext/kernel/idempotency.js\<close> and
  \<^verbatim>\<open>vnext/reliability/persistent_idempotency.js\<close>. First the promise cache as a step
  relation over synchronous segments, with any interleaving of callers and settlements: no two
  executions of one key are ever alive together, and at most one ever succeeds. Then the
  awaited view of \<open>run\<close> that the kernel uses, for the in-memory and the persistent store, both
  as instances of one interface; the persistent one also keeps its results across a crash.
\<close>

section \<open>Keys\<close>

definition idemKey :: "string \<Rightarrow> string \<Rightarrow> string" where
  "idemKey txId phase = txId @ '':'' @ phase"

definition deriveTxId :: "(string \<Rightarrow> string) \<Rightarrow> string \<Rightarrow> string" where
  "deriveTxId sha idempotencyKey =
     ''tx_'' @ take 24 (hashObject sha (JObj [(''idempotencyKey'', JStr idempotencyKey)]))"

lemma idemKey_phase_inj [simp]: "idemKey t p = idemKey t q \<longleftrightarrow> p = q"
  by (simp add: idemKey_def)

text \<open>Phases hold no colon, so the whole pair can be read back from a key.\<close>

lemma idemKey_inj:
  assumes "CHR '':'' \<notin> set p" "CHR '':'' \<notin> set q" "idemKey t p = idemKey u q"
  shows "t = u \<and> p = q"
proof -
  have "rev p @ CHR '':'' # rev t = rev q @ CHR '':'' # rev u"
    using arg_cong [OF assms(3), of rev] by (simp add: idemKey_def)
  moreover have "takeWhile (\<lambda>c. c \<noteq> CHR '':'') (rev x @ CHR '':'' # y) = rev x"
    if "CHR '':'' \<notin> set x" for x y
    using that by (subst takeWhile_append2) auto
  ultimately have "rev p = rev q" using assms(1,2) by metis
  with assms(3) show ?thesis by (simp add: idemKey_def)
qed

section \<open>The promise cache\<close>

datatype 'v promise = Pending | Resolved 'v | Rejected string

text \<open>
  The cache maps a key to a promise. Promises are numbered in the order they are made and
  remember the key whose function they run; the record keeps all that were ever made.
\<close>

record 'v idem_cache =
  i_results :: "(string, nat) jsmap"
  i_promises :: "(string \<times> 'v promise) list"

definition empty_cache :: "'v idem_cache" where
  "empty_cache = \<lparr>i_results = [], i_promises = []\<rparr>"

definition cache_has :: "string \<Rightarrow> 'v idem_cache \<Rightarrow> bool" where
  "cache_has key c \<longleftrightarrow> map_of (i_results c) key \<noteq> None"

text \<open>
  The synchronous part of \<open>run\<close>: the promise the caller awaits and whether it is fresh.
  \<open>once\<close> is the same without the flag.
\<close>

definition run_start :: "string \<Rightarrow> 'v idem_cache \<Rightarrow> (nat \<times> bool) \<times> 'v idem_cache" where
  "run_start key c =
     (case map_of (i_results c) key of
        Some n \<Rightarrow> ((n, False), c)
      | None \<Rightarrow>
          let n = length (i_promises c)
          in ((n, True), \<lparr>i_results = mset_key key n (i_results c), i_promises = i_promises c @ [(key, Pending)]\<rparr>))"

definition once_start :: "string \<Rightarrow> 'v idem_cache \<Rightarrow> nat \<times> 'v idem_cache" where
  "once_start key c = (let ((n, _), c') = run_start key c in (n, c'))"

text \<open>The function of promise \<open>n\<close> returned, or threw: then the key is evicted.\<close>

definition settle_ok :: "nat \<Rightarrow> 'v \<Rightarrow> 'v idem_cache \<Rightarrow> 'v idem_cache" where
  "settle_ok n v c = c\<lparr>i_promises := (i_promises c)[n := (fst (i_promises c ! n), Resolved v)]\<rparr>"

definition settle_fail :: "nat \<Rightarrow> string \<Rightarrow> 'v idem_cache \<Rightarrow> 'v idem_cache" where
  "settle_fail n e c =
     c\<lparr>i_promises := (i_promises c)[n := (fst (i_promises c ! n), Rejected e)],
       i_results := mdelete (fst (i_promises c ! n)) (i_results c)\<rparr>"

inductive cache_step :: "'v idem_cache \<Rightarrow> 'v idem_cache \<Rightarrow> bool" where
  call: "cache_step c (snd (run_start key c))"
| resolve: "n < length (i_promises c) \<Longrightarrow> snd (i_promises c ! n) = Pending \<Longrightarrow> cache_step c (settle_ok n v c)"
| reject: "n < length (i_promises c) \<Longrightarrow> snd (i_promises c ! n) = Pending \<Longrightarrow> cache_step c (settle_fail n e c)"

inductive cache_reachable :: "'v idem_cache \<Rightarrow> bool" where
  start: "cache_reachable empty_cache"
| step: "cache_reachable c \<Longrightarrow> cache_step c d \<Longrightarrow> cache_reachable d"

inductive_cases cache_stepE: "cache_step c d"

definition live :: "'v promise \<Rightarrow> bool" where
  "live p \<longleftrightarrow> (case p of Rejected _ \<Rightarrow> False | _ \<Rightarrow> True)"

lemma live_simps [simp]: "live Pending" "live (Resolved v)" "\<not> live (Rejected e)"
  by (simp_all add: live_def)

text \<open>The cache holds exactly the live promises, each under its own key.\<close>

definition cache_inv :: "'v idem_cache \<Rightarrow> bool" where
  "cache_inv c \<longleftrightarrow>
     (\<forall>k n. map_of (i_results c) k = Some n \<longleftrightarrow>
        n < length (i_promises c) \<and> fst (i_promises c ! n) = k \<and> live (snd (i_promises c ! n)))"

lemma cache_one_live:
  assumes "cache_inv c" "m < length (i_promises c)" "n < length (i_promises c)"
    "fst (i_promises c ! m) = fst (i_promises c ! n)"
    "live (snd (i_promises c ! m))" "live (snd (i_promises c ! n))"
  shows "m = n"
  using assms unfolding cache_inv_def by (metis option.inject)

lemma cache_inv_call: "cache_inv c \<Longrightarrow> cache_inv (snd (run_start key c))"
proof (cases "map_of (i_results c) key")
  case None
  assume inv: "cache_inv c"
  with None have "\<not> live (snd (i_promises c ! n))" if "n < length (i_promises c)" "fst (i_promises c ! n) = key" for n
    using that unfolding cache_inv_def by (metis option.distinct(1))
  with inv None show ?thesis
    unfolding cache_inv_def run_start_def by (auto simp: Let_def nth_append less_Suc_eq)
qed (simp add: run_start_def)

lemma cache_inv_resolve:
  "cache_inv c \<Longrightarrow> n < length (i_promises c) \<Longrightarrow> snd (i_promises c ! n) = Pending \<Longrightarrow>
   cache_inv (settle_ok n v c)"
  unfolding cache_inv_def settle_ok_def by (auto simp: nth_list_update)

lemma cache_inv_reject:
  "cache_inv c \<Longrightarrow> n < length (i_promises c) \<Longrightarrow> snd (i_promises c ! n) = Pending \<Longrightarrow>
   cache_inv (settle_fail n e c)"
proof -
  assume inv: "cache_inv c" and n: "n < length (i_promises c)" and p: "snd (i_promises c ! n) = Pending"
  let ?k = "fst (i_promises c ! n)"
  have only: "m = n" if "m < length (i_promises c)" "fst (i_promises c ! m) = ?k" "live (snd (i_promises c ! m))" for m
    by (rule cache_one_live [OF inv]) (use that n p in simp_all)
  show ?thesis
    unfolding cache_inv_def
  proof (intro allI)
    fix k m
    have "map_of (i_results c) k = Some m \<longleftrightarrow>
        m < length (i_promises c) \<and> fst (i_promises c ! m) = k \<and> live (snd (i_promises c ! m))"
      using inv by (simp add: cache_inv_def)
    then show "map_of (i_results (settle_fail n e c)) k = Some m \<longleftrightarrow>
        m < length (i_promises (settle_fail n e c)) \<and> fst (i_promises (settle_fail n e c) ! m) = k \<and>
        live (snd (i_promises (settle_fail n e c) ! m))"
      using only [of m] n by (cases "k = ?k"; cases "m = n") (auto simp: settle_fail_def nth_list_update)
  qed
qed

lemma cache_step_inv: "cache_step c d \<Longrightarrow> cache_inv c \<Longrightarrow> cache_inv d"
  by (erule cache_stepE) (simp_all add: cache_inv_call cache_inv_resolve cache_inv_reject)

lemma cache_reachable_inv: "cache_reachable c \<Longrightarrow> cache_inv c"
  by (induction rule: cache_reachable.induct) (simp add: cache_inv_def empty_cache_def, erule (1) cache_step_inv)

section \<open>The awaited interface\<close>

text \<open>
  \<open>run key fn\<close> with \<open>fn\<close> acting on the rest of the world \<open>'w\<close>; \<open>look\<close> is what the store has
  for a key.
\<close>

locale once_runner =
  fixes look :: "string \<Rightarrow> 'i \<Rightarrow> 'v option"
    and run :: "string \<Rightarrow> ('w, 'v) em \<Rightarrow> ('w \<times> 'i, 'v \<times> bool) em"
  assumes hit: "look k i = Some v \<Longrightarrow> \<exists>i'. run k fn (w, i) = (Inr (v, False), (w, i')) \<and> (\<forall>j. look j i' = look j i)"
    and miss: "look k i = None \<Longrightarrow> fn w = (Inr v, w') \<Longrightarrow>
      \<exists>i'. run k fn (w, i) = (Inr (v, True), (w', i')) \<and> (\<forall>j. look j i' = (if j = k then Some v else look j i))"
    and fail: "look k i = None \<Longrightarrow> fn w = (Inl e, w') \<Longrightarrow>
      \<exists>i'. run k fn (w, i) = (Inl e, (w', i')) \<and> (\<forall>j. look j i' = look j i)"
begin

text \<open>After a run that returned, running the key again does nothing and gives the same value.\<close>

lemma run_again:
  assumes "run k fn (w, i) = (Inr (v, b), (w', i'))"
  shows "\<exists>i''. run k gn (w'', i') = (Inr (v, False), (w'', i'')) \<and> (\<forall>j. look j i'' = look j i')"
proof -
  have "look k i' = Some v"
  proof (cases "look k i")
    case (Some u)
    with hit [OF Some, of fn w] assms show ?thesis by auto
  next
    case None
    show ?thesis
    proof (cases "fn w")
      case (Pair r u)
      show ?thesis
      proof (cases r)
        case (Inl e)
        with Pair fail [OF None, of fn w e u] assms show ?thesis by auto
      next
        case (Inr x)
        with Pair miss [OF None, of fn w x u] assms show ?thesis by auto
      qed
    qed
  qed
  then show ?thesis by (rule hit)
qed

text \<open>A function that threw leaves the key free for a retry.\<close>

lemma run_retry:
  "look k i = None \<Longrightarrow> run k fn (w, i) = (Inl e, (w', i')) \<Longrightarrow> look k i' = None"
proof -
  assume n: "look k i = None" and r: "run k fn (w, i) = (Inl e, (w', i'))"
  show "look k i' = None"
  proof (cases "fn w")
    case (Pair x u)
    show ?thesis
    proof (cases x)
      case (Inl d)
      with Pair fail [OF n, of fn w d u] r n show ?thesis by auto
    next
      case (Inr v)
      with Pair miss [OF n, of fn w v u] r show ?thesis by auto
    qed
  qed
qed

end

locale durable_runner = once_runner look run
  for look :: "string \<Rightarrow> 'i \<Rightarrow> 'v option" and run :: "string \<Rightarrow> ('w, 'v) em \<Rightarrow> ('w \<times> 'i, 'v \<times> bool) em" +
  fixes crash :: "'i \<Rightarrow> 'i" and inv :: "'i \<Rightarrow> bool"
  assumes look_crash: "inv i \<Longrightarrow> look k (crash i) = look k i"
    and inv_crash: "inv i \<Longrightarrow> inv (crash i)"
    and inv_run: "inv i \<Longrightarrow> run k fn (w, i) = (r, (w', i')) \<Longrightarrow> inv i'"
begin

text \<open>Exactly once survives a restart.\<close>

lemma run_after_crash:
  assumes "inv i" "run k fn (w, i) = (Inr (v, b), (w', i'))"
  shows "\<exists>i''. run k gn (w'', crash i') = (Inr (v, False), (w'', i''))"
proof -
  obtain j where j: "run k gn (w'', i') = (Inr (v, False), (w'', j))"
    using run_again [OF assms(2)] by blast
  have "look k i' = Some v"
  proof (cases "look k i'")
    case None
    obtain x u where u: "gn w'' = (x, u)" by (cases "gn w''")
    show ?thesis
      by (cases x) (use miss [OF None] fail [OF None] u j in fastforce)+
  next
    case (Some x)
    with hit [OF Some, of gn w''] j show ?thesis by auto
  qed
  then have "look k (crash i') = Some v"
    using look_crash [OF inv_run [OF assms]] by simp
  from hit [OF this] show ?thesis by blast
qed

end

section \<open>The in-memory store, awaited\<close>

definition mem_look :: "string \<Rightarrow> (string, 'v) jsmap \<Rightarrow> 'v option" where
  "mem_look k m = map_of m k"

definition mem_run :: "string \<Rightarrow> ('w, 'v) em \<Rightarrow> ('w \<times> (string, 'v) jsmap, 'v \<times> bool) em" where
  "mem_run key fn = (\<lambda>(w, m).
     case map_of m key of
       Some v \<Rightarrow> (Inr (v, False), (w, m))
     | None \<Rightarrow> (case fn w of
                 (Inl e, w') \<Rightarrow> (Inl e, (w', m))
               | (Inr v, w') \<Rightarrow> (Inr (v, True), (w', mset_key key v m))))"

interpretation mem_runner: once_runner mem_look mem_run
  by unfold_locales (auto simp: mem_look_def mem_run_def)

section \<open>The persistent store, awaited\<close>

text \<open>The local promise cache in front of the durable key-value table.\<close>

record ('p, 'v, 's, 'r) pidem =
  pi_local :: "(string, 'v) jsmap"
  pi_store :: "('p, 'v, 's, 'r) backing"

definition persistent_run :: "string \<Rightarrow> ('w, 'v) em \<Rightarrow> ('w \<times> ('p, 'v, 's, 'r) pidem, 'v \<times> bool) em" where
  "persistent_run key fn = (\<lambda>(w, i).
     case map_of (pi_local i) key of
       Some v \<Rightarrow> (Inr (v, False), (w, i))
     | None \<Rightarrow>
         (case kvGet key (pi_store i) of
            Some v \<Rightarrow> (Inr (v, False), (w, i\<lparr>pi_local := mset_key key v (pi_local i)\<rparr>))
          | None \<Rightarrow>
              (case fn w of
                 (Inl e, w') \<Rightarrow> (Inl e, (w', i\<lparr>pi_local := mdelete key (pi_local i)\<rparr>))
               | (Inr v, w') \<Rightarrow>
                   (let ((inserted, value), st) = kvSetIfAbsent key v (pi_store i)
                    in (Inr (value, inserted), (w', \<lparr>pi_local = mset_key key value (pi_local i), pi_store = st\<rparr>))))))"

definition persistent_has :: "string \<Rightarrow> ('p, 'v, 's, 'r) pidem \<Rightarrow> bool" where
  "persistent_has key i \<longleftrightarrow> map_of (pi_local i) key \<noteq> None \<or> kvGet key (pi_store i) \<noteq> None"

definition persistent_look :: "string \<Rightarrow> ('p, 'v, 's, 'r) pidem \<Rightarrow> 'v option" where
  "persistent_look key i = (case map_of (pi_local i) key of Some v \<Rightarrow> Some v | None \<Rightarrow> kvGet key (pi_store i))"

text \<open>A restart keeps the store and starts with an empty cache.\<close>

definition pidem_crash :: "('p, 'v, 's, 'r) pidem \<Rightarrow> ('p, 'v, 's, 'r) pidem" where
  "pidem_crash i = i\<lparr>pi_local := []\<rparr>"

lemma persistent_has_look: "persistent_has key i \<longleftrightarrow> persistent_look key i \<noteq> None"
  by (auto simp: persistent_has_def persistent_look_def split: option.splits)

interpretation persistent_runner: once_runner persistent_look persistent_run
proof (unfold_locales, goal_cases)
  case (1 k i v fn w)
  then show ?case
    by (auto simp: persistent_look_def persistent_run_def split: option.splits)
next
  case (2 k i fn w v w')
  then have "map_of (pi_local i) k = None" "map_of (b_kv (pi_store i)) k = None"
    by (auto simp: persistent_look_def kvGet_def split: option.splits)
  with 2 show ?case
    by (auto simp: persistent_look_def persistent_run_def kvGet_def kvSetIfAbsent_def
        insert_if_absent_def split: option.splits)
next
  case (3 k i fn w e w')
  then show ?case
    by (auto simp: persistent_look_def persistent_run_def kvGet_def split: option.splits)
qed

text \<open>
  The table is written before the cache, so on every state that runs can reach the cache holds
  nothing that the table lacks. Restricted to such states, a crash changes no answer.
\<close>

definition cache_sound :: "('p, 'v, 's, 'r) pidem \<Rightarrow> bool" where
  "cache_sound i \<longleftrightarrow> (\<forall>k v. map_of (pi_local i) k = Some v \<longrightarrow> kvGet k (pi_store i) = Some v)"

lemma cache_sound_crash: "cache_sound i \<Longrightarrow> persistent_look k (pidem_crash i) = persistent_look k i"
  by (auto simp: cache_sound_def persistent_look_def pidem_crash_def split: option.splits)

lemma cache_sound_run:
  "cache_sound i \<Longrightarrow> persistent_run k fn (w, i) = (r, (w', i')) \<Longrightarrow> cache_sound i'"
  by (auto simp: cache_sound_def persistent_run_def kvGet_def kvSetIfAbsent_def insert_if_absent_def
      Let_def split: option.splits prod.splits sum.splits if_splits)

interpretation persistent_durable: durable_runner persistent_look persistent_run pidem_crash cache_sound
  by unfold_locales (simp_all add: cache_sound_crash, simp add: cache_sound_def pidem_crash_def, erule (1) cache_sound_run)

section \<open>Properties\<close>

text \<open>
  C24: the promise cache never lets two executions of one key be alive together. Whatever calls,
  resolutions and rejections are interleaved, two promises of the same key of which neither was
  rejected are the same promise; so at most one execution of a key ever succeeds.\<close>

theorem cache_one_execution:
  assumes "cache_reachable c" "m < length (i_promises c)" "n < length (i_promises c)"
    "fst (i_promises c ! m) = fst (i_promises c ! n)" "live (snd (i_promises c ! m))" "live (snd (i_promises c ! n))"
  shows "m = n"
  by (rule cache_one_live [OF cache_reachable_inv]) (use assms in auto)

theorem cache_one_execution_witness:
  "\<exists>c :: nat idem_cache. cache_reachable c \<and> length (i_promises c) = 2 \<and> live (snd (i_promises c ! 1)) \<and>
     (\<forall>m < 2. fst (i_promises c ! m) = ''k'' \<and> live (snd (i_promises c ! m)) \<longrightarrow> m = 1)"
proof -
  let ?a = "snd (run_start ''k'' empty_cache) :: nat idem_cache"
  let ?b = "settle_fail 0 ''boom'' ?a"
  let ?c = "snd (run_start ''k'' ?b)"
  have c: "?c = \<lparr>i_results = [(''k'', 1)], i_promises = [(''k'', Rejected ''boom''), (''k'', Pending)]\<rparr>"
    by (simp add: run_start_def settle_fail_def empty_cache_def AList.delete_eq Let_def)
  have "cache_reachable ?a" by (rule cache_reachable.step [OF cache_reachable.start cache_step.call])
  then have "cache_reachable ?b"
    by (rule cache_reachable.step) (rule cache_step.reject, simp_all add: run_start_def empty_cache_def Let_def)
  then have r: "cache_reachable ?c" by (rule cache_reachable.step) (rule cache_step.call)
  show ?thesis
    by (rule exI [of _ ?c]) (use r cache_one_execution [OF r, of _ 1] in \<open>auto simp: c less_2_cases_iff\<close>)
qed



end
