(* ===== verification/Kernel.thy ===== *)
theory Kernel
  imports Supplier_Registry Fee_Engine Idempotency
begin

text \<open>
  The routing kernel: \<^verbatim>\<open>vnext/kernel/kernel.js\<close> with \<^verbatim>\<open>transaction.js\<close>, \<^verbatim>\<open>saga.js\<close>,
  \<^verbatim>\<open>registry.js\<close> and the interfaces of \<^verbatim>\<open>interfaces.js\<close>. The workload adapters, the
  settlement adapter, the legacy fee adapter and the supply are records of functions that act on
  an outside world \<open>'w\<close> and may throw; the clock and the failures of the durable journal are
  sequences. The state keeps, beside what the code keeps, the trace of all calls that left the
  kernel, so that the lemmas can speak of side effects.

  A quoted cost is an integer. A memoised value that has the wrong kind for its phase throws; it
  occurs only when a transaction is replayed on a kernel that was wired differently.
\<close>

section \<open>Transactions\<close>

datatype tx_state = CREATED | DISCOVERING | DISCOVERED | QUOTING | QUOTED | ROUTING | ROUTED
  | SETTLING_IN | SETTLED_IN | EXECUTING | EXECUTED | SETTLING_OUT | SETTLED | CLOSED
  | REJECTED | FAILED | COMPENSATING

record caps =
  cap_key :: "string option"
  cap_settlementMode :: "string option"
  cap_executionSafety :: "string option"

record quote =
  qt_cost :: "int option"
  qt_unit :: "string option"
  qt_supplierId :: "string option"
  qt_payTo :: "string option"
  qt_network :: "string option"

record legacy_fee =
  lf_amount :: rat
  lf_unit :: string
  lf_recipient :: string
  lf_capture :: string

datatype route = RouteEngine string decision | RouteLegacy legacy_fee

datatype tx_fee = LegacyFee legacy_fee | EngineFee fee_instruction

record settle_ref =
  sr_ref :: string
  sr_direction :: string
  sr_amount :: "int option"
  sr_unit :: "string option"
  sr_status :: string
  sr_idemKey :: string

record request =
  rq_workload :: string
  rq_query :: query
  rq_payload :: "json option"
  rq_payer :: "string option"
  rq_allowWrites :: bool

record 'x tx =
  tx_id :: string
  tx_request :: request
  tx_state :: tx_state
  tx_candidates :: "candidate list option"
  tx_supplier :: "candidate option"
  tx_quote :: "quote option"
  tx_quotes :: "(candidate \<times> quote) list"
  tx_route :: "route option"
  tx_decision :: "decision option"
  tx_fee :: "tx_fee option"
  tx_feeInstruction :: "fee_instruction option"
  settlementInRef :: "settle_ref option"
  tx_result :: "'x option"
  settlementOutRef :: "settle_ref option"
  tx_reason :: "string option"

definition new_tx :: "string \<Rightarrow> request \<Rightarrow> 'x tx" where
  "new_tx i req = \<lparr>tx_id = i, tx_request = req, tx_state = CREATED, tx_candidates = None, tx_supplier = None,
     tx_quote = None, tx_quotes = [], tx_route = None, tx_decision = None, tx_fee = None,
     tx_feeInstruction = None, settlementInRef = None, tx_result = None, settlementOutRef = None,
     tx_reason = None\<rparr>"

text \<open>What a phase can return: the values that are memoised and journaled.\<close>

datatype 'x pv = VCandidates "candidate list option" | VQuotes "(candidate \<times> quote) list" | VQuote quote
  | VRoute route | VRef settle_ref | VResult 'x | VFee fee_instruction | VNote string

datatype 'x kpayload = PhaseP tx_state "'x pv" | ReasonP string | SubmitP request

section \<open>Sagas\<close>

text \<open>Compensations run in reverse; what one throws is swallowed and its effects stay.\<close>

definition saga_compensate :: "('s, 'a) em list \<Rightarrow> 's \<Rightarrow> 's" where
  "saga_compensate cs s = foldl (\<lambda>s c. snd (c s)) s (rev cs)"

section \<open>The injected interfaces\<close>

record ('w, 'x) adapter =
  ad_capabilities :: "string + caps"
  ad_discover :: "query \<Rightarrow> ('w, candidate list option) em"
  ad_quote :: "request \<Rightarrow> candidate \<Rightarrow> ('w, quote) em"
  ad_execute :: "request \<Rightarrow> candidate \<Rightarrow> string \<Rightarrow> ('w, 'x) em"

record 'w settlement =
  st_settleIn :: "int option \<Rightarrow> string option \<Rightarrow> string \<Rightarrow> string \<Rightarrow> ('w, settle_ref) em"
  st_settleOut :: "int option \<Rightarrow> string option \<Rightarrow> string \<Rightarrow> string \<Rightarrow> ('w, settle_ref) em"

text \<open>The registry of workload adapters.\<close>

definition registry_register :: "('w, 'x) adapter \<Rightarrow> (string, ('w, 'x) adapter) jsmap \<Rightarrow> string + (string, ('w, 'x) adapter) jsmap" where
  "registry_register a m =
     bindR (ad_capabilities a) (\<lambda>c.
       if \<not> truthy (cap_key c) then Inl ''adapter has no capability key''
       else Inr (mset_key (the (cap_key c)) a m))"

definition registry_get :: "string \<Rightarrow> (string, ('w, 'x) adapter) jsmap \<Rightarrow> string + ('w, 'x) adapter" where
  "registry_get key m =
     (case map_of m key of
        None \<Rightarrow> Inl (''no adapter registered for workload '' @ [CHR 39] @ key @ [CHR 39])
      | Some a \<Rightarrow> Inr a)"

definition registry_has :: "string \<Rightarrow> (string, ('w, 'x) adapter) jsmap \<Rightarrow> bool" where
  "registry_has key m \<longleftrightarrow> map_of m key \<noteq> None"

record ('w, 'x) kernel =
  kn_registry :: "(string, ('w, 'x) adapter) jsmap"
  kn_settlement :: "'w settlement"
  kn_fee :: "quote \<Rightarrow> string \<Rightarrow> string + legacy_fee option"
  kn_clock :: "nat \<Rightarrow> int"
  kn_append_fails :: "nat \<Rightarrow> string option"
  kn_sha :: "string \<Rightarrow> string"
  kn_pj :: "'x kpayload \<Rightarrow> json"
  kn_decisionEngine :: "(decision_core \<Rightarrow> string) option"
  kn_policy :: policy
  kn_feeEngine :: "(string \<Rightarrow> string) option"
  kn_feePolicy :: fee_policy
  kn_feeCurrency :: "string option"
  kn_feeReceiver :: string
  kn_supply :: "(query \<Rightarrow> ('w, candidate list) em) option"

datatype call = CDiscover | CQuote string
  | CSettleIn "int option" "string option" string string
  | CExecute string
  | CSettleOut "int option" "string option" string string

datatype compensation = Refund "int option" "string option" string string

record ('w, 'x) kst =
  ks_world :: 'w
  ks_idem :: "(string, 'x pv) jsmap"
  ks_journal :: "'x kpayload journal"
  ks_ticks :: nat
  ks_appends :: nat
  ks_seq :: nat
  ks_trace :: "call list"
  ks_tx :: "'x tx"
  ks_saga :: "compensation list"

text \<open>A call that leaves the kernel.\<close>

definition outside :: "call \<Rightarrow> ('w, 'a) em \<Rightarrow> (('w, 'x) kst, 'a) em" where
  "outside c m s =
     (let (r, w) = m (ks_world s) in (r, s\<lparr>ks_world := w, ks_trace := ks_trace s @ [c]\<rparr>))"

text \<open>\<open>await this.journal.append(id, phase, payload, this.clock())\<close>, with \<open>tx.id\<close> in the kernel.\<close>

definition journal_at :: "('w, 'x) kernel \<Rightarrow> string \<Rightarrow> string \<Rightarrow> 'x kpayload \<Rightarrow> (('w, 'x) kst, unit) em" where
  "journal_at K i ph payload s =
     (let s1 = s\<lparr>ks_ticks := ks_ticks s + 1, ks_appends := ks_appends s + 1\<rparr>
      in case kn_append_fails K (ks_appends s) of
           Some e \<Rightarrow> (Inl e, s1)
         | None \<Rightarrow> (Inr (), s1\<lparr>ks_journal := snd (append_event (kn_sha K) (kn_pj K) i ph payload
                                             (kn_clock K (ks_ticks s)) (ks_journal s))\<rparr>))"

definition journalM :: "('w, 'x) kernel \<Rightarrow> string \<Rightarrow> 'x kpayload \<Rightarrow> (('w, 'x) kst, unit) em" where
  "journalM K ph payload s = journal_at K (tx_id (ks_tx s)) ph payload s"

definition idemM :: "string \<Rightarrow> (('w, 'x) kst, 'x pv) em \<Rightarrow> (('w, 'x) kst, 'x pv \<times> bool) em" where
  "idemM key forward s =
     (case map_of (ks_idem s) key of
        Some v \<Rightarrow> (Inr (v, False), s)
      | None \<Rightarrow> (case forward s of
                  (Inl e, s') \<Rightarrow> (Inl e, s')
                | (Inr v, s') \<Rightarrow> (Inr (v, True), s'\<lparr>ks_idem := mset_key key v (ks_idem s')\<rparr>)))"

definition phaseM :: "('w, 'x) kernel \<Rightarrow> string \<Rightarrow> (('w, 'x) kst, 'x pv) em \<Rightarrow> compensation option
    \<Rightarrow> (('w, 'x) kst, 'x pv) em" where
  "phaseM K ph forward undo =
     bindM (getM (\<lambda>s. idemKey (tx_id (ks_tx s)) ph)) (\<lambda>key.
     bindM (idemM key forward) (\<lambda>(v, fresh).
     if fresh then
       bindM (getM (\<lambda>s. tx_state (ks_tx s))) (\<lambda>st.
       bindM (journalM K ph (PhaseP st v)) (\<lambda>_.
       bindM (modifyM (\<lambda>s. case undo of None \<Rightarrow> s | Some c \<Rightarrow> s\<lparr>ks_saga := ks_saga s @ [c]\<rparr>)) (\<lambda>_.
       returnM v)))
     else returnM v))"

abbreviation updTx :: "('x tx \<Rightarrow> 'x tx) \<Rightarrow> (('w, 'x) kst, unit) em" where
  "updTx f \<equiv> modifyM (\<lambda>s. s\<lparr>ks_tx := f (ks_tx s)\<rparr>)"

abbreviation txM :: "('x tx \<Rightarrow> 'a) \<Rightarrow> (('w, 'x) kst, 'a) em" where
  "txM f \<equiv> getM (\<lambda>s. f (ks_tx s))"

definition type_error :: "(('w, 'x) kst, 'a) em" where
  "type_error = throwM ''TypeError''"

section \<open>The phases\<close>

definition merged_query :: "request \<Rightarrow> query" where
  "merged_query req = (rq_query req)\<lparr>q_workload := (case q_workload (rq_query req) of None \<Rightarrow> Some (rq_workload req) | w \<Rightarrow> w)\<rparr>"

definition step_discover :: "('w, 'x) kernel \<Rightarrow> request \<Rightarrow> ('w, 'x) adapter \<Rightarrow> (('w, 'x) kst, candidate list) em" where
  "step_discover K req ad =
     bindM (updTx (\<lambda>t. t\<lparr>tx_state := DISCOVERING\<rparr>)) (\<lambda>_.
     bindM (phaseM K ''DISCOVER''
       (case kn_supply K of
          Some supply \<Rightarrow> bindM (outside CDiscover (supply (merged_query req))) (\<lambda>cs. returnM (VCandidates (Some cs)))
        | None \<Rightarrow> bindM (outside CDiscover (ad_discover ad (rq_query req))) (\<lambda>cs. returnM (VCandidates cs))) None) (\<lambda>v.
     case v of
       VCandidates cs \<Rightarrow> bindM (updTx (\<lambda>t. t\<lparr>tx_candidates := cs\<rparr>)) (\<lambda>_. returnM (coalesce cs []))
     | _ \<Rightarrow> type_error))"

definition step_reject :: "('w, 'x) kernel \<Rightarrow> (('w, 'x) kst, unit) em" where
  "step_reject K =
     bindM (phaseM K ''REJECTED'' (returnM (VNote ''no_supply'')) None) (\<lambda>_.
     updTx (\<lambda>t. t\<lparr>tx_state := REJECTED, tx_reason := Some ''no_supply''\<rparr>))"

fun quote_all :: "('w, 'x) adapter \<Rightarrow> request \<Rightarrow> candidate list \<Rightarrow> (('w, 'x) kst, (candidate \<times> quote) list) em" where
  "quote_all ad req [] = returnM []"
| "quote_all ad req (c # cs) =
     bindM (outside (CQuote (c_supplierId c)) (ad_quote ad req c)) (\<lambda>q.
     bindM (quote_all ad req cs) (\<lambda>qs. returnM ((c, q) # qs)))"

definition step_quote :: "('w, 'x) kernel \<Rightarrow> request \<Rightarrow> ('w, 'x) adapter \<Rightarrow> candidate list \<Rightarrow> (('w, 'x) kst, unit) em" where
  "step_quote K req ad cs =
     bindM (updTx (\<lambda>t. t\<lparr>tx_state := QUOTING\<rparr>)) (\<lambda>_.
     bindM
       (case kn_decisionEngine K of
          Some _ \<Rightarrow>
            bindM (phaseM K ''QUOTE'' (bindM (quote_all ad req cs) (\<lambda>qs. returnM (VQuotes qs))) None) (\<lambda>v.
            case v of VQuotes qs \<Rightarrow> updTx (\<lambda>t. t\<lparr>tx_quotes := qs\<rparr>) | _ \<Rightarrow> type_error)
        | None \<Rightarrow>
            bindM (updTx (\<lambda>t. t\<lparr>tx_supplier := Some (hd cs)\<rparr>)) (\<lambda>_.
            bindM (phaseM K ''QUOTE''
              (bindM (outside (CQuote (c_supplierId (hd cs))) (ad_quote ad req (hd cs))) (\<lambda>q. returnM (VQuote q))) None) (\<lambda>v.
            case v of VQuote q \<Rightarrow> updTx (\<lambda>t. t\<lparr>tx_quote := Some q\<rparr>) | _ \<Rightarrow> type_error))) (\<lambda>_.
     updTx (\<lambda>t. t\<lparr>tx_state := QUOTED\<rparr>)))"

definition routing_context :: "caps \<Rightarrow> routing_ctx" where
  "routing_context c = \<lparr>acceptedRails = None,
     acceptedModes = (if truthy (cap_settlementMode c) then Some [the (cap_settlementMode c)] else None)\<rparr>"

definition priced :: "candidate \<times> quote \<Rightarrow> candidate" where
  "priced cq = (fst cq)\<lparr>c_price := (case c_price (fst cq) of Some p \<Rightarrow> Some p
     | None \<Rightarrow> Some (of_int (coalesce (qt_cost (snd cq)) 0)))\<rparr>"

definition route_forward :: "('w, 'x) kernel \<Rightarrow> caps \<Rightarrow> (('w, 'x) kst, 'x pv) em" where
  "route_forward K c =
     (case kn_decisionEngine K of
        Some hashCore \<Rightarrow>
          bindM (txM tx_quotes) (\<lambda>qs.
          bindM (getM (\<lambda>s. kn_clock K (ks_ticks s))) (\<lambda>now.
          bindM (modifyM (\<lambda>s. s\<lparr>ks_ticks := ks_ticks s + 1\<rparr>)) (\<lambda>_.
          bindM (liftR (select hashCore now (map priced qs) (kn_policy K) (routing_context c))) (\<lambda>d.
          returnM (VRoute (RouteEngine (c_supplierId (chosen d)) d))))))
      | None \<Rightarrow>
          bindM (txM (\<lambda>t. (tx_quote t, tx_id t))) (\<lambda>(q, i).
          case q of
            None \<Rightarrow> type_error
          | Some q \<Rightarrow>
              bindM (liftR (kn_fee K q i)) (\<lambda>f.
              case f of
                None \<Rightarrow> throwM ''INVARIANT_VIOLATION_fee_negative''
              | Some f \<Rightarrow> if lf_amount f < 0 then throwM ''INVARIANT_VIOLATION_fee_negative''
                          else returnM (VRoute (RouteLegacy f)))))"

definition bind_route :: "route \<Rightarrow> (('w, 'x) kst, unit) em" where
  "bind_route r =
     (case r of
        RouteEngine i d \<Rightarrow>
          bindM (txM tx_quotes) (\<lambda>qs.
          case find (\<lambda>cq. c_supplierId (fst cq) = i) qs of
            None \<Rightarrow> type_error
          | Some cq \<Rightarrow> updTx (\<lambda>t. t\<lparr>tx_supplier := Some (fst cq), tx_quote := Some (snd cq), tx_decision := Some d\<rparr>))
      | RouteLegacy f \<Rightarrow> updTx (\<lambda>t. t\<lparr>tx_fee := Some (LegacyFee f)\<rparr>))"

definition step_route :: "('w, 'x) kernel \<Rightarrow> caps \<Rightarrow> (('w, 'x) kst, unit) em" where
  "step_route K c =
     bindM (updTx (\<lambda>t. t\<lparr>tx_state := ROUTING\<rparr>)) (\<lambda>_.
     bindM (phaseM K ''ROUTE'' (route_forward K c) None) (\<lambda>v.
     case v of
       VRoute r \<Rightarrow>
         bindM (updTx (\<lambda>t. t\<lparr>tx_route := Some r\<rparr>)) (\<lambda>_.
         bindM (bind_route r) (\<lambda>_.
         updTx (\<lambda>t. t\<lparr>tx_state := ROUTED\<rparr>)))
     | _ \<Rightarrow> type_error))"

definition payer_of :: "request \<Rightarrow> string" where
  "payer_of req = or_str (rq_payer req) ''anon''"

text \<open>The quote and the supplier that routing has bound; reading a field of \<open>null\<close> throws.\<close>

definition boundM :: "(('w, 'x) kst, string \<times> quote \<times> candidate) em" where
  "boundM = bindM (txM (\<lambda>t. (tx_id t, tx_quote t, tx_supplier t))) (\<lambda>(i, q, c).
     case (q, c) of (Some q, Some c) \<Rightarrow> returnM (i, q, c) | _ \<Rightarrow> type_error)"

definition step_settle_in :: "('w, 'x) kernel \<Rightarrow> request \<Rightarrow> (('w, 'x) kst, unit) em" where
  "step_settle_in K req =
     bindM (updTx (\<lambda>t. t\<lparr>tx_state := SETTLING_IN\<rparr>)) (\<lambda>_.
     bindM boundM (\<lambda>(i, q, c).
     bindM (phaseM K ''SETTLE_IN''
       (bindM (outside (CSettleIn (qt_cost q) (qt_unit q) (payer_of req) (idemKey i ''SETTLE_IN''))
                 (st_settleIn (kn_settlement K) (qt_cost q) (qt_unit q) (payer_of req) (idemKey i ''SETTLE_IN'')))
          (\<lambda>r. returnM (VRef r)))
       (Some (Refund (qt_cost q) (qt_unit q) (payer_of req) (idemKey i ''REFUND'')))) (\<lambda>v.
     case v of
       VRef r \<Rightarrow> updTx (\<lambda>t. t\<lparr>settlementInRef := Some r, tx_state := SETTLED_IN\<rparr>)
     | _ \<Rightarrow> type_error)))"

definition step_execute :: "('w, 'x) kernel \<Rightarrow> request \<Rightarrow> ('w, 'x) adapter \<Rightarrow> (('w, 'x) kst, unit) em" where
  "step_execute K req ad =
     bindM (updTx (\<lambda>t. t\<lparr>tx_state := EXECUTING\<rparr>)) (\<lambda>_.
     bindM boundM (\<lambda>(i, q, c).
     bindM (phaseM K ''EXECUTE''
       (bindM (outside (CExecute (idemKey i ''EXECUTE'')) (ad_execute ad req c (idemKey i ''EXECUTE'')))
          (\<lambda>r. returnM (VResult r))) None) (\<lambda>v.
     case v of
       VResult r \<Rightarrow> updTx (\<lambda>t. t\<lparr>tx_result := Some r, tx_state := EXECUTED\<rparr>)
     | _ \<Rightarrow> type_error)))"

definition fee_context :: "('w, 'x) kernel \<Rightarrow> request \<Rightarrow> string \<Rightarrow> string \<Rightarrow> quote \<Rightarrow> settlement_ctx" where
  "fee_context K req mode i q =
     (let cost = (case qt_cost q of Some n \<Rightarrow> int_to_string n | None \<Rightarrow> ''0'')
      in \<lparr>s_txId = Some i, s_currency = Some (or_str (kn_feeCurrency K) (or_str (qt_unit q) ''unit'')),
          s_payer = Some (payer_of req), s_receiver = Some (kn_feeReceiver K), s_settlementMode = Some mode,
          baseAmount = Some (AStr cost), buyerAmount = Some (AStr cost), supplierCost = Some (AStr cost),
          supplierCurrency = None, s_subscription = None\<rparr>)"

definition fee_decision_of :: "decision \<Rightarrow> fee_decision" where
  "fee_decision_of d = \<lparr>fd_decisionId = Some (decisionId d), fd_currency = None\<rparr>"

definition step_fee :: "('w, 'x) kernel \<Rightarrow> request \<Rightarrow> string \<Rightarrow> (('w, 'x) kst, unit) em" where
  "step_fee K req mode =
     (case kn_feeEngine K of
        None \<Rightarrow> returnM ()
      | Some sha \<Rightarrow>
          bindM boundM (\<lambda>(i, q, c).
          bindM (txM tx_decision) (\<lambda>d.
          bindM (phaseM K ''FEE''
            (bindM (liftR (throw_fee (computeFee sha (map_option fee_decision_of d) (Some ''success'')
               (Some (fee_context K req mode i q)) (Some (kn_feePolicy K))))) (\<lambda>f. returnM (VFee f))) None) (\<lambda>v.
          case v of
            VFee f \<Rightarrow> updTx (\<lambda>t. t\<lparr>tx_feeInstruction := Some f, tx_fee := Some (EngineFee f)\<rparr>)
          | _ \<Rightarrow> type_error))))"

definition step_settle_out :: "('w, 'x) kernel \<Rightarrow> (('w, 'x) kst, unit) em" where
  "step_settle_out K =
     bindM (updTx (\<lambda>t. t\<lparr>tx_state := SETTLING_OUT\<rparr>)) (\<lambda>_.
     bindM boundM (\<lambda>(i, q, c).
     bindM (phaseM K ''SETTLE''
       (bindM (outside (CSettleOut (qt_cost q) (qt_unit q) (c_supplierId c) (idemKey i ''SETTLE''))
                 (st_settleOut (kn_settlement K) (qt_cost q) (qt_unit q) (c_supplierId c) (idemKey i ''SETTLE'')))
          (\<lambda>r. returnM (VRef r))) None) (\<lambda>v.
     case v of
       VRef r \<Rightarrow> updTx (\<lambda>t. t\<lparr>settlementOutRef := Some r, tx_state := SETTLED\<rparr>)
     | _ \<Rightarrow> type_error)))"

definition step_close :: "('w, 'x) kernel \<Rightarrow> (('w, 'x) kst, unit) em" where
  "step_close K =
     bindM (phaseM K ''CLOSED'' (returnM (VNote ''CLOSED'')) None) (\<lambda>_.
     updTx (\<lambda>t. t\<lparr>tx_state := CLOSED\<rparr>))"

section \<open>The whole transaction\<close>

definition after_route :: "('w, 'x) kernel \<Rightarrow> request \<Rightarrow> ('w, 'x) adapter \<Rightarrow> string \<Rightarrow> (('w, 'x) kst, unit) em" where
  "after_route K req ad mode =
     bindM (if mode = ''PRE'' then step_settle_in K req else returnM ()) (\<lambda>_.
     bindM (step_execute K req ad) (\<lambda>_.
     bindM (step_fee K req mode) (\<lambda>_.
     bindM (step_settle_out K) (\<lambda>_.
     step_close K))))"

definition body :: "('w, 'x) kernel \<Rightarrow> request \<Rightarrow> (('w, 'x) kst, unit) em" where
  "body K req =
     bindM (liftR (registry_get (rq_workload req) (kn_registry K))) (\<lambda>ad.
     bindM (liftR (ad_capabilities ad)) (\<lambda>c.
     let mode = or_str (cap_settlementMode c) ''POST'' in
     bindM (step_discover K req ad) (\<lambda>cs.
     if cs = [] then step_reject K
     else
       bindM (updTx (\<lambda>t. t\<lparr>tx_state := DISCOVERED\<rparr>)) (\<lambda>_.
       bindM (step_quote K req ad cs) (\<lambda>_.
       bindM (step_route K c) (\<lambda>_.
       after_route K req ad mode))))))"

definition run_compensation :: "('w, 'x) kernel \<Rightarrow> compensation \<Rightarrow> (('w, 'x) kst, settle_ref) em" where
  "run_compensation K c =
     (case c of Refund cost unit payer key \<Rightarrow>
        outside (CSettleOut cost unit payer key) (st_settleOut (kn_settlement K) cost unit payer key))"

definition on_failure :: "('w, 'x) kernel \<Rightarrow> string \<Rightarrow> (('w, 'x) kst, unit) em" where
  "on_failure K reason =
     bindM (updTx (\<lambda>t. t\<lparr>tx_state := COMPENSATING\<rparr>)) (\<lambda>_.
     bindM (journalM K ''COMPENSATING'' (ReasonP reason)) (\<lambda>_.
     bindM (modifyM (\<lambda>s. saga_compensate (map (run_compensation K) (ks_saga s)) s)) (\<lambda>_.
     bindM (updTx (\<lambda>t. t\<lparr>tx_state := FAILED, tx_reason := Some reason\<rparr>)) (\<lambda>_.
     journalM K ''FAILED'' (ReasonP reason)))))"

text \<open>The default identifier: clock in base 36 and a counter.\<close>

fun to_base36 :: "nat \<Rightarrow> string" where
  "to_base36 n =
     (let d = (if n mod 36 < 10 then char_of (48 + n mod 36) else char_of (87 + n mod 36) :: char)
      in if n < 36 then [d] else to_base36 (n div 36) @ [d])"

declare to_base36.simps [simp del]

definition tx_id_for :: "('w, 'x) kernel \<Rightarrow> string option \<Rightarrow> (('w, 'x) kst, string) em" where
  "tx_id_for K txId s =
     (if truthy txId then (Inr (the txId), s)
      else (Inr (''tx_'' @ to_base36 (nat (kn_clock K (ks_ticks s))) @ ''_'' @ nat_to_string (ks_seq s + 1)),
            s\<lparr>ks_ticks := ks_ticks s + 1, ks_seq := ks_seq s + 1\<rparr>))"

definition execute :: "('w, 'x) kernel \<Rightarrow> request \<Rightarrow> string option \<Rightarrow> (('w, 'x) kst, 'x tx) em" where
  "execute K req txId =
     bindM (tx_id_for K txId) (\<lambda>i.
     bindM (modifyM (\<lambda>s. s\<lparr>ks_tx := new_tx i req, ks_saga := []\<rparr>)) (\<lambda>_.
     bindM (catchM (body K req) (on_failure K)) (\<lambda>_.
     getM ks_tx)))"

definition reconstruct :: "string \<Rightarrow> 'x kpayload journal \<Rightarrow> string list \<times> string option" where
  "reconstruct txId j =
     (let events = read_tx txId j
      in (map ev_phase events, if events \<noteq> [] then Some (ev_phase (last events)) else None))"

end
