(* ===== verification/Kernel_Invariants.thy ===== *)
theory Kernel_Invariants
  imports Kernel
begin

text \<open>
  Facts about every run of the kernel. The interface \<open>kernel_relation\<close> says what a relation
  between the state before and the state after has to satisfy at each primitive of the kernel;
  the decomposition of a transaction into those primitives is proved once, in the locale, and
  interpreted for several relations: everything recorded only grows, side effects happen only
  for phases that were not memoised, and the hash chain stays valid.
\<close>

named_theorems frame_intro \<open>forward functions that touch the outside world only\<close>
named_theorems keeps_intro \<open>decomposition of a relation along a program\<close>
named_theorems rep_intro \<open>decomposition of replay along a program\<close>

lemma idemKey_eq_iff:
  assumes "CHR '':'' \<notin> set p" "CHR '':'' \<notin> set q"
  shows "idemKey t p = idemKey u q \<longleftrightarrow> t = u \<and> p = q"
  using idemKey_inj [OF assms] by blast

lemma idemKey_same [simp]: "idemKey t p = idemKey t q \<longleftrightarrow> p = q"
  by (simp add: idemKey_def)

lemma snd_bind_ret: "snd (bindM m (\<lambda>x. returnM (g x)) s) = snd (m s)"
  by (auto simp: bindM_def returnM_def split: prod.splits sum.splits)

section \<open>Forward functions\<close>

definition frame :: "(('w, 'x) kst, 'a) em \<Rightarrow> bool" where
  "frame m \<longleftrightarrow> (\<forall>s. ks_idem (snd (m s)) = ks_idem s \<and> ks_journal (snd (m s)) = ks_journal s \<and>
     ks_tx (snd (m s)) = ks_tx s \<and> ks_saga (snd (m s)) = ks_saga s \<and> ks_appends (snd (m s)) = ks_appends s)"

lemma frame_outside [frame_intro]: "frame (outside c m)"
  by (simp add: frame_def outside_def Let_def case_prod_beta)

lemma frame_return [frame_intro]: "frame (returnM x)"
  by (simp add: frame_def returnM_def)

lemma frame_throw [frame_intro]: "frame (throwM e)"
  by (simp add: frame_def throwM_def)

lemma frame_get [frame_intro]: "frame (getM f)"
  by (simp add: frame_def getM_def)

lemma frame_lift [frame_intro]: "frame (liftR r)"
  by (simp add: frame_def liftR_def)

lemma frame_tick [frame_intro]: "frame (modifyM (\<lambda>s. s\<lparr>ks_ticks := f s\<rparr>))"
  by (simp add: frame_def modifyM_def)

lemma frame_type_error [frame_intro]: "frame type_error"
  by (simp add: type_error_def frame_throw)

lemma frame_bind [frame_intro]: "frame m \<Longrightarrow> (\<And>x. frame (f x)) \<Longrightarrow> frame (bindM m f)"
  by (auto simp: frame_def bindM_def split: prod.splits sum.splits) (metis snd_conv)+

lemma frame_quote_all [frame_intro]: "frame (quote_all ad req cs)"
  by (induction cs) (auto intro!: frame_intro)

lemma frame_route [frame_intro]: "frame (route_forward K c)"
  unfolding route_forward_def
  by (auto intro!: frame_intro split: option.splits)

section \<open>Relations between before and after\<close>

fun call_key :: "call \<Rightarrow> string option" where
  "call_key CDiscover = None"
| "call_key (CQuote _) = None"
| "call_key (CSettleIn _ _ _ k) = Some k"
| "call_key (CExecute k) = Some k"
| "call_key (CSettleOut _ _ _ k) = Some k"

definition free :: "call \<Rightarrow> ('w, 'x) kst \<Rightarrow> bool" where
  "free c s \<longleftrightarrow> (case call_key c of None \<Rightarrow> True | Some k \<Rightarrow> map_of (ks_idem s) k = None)"

text \<open>The call belongs to one of the given phases of the transaction at hand.\<close>

definition own :: "string set \<Rightarrow> call \<Rightarrow> ('w, 'x) kst \<Rightarrow> bool" where
  "own Ph c s \<longleftrightarrow> (case call_key c of None \<Rightarrow> True | Some k \<Rightarrow> \<exists>ph \<in> Ph. k = idemKey (tx_id (ks_tx s)) ph)"

locale kernel_relation =
  fixes K :: "('w, 'x) kernel" and Ph :: "string set" and R :: "('w, 'x) kst \<Rightarrow> ('w, 'x) kst \<Rightarrow> bool"
  assumes R_refl: "R s s"
    and R_trans: "R s t \<Longrightarrow> R t u \<Longrightarrow> R s u"
    and R_id: "R s t \<Longrightarrow> tx_id (ks_tx t) = tx_id (ks_tx s)"
    and R_tx: "tx_id b = tx_id (ks_tx s) \<Longrightarrow> R s (s\<lparr>ks_tx := b\<rparr>)"
    and R_tick: "R s (s\<lparr>ks_ticks := n\<rparr>)"
    and R_saga: "''SETTLE_IN'' \<in> Ph \<Longrightarrow> R s (s\<lparr>ks_saga := cs\<rparr>)"
    and R_journal: "ph \<in> Ph \<Longrightarrow> R s (snd (journalM K ph p s))"
    and R_out: "free c s \<Longrightarrow> own Ph c s \<Longrightarrow> R s (s\<lparr>ks_world := w, ks_trace := ks_trace s @ [c]\<rparr>)"
    and R_memo: "ph \<in> Ph \<Longrightarrow> map_of (ks_idem s) (idemKey (tx_id (ks_tx s)) ph) = None \<Longrightarrow>
      R s (s\<lparr>ks_idem := mset_key (idemKey (tx_id (ks_tx s)) ph) v (ks_idem s)\<rparr>)"
begin

definition keeps :: "(('w, 'x) kst \<Rightarrow> bool) \<Rightarrow> (('w, 'x) kst, 'a) em \<Rightarrow> bool" where
  "keeps P m \<longleftrightarrow> (\<forall>s. P s \<longrightarrow> R s (snd (m s)))"

lemma keepsD: "keeps P m \<Longrightarrow> P s \<Longrightarrow> R s (snd (m s))"
  by (simp add: keeps_def)

lemma keeps_return [keeps_intro]: "keeps P (returnM x)"
  by (simp add: keeps_def returnM_def R_refl)

lemma keeps_throw [keeps_intro]: "keeps P (throwM e)"
  by (simp add: keeps_def throwM_def R_refl)

lemma keeps_type_error [keeps_intro]: "keeps P type_error"
  by (simp add: type_error_def keeps_throw)

lemma keeps_get [keeps_intro]: "keeps P (getM f)"
  by (simp add: keeps_def getM_def R_refl)

lemma keeps_lift [keeps_intro]: "keeps P (liftR r)"
  by (simp add: keeps_def liftR_def R_refl)

lemma keeps_updTx [keeps_intro]: "(\<And>t. tx_id (f t) = tx_id t) \<Longrightarrow> keeps P (updTx f)"
  by (simp add: keeps_def modifyM_def R_tx)

lemma keeps_tick [keeps_intro]: "keeps P (modifyM (\<lambda>s. s\<lparr>ks_ticks := ks_ticks s + 1\<rparr>))"
  by (simp add: keeps_def modifyM_def R_tick)

lemma keeps_bind:
  assumes "keeps P m" "\<And>x s t. P s \<Longrightarrow> m s = (Inr x, t) \<Longrightarrow> R t (snd (f x t))"
  shows "keeps P (bindM m f)"
  unfolding keeps_def
proof (intro allI impI)
  fix s assume s: "P s"
  obtain r t where mt: "m s = (r, t)" by fastforce
  have "R s t" using keepsD [OF assms(1) s] mt by simp
  then show "R s (snd (bindM m f s))"
    using assms(2) [OF s] mt R_trans by (cases r) (auto simp: bindM_def)
qed

abbreviation about :: "string \<Rightarrow> ('w, 'x) kst \<Rightarrow> bool" where
  "about i \<equiv> \<lambda>s. tx_id (ks_tx s) = i"

lemma keeps_seq [keeps_intro]:
  assumes "keeps (about i) m" "\<And>x. keeps (about i) (f x)"
  shows "keeps (about i) (bindM m f)"
proof (rule keeps_bind [OF assms(1)])
  fix x s t assume s: "about i s" and m: "m s = (Inr x, t)"
  have "R s t" using keepsD [OF assms(1) s] m by simp
  with s have "about i t" by (simp add: R_id)
  then show "R t (snd (f x t))" by (rule keepsD [OF assms(2)])
qed

text \<open>A forward function runs only if its phase is not memoised.\<close>

lemma keeps_phase:
  assumes "frame fwd" "ph \<in> Ph" "undo \<noteq> None \<Longrightarrow> ''SETTLE_IN'' \<in> Ph"
    "keeps (\<lambda>s. tx_id (ks_tx s) = i \<and> map_of (ks_idem s) (idemKey i ph) = None) fwd"
  shows "keeps (about i) (phaseM K ph fwd undo)"
  unfolding keeps_def
proof (intro allI impI)
  fix s assume i: "about i s"
  let ?key = "idemKey i ph"
  show "R s (snd (phaseM K ph fwd undo s))"
  proof (cases "map_of (ks_idem s) ?key")
    case (Some v)
    with i show ?thesis by (simp add: phaseM_def bindM_def getM_def idemM_def returnM_def R_refl)
  next
    case None
    obtain r t where f: "fwd s = (r, t)" by fastforce
    have st: "R s t" using keepsD [OF assms(4)] i None f by fastforce
    have fr: "ks_idem t = ks_idem s" "ks_tx t = ks_tx s" using assms(1) f unfolding frame_def by (metis snd_conv)+
    show ?thesis
    proof (cases r)
      case (Inl e)
      with i None f st show ?thesis by (simp add: phaseM_def bindM_def getM_def idemM_def)
    next
      case (Inr v)
      let ?t = "t\<lparr>ks_idem := mset_key ?key v (ks_idem t)\<rparr>"
      have tt: "R t ?t" using R_memo [OF assms(2), of t v] None fr i by simp
      obtain q u where j: "journalM K ph (PhaseP (tx_state (ks_tx ?t)) v) ?t = (q, u)" by fastforce
      have tu: "R ?t u" using R_journal [OF assms(2), of ?t] j by (metis snd_conv)
      have uu: "R u (case undo of None \<Rightarrow> u | Some c \<Rightarrow> u\<lparr>ks_saga := ks_saga u @ [c]\<rparr>)"
        using assms(3) R_saga R_refl by (cases undo) auto
      have "snd (phaseM K ph fwd undo s) = (case q of Inl e \<Rightarrow> u | Inr _ \<Rightarrow> (case undo of None \<Rightarrow> u | Some c \<Rightarrow> u\<lparr>ks_saga := ks_saga u @ [c]\<rparr>))"
        using i None f Inr j
        by (auto simp: phaseM_def bindM_def getM_def idemM_def returnM_def modifyM_def split: sum.splits)
      moreover have "R s u" using R_trans [OF R_trans [OF st tt] tu] .
      ultimately show ?thesis using R_trans [OF _ uu] by (cases q) simp_all
    qed
  qed
qed

lemma keeps_outside:
  "(\<And>s. P s \<Longrightarrow> free c s \<and> own Ph c s) \<Longrightarrow> keeps P (outside c m)"
  by (auto simp: keeps_def outside_def Let_def case_prod_beta R_out)

lemma keeps_outside_ret:
  assumes "\<And>s. P s \<Longrightarrow> free c s \<and> own Ph c s"
  shows "keeps P (bindM (outside c m) (\<lambda>x. returnM (g x)))"
  using keeps_outside [of P c m] assms by (simp add: keeps_def snd_bind_ret)

lemma keeps_bound:
  assumes "\<And>q c. keeps (about i) (f (i, q, c))"
  shows "keeps (about i) (bindM boundM f)"
  using assms unfolding keeps_def
  by (auto simp: boundM_def bindM_def getM_def returnM_def type_error_def throwM_def R_refl split: option.splits)

lemma keeps_pv [keeps_intro]:
  "(\<And>x. keeps P (f1 x)) \<Longrightarrow> (\<And>x. keeps P (f2 x)) \<Longrightarrow> (\<And>x. keeps P (f3 x)) \<Longrightarrow> (\<And>x. keeps P (f4 x)) \<Longrightarrow>
   (\<And>x. keeps P (f5 x)) \<Longrightarrow> (\<And>x. keeps P (f6 x)) \<Longrightarrow> (\<And>x. keeps P (f7 x)) \<Longrightarrow> (\<And>x. keeps P (f8 x)) \<Longrightarrow>
   keeps P (case v of VCandidates x \<Rightarrow> f1 x | VQuotes x \<Rightarrow> f2 x | VQuote x \<Rightarrow> f3 x | VRoute x \<Rightarrow> f4 x
     | VRef x \<Rightarrow> f5 x | VResult x \<Rightarrow> f6 x | VFee x \<Rightarrow> f7 x | VNote x \<Rightarrow> f8 x)"
  by (cases v) simp_all

lemma keeps_option [keeps_intro]:
  "keeps P m \<Longrightarrow> (\<And>x. keeps P (f x)) \<Longrightarrow> keeps P (case v of None \<Rightarrow> m | Some x \<Rightarrow> f x)"
  by (cases v) simp_all

lemma keeps_quote_all: "keeps (\<lambda>s. tx_id (ks_tx s) = i \<and> Q (ks_idem s)) (quote_all ad req cs)"
proof (induction cs)
  case (Cons c cs)
  let ?P = "\<lambda>s. tx_id (ks_tx s) = i \<and> Q (ks_idem s)"
  show ?case
  proof (simp, rule keeps_bind)
    show "keeps ?P (outside (CQuote (c_supplierId c)) (ad_quote ad req c))"
      by (rule keeps_outside) (simp add: free_def own_def)
    fix q s t
    assume "?P s" "outside (CQuote (c_supplierId c)) (ad_quote ad req c) s = (Inr q, t)"
    then have "?P t" by (auto simp: outside_def Let_def case_prod_beta)
    from keepsD [OF Cons.IH this] show "R t (snd (bindM (quote_all ad req cs) (\<lambda>qs. returnM ((c, q) # qs)) t))"
      by (simp add: snd_bind_ret)
  qed
qed (simp add: keeps_return)

lemma keeps_route_forward: "keeps P (route_forward K c)"
proof -
  have "R s (s\<lparr>ks_ticks := n\<rparr>)" for s n by (rule R_tick)
  then show ?thesis
    by (auto simp: keeps_def route_forward_def bindM_def getM_def modifyM_def liftR_def returnM_def throwM_def
        type_error_def R_refl split: option.splits prod.splits sum.splits if_splits)
qed

lemma keeps_step_discover: "''DISCOVER'' \<in> Ph \<Longrightarrow> keeps (about i) (step_discover K req ad)"
  unfolding step_discover_def
  by (intro keeps_intro keeps_phase)
    (auto intro!: frame_intro keeps_outside_ret simp: free_def own_def split: option.splits)

lemma keeps_step_reject: "''REJECTED'' \<in> Ph \<Longrightarrow> keeps (about i) (step_reject K)"
  unfolding step_reject_def by (intro keeps_intro keeps_phase) (auto intro!: frame_intro keeps_intro)

lemma keeps_step_quote: "''QUOTE'' \<in> Ph \<Longrightarrow> keeps (about i) (step_quote K req ad cs)"
proof -
  assume Q: "''QUOTE'' \<in> Ph"
  have all: "keeps (\<lambda>s. tx_id (ks_tx s) = i \<and> map_of (ks_idem s) (idemKey i ''QUOTE'') = None)
      (bindM (quote_all ad req cs) (\<lambda>qs. returnM (VQuotes qs)))"
    using keeps_quote_all [of i "\<lambda>m. map_of m (idemKey i ''QUOTE'') = None"]
    by (simp add: keeps_def snd_bind_ret)
  show ?thesis unfolding step_quote_def
    by (intro keeps_intro keeps_phase all) (auto intro!: frame_intro keeps_outside_ret simp: Q free_def own_def)
qed

lemma keeps_bind_route: "keeps (about i) (bind_route r)"
  unfolding bind_route_def by (cases r) (auto intro!: keeps_intro)

lemma keeps_step_route: "''ROUTE'' \<in> Ph \<Longrightarrow> keeps (about i) (step_route K c)"
  unfolding step_route_def
  by (intro keeps_intro keeps_phase keeps_route_forward keeps_bind_route) (auto intro!: frame_intro)

lemma keeps_step_settle_in: "''SETTLE_IN'' \<in> Ph \<Longrightarrow> keeps (about i) (step_settle_in K req)"
  unfolding step_settle_in_def
  by (rule keeps_seq, rule keeps_updTx, simp, rule keeps_bound, unfold prod.case, intro keeps_intro keeps_phase)
    (auto intro!: frame_intro keeps_outside_ret simp: free_def own_def)

lemma keeps_step_execute: "''EXECUTE'' \<in> Ph \<Longrightarrow> keeps (about i) (step_execute K req ad)"
  unfolding step_execute_def
  by (rule keeps_seq, rule keeps_updTx, simp, rule keeps_bound, unfold prod.case, intro keeps_intro keeps_phase)
    (auto intro!: frame_intro keeps_outside_ret simp: free_def own_def)

lemma keeps_step_fee: "''FEE'' \<in> Ph \<Longrightarrow> keeps (about i) (step_fee K req mode)"
  unfolding step_fee_def
  by (rule keeps_option, rule keeps_return, rule keeps_bound, unfold prod.case, intro keeps_intro keeps_phase)
    (auto intro!: frame_intro simp: keeps_def snd_bind_ret liftR_def R_refl)

lemma keeps_step_settle_out: "''SETTLE'' \<in> Ph \<Longrightarrow> keeps (about i) (step_settle_out K)"
  unfolding step_settle_out_def
  by (rule keeps_seq, rule keeps_updTx, simp, rule keeps_bound, unfold prod.case, intro keeps_intro keeps_phase)
    (auto intro!: frame_intro keeps_outside_ret simp: free_def own_def)

lemma keeps_step_close: "''CLOSED'' \<in> Ph \<Longrightarrow> keeps (about i) (step_close K)"
  unfolding step_close_def by (intro keeps_intro keeps_phase) (auto intro!: frame_intro keeps_intro)

lemma keeps_if [keeps_intro]: "keeps P m \<Longrightarrow> keeps P n \<Longrightarrow> keeps P (if b then m else n)"
  by simp

lemma keeps_after_pay:
  assumes "{''EXECUTE'', ''FEE'', ''SETTLE'', ''CLOSED''} \<subseteq> Ph"
  shows "keeps (about i) (bindM (step_execute K req ad) (\<lambda>_. bindM (step_fee K req mode) (\<lambda>_.
    bindM (step_settle_out K) (\<lambda>_. step_close K))))"
  by (intro keeps_seq keeps_step_execute keeps_step_fee keeps_step_settle_out keeps_step_close) (use assms in auto)

lemma keeps_body:
  assumes "{''DISCOVER'', ''REJECTED'', ''QUOTE'', ''ROUTE'', ''SETTLE_IN'', ''EXECUTE'', ''FEE'', ''SETTLE'', ''CLOSED''} \<subseteq> Ph"
  shows "keeps (about i) (body K req)"
  unfolding body_def after_route_def Let_def
  by (intro keeps_intro keeps_step_discover keeps_step_reject keeps_step_quote keeps_step_route
      keeps_step_settle_in keeps_step_execute keeps_step_fee keeps_step_settle_out keeps_step_close)
    (use assms in auto)

end

abbreviation all_phases :: "string set" where
  "all_phases \<equiv> {''DISCOVER'', ''REJECTED'', ''QUOTE'', ''ROUTE'', ''SETTLE_IN'', ''EXECUTE'', ''FEE'', ''SETTLE'', ''CLOSED''}"

section \<open>Everything recorded only grows\<close>

definition grows :: "('w, 'x) kst \<Rightarrow> ('w, 'x) kst \<Rightarrow> bool" where
  "grows s t \<longleftrightarrow> tx_id (ks_tx t) = tx_id (ks_tx s) \<and> map_of (ks_idem s) \<subseteq>\<^sub>m map_of (ks_idem t) \<and>
     (\<exists>es. j_events (ks_journal t) = j_events (ks_journal s) @ es) \<and> (\<exists>cs. ks_trace t = ks_trace s @ cs)"

lemma journalM_snd: "snd (journalM K ph p s) = s\<lparr>ks_ticks := ks_ticks s + 1, ks_appends := ks_appends s + 1,
   ks_journal := (case kn_append_fails K (ks_appends s) of Some e \<Rightarrow> ks_journal s
     | None \<Rightarrow> snd (append_event (kn_sha K) (kn_pj K) (tx_id (ks_tx s)) ph p (kn_clock K (ks_ticks s)) (ks_journal s)))\<rparr>"
  by (simp add: journalM_def journal_at_def Let_def split: option.splits)

lemma append_event_events: "j_events (snd (append_event sha pj t p x ts j)) = j_events j @ [make_event sha pj (j_events j) t p x ts]"
  by (simp add: append_event_def Let_def)

interpretation growing: kernel_relation K UNIV grows for K :: "('w, 'x) kernel"
proof (unfold_locales, goal_cases)
  case (2 s t u)
  then show ?case unfolding grows_def by (metis append.assoc map_le_trans)
next
  case (7 ph s p)
  then show ?case by (simp add: grows_def journalM_snd append_event_events split: option.splits)
next
  case (9 ph s v)
  then show ?case by (auto simp: grows_def map_le_def)
qed (auto simp: grows_def)

section \<open>Side effects happen once\<close>

text \<open>Every call since \<open>s\<close> that carries a key was made for a phase that \<open>s\<close> had not memoised.\<close>

definition effects_once :: "('w, 'x) kst \<Rightarrow> ('w, 'x) kst \<Rightarrow> bool" where
  "effects_once s t \<longleftrightarrow> tx_id (ks_tx t) = tx_id (ks_tx s) \<and> map_of (ks_idem s) \<subseteq>\<^sub>m map_of (ks_idem t) \<and>
     (\<exists>cs. ks_trace t = ks_trace s @ cs \<and> (\<forall>c \<in> set cs. free c s))"

lemma free_mono: "map_of (ks_idem s) \<subseteq>\<^sub>m map_of (ks_idem t) \<Longrightarrow> free c t \<Longrightarrow> free c s"
  unfolding free_def map_le_def by (auto split: option.splits) (metis domIff option.distinct(1))

interpretation once_effects: kernel_relation K UNIV effects_once for K :: "('w, 'x) kernel"
proof (unfold_locales, goal_cases)
  case (2 s t u)
  then obtain cs ds where "ks_trace t = ks_trace s @ cs" "\<forall>c \<in> set cs. free c s"
    "ks_trace u = ks_trace t @ ds" "\<forall>c \<in> set ds. free c t" unfolding effects_once_def by blast
  moreover have "map_of (ks_idem s) \<subseteq>\<^sub>m map_of (ks_idem t)" using 2(1) by (simp add: effects_once_def)
  ultimately have "ks_trace u = ks_trace s @ (cs @ ds)" "\<forall>c \<in> set (cs @ ds). free c s"
    using free_mono [of s t] by auto
  with 2 show ?case unfolding effects_once_def by (metis map_le_trans)
next
  case (7 ph s p)
  then show ?case by (simp add: effects_once_def journalM_snd)
next
  case (9 ph s v)
  then show ?case by (auto simp: effects_once_def map_le_def)
qed (auto simp: effects_once_def)

section \<open>The chain stays valid\<close>

definition chain_kept :: "('w, 'x) kernel \<Rightarrow> ('w, 'x) kst \<Rightarrow> ('w, 'x) kst \<Rightarrow> bool" where
  "chain_kept K s t \<longleftrightarrow> tx_id (ks_tx t) = tx_id (ks_tx s) \<and>
     (journal_inv (kn_sha K) (kn_pj K) (ks_journal s) \<longrightarrow> journal_inv (kn_sha K) (kn_pj K) (ks_journal t))"

interpretation chain: kernel_relation K UNIV "chain_kept K" for K :: "('w, 'x) kernel"
proof (unfold_locales, goal_cases)
  case (7 ph s p)
  then show ?case by (simp add: chain_kept_def journalM_snd journal_inv_append split: option.splits)
qed (auto simp: chain_kept_def)

lemma on_failure_chain: "chain_kept K s (snd (on_failure K reason s))"
proof -
  have out: "ks_journal (saga_compensate (map (run_compensation K) cs) s) = ks_journal s \<and>
      ks_tx (saga_compensate (map (run_compensation K) cs) s) = ks_tx s" for cs and s :: "('a, 'b) kst"
    unfolding saga_compensate_def
    by (induction cs arbitrary: s rule: rev_induct)
      (auto simp: run_compensation_def outside_def Let_def case_prod_beta split: compensation.splits)
  show ?thesis
    by (auto simp: on_failure_def bindM_def modifyM_def journalM_def journal_at_def Let_def chain_kept_def out journal_inv_append
        split: option.splits)
qed

end
