(* ===== verification/Kernel_Replay.thy ===== *)
theory Kernel_Replay
  imports Kernel_Invariants
begin

text \<open>
  Replaying a transaction. A program is \<open>replays\<close> if, having completed once, it completes again
  with the same value and the same transaction from any state that remembers at least what the
  first run memoised, and changes nothing else: no call leaves the kernel and nothing is
  journaled. All phases are, and so is the composition of a whole transaction.
\<close>

definition remembers :: "('w, 'x) kst \<Rightarrow> ('w, 'x) kst \<Rightarrow> bool" where
  "remembers u s \<longleftrightarrow> map_of (ks_idem s) \<subseteq>\<^sub>m map_of (ks_idem u)"

definition replays :: "(('w, 'x) kst, 'a) em \<Rightarrow> bool" where
  "replays m \<longleftrightarrow>
     (\<forall>s. remembers (snd (m s)) s) \<and>
     (\<forall>s x t u. m s = (Inr x, t) \<longrightarrow> remembers u t \<longrightarrow> ks_tx u = ks_tx s \<longrightarrow>
        m u = (Inr x, u\<lparr>ks_tx := ks_tx t\<rparr>))"

lemma remembers_trans: "remembers u t \<Longrightarrow> remembers t s \<Longrightarrow> remembers u s"
  unfolding remembers_def by (rule map_le_trans)

lemma remembers_refl [simp]: "remembers s s"
  by (simp add: remembers_def)

lemma kst_same_tx: "ks_tx u = t \<Longrightarrow> u\<lparr>ks_tx := t\<rparr> = u"
  by auto

lemma rep_return [rep_intro]: "replays (returnM x)"
  by (auto simp: replays_def returnM_def)

lemma rep_throw [rep_intro]: "replays (throwM e)"
  by (auto simp: replays_def throwM_def)

lemma rep_type_error [rep_intro]: "replays type_error"
  by (simp add: type_error_def rep_throw)

lemma rep_lift [rep_intro]: "replays (liftR r)"
  by (auto simp: replays_def liftR_def)

lemma rep_get_tx [rep_intro]: "replays (txM f)"
  by (auto simp: replays_def getM_def)

lemma rep_updTx [rep_intro]: "replays (updTx f)"
  by (auto simp: replays_def modifyM_def remembers_def)

lemma rep_bind [rep_intro]:
  assumes "replays m" "\<And>x. replays (f x)"
  shows "replays (bindM m f)"
  unfolding replays_def
proof (intro conjI allI impI)
  fix s
  obtain r t where m: "m s = (r, t)" by fastforce
  have "remembers t s" using assms(1) m unfolding replays_def by (metis snd_conv)
  moreover from this have "remembers (snd (f x t)) s" for x
    using assms(2) remembers_trans unfolding replays_def by blast
  ultimately show "remembers (snd (bindM m f s)) s"
    using m by (cases r) (simp_all add: bindM_def)
next
  fix s x t u
  assume run: "bindM m f s = (Inr x, t)" and u: "remembers u t" "ks_tx u = ks_tx s"
  then obtain y s1 where m: "m s = (Inr y, s1)" and f: "f y s1 = (Inr x, t)"
    by (auto simp: bindM_def split: prod.splits sum.splits)
  have "remembers t s1" using assms(2) f unfolding replays_def by (metis snd_conv)
  then have "remembers u s1" using u(1) remembers_trans by blast
  then have mu: "m u = (Inr y, u\<lparr>ks_tx := ks_tx s1\<rparr>)" using assms(1) m u(2) unfolding replays_def by blast
  have "remembers (u\<lparr>ks_tx := ks_tx s1\<rparr>) t" using u(1) by (simp add: remembers_def)
  then have "f y (u\<lparr>ks_tx := ks_tx s1\<rparr>) = (Inr x, u\<lparr>ks_tx := ks_tx s1\<rparr>\<lparr>ks_tx := ks_tx t\<rparr>)"
    using assms(2) f unfolding replays_def by (metis kst.select_convs(8) kst.surjective kst.update_convs(8))
  with mu show "bindM m f u = (Inr x, u\<lparr>ks_tx := ks_tx t\<rparr>)" by (simp add: bindM_def)
qed

lemma phaseM_run:
  assumes "frame fwd" "phaseM K ph fwd undo s = (Inr v, t)"
  shows "map_of (ks_idem t) (idemKey (tx_id (ks_tx s)) ph) = Some v" "ks_tx t = ks_tx s"
proof -
  let ?key = "idemKey (tx_id (ks_tx s)) ph"
  have "map_of (ks_idem t) ?key = Some v \<and> ks_tx t = ks_tx s"
  proof (cases "map_of (ks_idem s) ?key")
    case (Some w)
    with assms(2) show ?thesis by (auto simp: phaseM_def bindM_def getM_def idemM_def returnM_def)
  next
    case None
    obtain r s1 where f: "fwd s = (r, s1)" by fastforce
    have "ks_tx s1 = ks_tx s" using assms(1) f unfolding frame_def by (metis snd_conv)
    with assms(2) None f show ?thesis
      by (cases r) (auto simp: phaseM_def bindM_def getM_def idemM_def returnM_def modifyM_def journalM_def journal_at_def Let_def
          split: option.splits)
  qed
  then show "map_of (ks_idem t) ?key = Some v" "ks_tx t = ks_tx s" by auto
qed

lemma phaseM_hit:
  "map_of (ks_idem s) (idemKey (tx_id (ks_tx s)) ph) = Some v \<Longrightarrow> phaseM K ph fwd undo s = (Inr v, s)"
  by (simp add: phaseM_def bindM_def getM_def idemM_def returnM_def)

lemma frame_remembers: "frame fwd \<Longrightarrow> ks_idem (snd (fwd s)) = ks_idem s"
  by (simp add: frame_def)

lemma rep_phase:
  fixes fwd :: "(('a, 'b) kst, 'b pv) em"
  assumes "frame fwd"
  shows "replays (phaseM K ph fwd undo)"
  unfolding replays_def
proof (intro conjI allI impI)
  fix s :: "('a, 'b) kst"
  let ?key = "idemKey (tx_id (ks_tx s)) ph"
  show "remembers (snd (phaseM K ph fwd undo s)) s"
  proof (cases "map_of (ks_idem s) ?key")
    case (Some v)
    then show ?thesis by (simp add: phaseM_hit)
  next
    case None
    obtain r s1 where f: "fwd s = (r, s1)" by fastforce
    have "ks_idem s1 = ks_idem s" using frame_remembers [OF assms, of s] f by simp
    with None f show ?thesis
      by (cases r) (auto simp: phaseM_def bindM_def getM_def idemM_def returnM_def modifyM_def journalM_def journal_at_def Let_def
          remembers_def map_le_def split: option.splits)
  qed
next
  fix s v t u
  assume run: "phaseM K ph fwd undo s = (Inr v, t)" and u: "remembers u t" "ks_tx u = ks_tx s"
  note pr = phaseM_run [OF assms run]
  have "map_of (ks_idem u) (idemKey (tx_id (ks_tx u)) ph) = Some v"
    using pr(1) u unfolding remembers_def map_le_def by (metis domI)
  from phaseM_hit [OF this] show "phaseM K ph fwd undo u = (Inr v, u\<lparr>ks_tx := ks_tx t\<rparr>)"
    using pr(2) u(2) by simp
qed

lemma rep_pv [rep_intro]:
  "(\<And>x. replays (f1 x)) \<Longrightarrow> (\<And>x. replays (f2 x)) \<Longrightarrow> (\<And>x. replays (f3 x)) \<Longrightarrow> (\<And>x. replays (f4 x)) \<Longrightarrow>
   (\<And>x. replays (f5 x)) \<Longrightarrow> (\<And>x. replays (f6 x)) \<Longrightarrow> (\<And>x. replays (f7 x)) \<Longrightarrow> (\<And>x. replays (f8 x)) \<Longrightarrow>
   replays (case v of VCandidates x \<Rightarrow> f1 x | VQuotes x \<Rightarrow> f2 x | VQuote x \<Rightarrow> f3 x | VRoute x \<Rightarrow> f4 x
     | VRef x \<Rightarrow> f5 x | VResult x \<Rightarrow> f6 x | VFee x \<Rightarrow> f7 x | VNote x \<Rightarrow> f8 x)"
  by (cases v) simp_all

lemma rep_option [rep_intro]:
  "replays m \<Longrightarrow> (\<And>x. replays (f x)) \<Longrightarrow> replays (case v of None \<Rightarrow> m | Some x \<Rightarrow> f x)"
  by (cases v) simp_all

lemma rep_if [rep_intro]: "replays m \<Longrightarrow> replays n \<Longrightarrow> replays (if b then m else n)"
  by simp

lemma rep_prod [rep_intro]: "(\<And>a b. replays (f a b)) \<Longrightarrow> replays (case p of (a, b) \<Rightarrow> f a b)"
  by (cases p) simp

lemma rep_route [rep_intro]: "replays (bind_route r)"
  unfolding bind_route_def by (cases r) (auto intro!: rep_intro)

lemma rep_bound [rep_intro]: "replays boundM"
  unfolding boundM_def by (auto intro!: rep_intro)

lemmas step_defs = step_discover_def step_reject_def step_quote_def step_route_def step_settle_in_def
  step_execute_def step_fee_def step_settle_out_def step_close_def

lemma rep_body: "replays (body K req)"
  unfolding body_def after_route_def step_defs Let_def
  by (intro rep_intro rep_phase) (auto intro!: frame_intro split: option.splits)

section \<open>Closed transactions\<close>

lemma step_state:
  "updTx f s = (Inr (), s\<lparr>ks_tx := f (ks_tx s)\<rparr>)"
  by (simp add: modifyM_def)

lemma bind_Inr: "bindM m f s = (Inr x, t) \<Longrightarrow> \<exists>y u. m s = (Inr y, u) \<and> f y u = (Inr x, t)"
  by (auto simp: bindM_def split: prod.splits sum.splits)

lemma step_close_state: "step_close K s = (Inr x, t) \<Longrightarrow> tx_state (ks_tx t) = CLOSED"
  by (auto simp: step_close_def modifyM_def dest!: bind_Inr)

lemma step_reject_state: "step_reject K s = (Inr x, t) \<Longrightarrow> tx_state (ks_tx t) = REJECTED"
  by (auto simp: step_reject_def modifyM_def dest!: bind_Inr)

lemma body_state:
  "body K req s = (Inr x, t) \<Longrightarrow> tx_state (ks_tx t) = CLOSED \<or> tx_state (ks_tx t) = REJECTED"
  unfolding body_def after_route_def Let_def
  by (auto dest!: bind_Inr step_close_state step_reject_state split: if_splits)

lemma on_failure_Inr:
  "on_failure K e s = (Inr x, t) \<Longrightarrow> tx_state (ks_tx t) = FAILED \<and> tx_reason (ks_tx t) = Some e"
  by (auto simp: on_failure_def bindM_def modifyM_def journalM_def journal_at_def Let_def split: option.splits prod.splits sum.splits)

text \<open>What an execution of a given transaction comes down to.\<close>

definition start_tx :: "string \<Rightarrow> request \<Rightarrow> ('w, 'x) kst \<Rightarrow> ('w, 'x) kst" where
  "start_tx i req s = s\<lparr>ks_tx := new_tx i req, ks_saga := []\<rparr>"

lemma execute_cases:
  assumes "i \<noteq> []" "execute K req (Some i) s = (r, t)"
  obtains (completed) "body K req (start_tx i req s) = (Inr (), t)" "r = Inr (ks_tx t)"
  | (compensated) e u where "body K req (start_tx i req s) = (Inl e, u)" "on_failure K e u = (Inr (), t)" "r = Inr (ks_tx t)"
  | (stuck) e u d where "body K req (start_tx i req s) = (Inl e, u)" "on_failure K e u = (Inl d, t)" "r = Inl d"
  using assms that
  by (auto simp: execute_def tx_id_for_def bindM_def catchM_def getM_def modifyM_def start_tx_def [symmetric]
      split: prod.splits sum.splits)

lemma execute_terminal:
  assumes "i \<noteq> []" "execute K req (Some i) s = (Inr x, t)"
  shows "tx_state x = CLOSED \<or> tx_state x = REJECTED \<or> tx_state x = FAILED"
  using assms by (cases rule: execute_cases [OF assms]) (auto dest: body_state on_failure_Inr)

lemma execute_replay:
  assumes "i \<noteq> []" "execute K req (Some i) s = (Inr x, t)" "tx_state x \<noteq> FAILED" "remembers u t"
  shows "execute K req (Some i) u = (Inr x, u\<lparr>ks_tx := x, ks_saga := []\<rparr>)"
proof -
  from assms(1,2) have b: "body K req (start_tx i req s) = (Inr (), t)" "x = ks_tx t"
    by (cases rule: execute_cases [OF assms(1,2)]; use assms(3) in \<open>auto dest: on_failure_Inr\<close>)+
  have "remembers (start_tx i req u) t" "ks_tx (start_tx i req u) = ks_tx (start_tx i req s)"
    using assms(4) by (simp_all add: remembers_def start_tx_def)
  with rep_body [of K req] b(1) have
    "body K req (start_tx i req u) = (Inr (), (start_tx i req u)\<lparr>ks_tx := ks_tx t\<rparr>)"
    unfolding replays_def by blast
  with assms(1) b(2) show ?thesis
    by (simp add: execute_def tx_id_for_def bindM_def catchM_def getM_def modifyM_def start_tx_def)
qed

end
