(* ===== verification/Kernel_Saga.thy ===== *)
theory Kernel_Saga
  imports Kernel_Replay
begin

text \<open>
  What a transaction leaves in the journal and what it owes the payer. Without failures of the
  journal, a fresh transaction journals exactly the phases of the path it took, in order; a
  failed one journals a proper prefix of them and then that it compensated. A payment taken by
  a run that fails is given back by that run, once, with the same amount, unit and payer.
\<close>

named_theorems quiet_intro \<open>programs that neither journal nor memoise\<close>

definition no_faults :: "('w, 'x) kernel \<Rightarrow> bool" where
  "no_faults K \<longleftrightarrow> (\<forall>n. kn_append_fails K n = None)"

definition phases_of :: "string \<Rightarrow> ('w, 'x) kst \<Rightarrow> string list" where
  "phases_of i s = map ev_phase (filter (\<lambda>e. ev_txId e = i) (j_events (ks_journal s)))"

definition mode_of :: "('w, 'x) kernel \<Rightarrow> request \<Rightarrow> string" where
  "mode_of K req =
     (case bindR (registry_get (rq_workload req) (kn_registry K)) ad_capabilities of
        Inl _ \<Rightarrow> ''POST'' | Inr c \<Rightarrow> or_str (cap_settlementMode c) ''POST'')"

definition full_path :: "('w, 'x) kernel \<Rightarrow> string \<Rightarrow> string list" where
  "full_path K mode = [''DISCOVER'', ''QUOTE'', ''ROUTE''] @ (if mode = ''PRE'' then [''SETTLE_IN''] else []) @
     [''EXECUTE''] @ (if kn_feeEngine K = None then [] else [''FEE'']) @ [''SETTLE'', ''CLOSED'']"

section \<open>Phases that have been journaled\<close>

text \<open>
  For transaction \<open>i\<close>, the journal held \<open>B\<close> before and the phases \<open>L\<close> were added since; these
  are exactly the ones memoised.
\<close>

definition journaled :: "string \<Rightarrow> string list \<Rightarrow> string list \<Rightarrow> ('w, 'x) kst \<Rightarrow> bool" where
  "journaled i B L s \<longleftrightarrow> tx_id (ks_tx s) = i \<and> phases_of i s = B @ L \<and>
     (\<forall>ph. map_of (ks_idem s) (idemKey i ph) \<noteq> None \<longleftrightarrow> ph \<in> set L)"

definition quiet :: "(('w, 'x) kst, 'a) em \<Rightarrow> bool" where
  "quiet m \<longleftrightarrow> (\<forall>s. ks_journal (snd (m s)) = ks_journal s \<and> ks_idem (snd (m s)) = ks_idem s \<and>
     tx_id (ks_tx (snd (m s))) = tx_id (ks_tx s))"

lemma quiet_frame: "frame m \<Longrightarrow> quiet m"
  by (simp add: frame_def quiet_def)

lemma quiet_updTx [quiet_intro]: "(\<And>t. tx_id (f t) = tx_id t) \<Longrightarrow> quiet (updTx f)"
  by (simp add: quiet_def modifyM_def)

lemma quiet_bind [quiet_intro]: "quiet m \<Longrightarrow> (\<And>x. quiet (f x)) \<Longrightarrow> quiet (bindM m f)"
  by (auto simp: quiet_def bindM_def split: prod.splits sum.splits) (metis snd_conv)+

lemmas quiet_basic [quiet_intro] = frame_return [THEN quiet_frame] frame_throw [THEN quiet_frame]
  frame_get [THEN quiet_frame] frame_lift [THEN quiet_frame] frame_type_error [THEN quiet_frame]

lemma quiet_option [quiet_intro]:
  "quiet m \<Longrightarrow> (\<And>x. quiet (f x)) \<Longrightarrow> quiet (case v of None \<Rightarrow> m | Some x \<Rightarrow> f x)"
  by (cases v) simp_all

lemma quiet_prod [quiet_intro]: "(\<And>a b. quiet (f a b)) \<Longrightarrow> quiet (case p of (a, b) \<Rightarrow> f a b)"
  by (cases p) simp

lemma quiet_bound [quiet_intro]: "quiet boundM"
  unfolding boundM_def by (intro quiet_intro)

lemma quiet_route [quiet_intro]: "quiet (bind_route r)"
  unfolding bind_route_def by (cases r) (simp_all, (intro quiet_intro; simp)+)

lemma journaled_quiet: "quiet m \<Longrightarrow> journaled i B L s \<Longrightarrow> journaled i B L (snd (m s))"
  by (simp add: quiet_def journaled_def phases_of_def)

lemma triple_quiet_end:
  assumes "quiet m"
  shows "triple (journaled i B L) m (\<lambda>_. journaled i B L) (\<lambda>_. journaled i B L)"
  by (rule tripleI) (use journaled_quiet [OF assms] in \<open>metis snd_conv\<close>)+

lemma triple_quiet:
  assumes "quiet m" "\<And>x. triple (journaled i B L) (f x) Q E" "\<And>e s. journaled i B L s \<Longrightarrow> E e s"
  shows "triple (journaled i B L) (bindM m f) Q E"
proof (rule triple_bind)
  show "triple (journaled i B L) m (\<lambda>_. journaled i B L) E"
    by (rule triple_conseq [OF triple_quiet_end [OF assms(1)]]) (auto intro: assms(3))
qed (rule assms(2))

lemma triple_phase:
  fixes K :: "('w, 'x) kernel"
  assumes "no_faults K" "frame fwd" "ph \<notin> set L"
  shows "triple (journaled i B L) (phaseM K ph fwd undo) (\<lambda>_. journaled i B (L @ [ph])) (\<lambda>_. journaled i B L)"
  unfolding triple_def
proof (intro allI impI)
  fix s :: "('w, 'x) kst" assume J: "journaled i B L s"
  then have none: "map_of (ks_idem s) (idemKey i ph) = None" and i: "tx_id (ks_tx s) = i"
    using assms(3) unfolding journaled_def by blast+
  obtain r t where f: "fwd s = (r, t)" by fastforce
  have fr: "ks_idem t = ks_idem s" "ks_tx t = ks_tx s" "ks_journal t = ks_journal s"
    using assms(2) f unfolding frame_def by (metis snd_conv)+
  show "case phaseM K ph fwd undo s of (Inl e, t) \<Rightarrow> journaled i B L t | (Inr x, t) \<Rightarrow> journaled i B (L @ [ph]) t"
    using J none i f fr assms(1)
    by (cases r; cases undo) (auto simp: phaseM_def bindM_def getM_def idemM_def returnM_def modifyM_def journalM_def journal_at_def Let_def
        no_faults_def journaled_def phases_of_def append_event_events)
qed

text \<open>A phase followed by quiet bookkeeping.\<close>

lemma triple_phase_then:
  assumes "no_faults K" "frame fwd" "ph \<notin> set L" "\<And>v. quiet (k v)"
  shows "triple (journaled i B L) (bindM (phaseM K ph fwd undo) k) (\<lambda>_. journaled i B (L @ [ph]))
    (\<lambda>_ s. journaled i B L s \<or> journaled i B (L @ [ph]) s)"
proof (rule triple_bind)
  show "triple (journaled i B L) (phaseM K ph fwd undo) (\<lambda>_. journaled i B (L @ [ph]))
      (\<lambda>_ s. journaled i B L s \<or> journaled i B (L @ [ph]) s)"
    by (rule triple_conseq [OF triple_phase [OF assms(1-3)]]) auto
  show "triple (journaled i B (L @ [ph])) (k v) (\<lambda>_. journaled i B (L @ [ph]))
      (\<lambda>_ s. journaled i B L s \<or> journaled i B (L @ [ph]) s)" for v
    by (rule triple_conseq [OF triple_quiet_end [OF assms(4)]]) auto
qed

lemma quiet_pv [quiet_intro]:
  "(\<And>x. quiet (f1 x)) \<Longrightarrow> (\<And>x. quiet (f2 x)) \<Longrightarrow> (\<And>x. quiet (f3 x)) \<Longrightarrow> (\<And>x. quiet (f4 x)) \<Longrightarrow>
   (\<And>x. quiet (f5 x)) \<Longrightarrow> (\<And>x. quiet (f6 x)) \<Longrightarrow> (\<And>x. quiet (f7 x)) \<Longrightarrow> (\<And>x. quiet (f8 x)) \<Longrightarrow>
   quiet (case v of VCandidates x \<Rightarrow> f1 x | VQuotes x \<Rightarrow> f2 x | VQuote x \<Rightarrow> f3 x | VRoute x \<Rightarrow> f4 x
     | VRef x \<Rightarrow> f5 x | VResult x \<Rightarrow> f6 x | VFee x \<Rightarrow> f7 x | VNote x \<Rightarrow> f8 x)"
  by (cases v) simp_all

abbreviation at_or :: "string \<Rightarrow> string list \<Rightarrow> string list \<Rightarrow> string \<Rightarrow> string \<Rightarrow> ('w, 'x) kst \<Rightarrow> bool" where
  "at_or i B L ph \<equiv> \<lambda>_ s. journaled i B L s \<or> journaled i B (L @ [ph]) s"

lemma j_discover:
  "no_faults K \<Longrightarrow> ''DISCOVER'' \<notin> set L \<Longrightarrow>
   triple (journaled i B L) (step_discover K req ad) (\<lambda>_. journaled i B (L @ [''DISCOVER''])) (at_or i B L ''DISCOVER'')"
  unfolding step_discover_def
  by (rule triple_quiet, rule quiet_updTx, simp, rule triple_phase_then)
    (auto intro!: frame_intro quiet_intro split: option.splits)

lemma j_quote:
  "no_faults K \<Longrightarrow> ''QUOTE'' \<notin> set L \<Longrightarrow>
   triple (journaled i B L) (step_quote K req ad cs) (\<lambda>_. journaled i B (L @ [''QUOTE''])) (at_or i B L ''QUOTE'')"
  unfolding step_quote_def
  apply (rule triple_quiet, rule quiet_updTx, simp)
   apply (rule triple_bind [where R = "\<lambda>_. journaled i B (L @ [''QUOTE''])"])
    apply (cases "kn_decisionEngine K"; simp)
     apply (rule triple_quiet, rule quiet_updTx, simp, rule triple_phase_then)
         apply (auto intro!: frame_intro quiet_intro)[5]
    apply (rule triple_phase_then; auto intro!: frame_intro quiet_intro)
   apply (auto simp: triple_def modifyM_def journaled_def phases_of_def)
  done

lemma j_route:
  "no_faults K \<Longrightarrow> ''ROUTE'' \<notin> set L \<Longrightarrow>
   triple (journaled i B L) (step_route K c) (\<lambda>_. journaled i B (L @ [''ROUTE''])) (at_or i B L ''ROUTE'')"
  unfolding step_route_def
  by (rule triple_quiet, rule quiet_updTx, simp, rule triple_phase_then)
    (auto intro!: frame_intro quiet_intro)

lemma j_settle_in:
  "no_faults K \<Longrightarrow> ''SETTLE_IN'' \<notin> set L \<Longrightarrow>
   triple (journaled i B L) (step_settle_in K req) (\<lambda>_. journaled i B (L @ [''SETTLE_IN''])) (at_or i B L ''SETTLE_IN'')"
  unfolding step_settle_in_def
  by (rule triple_quiet, rule quiet_updTx, simp, rule triple_quiet, rule quiet_bound, clarsimp, rule triple_phase_then)
    (auto intro!: frame_intro quiet_intro)

lemma j_execute:
  "no_faults K \<Longrightarrow> ''EXECUTE'' \<notin> set L \<Longrightarrow>
   triple (journaled i B L) (step_execute K req ad) (\<lambda>_. journaled i B (L @ [''EXECUTE''])) (at_or i B L ''EXECUTE'')"
  unfolding step_execute_def
  by (rule triple_quiet, rule quiet_updTx, simp, rule triple_quiet, rule quiet_bound, clarsimp, rule triple_phase_then)
    (auto intro!: frame_intro quiet_intro)

lemma j_settle_out:
  "no_faults K \<Longrightarrow> ''SETTLE'' \<notin> set L \<Longrightarrow>
   triple (journaled i B L) (step_settle_out K) (\<lambda>_. journaled i B (L @ [''SETTLE''])) (at_or i B L ''SETTLE'')"
  unfolding step_settle_out_def
  by (rule triple_quiet, rule quiet_updTx, simp, rule triple_quiet, rule quiet_bound, clarsimp, rule triple_phase_then)
    (auto intro!: frame_intro quiet_intro)

lemma j_fee:
  "no_faults K \<Longrightarrow> kn_feeEngine K \<noteq> None \<Longrightarrow> ''FEE'' \<notin> set L \<Longrightarrow>
   triple (journaled i B L) (step_fee K req mode) (\<lambda>_. journaled i B (L @ [''FEE''])) (at_or i B L ''FEE'')"
  unfolding step_fee_def
  by (clarsimp, rule triple_quiet, rule quiet_bound, clarsimp, rule triple_quiet, rule quiet_frame, rule frame_get,
      rule triple_phase_then)
    (auto intro!: frame_intro quiet_intro)

text \<open>The closing phases do not throw after their phase.\<close>

lemma j_last:
  assumes "no_faults K" "ph \<notin> set L" "\<And>t. tx_id (f t) = tx_id t \<and> tx_state (f t) = st"
  shows "triple (journaled i B L) (bindM (phaseM K ph (returnM v) None) (\<lambda>_. updTx f))
    (\<lambda>_ s. journaled i B (L @ [ph]) s \<and> tx_state (ks_tx s) = st) (\<lambda>_. journaled i B L)"
proof (rule triple_bind)
  show "triple (journaled i B L) (phaseM K ph (returnM v) None) (\<lambda>_. journaled i B (L @ [ph])) (\<lambda>_. journaled i B L)"
    by (rule triple_phase [OF assms(1) frame_return assms(2)])
  show "triple (journaled i B (L @ [ph])) (updTx f) (\<lambda>_ s. journaled i B (L @ [ph]) s \<and> tx_state (ks_tx s) = st)
      (\<lambda>_. journaled i B L)" for w
    using assms(3) by (auto simp: triple_def modifyM_def journaled_def phases_of_def)
qed

section \<open>The path of a transaction\<close>

definition partial :: "string \<Rightarrow> string list \<Rightarrow> string list \<Rightarrow> ('w, 'x) kst \<Rightarrow> bool" where
  "partial i B full s \<longleftrightarrow> (\<exists>L M. full = L @ M \<and> M \<noteq> [] \<and> journaled i B L s)"

lemma partialI: "journaled i B L s \<Longrightarrow> full = L @ M \<Longrightarrow> M \<noteq> [] \<Longrightarrow> partial i B full s"
  by (auto simp: partial_def)

lemma j_chain:
  assumes "triple (journaled i B L) m (\<lambda>_. journaled i B (L @ [ph])) (at_or i B L ph)"
    "full = L @ ph # M" "M \<noteq> []"
    "\<And>x. triple (journaled i B (L @ [ph])) (f x) Q (\<lambda>_. partial i B full)"
  shows "triple (journaled i B L) (bindM m f) Q (\<lambda>_. partial i B full)"
proof (rule triple_bind [OF _ assms(4)])
  show "triple (journaled i B L) m (\<lambda>_. journaled i B (L @ [ph])) (\<lambda>_. partial i B full)"
    by (rule triple_conseq [OF assms(1)])
      (use assms(2,3) partialI [of i B L _ full "ph # M"] partialI [of i B "L @ [ph]" _ full M] in auto)
qed

lemma j_close:
  assumes "no_faults K" "''CLOSED'' \<notin> set L" "full = L @ [''CLOSED'']"
  shows "triple (journaled i B L) (step_close K) (\<lambda>_ s. journaled i B full s \<and> tx_state (ks_tx s) = CLOSED)
    (\<lambda>_. partial i B full)"
  unfolding step_close_def
  by (rule triple_conseq [OF j_last [OF assms(1,2), where st = CLOSED]])
    (use assms(3) partialI [of i B L _ full "[''CLOSED'']"] in auto)

lemma j_fee_then:
  assumes "no_faults K" "set L \<inter> {''FEE'', ''SETTLE'', ''CLOSED''} = {}"
    "full = L @ (if kn_feeEngine K = None then [] else [''FEE'']) @ [''SETTLE'', ''CLOSED'']"
  shows "triple (journaled i B L) (bindM (step_fee K req mode) (\<lambda>_. bindM (step_settle_out K) (\<lambda>_. step_close K)))
    (\<lambda>_ s. journaled i B full s \<and> tx_state (ks_tx s) = CLOSED) (\<lambda>_. partial i B full)"
proof (cases "kn_feeEngine K")
  case None
  then have "bindM (step_fee K req mode) f = f ()" for f :: "unit \<Rightarrow> (('a, 'b) kst, unit) em"
    by (simp add: step_fee_def bindM_def returnM_def fun_eq_iff)
  moreover have "triple (journaled i B L) (bindM (step_settle_out K) (\<lambda>_. step_close K))
    (\<lambda>_ s. journaled i B full s \<and> tx_state (ks_tx s) = CLOSED) (\<lambda>_. partial i B full)"
    by (rule j_chain [OF j_settle_out, where M = "[''CLOSED'']"]; (rule j_close)?) (use assms None in auto)
  ultimately show ?thesis by simp
next
  case (Some sha)
  show ?thesis
    by (rule j_chain [OF j_fee, where M = "[''SETTLE'', ''CLOSED'']"];
        (rule j_chain [OF j_settle_out, where M = "[''CLOSED'']"]; (rule j_close)?)?)
      (use assms Some in auto)
qed

lemma j_after_route:
  assumes "no_faults K"
  shows "triple (journaled i B [''DISCOVER'', ''QUOTE'', ''ROUTE'']) (after_route K req ad mode)
    (\<lambda>_ s. journaled i B (full_path K mode) s \<and> tx_state (ks_tx s) = CLOSED) (\<lambda>_. partial i B (full_path K mode))"
proof -
  let ?fee = "if kn_feeEngine K = None then [] else [''FEE'']"
  let ?L = "[''DISCOVER'', ''QUOTE'', ''ROUTE''] @ (if mode = ''PRE'' then [''SETTLE_IN''] else [])"
  have tail: "triple (journaled i B ?L) (bindM (step_execute K req ad) (\<lambda>_. bindM (step_fee K req mode) (\<lambda>_.
      bindM (step_settle_out K) (\<lambda>_. step_close K))))
    (\<lambda>_ s. journaled i B (full_path K mode) s \<and> tx_state (ks_tx s) = CLOSED) (\<lambda>_. partial i B (full_path K mode))"
    by (rule j_chain [OF j_execute, where M = "?fee @ [''SETTLE'', ''CLOSED'']"]; (rule j_fee_then)?)
      (use assms in \<open>auto simp: full_path_def\<close>)
  show ?thesis
  proof (cases "mode = ''PRE''")
    case True
    then have ar: "after_route K req ad mode = bindM (step_settle_in K req) (\<lambda>_. bindM (step_execute K req ad) (\<lambda>_.
        bindM (step_fee K req mode) (\<lambda>_. bindM (step_settle_out K) (\<lambda>_. step_close K))))"
      by (simp add: after_route_def)
    show ?thesis unfolding ar
      by (rule j_chain [OF j_settle_in, where M = "''EXECUTE'' # ?fee @ [''SETTLE'', ''CLOSED'']"])
        (use assms tail True in \<open>auto simp: full_path_def\<close>)
  next
    case False
    then have "after_route K req ad mode = bindM (step_execute K req ad) (\<lambda>_. bindM (step_fee K req mode) (\<lambda>_.
      bindM (step_settle_out K) (\<lambda>_. step_close K)))"
      by (simp add: after_route_def bindM_def returnM_def fun_eq_iff)
    with tail False show ?thesis by simp
  qed
qed

definition ended :: "('w, 'x) kernel \<Rightarrow> request \<Rightarrow> string \<Rightarrow> string list \<Rightarrow> ('w, 'x) kst \<Rightarrow> bool" where
  "ended K req i B s \<longleftrightarrow>
     journaled i B [''DISCOVER'', ''REJECTED''] s \<and> tx_state (ks_tx s) = REJECTED \<or>
     journaled i B (full_path K (mode_of K req)) s \<and> tx_state (ks_tx s) = CLOSED"

lemma j_body:
  fixes K :: "('w, 'x) kernel"
  assumes "no_faults K"
  shows "triple (journaled i B []) (body K req) (\<lambda>_. ended K req i B) (\<lambda>_. partial i B (full_path K (mode_of K req)))"
proof -
  let ?full = "full_path K (mode_of K req)"
  have P0: "partial i B ?full s" if "journaled i B [] s" for s :: "('w, 'x) kst"
    by (rule partialI [OF that, where M = ?full]) (simp_all add: full_path_def)
  have full: "?full = [''DISCOVER''] @ ''QUOTE'' # tl (tl ?full)" "tl (tl ?full) = ''ROUTE'' # tl (tl (tl ?full))"
    "tl (tl (tl ?full)) \<noteq> []" "?full = [] @ ''DISCOVER'' # tl ?full" "tl ?full \<noteq> []" "tl (tl ?full) \<noteq> []"
    by (simp_all add: full_path_def)
  have reject: "triple (journaled i B [''DISCOVER'']) (step_reject K) (\<lambda>_. ended K req i B) (\<lambda>_. partial i B ?full)"
    unfolding step_reject_def
    by (rule triple_conseq [OF j_last [OF assms, where st = REJECTED]])
      (use partialI [of i B "[''DISCOVER'']" _ ?full "tl ?full"] in \<open>auto simp: ended_def full_path_def\<close>)
  have go: "triple (journaled i B [''DISCOVER'']) (bindM (updTx (\<lambda>t. t\<lparr>tx_state := DISCOVERED\<rparr>)) (\<lambda>_.
      bindM (step_quote K req ad cs) (\<lambda>_. bindM (step_route K c) (\<lambda>_. after_route K req ad (mode_of K req)))))
      (\<lambda>_. ended K req i B) (\<lambda>_. partial i B ?full)" for ad cs c
  proof (rule triple_quiet, rule quiet_updTx, simp)
    show "triple (journaled i B [''DISCOVER'']) (bindM (step_quote K req ad cs) (\<lambda>_. bindM (step_route K c) (\<lambda>_.
        after_route K req ad (mode_of K req)))) (\<lambda>_. ended K req i B) (\<lambda>_. partial i B ?full)"
      by (rule j_chain [OF j_quote, where M = "tl (tl ?full)"];
          (rule j_chain [OF j_route, where M = "tl (tl (tl ?full))"];
           (rule triple_conseq [OF j_after_route])?)?)
        (use assms full in \<open>auto simp: ended_def\<close>)
    show "journaled i B [''DISCOVER''] s \<Longrightarrow> partial i B ?full s" for s
      by (erule partialI [where M = "tl ?full"]) (simp_all add: full_path_def)
  qed
  show ?thesis
    unfolding body_def Let_def
  proof (rule triple_bind [where R = "\<lambda>ad s. journaled i B [] s \<and> registry_get (rq_workload req) (kn_registry K) = Inr ad"])
    show "triple (journaled i B [] :: ('w, 'x) kst \<Rightarrow> bool) (liftR (registry_get (rq_workload req) (kn_registry K)))
        (\<lambda>ad s. journaled i B [] s \<and> registry_get (rq_workload req) (kn_registry K) = Inr ad) (\<lambda>_. partial i B ?full)"
      by (rule triple_liftR) (auto intro: P0)
    fix ad
    show "triple (\<lambda>s. journaled i B [] s \<and> registry_get (rq_workload req) (kn_registry K) = Inr ad)
      (bindM (liftR (ad_capabilities ad)) (\<lambda>c. bindM (step_discover K req ad) (\<lambda>cs. if cs = [] then step_reject K
        else bindM (updTx (\<lambda>t. t\<lparr>tx_state := DISCOVERED\<rparr>)) (\<lambda>_. bindM (step_quote K req ad cs) (\<lambda>_.
          bindM (step_route K c) (\<lambda>_. after_route K req ad (or_str (cap_settlementMode c) ''POST'')))))))
      (\<lambda>_. ended K req i B) (\<lambda>_. partial i B ?full)"
    proof (rule triple_bind [where R = "\<lambda>c s. journaled i B [] s \<and> or_str (cap_settlementMode c) ''POST'' = mode_of K req"])
      show "triple (\<lambda>s :: ('w, 'x) kst. journaled i B [] s \<and> registry_get (rq_workload req) (kn_registry K) = Inr ad)
          (liftR (ad_capabilities ad)) (\<lambda>c s. journaled i B [] s \<and> or_str (cap_settlementMode c) ''POST'' = mode_of K req)
          (\<lambda>_. partial i B ?full)"
        by (rule triple_liftR) (simp add: mode_of_def, blast intro: P0)
      fix c
      show "triple (\<lambda>s. journaled i B [] s \<and> or_str (cap_settlementMode c) ''POST'' = mode_of K req)
        (bindM (step_discover K req ad) (\<lambda>cs. if cs = [] then step_reject K
          else bindM (updTx (\<lambda>t. t\<lparr>tx_state := DISCOVERED\<rparr>)) (\<lambda>_. bindM (step_quote K req ad cs) (\<lambda>_.
            bindM (step_route K c) (\<lambda>_. after_route K req ad (or_str (cap_settlementMode c) ''POST''))))))
        (\<lambda>_. ended K req i B) (\<lambda>_. partial i B ?full)"
      proof (cases "or_str (cap_settlementMode c) ''POST'' = mode_of K req")
        case True
        show ?thesis
          unfolding True simp_thms
          by (rule j_chain [OF j_discover, where M = "tl ?full"]) (use assms full reject go in auto)
      qed (simp add: triple_def)
    qed
  qed
qed

lemma on_failure_phases:
  assumes "no_faults K" "tx_id (ks_tx s) = i" "on_failure K e s = (r, t)"
  shows "r = Inr () \<and> phases_of i t = phases_of i s @ [''COMPENSATING'', ''FAILED''] \<and>
    tx_state (ks_tx t) = FAILED \<and> tx_reason (ks_tx t) = Some e"
proof -
  have out: "ks_journal (saga_compensate (map (run_compensation K) cs) u) = ks_journal u \<and>
      ks_tx (saga_compensate (map (run_compensation K) cs) u) = ks_tx u" for cs and u :: "('a, 'b) kst"
    unfolding saga_compensate_def
    by (induction cs arbitrary: u rule: rev_induct)
      (auto simp: run_compensation_def outside_def Let_def case_prod_beta split: compensation.splits)
  show ?thesis
    using assms by (auto simp: on_failure_def bindM_def modifyM_def journalM_def journal_at_def Let_def no_faults_def phases_of_def
        append_event_events out)
qed

section \<open>Refunds\<close>

text \<open>Everything but taking the payment leaves the saga and the memo of the payment alone.\<close>

definition saga_kept :: "('w, 'x) kst \<Rightarrow> ('w, 'x) kst \<Rightarrow> bool" where
  "saga_kept s t \<longleftrightarrow> tx_id (ks_tx t) = tx_id (ks_tx s) \<and> ks_saga t = ks_saga s \<and>
     map_of (ks_idem t) (idemKey (tx_id (ks_tx s)) ''SETTLE_IN'') = map_of (ks_idem s) (idemKey (tx_id (ks_tx s)) ''SETTLE_IN'') \<and>
     (\<exists>cs. ks_trace t = ks_trace s @ cs)"

interpretation saga_keeper: kernel_relation K "all_phases - {''SETTLE_IN''}" saga_kept for K :: "('w, 'x) kernel"
proof (unfold_locales, goal_cases)
  case (2 s t u)
  then show ?case unfolding saga_kept_def by (metis append.assoc)
next
  case (7 ph s p)
  then show ?case by (simp add: saga_kept_def journalM_snd)
next
  case (9 ph s v)
  then show ?case by (auto simp: saga_kept_def)
qed (auto simp: saga_kept_def)

text \<open>No phase of a transaction makes a call under the refund key.\<close>

definition refunds :: "string \<Rightarrow> call list \<Rightarrow> call list" where
  "refunds i cs = filter (\<lambda>c. call_key c = Some (idemKey i ''REFUND'')) cs"

definition no_refund :: "('w, 'x) kst \<Rightarrow> ('w, 'x) kst \<Rightarrow> bool" where
  "no_refund s t \<longleftrightarrow> tx_id (ks_tx t) = tx_id (ks_tx s) \<and>
     (\<exists>cs. ks_trace t = ks_trace s @ cs \<and> refunds (tx_id (ks_tx s)) cs = [])"

interpretation refund_free: kernel_relation K all_phases no_refund for K :: "('w, 'x) kernel"
proof (unfold_locales, goal_cases)
  case (2 s t u)
  then show ?case unfolding no_refund_def refunds_def by (metis append.assoc append_Nil filter_append)
next
  case (7 ph s p)
  then show ?case by (simp add: no_refund_def journalM_snd refunds_def)
next
  case (8 c s w)
  then show ?case by (auto simp: no_refund_def refunds_def own_def split: option.splits)
qed (auto simp: no_refund_def refunds_def)

text \<open>
  \<open>paid\<close>: the payment was memoised before the run began. \<open>T\<close> is the trace at that time.
\<close>

definition owes :: "bool \<Rightarrow> string \<Rightarrow> call list \<Rightarrow> ('w, 'x) kst \<Rightarrow> bool" where
  "owes paid i T s \<longleftrightarrow> tx_id (ks_tx s) = i \<and>
     (\<exists>cs. ks_trace s = T @ cs \<and>
        (if map_of (ks_idem s) (idemKey i ''SETTLE_IN'') = None then \<not> paid \<and> ks_saga s = []
         else if paid then ks_saga s = []
         else \<exists>a u p. ks_saga s = [Refund a u p (idemKey i ''REFUND'')] \<and>
                      CSettleIn a u p (idemKey i ''SETTLE_IN'') \<in> set cs))"

abbreviation owes_inv :: "bool \<Rightarrow> string \<Rightarrow> call list \<Rightarrow> (('w, 'x) kst, 'a) em \<Rightarrow> bool" where
  "owes_inv paid i T m \<equiv> triple (owes paid i T) m (\<lambda>_. owes paid i T) (\<lambda>_. owes paid i T)"

lemma owes_kept:
  assumes "owes paid i T s" "saga_kept s t"
  shows "owes paid i T t"
proof -
  from assms(2) obtain ds where ds: "ks_trace t = ks_trace s @ ds" unfolding saga_kept_def by blast
  from assms(1) obtain cs where cs: "ks_trace s = T @ cs"
    "if map_of (ks_idem s) (idemKey i ''SETTLE_IN'') = None then \<not> paid \<and> ks_saga s = []
     else if paid then ks_saga s = []
     else \<exists>a u p. ks_saga s = [Refund a u p (idemKey i ''REFUND'')] \<and> CSettleIn a u p (idemKey i ''SETTLE_IN'') \<in> set cs"
    and i: "tx_id (ks_tx s) = i" unfolding owes_def by blast
  have "ks_trace t = T @ (cs @ ds)" using ds cs(1) by simp
  moreover have "map_of (ks_idem t) (idemKey i ''SETTLE_IN'') = map_of (ks_idem s) (idemKey i ''SETTLE_IN'')"
    "ks_saga t = ks_saga s" "tx_id (ks_tx t) = i" using assms(2) i unfolding saga_kept_def by auto
  ultimately show ?thesis using cs(2) unfolding owes_def by (intro conjI exI [of _ "cs @ ds"]) (auto split: if_splits)
qed

lemma owes_step:
  assumes "\<And>i. saga_keeper.keeps (\<lambda>s. tx_id (ks_tx s) = i) m"
  shows "owes_inv paid i T m"
proof (rule tripleI)
  fix s x t assume s: "owes paid i T s" and m: "m s = (Inr x, t)"
  then have "saga_kept s (snd (m s))" using saga_keeper.keepsD [OF assms] by blast
  then show "owes paid i T t" using owes_kept [OF s] m by simp
next
  fix s e t assume s: "owes paid i T s" and m: "m s = (Inl e, t)"
  then have "saga_kept s (snd (m s))" using saga_keeper.keepsD [OF assms] by blast
  then show "owes paid i T t" using owes_kept [OF s] m by simp
qed

lemma owes_tx: "owes paid i T s \<Longrightarrow> tx_id b = tx_id (ks_tx s) \<Longrightarrow> owes paid i T (s\<lparr>ks_tx := b\<rparr>)"
  by (erule owes_kept) (simp add: saga_kept_def)

lemma owes_settle_phase:
  fixes K :: "('w, 'x) kernel" and fwd :: "('w, settle_ref) em"
  assumes "no_faults K" "owes paid i T s"
    "phaseM K ''SETTLE_IN'' (bindM (outside (CSettleIn a u p (idemKey i ''SETTLE_IN'')) fwd) (\<lambda>r. returnM (VRef r)))
       (Some (Refund a u p (idemKey i ''REFUND''))) s = (r, t)"
  shows "owes paid i T t"
proof (cases "map_of (ks_idem s) (idemKey i ''SETTLE_IN'')")
  case (Some v)
  moreover have "tx_id (ks_tx s) = i" using assms(2) by (simp add: owes_def)
  ultimately have "t = s" using assms(3) by (simp add: phaseM_hit)
  with assms(2) show ?thesis by simp
next
  case None
  with assms(2) obtain cs where o: "ks_trace s = T @ cs" "\<not> paid" "ks_saga s = []" "tx_id (ks_tx s) = i"
    unfolding owes_def by auto
  obtain x w where f: "fwd (ks_world s) = (x, w)" by fastforce
  show ?thesis
    using assms(1,3) o None f
    by (cases x) (auto simp: owes_def phaseM_def bindM_def getM_def idemM_def returnM_def modifyM_def journalM_def journal_at_def Let_def
        outside_def no_faults_def)
qed

lemma owes_settle_in:
  assumes "no_faults K"
  shows "owes_inv paid i T (step_settle_in K req)"
  unfolding step_settle_in_def
proof (rule triple_bind [OF owes_step])
  show "saga_keeper.keeps (\<lambda>s. tx_id (ks_tx s) = i) (updTx (\<lambda>t. t\<lparr>tx_state := SETTLING_IN\<rparr>))" for i
    by (rule saga_keeper.keeps_updTx) simp
  show "triple (owes paid i T) (bindM boundM (\<lambda>(i, q, c).
     bindM (phaseM K ''SETTLE_IN''
       (bindM (outside (CSettleIn (qt_cost q) (qt_unit q) (payer_of req) (idemKey i ''SETTLE_IN''))
                 (st_settleIn (kn_settlement K) (qt_cost q) (qt_unit q) (payer_of req) (idemKey i ''SETTLE_IN'')))
          (\<lambda>r. returnM (VRef r)))
       (Some (Refund (qt_cost q) (qt_unit q) (payer_of req) (idemKey i ''REFUND'')))) (\<lambda>v.
     case v of
       VRef r \<Rightarrow> updTx (\<lambda>t. t\<lparr>settlementInRef := Some r, tx_state := SETTLED_IN\<rparr>)
     | _ \<Rightarrow> type_error))) (\<lambda>_. owes paid i T) (\<lambda>_. owes paid i T)" for x
  proof (rule triple_bind [where R = "\<lambda>x s. owes paid i T s \<and> fst x = i"])
    show "triple (owes paid i T) boundM (\<lambda>x s. owes paid i T s \<and> fst x = i) (\<lambda>_. owes paid i T)"
      by (auto simp: triple_def boundM_def bindM_def getM_def returnM_def type_error_def throwM_def owes_def split: option.splits)
    fix x :: "string \<times> quote \<times> candidate"
    obtain j q c where x: "x = (j, q, c)" by (cases x)
    have phase: "triple (owes paid i T) (phaseM K ''SETTLE_IN''
       (bindM (outside (CSettleIn (qt_cost q) (qt_unit q) (payer_of req) (idemKey i ''SETTLE_IN''))
                 (st_settleIn (kn_settlement K) (qt_cost q) (qt_unit q) (payer_of req) (idemKey i ''SETTLE_IN'')))
          (\<lambda>r. returnM (VRef r)))
       (Some (Refund (qt_cost q) (qt_unit q) (payer_of req) (idemKey i ''REFUND'')))) (\<lambda>_. owes paid i T) (\<lambda>_. owes paid i T)"
      by (rule tripleI) (erule (1) owes_settle_phase [OF assms])+
    have rest: "owes_inv paid i T (case v of
       VRef r \<Rightarrow> updTx (\<lambda>t. t\<lparr>settlementInRef := Some r, tx_state := SETTLED_IN\<rparr>) | _ \<Rightarrow> type_error)" for v :: "'b pv"
      by (cases v) (auto simp: triple_def modifyM_def type_error_def throwM_def owes_tx)
    show "triple (\<lambda>s. owes paid i T s \<and> fst x = i) (case x of (i, q, c) \<Rightarrow>
     bindM (phaseM K ''SETTLE_IN''
       (bindM (outside (CSettleIn (qt_cost q) (qt_unit q) (payer_of req) (idemKey i ''SETTLE_IN''))
                 (st_settleIn (kn_settlement K) (qt_cost q) (qt_unit q) (payer_of req) (idemKey i ''SETTLE_IN'')))
          (\<lambda>r. returnM (VRef r)))
       (Some (Refund (qt_cost q) (qt_unit q) (payer_of req) (idemKey i ''REFUND'')))) (\<lambda>v.
     case v of
       VRef r \<Rightarrow> updTx (\<lambda>t. t\<lparr>settlementInRef := Some r, tx_state := SETTLED_IN\<rparr>)
     | _ \<Rightarrow> type_error)) (\<lambda>_. owes paid i T) (\<lambda>_. owes paid i T)"
    proof (cases "j = i")
      case True
      with x triple_bind [OF phase rest] show ?thesis by simp
    qed (simp add: x triple_def)
  qed
qed

lemma owes_after_route:
  assumes "no_faults K"
  shows "owes_inv paid i T (after_route K req ad mode)"
proof -
  have pay: "owes_inv paid i T (if mode = ''PRE'' then step_settle_in K req else returnM ())"
    by (rule triple_if) (rule owes_settle_in [OF assms], rule owes_step, rule saga_keeper.keeps_return)
  show ?thesis unfolding after_route_def
    by (rule triple_bind [OF pay], rule owes_step, rule saga_keeper.keeps_after_pay) simp
qed

lemma owes_body:
  assumes "no_faults K"
  shows "owes_inv paid i T (body K req)"
  unfolding body_def Let_def
  by (rule triple_bind [OF owes_step], rule saga_keeper.keeps_lift,
      rule triple_bind [OF owes_step], rule saga_keeper.keeps_lift,
      rule triple_bind [OF owes_step], rule saga_keeper.keeps_step_discover, simp,
      rule triple_if, rule owes_step, rule saga_keeper.keeps_step_reject, simp,
      rule triple_bind [OF owes_step], rule saga_keeper.keeps_updTx, simp,
      rule triple_bind [OF owes_step], rule saga_keeper.keeps_step_quote, simp,
      rule triple_bind [OF owes_step], rule saga_keeper.keeps_step_route, simp,
      rule owes_after_route [OF assms])

fun comp_call :: "compensation \<Rightarrow> call" where
  "comp_call (Refund a u p k) = CSettleOut a u p k"

lemma compensate_trace:
  "ks_trace (saga_compensate (map (run_compensation K) cs) s) = ks_trace s @ map comp_call (rev cs)"
  unfolding saga_compensate_def
proof (induction cs arbitrary: s rule: rev_induct)
  case (snoc c cs)
  have "ks_trace (snd (run_compensation K c s)) = ks_trace s @ [comp_call c]"
    by (cases c) (simp add: run_compensation_def outside_def Let_def case_prod_beta)
  with snoc show ?case by simp
qed simp

lemma on_failure_trace:
  "on_failure K e s = (Inr (), t) \<Longrightarrow> ks_trace t = ks_trace s @ map comp_call (rev (ks_saga s)) \<and> ks_idem t = ks_idem s"
proof -
  have idem: "ks_idem (saga_compensate (map (run_compensation K) cs) u) = ks_idem u" for cs and u :: "('a, 'b) kst"
    unfolding saga_compensate_def
    by (induction cs arbitrary: u rule: rev_induct)
      (auto simp: run_compensation_def outside_def Let_def case_prod_beta split: compensation.splits)
  assume "on_failure K e s = (Inr (), t)"
  then show ?thesis
    by (auto simp: on_failure_def bindM_def modifyM_def journalM_def journal_at_def Let_def compensate_trace idem split: option.splits)
qed

lemma failed_run_refunds:
  assumes "no_faults K" "body K req (start_tx i req s) = (Inl e, u)" "on_failure K e u = (Inr (), t)"
  shows "\<exists>cs. ks_trace t = ks_trace s @ cs \<and>
    (if map_of (ks_idem s) (idemKey i ''SETTLE_IN'') \<noteq> None \<or> map_of (ks_idem t) (idemKey i ''SETTLE_IN'') = None
     then refunds i cs = []
     else \<exists>a un p. CSettleIn a un p (idemKey i ''SETTLE_IN'') \<in> set cs \<and>
                  refunds i cs = [CSettleOut a un p (idemKey i ''REFUND'')])"
proof -
  let ?s = "start_tx i req s" and ?paid = "map_of (ks_idem s) (idemKey i ''SETTLE_IN'') \<noteq> None"
  have "owes ?paid i (ks_trace s) ?s" by (auto simp: owes_def start_tx_def new_tx_def)
  from triple_exn [OF owes_body [OF assms(1)] this assms(2)] have o: "owes ?paid i (ks_trace s) u" .
  have "no_refund ?s (snd (body K req ?s))"
    by (rule refund_free.keepsD [OF refund_free.keeps_body]) (simp_all add: start_tx_def new_tx_def)
  then obtain cs where cs: "ks_trace u = ks_trace s @ cs" "refunds i cs = []"
    using assms(2) by (auto simp: no_refund_def start_tx_def new_tx_def)
  note f = on_failure_trace [OF assms(3)]
  let ?new = "cs @ map comp_call (rev (ks_saga u))"
  have new: "ks_trace t = ks_trace s @ ?new" "refunds i ?new = refunds i (map comp_call (rev (ks_saga u)))"
    using f cs by (simp_all add: refunds_def)
  have ow: "if map_of (ks_idem u) (idemKey i ''SETTLE_IN'') = None then \<not> ?paid \<and> ks_saga u = []
     else if ?paid then ks_saga u = []
     else \<exists>a un p. ks_saga u = [Refund a un p (idemKey i ''REFUND'')] \<and> CSettleIn a un p (idemKey i ''SETTLE_IN'') \<in> set cs"
    using o cs(1) unfolding owes_def by auto
  show ?thesis
    by (rule exI [of _ ?new]) (use new ow f in \<open>auto simp: refunds_def split: if_splits\<close>)
qed

section \<open>Payment before delivery\<close>

definition no_execute :: "('w, 'x) kst \<Rightarrow> ('w, 'x) kst \<Rightarrow> bool" where
  "no_execute s t \<longleftrightarrow> tx_id (ks_tx t) = tx_id (ks_tx s) \<and> map_of (ks_idem s) \<subseteq>\<^sub>m map_of (ks_idem t) \<and>
     (\<exists>cs. ks_trace t = ks_trace s @ cs \<and> CExecute (idemKey (tx_id (ks_tx s)) ''EXECUTE'') \<notin> set cs)"

interpretation undelivered: kernel_relation K "all_phases - {''EXECUTE''}" no_execute for K :: "('w, 'x) kernel"
proof (unfold_locales, goal_cases)
  case (2 s t u)
  let ?x = "CExecute (idemKey (tx_id (ks_tx s)) ''EXECUTE'')"
  from 2(1) obtain cs where t: "tx_id (ks_tx t) = tx_id (ks_tx s)" "map_of (ks_idem s) \<subseteq>\<^sub>m map_of (ks_idem t)"
    "ks_trace t = ks_trace s @ cs" "?x \<notin> set cs" unfolding no_execute_def by blast
  from 2(2) t(1) obtain ds where u: "tx_id (ks_tx u) = tx_id (ks_tx s)" "map_of (ks_idem t) \<subseteq>\<^sub>m map_of (ks_idem u)"
    "ks_trace u = ks_trace t @ ds" "?x \<notin> set ds" unfolding no_execute_def by auto
  from t u have "ks_trace u = ks_trace s @ (cs @ ds)" "?x \<notin> set (cs @ ds)" by simp_all
  with u(1) map_le_trans [OF t(2) u(2)] show ?case unfolding no_execute_def by blast
next
  case (7 ph s p)
  then show ?case by (simp add: no_execute_def journalM_snd)
next
  case (8 c s w)
  then show ?case by (cases c) (auto simp: no_execute_def own_def)
next
  case (9 ph s v)
  then show ?case by (auto simp: no_execute_def map_le_def)
qed (auto simp: no_execute_def)

text \<open>The payment is memoised, or nothing has been executed since the trace was \<open>T\<close>.\<close>

definition prepaid :: "string \<Rightarrow> call list \<Rightarrow> ('w, 'x) kst \<Rightarrow> bool" where
  "prepaid i T s \<longleftrightarrow> tx_id (ks_tx s) = i \<and>
     (map_of (ks_idem s) (idemKey i ''SETTLE_IN'') \<noteq> None \<or>
      (\<exists>cs. ks_trace s = T @ cs \<and> CExecute (idemKey i ''EXECUTE'') \<notin> set cs))"

abbreviation paid_for :: "string \<Rightarrow> ('w, 'x) kst \<Rightarrow> bool" where
  "paid_for i s \<equiv> tx_id (ks_tx s) = i \<and> map_of (ks_idem s) (idemKey i ''SETTLE_IN'') \<noteq> None"

lemma prepaid_kept: "prepaid i T s \<Longrightarrow> no_execute s t \<Longrightarrow> prepaid i T t"
  unfolding prepaid_def no_execute_def map_le_def
  by (elim conjE disjE exE) (auto dest: bspec [where x = "idemKey i ''SETTLE_IN''"])

lemma prepaid_step:
  assumes "\<And>i. undelivered.keeps (\<lambda>s. tx_id (ks_tx s) = i) m"
  shows "triple (prepaid i T) m (\<lambda>_. prepaid i T) (\<lambda>_. prepaid i T)"
  by (rule tripleI; erule prepaid_kept) (metis undelivered.keepsD [OF assms] snd_conv)+

lemma paid_step:
  assumes "\<And>i. growing.keeps (\<lambda>s. tx_id (ks_tx s) = i) m"
  shows "triple (paid_for i) m (\<lambda>_. paid_for i) (\<lambda>_. paid_for i)"
proof (rule tripleI)
  have kept: "paid_for i t" if "paid_for i s" "grows s t" for s t :: "('a, 'b) kst"
    using that unfolding grows_def map_le_def by (metis domIff)
  show "paid_for i t" if "paid_for i s" "m s = (Inr x, t)" for s x t
    using kept [OF that(1)] growing.keepsD [OF assms, of s] that by (metis snd_conv)
  show "paid_for i t" if "paid_for i s" "m s = (Inl e, t)" for s e t
    using kept [OF that(1)] growing.keepsD [OF assms, of s] that by (metis snd_conv)
qed

lemma settle_in_pays:
  "triple (prepaid i T) (step_settle_in K req) (\<lambda>_. paid_for i) (\<lambda>_. prepaid i T)"
proof (rule tripleI)
  fix s x t assume s: "prepaid i T s" and run: "step_settle_in K req s = (Inr x, t)"
  have i: "tx_id (ks_tx s) = i" using s by (simp add: prepaid_def)
  let ?s = "s\<lparr>ks_tx := (ks_tx s)\<lparr>tx_state := SETTLING_IN\<rparr>\<rparr>"
  have "\<exists>y. boundM ?s = (Inr y, ?s) \<and> fst y = i"
    using run i by (auto simp: step_settle_in_def boundM_def bindM_def getM_def modifyM_def returnM_def type_error_def throwM_def
        split: option.splits)
  then obtain q c where b: "boundM ?s = (Inr (i, q, c), ?s)" by (metis prod.collapse)
  have "bindM (phaseM K ''SETTLE_IN''
       (bindM (outside (CSettleIn (qt_cost q) (qt_unit q) (payer_of req) (idemKey i ''SETTLE_IN''))
                 (st_settleIn (kn_settlement K) (qt_cost q) (qt_unit q) (payer_of req) (idemKey i ''SETTLE_IN'')))
          (\<lambda>r. returnM (VRef r)))
       (Some (Refund (qt_cost q) (qt_unit q) (payer_of req) (idemKey i ''REFUND''))))
      (\<lambda>v. case v of VRef r \<Rightarrow> updTx (\<lambda>t. t\<lparr>settlementInRef := Some r, tx_state := SETTLED_IN\<rparr>) | _ \<Rightarrow> type_error) ?s = (Inr x, t)"
    using run by (simp add: step_settle_in_def bindM_def [of "modifyM _"] bindM_def [of boundM] modifyM_def [of _ s] b)
  from bind_Inr [OF this] obtain v s2 where ph: "phaseM K ''SETTLE_IN''
       (bindM (outside (CSettleIn (qt_cost q) (qt_unit q) (payer_of req) (idemKey i ''SETTLE_IN''))
                 (st_settleIn (kn_settlement K) (qt_cost q) (qt_unit q) (payer_of req) (idemKey i ''SETTLE_IN'')))
          (\<lambda>r. returnM (VRef r)))
       (Some (Refund (qt_cost q) (qt_unit q) (payer_of req) (idemKey i ''REFUND''))) ?s = (Inr v, s2)"
    and rest: "(case v of VRef r \<Rightarrow> updTx (\<lambda>t. t\<lparr>settlementInRef := Some r, tx_state := SETTLED_IN\<rparr>) | _ \<Rightarrow> type_error) s2 = (Inr x, t)"
    by blast
  have fr: "frame (bindM (outside (CSettleIn (qt_cost q) (qt_unit q) (payer_of req) (idemKey i ''SETTLE_IN''))
      (st_settleIn (kn_settlement K) (qt_cost q) (qt_unit q) (payer_of req) (idemKey i ''SETTLE_IN''))) (\<lambda>r. returnM (VRef r)))"
    by (intro frame_intro)
  from phaseM_run [OF fr ph] i rest show "paid_for i t"
    by (cases v) (auto simp: modifyM_def type_error_def throwM_def)
next
  fix s e t assume s: "prepaid i T s" and run: "step_settle_in K req s = (Inl e, t)"
  have "undelivered.keeps (\<lambda>s. tx_id (ks_tx s) = i) (step_settle_in K req)"
    by (rule undelivered.keeps_step_settle_in) simp
  then show "prepaid i T t" using s run prepaid_kept undelivered.keepsD [of _ _ s]
    by (metis (mono_tags, lifting) prepaid_def snd_conv)
qed

lemma prepaid_after_route:
  "triple (prepaid i T) (after_route K req ad ''PRE'') (\<lambda>_. prepaid i T) (\<lambda>_. prepaid i T)"
proof -
  have rest: "triple (paid_for i) (bindM (step_execute K req ad) (\<lambda>_. bindM (step_fee K req ''PRE'') (\<lambda>_.
      bindM (step_settle_out K) (\<lambda>_. step_close K)))) (\<lambda>_. prepaid i T) (\<lambda>_. prepaid i T)"
    by (rule triple_conseq [OF paid_step [OF growing.keeps_after_pay]]) (auto simp: prepaid_def)
  show ?thesis unfolding after_route_def
    by (simp only: if_P [OF refl]) (rule triple_bind [OF settle_in_pays rest])
qed

lemma prepaid_body:
  fixes K :: "('w, 'x) kernel"
  assumes "mode_of K req = ''PRE''"
  shows "triple (prepaid i T) (body K req) (\<lambda>_. prepaid i T) (\<lambda>_. prepaid i T)"
proof -
  have go: "triple (prepaid i T) (bindM (step_discover K req ad) (\<lambda>cs. if cs = [] then step_reject K
      else bindM (updTx (\<lambda>t. t\<lparr>tx_state := DISCOVERED\<rparr>)) (\<lambda>_. bindM (step_quote K req ad cs) (\<lambda>_.
        bindM (step_route K c) (\<lambda>_. after_route K req ad ''PRE'')))))  (\<lambda>_. prepaid i T) (\<lambda>_. prepaid i T)" for ad c
    by (rule triple_bind [OF prepaid_step], rule undelivered.keeps_step_discover, simp,
        rule triple_if, rule prepaid_step, rule undelivered.keeps_step_reject, simp,
        rule triple_bind [OF prepaid_step], rule undelivered.keeps_updTx, simp,
        rule triple_bind [OF prepaid_step], rule undelivered.keeps_step_quote, simp,
        rule triple_bind [OF prepaid_step], rule undelivered.keeps_step_route, simp,
        rule prepaid_after_route)
  show ?thesis
  proof (cases "registry_get (rq_workload req) (kn_registry K)")
    case (Inl e)
    then have "body K req s = (Inl e, s)" for s by (simp add: body_def bindM_def liftR_def)
    then show ?thesis by (simp add: triple_def)
  next
    case (Inr ad)
    show ?thesis
    proof (cases "ad_capabilities ad")
      case (Inl e)
      with Inr have "body K req s = (Inl e, s)" for s by (simp add: body_def bindM_def liftR_def)
      then show ?thesis by (simp add: triple_def)
    next
      case c: (Inr c)
      with Inr assms have "or_str (cap_settlementMode c) ''POST'' = ''PRE''" by (simp add: mode_of_def)
      with Inr c have "body K req = bindM (step_discover K req ad) (\<lambda>cs. if cs = [] then step_reject K
          else bindM (updTx (\<lambda>t. t\<lparr>tx_state := DISCOVERED\<rparr>)) (\<lambda>_. bindM (step_quote K req ad cs) (\<lambda>_.
            bindM (step_route K c) (\<lambda>_. after_route K req ad ''PRE''))))"
        by (simp add: body_def bindM_def [of "liftR _"] liftR_def Let_def fun_eq_iff cong: if_cong)
      with go show ?thesis by simp
    qed
  qed
qed

end
