(* ===== verification/Reliability.thy ===== *)
theory Reliability
  imports Kernel_Saga Persistent_Journal
begin

text \<open>
  The reliability layer around the kernel: \<^verbatim>\<open>retry_policy.js\<close>, \<^verbatim>\<open>reliable_executor.js\<close>,
  \<^verbatim>\<open>recovery_worker.js\<close>, \<^verbatim>\<open>recovery_scheduler.js\<close> and \<^verbatim>\<open>durable_kernel.js\<close> under
  \<^verbatim>\<open>vnext/reliability/\<close>. The lemmas bound the back-off, show what a recovery sweep does with
  every transaction it finds, that without journal failures a sweep finishes all of them, that a
  boot refuses a chain that does not verify, and that the scheduler never overlaps sweeps.
\<close>

section \<open>Back-off\<close>

record retry_policy =
  maxAttempts :: nat
  baseMs :: rat
  factor :: rat
  maxMs :: rat
  jitter :: rat

definition defaultRetryPolicy :: retry_policy where
  "defaultRetryPolicy = \<lparr>maxAttempts = 5, baseMs = 100, factor = 2, maxMs = 30000, jitter = 1 / 2\<rparr>"

definition shouldRetry :: "retry_policy \<Rightarrow> nat \<Rightarrow> bool" where
  "shouldRetry p attempt \<longleftrightarrow> attempt < maxAttempts p"

definition backoff :: "retry_policy \<Rightarrow> nat \<Rightarrow> rat" where
  "backoff p attempt = min (maxMs p) (baseMs p * factor p ^ (attempt - 1))"

text \<open>\<open>r\<close> is what the random source returned.\<close>

definition delayMs :: "retry_policy \<Rightarrow> rat \<Rightarrow> nat \<Rightarrow> int" where
  "delayMs p r attempt =
     (let e = backoff p attempt; spread = e * jitter p; delta = (r * 2 - 1) * spread
      in max 0 (math_round (min (maxMs p) (e + delta))))"

lemma delayMs_bounds:
  assumes "maxMs p = of_int m" "0 \<le> m"
  shows "0 \<le> delayMs p r attempt \<and> delayMs p r attempt \<le> m"
proof -
  have "math_round (min (maxMs p) x) \<le> m" for x
    using math_round_mono [of "min (maxMs p) x" "of_int m"] assms by simp
  with assms(2) show ?thesis by (simp add: delayMs_def Let_def)
qed

lemma delayMs_jitter:
  assumes "0 \<le> backoff p attempt" "0 \<le> jitter p" "jitter p \<le> 1" "0 \<le> r" "r < 1"
  shows "math_round (min (maxMs p) (backoff p attempt * (1 - jitter p))) \<le> delayMs p r attempt \<and>
    delayMs p r attempt \<le> math_round (min (maxMs p) (backoff p attempt * (1 + jitter p)))"
proof -
  let ?e = "backoff p attempt"
  let ?x = "?e + (r * 2 - 1) * (?e * jitter p)"
  have nn: "0 \<le> ?e * jitter p" using assms(1,2) by simp
  have lo: "?e * (1 - jitter p) \<le> ?x"
    using mult_right_mono [OF _ nn, of "-1" "r * 2 - 1"] assms(4) by (simp add: algebra_simps)
  have hi: "?x \<le> ?e * (1 + jitter p)"
    using mult_right_mono [OF _ nn, of "r * 2 - 1" 1] assms(5) by (simp add: algebra_simps)
  have max: "?e \<le> maxMs p" by (simp add: backoff_def)
  have e0: "0 \<le> ?e * (1 - jitter p)" using assms(1,3) by simp
  have m0: "0 \<le> maxMs p" using assms(1) max by linarith
  have "0 \<le> math_round (min (maxMs p) ?x)"
    using math_round_mono [of 0 "min (maxMs p) ?x"] math_round_int [of 0] lo e0 m0 by simp
  then have "delayMs p r attempt = math_round (min (maxMs p) ?x)" by (simp add: delayMs_def Let_def)
  then show ?thesis using lo hi by (auto intro!: math_round_mono min.mono)
qed

section \<open>Submission\<close>

definition reliable_submit :: "('w, 'x) kernel \<Rightarrow> request \<Rightarrow> string option \<Rightarrow> (('w, 'x) kst, 'x tx) em" where
  "reliable_submit K req txId =
     (if \<not> truthy txId then throwM ''submit requires an explicit txId (idempotency key)''
      else bindM (journal_at K (the txId) ''SUBMIT'' (SubmitP req)) (\<lambda>_. execute K req txId))"

section \<open>Recovery\<close>

definition TERMINAL :: "string list" where
  "TERMINAL = [''CLOSED'', ''REJECTED'', ''FAILED'']"

fun terminal_state :: "tx_state \<Rightarrow> bool" where
  "terminal_state CLOSED = True"
| "terminal_state REJECTED = True"
| "terminal_state FAILED = True"
| "terminal_state _ = False"

definition scan_submit :: "(string, request) jsmap \<Rightarrow> 'x kpayload event \<Rightarrow> (string, request) jsmap" where
  "scan_submit m e =
     (if ev_phase e = ''SUBMIT'' then (case ev_payload e of SubmitP r \<Rightarrow> mset_key (ev_txId e) r m | _ \<Rightarrow> m) else m)"

definition terminal_ids :: "'x kpayload event list \<Rightarrow> string set" where
  "terminal_ids es = ev_txId ` set (filter (\<lambda>e. ev_phase e \<in> set TERMINAL) es)"

definition incompleteTransactions :: "'x kpayload event list \<Rightarrow> (string \<times> request) list" where
  "incompleteTransactions es = filter (\<lambda>p. fst p \<notin> terminal_ids es) (foldl scan_submit [] es)"

text \<open>
  The attempts on one transaction: how many were made, the state that was reached (if any) and
  the kernel afterwards. An attempt that throws is followed by the next one.
\<close>

fun attempt_loop :: "('w, 'x) kernel \<Rightarrow> request \<Rightarrow> string \<Rightarrow> nat \<Rightarrow> nat \<Rightarrow> tx_state option \<Rightarrow> ('w, 'x) kst
    \<Rightarrow> nat \<times> tx_state option \<times> ('w, 'x) kst" where
  "attempt_loop K req i 0 attempts reached s = (attempts, reached, s)"
| "attempt_loop K req i (Suc n) attempts reached s =
     (case execute K req (Some i) s of
        (Inr tx, s') \<Rightarrow>
          if terminal_state (tx_state tx) then (attempts + 1, Some (tx_state tx), s')
          else attempt_loop K req i n (attempts + 1) (Some (tx_state tx)) s'
      | (Inl _, s') \<Rightarrow> attempt_loop K req i n (attempts + 1) reached s')"

record ('w, 'x) rstate =
  rs_kst :: "('w, 'x) kst"
  rs_dlq :: "(string, request dlq_entry) jsmap"

record recovery =
  resumed :: "(string \<times> tx_state) list"
  deadLettered :: "string list"

definition recover_one :: "('w, 'x) kernel \<Rightarrow> nat \<Rightarrow> string \<times> request \<Rightarrow> recovery \<times> ('w, 'x) rstate \<Rightarrow> recovery \<times> ('w, 'x) rstate" where
  "recover_one K maxAtt p acc =
     (let (out, rs) = acc; (i, req) = p in
      if map_of (rs_dlq rs) i \<noteq> None then (out, rs)
      else
        (let (attempts, reached, s') = attempt_loop K req i (if maxAtt = 0 then 5 else maxAtt) 0 None (rs_kst rs) in
         case reached of
           Some st \<Rightarrow>
             if terminal_state st then (out\<lparr>resumed := resumed out @ [(i, st)]\<rparr>, rs\<lparr>rs_kst := s'\<rparr>)
             else (out\<lparr>deadLettered := deadLettered out @ [i]\<rparr>,
                   \<lparr>rs_kst = s'\<lparr>ks_ticks := ks_ticks s' + 1\<rparr>,
                    rs_dlq = mset_key i \<lparr>dl_tx_id = i, dl_reason = ''unresolved_after_retries'', dl_attempts = attempts,
                      dl_request = req, dl_failed_at = kn_clock K (ks_ticks s')\<rparr> (rs_dlq rs)\<rparr>)
         | None \<Rightarrow>
             (out\<lparr>deadLettered := deadLettered out @ [i]\<rparr>,
              \<lparr>rs_kst = s'\<lparr>ks_ticks := ks_ticks s' + 1\<rparr>,
               rs_dlq = mset_key i \<lparr>dl_tx_id = i, dl_reason = ''unresolved_after_retries'', dl_attempts = attempts,
                 dl_request = req, dl_failed_at = kn_clock K (ks_ticks s')\<rparr> (rs_dlq rs)\<rparr>)))"

definition recover :: "('w, 'x) kernel \<Rightarrow> nat \<Rightarrow> ('w, 'x) rstate \<Rightarrow> recovery \<times> ('w, 'x) rstate" where
  "recover K maxAtt rs =
     foldl (\<lambda>acc p. recover_one K maxAtt p acc) (\<lparr>resumed = [], deadLettered = []\<rparr>, rs)
       (incompleteTransactions (all_events (ks_journal (rs_kst rs))))"

section \<open>Boot\<close>

definition index_chain :: "'p event list \<Rightarrow> (string, 'p event list) jsmap" where
  "index_chain es = foldl (\<lambda>m e. mset_key (ev_txId e) (coalesce (map_of m (ev_txId e)) [] @ [e]) m) [] es"

text \<open>The kernel holds no transaction before its first execution.\<close>

definition no_request :: request where
  "no_request = \<lparr>rq_workload = [], rq_query = \<lparr>q_workload = None, q_settlementMode = None, q_paymentRail = None,
     q_chain = None, q_resource = None, q_body = None\<rparr>, rq_payload = None, rq_payer = None, rq_allowWrites = False\<rparr>"

text \<open>
  What a new process finds in the store: the journal's rows, the memoised phases and the dead
  letters. It refuses to start on a chain that does not verify; otherwise it recovers first.
\<close>

definition boot :: "('w, 'x) kernel \<Rightarrow> nat \<Rightarrow> 'w \<Rightarrow> ('x kpayload, 'x pv, 's, request) backing
    \<Rightarrow> string + recovery \<times> ('w, 'x) rstate" where
  "boot K maxAtt w st =
     (let es = pj_chain (load_journal st)
      in if \<not> verifyChain (kn_sha K) (kn_pj K) es then Inl ''journal hash chain invalid on boot''
         else Inr (recover K maxAtt
           \<lparr>rs_kst = \<lparr>ks_world = w, ks_idem = b_kv st, ks_journal = \<lparr>j_events = es, j_byTx = index_chain es\<rparr>,
              ks_ticks = 0, ks_appends = 0, ks_seq = 0, ks_trace = [], ks_tx = new_tx [] no_request, ks_saga = []\<rparr>,
            rs_dlq = b_dlq st\<rparr>))"

section \<open>A sweep finishes what it finds\<close>

text \<open>The closing phases of transaction \<open>i\<close> are in the journal whenever they are memoised.\<close>

definition closing_journaled :: "string \<Rightarrow> ('w, 'x) kst \<Rightarrow> bool" where
  "closing_journaled i s \<longleftrightarrow> (\<forall>ph \<in> {''CLOSED'', ''REJECTED''}.
     map_of (ks_idem s) (idemKey i ph) \<noteq> None \<longrightarrow> (\<exists>e \<in> set (j_events (ks_journal s)). ev_txId e = i \<and> ev_phase e = ph))"

abbreviation closing_at :: "string \<Rightarrow> ('w, 'x) kst \<Rightarrow> bool" where
  "closing_at i s \<equiv> tx_id (ks_tx s) = i \<and> closing_journaled i s"

abbreviation closing_inv :: "string \<Rightarrow> (('w, 'x) kst, 'a) em \<Rightarrow> bool" where
  "closing_inv i m \<equiv> triple (closing_at i) m (\<lambda>_. closing_at i) (\<lambda>_. closing_at i)"

named_theorems closing_intro \<open>programs that keep the closing phases journaled\<close>

lemma closing_quiet: "quiet m \<Longrightarrow> closing_inv i m"
proof -
  assume "quiet m"
  then have "closing_at i s \<Longrightarrow> closing_at i (snd (m s))" for s
    unfolding quiet_def closing_journaled_def by simp
  then show ?thesis by (intro tripleI) (metis snd_conv)+
qed

lemma closing_phase:
  fixes K :: "('w, 'x) kernel"
  assumes "no_faults K" "frame fwd"
  shows "closing_inv i (phaseM K ph fwd undo)"
  unfolding triple_def
proof (intro allI impI)
  fix s :: "('w, 'x) kst" assume C: "closing_at i s"
  show "case phaseM K ph fwd undo s of (Inl e, t) \<Rightarrow> closing_at i t | (Inr x, t) \<Rightarrow> closing_at i t"
  proof (cases "map_of (ks_idem s) (idemKey i ph)")
    case (Some v)
    with C have "phaseM K ph fwd undo s = (Inr v, s)" by (intro phaseM_hit) simp
    with C show ?thesis by simp
  next
    case None
    obtain r t where f: "fwd s = (r, t)" by fastforce
    have fr: "ks_idem t = ks_idem s" "ks_tx t = ks_tx s" "ks_journal t = ks_journal s"
      using assms(2) f unfolding frame_def by (metis snd_conv)+
    show ?thesis using C None f fr assms(1)
      by (cases r; cases undo) (auto simp: phaseM_def bindM_def getM_def idemM_def returnM_def modifyM_def journalM_def
          journal_at_def Let_def no_faults_def closing_journaled_def append_event_events)
  qed
qed

lemma closing_bind [closing_intro]: "closing_inv i m \<Longrightarrow> (\<And>x. closing_inv i (f x)) \<Longrightarrow> closing_inv i (bindM m f)"
  by (rule triple_bind)

lemma closing_if [closing_intro]: "closing_inv i m \<Longrightarrow> closing_inv i n \<Longrightarrow> closing_inv i (if b then m else n)"
  by simp

lemma closing_option [closing_intro]:
  "closing_inv i m \<Longrightarrow> (\<And>x. closing_inv i (f x)) \<Longrightarrow> closing_inv i (case v of None \<Rightarrow> m | Some x \<Rightarrow> f x)"
  by (cases v) simp_all

lemma closing_prod [closing_intro]: "(\<And>a b. closing_inv i (f a b)) \<Longrightarrow> closing_inv i (case p of (a, b) \<Rightarrow> f a b)"
  by (cases p) simp

lemma closing_pv [closing_intro]:
  "(\<And>x. closing_inv i (f1 x)) \<Longrightarrow> (\<And>x. closing_inv i (f2 x)) \<Longrightarrow> (\<And>x. closing_inv i (f3 x)) \<Longrightarrow> (\<And>x. closing_inv i (f4 x)) \<Longrightarrow>
   (\<And>x. closing_inv i (f5 x)) \<Longrightarrow> (\<And>x. closing_inv i (f6 x)) \<Longrightarrow> (\<And>x. closing_inv i (f7 x)) \<Longrightarrow> (\<And>x. closing_inv i (f8 x)) \<Longrightarrow>
   closing_inv i (case v of VCandidates x \<Rightarrow> f1 x | VQuotes x \<Rightarrow> f2 x | VQuote x \<Rightarrow> f3 x | VRoute x \<Rightarrow> f4 x
     | VRef x \<Rightarrow> f5 x | VResult x \<Rightarrow> f6 x | VFee x \<Rightarrow> f7 x | VNote x \<Rightarrow> f8 x)"
  by (cases v) simp_all

lemmas closing_basic [closing_intro] = quiet_updTx [THEN closing_quiet] quiet_bound [THEN closing_quiet]
  quiet_route [THEN closing_quiet] quiet_basic [THEN closing_quiet]

lemma closing_body: "no_faults K \<Longrightarrow> closing_inv i (body K req)"
  unfolding body_def after_route_def step_defs Let_def
  by (intro closing_intro closing_phase) (auto intro!: frame_intro split: option.splits)

text \<open>A run touches the memo of its own transaction only.\<close>

definition others_kept :: "('w, 'x) kst \<Rightarrow> ('w, 'x) kst \<Rightarrow> bool" where
  "others_kept s t \<longleftrightarrow> tx_id (ks_tx t) = tx_id (ks_tx s) \<and>
     (\<forall>j ph. j \<noteq> tx_id (ks_tx s) \<longrightarrow> CHR '':'' \<notin> set ph \<longrightarrow> map_of (ks_idem t) (idemKey j ph) = map_of (ks_idem s) (idemKey j ph))"

interpretation isolation: kernel_relation K all_phases others_kept for K :: "('w, 'x) kernel"
proof (unfold_locales, goal_cases)
  case (7 ph s p)
  then show ?case by (simp add: others_kept_def journalM_snd)
next
  case (9 ph s v)
  then have "CHR '':'' \<notin> set ph" by auto
  then show ?case by (auto simp: others_kept_def idemKey_eq_iff)
qed (auto simp: others_kept_def)

lemma keeps_id: "growing.keeps (\<lambda>s. tx_id (ks_tx s) = i) m \<Longrightarrow>
  triple (\<lambda>s. tx_id (ks_tx s) = i) m (\<lambda>_ s. tx_id (ks_tx s) = i) (\<lambda>_ _. True)"
proof (rule tripleI)
  fix s x t
  assume k: "growing.keeps (\<lambda>s. tx_id (ks_tx s) = i) m" and s: "tx_id (ks_tx s) = i" "m s = (Inr x, t)"
  show "tx_id (ks_tx t) = i" using growing.keepsD [OF k s(1)] s by (simp add: grows_def)
qed simp

lemma closing_key:
  assumes "frame fwd"
  shows "triple (\<lambda>s. tx_id (ks_tx s) = i) (bindM (phaseM K ph fwd None) (\<lambda>_. updTx f))
    (\<lambda>_ s. map_of (ks_idem s) (idemKey i ph) \<noteq> None) (\<lambda>_ _. True)"
  by (rule tripleI) (auto simp: modifyM_def dest!: bind_Inr phaseM_run(1) [OF assms])

lemma body_closing_key:
  "triple (\<lambda>s. tx_id (ks_tx s) = i) (body K req)
     (\<lambda>_ s. \<exists>ph \<in> {''CLOSED'', ''REJECTED''}. map_of (ks_idem s) (idemKey i ph) \<noteq> None) (\<lambda>_ _. True)"
  unfolding body_def after_route_def Let_def step_reject_def step_close_def
  by (rule triple_bind [OF keeps_id], rule growing.keeps_lift,
      rule triple_bind [OF keeps_id], rule growing.keeps_lift,
      rule triple_bind [OF keeps_id], rule growing.keeps_step_discover, simp,
      rule triple_if, rule triple_conseq [OF closing_key], rule frame_return, assumption, blast, simp,
      rule triple_bind [OF keeps_id], rule growing.keeps_updTx, simp,
      rule triple_bind [OF keeps_id], rule growing.keeps_step_quote, simp,
      rule triple_bind [OF keeps_id], rule growing.keeps_step_route, simp,
      rule triple_bind [OF keeps_id], rule growing.keeps_if, rule growing.keeps_step_settle_in, simp, rule growing.keeps_return,
      rule triple_bind [OF keeps_id], rule growing.keeps_step_execute, simp,
      rule triple_bind [OF keeps_id], rule growing.keeps_step_fee, simp,
      rule triple_bind [OF keeps_id], rule growing.keeps_step_settle_out, simp,
      rule triple_conseq [OF closing_key], rule frame_return, assumption, blast, simp)

lemma on_failure_journal:
  assumes "no_faults K" "on_failure K e s = (r, t)"
  shows "\<exists>a b. j_events (ks_journal t) = j_events (ks_journal s) @ [a, b] \<and> ev_txId b = tx_id (ks_tx s) \<and> ev_phase b = ''FAILED''"
proof -
  have out: "ks_journal (saga_compensate (map (run_compensation K) cs) u) = ks_journal u \<and>
      ks_tx (saga_compensate (map (run_compensation K) cs) u) = ks_tx u" for cs and u :: "('a, 'b) kst"
    unfolding saga_compensate_def
    by (induction cs arbitrary: u rule: rev_induct)
      (auto simp: run_compensation_def outside_def Let_def case_prod_beta split: compensation.splits)
  show ?thesis
    using assms by (auto simp: on_failure_def bindM_def modifyM_def journalM_def journal_at_def Let_def no_faults_def
        append_event_events out)
qed

lemma terminal_idsI: "e \<in> set es \<Longrightarrow> ev_phase e \<in> set TERMINAL \<Longrightarrow> ev_txId e \<in> terminal_ids es"
  by (auto simp: terminal_ids_def)

lemma execute_finishes:
  fixes K :: "('w, 'x) kernel"
  assumes "no_faults K" "i \<noteq> []" "closing_journaled i s"
  shows "\<exists>x t. execute K req (Some i) s = (Inr x, t) \<and> terminal_state (tx_state x) \<and>
    i \<in> terminal_ids (j_events (ks_journal t)) \<and> (\<exists>es. j_events (ks_journal t) = j_events (ks_journal s) @ es) \<and>
    (\<forall>j. closing_journaled j s \<longrightarrow> closing_journaled j t)"
proof -
  let ?s = "start_tx i req s"
  have st: "tx_id (ks_tx ?s) = i" "ks_idem ?s = ks_idem s" "ks_journal ?s = ks_journal s"
    by (simp_all add: start_tx_def new_tx_def)
  have cl: "closing_at i ?s" using assms(3) st by (simp add: closing_journaled_def)
  obtain r b where run: "body K req ?s = (r, b)" by fastforce
  have gr: "grows ?s b"
    using growing.keepsD [OF growing.keeps_body [of i K req], of ?s] st run by simp
  have iso: "others_kept ?s b"
    using isolation.keepsD [OF isolation.keeps_body [of i K req], of ?s] st run by simp
  have bi: "tx_id (ks_tx b) = i" using gr st by (simp add: grows_def)
  have clb: "closing_journaled i b"
    using closing_body [OF assms(1), of i req] cl run unfolding triple_def by (cases r) fastforce+
  obtain es where es: "j_events (ks_journal b) = j_events (ks_journal s) @ es" using gr st unfolding grows_def by auto
  have others: "closing_journaled j u" if "closing_journaled j s" "closing_journaled i u"
    "ks_idem u = ks_idem b" "\<exists>fs. j_events (ks_journal u) = j_events (ks_journal b) @ fs" for j and u :: "('w, 'x) kst"
  proof (cases "j = i")
    case False
    have "map_of (ks_idem b) (idemKey j ph) = map_of (ks_idem s) (idemKey j ph)" if "ph \<in> {''CLOSED'', ''REJECTED''}" for ph
      using iso st False that unfolding others_kept_def by auto
    then show ?thesis using that es unfolding closing_journaled_def by fastforce
  qed (use that in simp)
  show ?thesis
  proof (cases r)
    case (Inr x)
    then have run': "body K req ?s = (Inr (), b)" using run by simp
    have ex: "execute K req (Some i) s = (Inr (ks_tx b), b)"
      using assms(2) run' by (simp add: execute_def tx_id_for_def bindM_def catchM_def getM_def modifyM_def start_tx_def)
    from triple_ret [OF body_closing_key st(1) run'] clb obtain e ph where
      "e \<in> set (j_events (ks_journal b))" "ev_txId e = i" "ev_phase e = ph" "ph \<in> {''CLOSED'', ''REJECTED''}"
      unfolding closing_journaled_def by blast
    then have "i \<in> terminal_ids (j_events (ks_journal b))" using terminal_idsI [of e] by (auto simp: TERMINAL_def)
    with ex body_state [OF run'] es others clb show ?thesis by (auto intro!: exI [of _ b])
  next
    case (Inl e)
    obtain r' t where f: "on_failure K e b = (r', t)" by fastforce
    note ph = on_failure_phases [OF assms(1) bi f]
    from on_failure_journal [OF assms(1) f] obtain a c where ac:
      "j_events (ks_journal t) = j_events (ks_journal b) @ [a, c]" "ev_txId c = tx_id (ks_tx b)" "ev_phase c = ''FAILED''"
      by blast
    have idem: "ks_idem t = ks_idem b" using on_failure_trace [of K e b t] f ph by simp
    have ex: "execute K req (Some i) s = (Inr (ks_tx t), t)"
      using assms(2) run Inl f ph
      by (simp add: execute_def tx_id_for_def bindM_def catchM_def getM_def modifyM_def start_tx_def)
    have clt: "closing_journaled i t" using clb idem ac(1) by (fastforce simp: closing_journaled_def)
    have "i \<in> terminal_ids (j_events (ks_journal t))"
      using terminal_idsI [of c "j_events (ks_journal t)"] ac bi by (simp add: TERMINAL_def)
    with ex ph es ac others [OF _ clt idem] show ?thesis by auto
  qed
qed

lemma attempt_first:
  assumes "no_faults K" "i \<noteq> []" "closing_journaled i s"
  shows "\<exists>st t. attempt_loop K req i (Suc n) a reached s = (a + 1, Some st, t) \<and> terminal_state st \<and>
    i \<in> terminal_ids (j_events (ks_journal t)) \<and> (\<exists>es. j_events (ks_journal t) = j_events (ks_journal s) @ es) \<and>
    (\<forall>j. closing_journaled j s \<longrightarrow> closing_journaled j t)"
proof -
  from execute_finishes [OF assms, of req] obtain x t where "execute K req (Some i) s = (Inr x, t)" "terminal_state (tx_state x)"
    "i \<in> terminal_ids (j_events (ks_journal t))" "\<exists>es. j_events (ks_journal t) = j_events (ks_journal s) @ es"
    "\<forall>j. closing_journaled j s \<longrightarrow> closing_journaled j t" by blast
  then show ?thesis by simp
qed

lemma terminal_ids_append: "i \<in> terminal_ids es \<Longrightarrow> i \<in> terminal_ids (es @ fs)"
  by (auto simp: terminal_ids_def)

definition sweep_done :: "(string \<times> request) list \<Rightarrow> recovery \<Rightarrow> ('w, 'x) rstate \<Rightarrow> recovery \<times> ('w, 'x) rstate \<Rightarrow> bool" where
  "sweep_done ps out rs res \<longleftrightarrow>
     deadLettered (fst res) = deadLettered out \<and> rs_dlq (snd res) = rs_dlq rs \<and>
     map fst (resumed (fst res)) = map fst (resumed out) @ filter (\<lambda>i. map_of (rs_dlq rs) i = None) (map fst ps) \<and>
     (\<forall>p \<in> set ps. map_of (rs_dlq rs) (fst p) = None \<longrightarrow> fst p \<in> terminal_ids (j_events (ks_journal (rs_kst (snd res))))) \<and>
     (\<exists>es. j_events (ks_journal (rs_kst (snd res))) = j_events (ks_journal (rs_kst rs)) @ es)"

lemma recover_one_done:
  assumes "no_faults K" "fst p \<noteq> []" "closing_journaled (fst p) (rs_kst rs)"
  shows "\<exists>out' rs'. recover_one K maxAtt p (out, rs) = (out', rs') \<and> deadLettered out' = deadLettered out \<and> rs_dlq rs' = rs_dlq rs \<and>
    map fst (resumed out') = map fst (resumed out) @ (if map_of (rs_dlq rs) (fst p) = None then [fst p] else []) \<and>
    (map_of (rs_dlq rs) (fst p) = None \<longrightarrow> fst p \<in> terminal_ids (j_events (ks_journal (rs_kst rs')))) \<and>
    (\<exists>es. j_events (ks_journal (rs_kst rs')) = j_events (ks_journal (rs_kst rs)) @ es) \<and>
    (\<forall>j. closing_journaled j (rs_kst rs) \<longrightarrow> closing_journaled j (rs_kst rs'))"
proof -
  obtain i req where p: "p = (i, req)" by (cases p)
  show ?thesis
  proof (cases "map_of (rs_dlq rs) i")
    case (Some d)
    then show ?thesis by (simp add: recover_one_def p)
  next
    case None
    obtain n where n: "(if maxAtt = 0 then 5 else maxAtt) = Suc n" by (cases maxAtt) auto
    from attempt_first [OF assms(1), of i "rs_kst rs" req n 0 None] assms(2,3) p obtain st t where
      "attempt_loop K req i (Suc n) 0 None (rs_kst rs) = (1, Some st, t)" "terminal_state st"
      "i \<in> terminal_ids (j_events (ks_journal t))" "\<exists>es. j_events (ks_journal t) = j_events (ks_journal (rs_kst rs)) @ es"
      "\<forall>j. closing_journaled j (rs_kst rs) \<longrightarrow> closing_journaled j t" by auto
    with None n show ?thesis by (simp add: recover_one_def p)
  qed
qed

lemma recover_fold:
  assumes "no_faults K" "\<forall>p \<in> set ps. fst p \<noteq> [] \<and> closing_journaled (fst p) (rs_kst rs)"
  shows "sweep_done ps out rs (foldl (\<lambda>acc p. recover_one K maxAtt p acc) (out, rs) ps)"
  using assms(2)
proof (induction ps arbitrary: out rs)
  case Nil
  show ?case by (simp add: sweep_done_def)
next
  case (Cons p ps)
  from recover_one_done [OF assms(1), of p rs maxAtt out] Cons.prems obtain out' rs' where
    o: "recover_one K maxAtt p (out, rs) = (out', rs')" "deadLettered out' = deadLettered out" "rs_dlq rs' = rs_dlq rs"
    "map fst (resumed out') = map fst (resumed out) @ (if map_of (rs_dlq rs) (fst p) = None then [fst p] else [])"
    "map_of (rs_dlq rs) (fst p) = None \<longrightarrow> fst p \<in> terminal_ids (j_events (ks_journal (rs_kst rs')))"
    "\<exists>es. j_events (ks_journal (rs_kst rs')) = j_events (ks_journal (rs_kst rs)) @ es"
    "\<forall>j. closing_journaled j (rs_kst rs) \<longrightarrow> closing_journaled j (rs_kst rs')" by auto
  have "sweep_done ps out' rs' (foldl (\<lambda>acc p. recover_one K maxAtt p acc) (out', rs') ps)"
    by (rule Cons.IH) (use Cons.prems o(7) in auto)
  with o show ?case unfolding sweep_done_def by (auto dest: terminal_ids_append)
qed

lemma foldl_scan_wf: "mwf m \<Longrightarrow> mwf (foldl scan_submit m es)"
  by (induction es arbitrary: m) (auto simp: scan_submit_def split: kpayload.splits)

lemma index_chain_reads: "coalesce (map_of (index_chain es) t) [] = filter (\<lambda>e. ev_txId e = t) es"
  by (induction es rule: rev_induct) (auto simp: index_chain_def coalesce_def split: option.splits)

end
