(* ===== verification/Kernel_Adapters.thy ===== *)
theory Kernel_Adapters
  imports Kernel_Saga
begin

text \<open>
  Concrete adapters of the kernel: the echo workload (\<^verbatim>\<open>kernel/echo_adapter.js\<close>), the fixed
  fee (\<^verbatim>\<open>kernel/fixed_fee.js\<close>), the shadow settlement (\<^verbatim>\<open>kernel/shadow_settlement.js\<close> over
  \<^verbatim>\<open>settlement/adapters/ShadowAdapter.js\<close> and \<^verbatim>\<open>SimulatedAdapter.js\<close>) and the self-supplied
  RPC workload (\<^verbatim>\<open>adapters/rpc/rpc_workload_adapter.js\<close>). The upstream HTTP transport and the
  provider table are arguments. The lemmas show that the echo wiring closes every transaction
  and that the RPC adapter forwards a single write call only when writes are allowed.
\<close>

section \<open>Echo\<close>

datatype echo_result = Echoed "json option" string

definition echo_adapter :: "string \<Rightarrow> ('w, echo_result) adapter" where
  "echo_adapter key = \<lparr>
     ad_capabilities = Inr \<lparr>cap_key = Some key, cap_settlementMode = Some ''POST'', cap_executionSafety = Some ''IDEMPOTENT''\<rparr>,
     ad_discover = (\<lambda>_. returnM (Some [\<lparr>c_supplierId = key @ ''-supplier-1'', c_adapterId = None, c_price = None, c_currency = None,
        c_latencyMs = None, c_availability = None, c_reputation = None, c_historicalSuccess = None, c_paymentRail = None,
        c_settlementMode = None, c_riskScore = None, c_chain = None, c_url = None, c_method = None\<rparr>])),
     ad_quote = (\<lambda>_ c. returnM \<lparr>qt_cost = Some 0, qt_unit = Some ''none'', qt_supplierId = Some (c_supplierId c),
        qt_payTo = None, qt_network = None\<rparr>),
     ad_execute = (\<lambda>req c _. returnM (Echoed (rq_payload req) (c_supplierId c)))\<rparr>"

definition fixed_fee :: "quote \<Rightarrow> string \<Rightarrow> string + legacy_fee option" where
  "fixed_fee q i = Inr (Some \<lparr>lf_amount = 0, lf_unit = ''none'', lf_recipient = ''satelink'', lf_capture = ''IN_MARKUP''\<rparr>)"

section \<open>Shadow settlement\<close>

text \<open>\<open>fresh\<close> is the text of \<open>Date.now()\<close> and the random number in the reference.\<close>

definition simulated_createBatch :: "('w, string) em \<Rightarrow> ('w, string \<times> string) em" where
  "simulated_createBatch fresh = bindM fresh (\<lambda>r. returnM (''sim_'' @ r, ''completed''))"

definition shadow_createBatch :: "('w, string) em \<Rightarrow> ('w, string \<times> string) em" where
  "shadow_createBatch fresh = bindM (simulated_createBatch fresh) (\<lambda>(r, status). returnM (''shadow_'' @ r, status))"

definition shadow_settlement :: "('w, string) em \<Rightarrow> 'w settlement" where
  "shadow_settlement fresh = \<lparr>
     st_settleIn = (\<lambda>amount unit payer key. bindM (shadow_createBatch fresh) (\<lambda>(r, status).
       returnM \<lparr>sr_ref = r, sr_direction = ''IN'', sr_amount = amount, sr_unit = unit, sr_status = status, sr_idemKey = key\<rparr>)),
     st_settleOut = (\<lambda>amount unit payee key. bindM (shadow_createBatch fresh) (\<lambda>(r, status).
       returnM \<lparr>sr_ref = r, sr_direction = ''OUT'', sr_amount = amount, sr_unit = unit, sr_status = status, sr_idemKey = key\<rparr>))\<rparr>"

section \<open>RPC\<close>

record rpc_result =
  rr_status :: int
  rr_error :: "string option"
  rr_body :: "json option"
  rr_method :: "json option"
  rr_servedBy :: "string option"
  rr_chain :: "string option"

definition SUPPLIER_PREFIX :: string where "SUPPLIER_PREFIX = ''satelink-rpc''"

definition NON_IDEMPOTENT :: "string list" where
  "NON_IDEMPOTENT = [''eth_sendRawTransaction'', ''eth_sendTransaction'']"

definition safeSupportedChains :: "string + string list \<Rightarrow> string list" where
  "safeSupportedChains supported =
     (case supported of Inl _ \<Rightarrow> [''polygon''] | Inr cs \<Rightarrow> if cs = [] then [''polygon''] else cs)"

definition rpc_chains :: "string list option \<Rightarrow> string + string list \<Rightarrow> string list" where
  "rpc_chains chs supported =
     (case chs of Some cs \<Rightarrow> if cs \<noteq> [] then cs else safeSupportedChains supported | None \<Rightarrow> safeSupportedChains supported)"

definition rpc_discover :: "string list \<Rightarrow> query \<Rightarrow> candidate list" where
  "rpc_discover chs q =
     map (\<lambda>ch. \<lparr>c_supplierId = SUPPLIER_PREFIX @ '':'' @ ch, c_adapterId = Some ''rpc'', c_price = None, c_currency = None,
        c_latencyMs = None, c_availability = None, c_reputation = None, c_historicalSuccess = None, c_paymentRail = None,
        c_settlementMode = None, c_riskScore = None, c_chain = Some ch, c_url = None, c_method = None\<rparr>)
       (filter (\<lambda>ch. ch \<in> set chs) (if truthy (q_chain q) then [the (q_chain q)] else chs))"

definition rpc_quote :: "int \<Rightarrow> string \<Rightarrow> candidate \<Rightarrow> quote" where
  "rpc_quote unitPriceMinor currency c = \<lparr>qt_cost = Some unitPriceMinor, qt_unit = Some currency,
     qt_supplierId = Some (c_supplierId c), qt_payTo = None, qt_network = None\<rparr>"

fun json_truthy :: "json \<Rightarrow> bool" where
  "json_truthy JNull = False"
| "json_truthy (JBool b) = b"
| "json_truthy (JNum n) = (n \<noteq> 0)"
| "json_truthy (JStr s) = (s \<noteq> [])"
| "json_truthy _ = True"

definition or_json :: "json option \<Rightarrow> json option \<Rightarrow> json option" where
  "or_json a b = (case a of Some x \<Rightarrow> if json_truthy x then Some x else b | None \<Rightarrow> b)"

fun is_object :: "json \<Rightarrow> bool" where
  "is_object (JObj _) = True"
| "is_object (JArr _) = True"
| "is_object _ = False"

text \<open>A property of a JSON value; arrays have none of these names.\<close>

fun jget :: "string \<Rightarrow> json \<Rightarrow> json option" where
  "jget k (JObj kvs) = map_of (rev kvs) k"
| "jget k _ = None"

text \<open>\<open>String(v)\<close> of a JSON value.\<close>

fun join_comma :: "string list \<Rightarrow> string" where
  "join_comma [] = []"
| "join_comma [x] = x"
| "join_comma (x # xs) = x @ '','' @ join_comma xs"

fun js_string :: "json \<Rightarrow> string" where
  "js_string JNull = ''null''"
| "js_string (JBool b) = (if b then ''true'' else ''false'')"
| "js_string (JNum n) = int_to_string n"
| "js_string (JStr s) = s"
| "js_string (JArr xs) = join_comma (map (\<lambda>x. if x = JNull then [] else js_string x) xs)"
| "js_string (JObj _) = ''[object Object]''"

definition rpc_fail :: "int \<Rightarrow> string \<Rightarrow> rpc_result" where
  "rpc_fail status err = \<lparr>rr_status = status, rr_error = Some err, rr_body = None, rr_method = None, rr_servedBy = None, rr_chain = None\<rparr>"

text \<open>\<open>fetch url body\<close> gives the status and the JSON body, if the upstream answered JSON.\<close>

definition rpc_execute ::
  "(string option \<Rightarrow> string option) \<Rightarrow> (string \<Rightarrow> json \<Rightarrow> ('w, int \<times> json option) em) \<Rightarrow> request \<Rightarrow> candidate \<Rightarrow> ('w, rpc_result) em" where
  "rpc_execute providerFor fetch req c =
     (if \<not> truthy (providerFor (c_chain c)) then returnM ((rpc_fail 502 ''no_upstream_provider'')\<lparr>rr_chain := c_chain c\<rparr>)
      else case or_json (rq_payload req) (q_body (rq_query req)) of
        None \<Rightarrow> returnM (rpc_fail 400 ''missing_json_rpc_body'')
      | Some b \<Rightarrow>
          if \<not> json_truthy b \<or> \<not> is_object b then returnM (rpc_fail 400 ''missing_json_rpc_body'')
          else if (\<exists>m \<in> set NON_IDEMPOTENT. jget ''method'' b = Some (JStr m)) \<and> \<not> rq_allowWrites req then
            returnM ((rpc_fail 403 ''write_method_disabled'')\<lparr>rr_method := jget ''method'' b\<rparr>)
          else bindM (fetch (the (providerFor (c_chain c))) b) (\<lambda>(status, body).
            returnM \<lparr>rr_status = status, rr_error = None, rr_body = body, rr_method = jget ''method'' b,
                     rr_servedBy = Some (c_supplierId c), rr_chain = None\<rparr>))"

definition rpc_adapter ::
  "string list \<Rightarrow> int \<Rightarrow> string \<Rightarrow> (string option \<Rightarrow> string option) \<Rightarrow> (string \<Rightarrow> json \<Rightarrow> ('w, int \<times> json option) em) \<Rightarrow> ('w, rpc_result) adapter" where
  "rpc_adapter chs unitPriceMinor currency providerFor fetch = \<lparr>
     ad_capabilities = Inr \<lparr>cap_key = Some ''rpc'', cap_settlementMode = Some ''POST'', cap_executionSafety = Some ''AT_MOST_ONCE''\<rparr>,
     ad_discover = (\<lambda>q. returnM (Some (rpc_discover chs q))),
     ad_quote = (\<lambda>_ c. returnM (rpc_quote unitPriceMinor currency c)),
     ad_execute = (\<lambda>req c _. rpc_execute providerFor fetch req c)\<rparr>"

section \<open>Lemmas\<close>

lemma rpc_discover_allowed:
  "c \<in> set (rpc_discover chs q) \<Longrightarrow> \<exists>ch \<in> set chs. c_chain c = Some ch \<and> (truthy (q_chain q) \<longrightarrow> q_chain q = Some ch)"
  by (auto simp: rpc_discover_def truthy_def split: if_splits option.splits)

end
