(* ===== verification/Outbound_Guard.thy ===== *)
theory Outbound_Guard
  imports Durable_Store Money
begin

text \<open>
  \<^verbatim>\<open>vnext/reliability/outbound_guard.js\<close>: the kill switch, the per-payment and rolling
  caps, the wallet floor and the exactly-once commit of outbound payments. \<open>spend\<close> runs under
  an internal mutex, so a whole authorise-sign-commit is one step. The lemmas show that nothing
  is signed unless every rule allows it, and that the rolling caps hold for every window of time
  in every ledger that any sequence of spends can produce on a clock that never runs backwards.
\<close>

definition HOUR_MS :: int where "HOUR_MS = 3600000"
definition DAY_MS :: int where "DAY_MS = 86400000"

record guard_caps =
  maxPerTx :: "int option"
  maxPerHour :: "int option"
  maxPerDay :: "int option"
  walletFloor :: "int option"

definition opt_cap :: "amount option \<Rightarrow> fee_error + int option" where
  "opt_cap a = (case a of None \<Rightarrow> Inr None | Some v \<Rightarrow> bindR (toMinor v) (\<lambda>n. Inr (Some n)))"

definition make_caps :: "amount option \<Rightarrow> amount option \<Rightarrow> amount option \<Rightarrow> amount option \<Rightarrow> fee_error + guard_caps" where
  "make_caps tx hour day flr =
     bindR (opt_cap tx) (\<lambda>t. bindR (opt_cap hour) (\<lambda>h. bindR (opt_cap day) (\<lambda>d. bindR (opt_cap flr) (\<lambda>f.
       Inr \<lparr>maxPerTx = t, maxPerHour = h, maxPerDay = d, walletFloor = f\<rparr>))))"

record guard_config =
  g_enabled :: bool
  g_caps :: guard_caps

record guard_decision =
  authorized :: bool
  dryRun :: bool
  deduped :: bool
  g_reason :: "string option"
  g_amount :: string

text \<open>What has been spent since a time; a malformed ledger row throws.\<close>

fun sum_rows :: "(string \<times> int) list \<Rightarrow> int \<Rightarrow> fee_error + int" where
  "sum_rows [] acc = Inr acc"
| "sum_rows (r # rs) acc = bindR (toMinor (AStr (fst r))) (\<lambda>n. sum_rows rs (acc + n))"

definition spentSince :: "int \<Rightarrow> ('p, 'v, 's, 'r) backing \<Rightarrow> fee_error + int" where
  "spentSince since b = sum_rows (outboundRowsSince since b) 0"

definition deny :: "string \<Rightarrow> int \<Rightarrow> guard_decision" where
  "deny reason amt = \<lparr>authorized = False, dryRun = False, deduped = False, g_reason = Some reason,
     g_amount = int_to_string amt\<rparr>"

text \<open>The rolling cap over the window that starts at \<open>since\<close>; \<open>None\<close> if it is not breached.\<close>

definition rolling_check :: "int option \<Rightarrow> int \<Rightarrow> string \<Rightarrow> int \<Rightarrow> ('p, 'v, 's, 'r) backing \<Rightarrow> string + guard_decision option" where
  "rolling_check cap since reason amt b =
     (case cap of
        None \<Rightarrow> Inr None
      | Some c \<Rightarrow> bindR (throw_fee (spentSince since b)) (\<lambda>spent.
          if spent + amt > c then Inr (Some (deny reason amt)) else Inr None))"

text \<open>The wallet floor, with the outcome of the balance reader if there is one.\<close>

definition floor_check :: "int option \<Rightarrow> (string + amount) option \<Rightarrow> int \<Rightarrow> string + guard_decision option" where
  "floor_check flr reader amt =
     (case flr of
        None \<Rightarrow> Inr None
      | Some f \<Rightarrow>
          (case reader of
             None \<Rightarrow> Inr (Some (deny ''wallet_balance_unknown'' amt))
           | Some r \<Rightarrow> bindR r (\<lambda>v. bindR (throw_fee (toMinor v)) (\<lambda>bal.
               if bal - amt < f then Inr (Some (deny ''wallet_floor'' amt)) else Inr None))))"

definition or_else :: "string + guard_decision option \<Rightarrow> (unit \<Rightarrow> string + guard_decision) \<Rightarrow> string + guard_decision" where
  "or_else r k = bindR r (\<lambda>d. case d of Some x \<Rightarrow> Inr x | None \<Rightarrow> k ())"

definition authorize ::
  "guard_config \<Rightarrow> (string + amount) option \<Rightarrow> int \<Rightarrow> amount \<Rightarrow> string \<Rightarrow> ('p, 'v, 's, 'r) backing \<Rightarrow> string + guard_decision" where
  "authorize cfg reader now amount idemKey b =
     bindR (throw_fee (toMinor amount)) (\<lambda>amt.
       case outboundGet idemKey b of
         Some e \<Rightarrow> Inr \<lparr>authorized = True, dryRun = False, deduped = True, g_reason = None, g_amount = ob_amount e\<rparr>
       | None \<Rightarrow>
           if \<not> g_enabled cfg then
             Inr \<lparr>authorized = False, dryRun = True, deduped = False, g_reason = Some ''kill_switch_off'',
                  g_amount = int_to_string amt\<rparr>
           else if (case maxPerTx (g_caps cfg) of None \<Rightarrow> False | Some c \<Rightarrow> amt > c) then
             Inr (deny ''per_tx_cap'' amt)
           else or_else (rolling_check (maxPerHour (g_caps cfg)) (now - HOUR_MS) ''per_hour_cap'' amt b) (\<lambda>_.
                or_else (rolling_check (maxPerDay (g_caps cfg)) (now - DAY_MS) ''per_day_cap'' amt b) (\<lambda>_.
                or_else (floor_check (walletFloor (g_caps cfg)) reader amt) (\<lambda>_.
                Inr \<lparr>authorized = True, dryRun = False, deduped = False, g_reason = None,
                     g_amount = int_to_string amt\<rparr>))))"

definition commit :: "int \<Rightarrow> amount \<Rightarrow> string \<Rightarrow> string option \<Rightarrow> ('p, 'v, 's, 'r) backing
    \<Rightarrow> (string + bool \<times> outbound_entry) \<times> ('p, 'v, 's, 'r) backing" where
  "commit now amount idemKey ref b =
     (case throw_fee (toMinor amount) of
        Inl e \<Rightarrow> (Inl e, b)
      | Inr amt \<Rightarrow>
          (let (r, b') = outboundAdd \<lparr>ob_idem_key = idemKey, ob_amount = int_to_string amt, ob_ref = or_null ref,
                                      ob_ts = now\<rparr> b
           in (Inr r, b')))"

datatype 'y spend_outcome =
    SpendDeduped string
  | SpendDryRun "string option" string
  | SpendBlocked "string option" string
  | Spent "string option \<times> 'y" string

text \<open>
  \<open>signFn\<close> acts on the outside world \<open>'w\<close> and gives a reference and a payment, or throws. The
  clock is read when authorising and again when committing.
\<close>

definition spend ::
  "guard_config \<Rightarrow> (string + amount) option \<Rightarrow> int \<Rightarrow> int \<Rightarrow> amount \<Rightarrow> string \<Rightarrow> ('w, string option \<times> 'y) em
   \<Rightarrow> ('w \<times> ('p, 'v, 's, 'r) backing, 'y spend_outcome) em" where
  "spend cfg reader now1 now2 amount idemKey signFn = (\<lambda>(w, b).
     case authorize cfg reader now1 amount idemKey b of
       Inl e \<Rightarrow> (Inl e, (w, b))
     | Inr d \<Rightarrow>
         if deduped d then (Inr (SpendDeduped (g_amount d)), (w, b))
         else if dryRun d then (Inr (SpendDryRun (g_reason d) (g_amount d)), (w, b))
         else if \<not> authorized d then (Inr (SpendBlocked (g_reason d) (g_amount d)), (w, b))
         else
           (case signFn w of
              (Inl e, w') \<Rightarrow> (Inl e, (w', b))
            | (Inr signed, w') \<Rightarrow>
                (case commit now2 amount idemKey (fst signed) b of
                   (Inl e, b') \<Rightarrow> (Inl e, (w', b'))
                 | (Inr _, b') \<Rightarrow> (Inr (Spent signed (g_amount d)), (w', b')))))"

section \<open>What an authorisation means\<close>

definition row_amount :: "outbound_entry \<Rightarrow> int" where
  "row_amount e = string_to_int (ob_amount e)"

text \<open>Every row of the ledger was written by \<open>commit\<close>: its amount is a non-negative decimal.\<close>

definition rows_ok :: "('p, 'v, 's, 'r) backing \<Rightarrow> bool" where
  "rows_ok b \<longleftrightarrow> mwf (b_outbound b) \<and> (\<forall>e \<in> snd ` set (b_outbound b). \<exists>n \<ge> 0. ob_amount e = int_to_string n)"

definition spent_between :: "int \<Rightarrow> int \<Rightarrow> ('p, 'v, 's, 'r) backing \<Rightarrow> int" where
  "spent_between lo hi b =
     sum_list (map row_amount (filter (\<lambda>e. lo \<le> ob_ts e \<and> ob_ts e \<le> hi) (map snd (b_outbound b))))"

definition spent_from :: "int \<Rightarrow> ('p, 'v, 's, 'r) backing \<Rightarrow> int" where
  "spent_from lo b = sum_list (map row_amount (filter (\<lambda>e. lo \<le> ob_ts e) (map snd (b_outbound b))))"

lemma sum_rows_ok:
  "\<forall>r \<in> set rs. \<exists>n \<ge> 0. fst r = int_to_string n \<Longrightarrow>
   sum_rows rs acc = Inr (acc + sum_list (map (string_to_int \<circ> fst) rs))"
proof (induction rs arbitrary: acc)
  case (Cons r rs)
  then obtain n where "0 \<le> n" "fst r = int_to_string n" by auto
  with Cons show ?case by simp
qed simp

lemma spentSince_eq: "rows_ok b \<Longrightarrow> spentSince lo b = Inr (spent_from lo b)"
  unfolding spentSince_def spent_from_def outboundRowsSince_def
  by (subst sum_rows_ok) (auto simp: rows_ok_def row_amount_def [abs_def] comp_def)

lemma row_amount_nonneg: "rows_ok b \<Longrightarrow> e \<in> set (map snd (b_outbound b)) \<Longrightarrow> 0 \<le> row_amount e"
  by (fastforce simp: rows_ok_def row_amount_def)

lemma sum_filter_mono:
  "(\<And>e. e \<in> set es \<Longrightarrow> 0 \<le> f e) \<Longrightarrow> (\<And>e. P e \<Longrightarrow> Q e) \<Longrightarrow>
   sum_list (map f (filter P es)) \<le> (sum_list (map f (filter Q es)) :: int)"
  by (induction es) (auto simp: add_increasing)

lemma or_else_authorized:
  "or_else r k = Inr d \<Longrightarrow> (\<And>x. r = Inr (Some x) \<Longrightarrow> \<not> authorized x) \<Longrightarrow> authorized d \<Longrightarrow> r = Inr None \<and> k () = Inr d"
  unfolding or_else_def bindR_Inr_iff by (metis option.case_eq_if option.collapse sum.inject(2))

text \<open>The facts that hold when \<open>authorize\<close> lets a new payment through.\<close>

lemma authorize_new:
  assumes "authorize cfg reader now amount k b = Inr d" "authorized d" "\<not> deduped d" "rows_ok b"
  obtains amt where "toMinor amount = Inr amt" "0 \<le> amt" "g_enabled cfg" "outboundGet k b = None"
    "g_amount d = int_to_string amt"
    "\<And>c. maxPerTx (g_caps cfg) = Some c \<Longrightarrow> amt \<le> c"
    "\<And>c. maxPerHour (g_caps cfg) = Some c \<Longrightarrow> spent_from (now - HOUR_MS) b + amt \<le> c"
    "\<And>c. maxPerDay (g_caps cfg) = Some c \<Longrightarrow> spent_from (now - DAY_MS) b + amt \<le> c"
    "\<And>f. walletFloor (g_caps cfg) = Some f \<Longrightarrow> \<exists>v bal. reader = Some (Inr v) \<and> toMinor v = Inr bal \<and> f \<le> bal - amt"
proof -
  from assms(1) obtain amt where amt: "toMinor amount = Inr amt"
    by (auto simp: authorize_def bindR_Inr_iff)
  have roll: "cap = Some c \<Longrightarrow> rolling_check cap since rs amt b = Inr None \<Longrightarrow> spent_from since b + amt \<le> c"
    for cap c since rs
    using assms(4) by (auto simp: rolling_check_def spentSince_eq split: if_splits)
  have rollD: "rolling_check cap since rs amt b = Inr (Some x) \<Longrightarrow> \<not> authorized x" for cap since rs x
    by (auto simp: rolling_check_def bindR_Inr_iff deny_def split: option.splits if_splits)
  have flrD: "floor_check fl reader amt = Inr (Some x) \<Longrightarrow> \<not> authorized x" for fl x
    by (auto simp: floor_check_def bindR_Inr_iff deny_def split: option.splits if_splits)
  have flr: "fl = Some f \<Longrightarrow> floor_check fl reader amt = Inr None \<Longrightarrow>
      \<exists>v bal. reader = Some (Inr v) \<and> toMinor v = Inr bal \<and> f \<le> bal - amt" for fl f
    by (auto simp: floor_check_def bindR_Inr_iff split: option.splits if_splits)
  have none: "outboundGet k b = None" using assms(1,3) amt
    by (auto simp: authorize_def split: option.splits)
  have en: "g_enabled cfg" using assms(1,2) amt none by (auto simp: authorize_def split: if_splits)
  have tx: "\<And>c. maxPerTx (g_caps cfg) = Some c \<Longrightarrow> amt \<le> c"
    using assms(1,2) amt none en by (auto simp: authorize_def deny_def split: if_splits)
  then have "\<not> (case maxPerTx (g_caps cfg) of None \<Rightarrow> False | Some c \<Rightarrow> amt > c)"
    by (auto split: option.splits)
  with assms(1) amt none en have rest:
    "or_else (rolling_check (maxPerHour (g_caps cfg)) (now - HOUR_MS) ''per_hour_cap'' amt b) (\<lambda>_.
     or_else (rolling_check (maxPerDay (g_caps cfg)) (now - DAY_MS) ''per_day_cap'' amt b) (\<lambda>_.
     or_else (floor_check (walletFloor (g_caps cfg)) reader amt) (\<lambda>_.
     Inr \<lparr>authorized = True, dryRun = False, deduped = False, g_reason = None, g_amount = int_to_string amt\<rparr>))) = Inr d"
    by (simp add: authorize_def)
  have 1: "rolling_check (maxPerHour (g_caps cfg)) (now - HOUR_MS) ''per_hour_cap'' amt b = Inr None \<and>
      or_else (rolling_check (maxPerDay (g_caps cfg)) (now - DAY_MS) ''per_day_cap'' amt b) (\<lambda>_.
      or_else (floor_check (walletFloor (g_caps cfg)) reader amt) (\<lambda>_.
      Inr \<lparr>authorized = True, dryRun = False, deduped = False, g_reason = None, g_amount = int_to_string amt\<rparr>)) = Inr d"
    by (rule or_else_authorized [OF rest _ assms(2)]) (erule rollD)
  have 2: "rolling_check (maxPerDay (g_caps cfg)) (now - DAY_MS) ''per_day_cap'' amt b = Inr None \<and>
      or_else (floor_check (walletFloor (g_caps cfg)) reader amt) (\<lambda>_.
      Inr \<lparr>authorized = True, dryRun = False, deduped = False, g_reason = None, g_amount = int_to_string amt\<rparr>) = Inr d"
    by (rule or_else_authorized [OF conjunct2 [OF 1] _ assms(2)]) (erule rollD)
  have 3: "floor_check (walletFloor (g_caps cfg)) reader amt = Inr None \<and>
      Inr \<lparr>authorized = True, dryRun = False, deduped = False, g_reason = None, g_amount = int_to_string amt\<rparr> = (Inr d :: string + guard_decision)"
    by (rule or_else_authorized [OF conjunct2 [OF 2] _ assms(2)]) (erule flrD)
  note h = conjunct1 [OF 1] and dd = conjunct1 [OF 2] and ff = conjunct1 [OF 3]
  have dec: "g_amount d = int_to_string amt" using 3 by auto
  show thesis
    using that [OF amt toMinor_nonneg [OF amt] en none dec tx] roll [OF _ h] roll [OF _ dd] flr [OF _ ff] by blast
qed

section \<open>One spend\<close>

lemma commit_new:
  assumes "toMinor amount = Inr amt" "outboundGet k b = None"
  shows "commit now amount k ref b = (Inr (True, \<lparr>ob_idem_key = k, ob_amount = int_to_string amt, ob_ref = or_null ref, ob_ts = now\<rparr>),
    b\<lparr>b_outbound := b_outbound b @ [(k, \<lparr>ob_idem_key = k, ob_amount = int_to_string amt, ob_ref = or_null ref, ob_ts = now\<rparr>)]\<rparr>)"
  using assms by (simp add: commit_def outboundAdd_def outboundGet_def insert_if_absent_def mset_key_fresh)

text \<open>
  A spend leaves the ledger as it was, or it was authorised, signed, and appended one row that
  respects every cap.
\<close>

lemma spend_cases:
  assumes "spend cfg reader now1 now2 amount k signFn (w, b) = (r, (w', b'))" "rows_ok b"
  obtains (same) "b' = b" "\<And>s a. r \<noteq> Inr (Spent s a)"
  | (paid) amt s where "r = Inr (Spent s (int_to_string amt))" "signFn w = (Inr s, w')" "toMinor amount = Inr amt" "0 \<le> amt"
    "g_enabled cfg" "outboundGet k b = None"
    "b' = b\<lparr>b_outbound := b_outbound b @ [(k, \<lparr>ob_idem_key = k, ob_amount = int_to_string amt, ob_ref = or_null (fst s), ob_ts = now2\<rparr>)]\<rparr>"
    "\<And>c. maxPerTx (g_caps cfg) = Some c \<Longrightarrow> amt \<le> c"
    "\<And>c. maxPerHour (g_caps cfg) = Some c \<Longrightarrow> spent_from (now1 - HOUR_MS) b + amt \<le> c"
    "\<And>c. maxPerDay (g_caps cfg) = Some c \<Longrightarrow> spent_from (now1 - DAY_MS) b + amt \<le> c"
    "\<And>f. walletFloor (g_caps cfg) = Some f \<Longrightarrow> \<exists>v bal. reader = Some (Inr v) \<and> toMinor v = Inr bal \<and> f \<le> bal - amt"
proof (cases "authorize cfg reader now1 amount k b")
  case (Inl e)
  with assms(1) show thesis by (intro same) (auto simp: spend_def)
next
  case (Inr d)
  show thesis
  proof (cases "authorized d \<and> \<not> deduped d \<and> \<not> dryRun d")
    case False
    with Inr assms(1) show thesis by (intro same) (auto simp: spend_def split: if_splits)
  next
    case True
    obtain amt where amt: "toMinor amount = Inr amt" "0 \<le> amt" "g_enabled cfg" "outboundGet k b = None"
      "g_amount d = int_to_string amt"
      "\<And>c. maxPerTx (g_caps cfg) = Some c \<Longrightarrow> amt \<le> c"
      "\<And>c. maxPerHour (g_caps cfg) = Some c \<Longrightarrow> spent_from (now1 - HOUR_MS) b + amt \<le> c"
      "\<And>c. maxPerDay (g_caps cfg) = Some c \<Longrightarrow> spent_from (now1 - DAY_MS) b + amt \<le> c"
      "\<And>f. walletFloor (g_caps cfg) = Some f \<Longrightarrow> \<exists>v bal. reader = Some (Inr v) \<and> toMinor v = Inr bal \<and> f \<le> bal - amt"
      using authorize_new [OF Inr _ _ assms(2)] True by blast
    show thesis
    proof (cases "signFn w")
      case (Pair x w'')
      show thesis
      proof (cases x)
        case (Inl e)
        with Pair Inr True assms(1) show thesis by (intro same) (auto simp: spend_def)
      next
        case s: (Inr s)
        with Pair Inr True assms(1) commit_new [OF amt(1,4), of now2 "fst s"] amt(5)
        have "r = Inr (Spent s (int_to_string amt))" "w' = w''"
          "b' = b\<lparr>b_outbound := b_outbound b @ [(k, \<lparr>ob_idem_key = k, ob_amount = int_to_string amt, ob_ref = or_null (fst s), ob_ts = now2\<rparr>)]\<rparr>"
          by (auto simp: spend_def)
        with Pair s amt show thesis by (intro paid [of s amt]) auto
      qed
    qed
  qed
qed

section \<open>All sequences of spends\<close>

text \<open>The world, the store and the latest time the guard has read; a signed payment is JSON.\<close>

inductive guard_reach :: "guard_config \<Rightarrow> 'w \<times> ('p, 'v, 's, 'r) backing \<Rightarrow> int \<Rightarrow> bool" for cfg where
  start: "b_outbound b = [] \<Longrightarrow> guard_reach cfg (w, b) t"
| pay: "guard_reach cfg (w, b) t \<Longrightarrow> t \<le> now1 \<Longrightarrow> now1 \<le> now2 \<Longrightarrow>
    spend cfg reader now1 now2 amount k (signFn :: ('w, string option \<times> json) em) (w, b) = (r, (w', b')) \<Longrightarrow>
    guard_reach cfg (w', b') now2"

definition guard_inv :: "guard_config \<Rightarrow> ('p, 'v, 's, 'r) backing \<Rightarrow> int \<Rightarrow> bool" where
  "guard_inv cfg b t \<longleftrightarrow>
     rows_ok b \<and>
     (\<forall>e \<in> set (map snd (b_outbound b)). ob_ts e \<le> t) \<and>
     (\<forall>c. maxPerTx (g_caps cfg) = Some c \<longrightarrow> (\<forall>e \<in> set (map snd (b_outbound b)). row_amount e \<le> c)) \<and>
     (\<forall>c u. maxPerHour (g_caps cfg) = Some c \<longrightarrow> 0 \<le> c \<longrightarrow> spent_between (u - HOUR_MS) u b \<le> c) \<and>
     (\<forall>c u. maxPerDay (g_caps cfg) = Some c \<longrightarrow> 0 \<le> c \<longrightarrow> spent_between (u - DAY_MS) u b \<le> c)"

lemma window_step:
  assumes "rows_ok b" "now1 \<le> now2" "spent_from (now1 - w) b + amt \<le> c"
    and old: "spent_between (u - w) u b \<le> c" and e: "row_amount e = amt" "ob_ts e = now2"
    and b': "b_outbound b' = b_outbound b @ [(k, e)]"
  shows "spent_between (u - w) u b' \<le> c"
proof (cases "now2 \<le> u")
  case True
  have "spent_between (u - w) u b \<le> spent_from (now1 - w) b"
    unfolding spent_between_def spent_from_def
    by (rule sum_filter_mono) (use row_amount_nonneg [OF assms(1)] True assms(2) in auto)
  moreover have "0 \<le> amt \<Longrightarrow> spent_between (u - w) u b' \<le> spent_between (u - w) u b + amt"
    using e b' by (simp add: spent_between_def)
  moreover have "amt < 0 \<Longrightarrow> spent_between (u - w) u b' \<le> spent_between (u - w) u b + amt \<or>
      spent_between (u - w) u b' = spent_between (u - w) u b"
    using e b' by (simp add: spent_between_def)
  ultimately show ?thesis using assms(3) old by linarith
next
  case False
  with e b' old show ?thesis by (simp add: spent_between_def)
qed

lemma guard_reach_inv: "guard_reach cfg wb t \<Longrightarrow> guard_inv cfg (snd wb) t"
proof (induction rule: guard_reach.induct)
  case (start b w t)
  then show ?case by (simp add: guard_inv_def rows_ok_def spent_between_def)
next
  case (pay w b t now1 now2 reader amount k signFn r w' b')
  from pay.IH have ok: "rows_ok b" by (simp add: guard_inv_def)
  have "guard_inv cfg b' now2"
  proof (rule spend_cases [OF pay.hyps(4) ok])
    assume "b' = b"
    with pay.IH pay.hyps(2,3) show ?thesis by (force simp: guard_inv_def)
  next
    fix amt s
    assume amt: "0 \<le> amt" and none: "outboundGet k b = None"
      and b': "b' = b\<lparr>b_outbound := b_outbound b @ [(k, \<lparr>ob_idem_key = k, ob_amount = int_to_string amt, ob_ref = or_null (fst s), ob_ts = now2\<rparr>)]\<rparr>"
      and tx: "\<And>c. maxPerTx (g_caps cfg) = Some c \<Longrightarrow> amt \<le> c"
      and hr: "\<And>c. maxPerHour (g_caps cfg) = Some c \<Longrightarrow> spent_from (now1 - HOUR_MS) b + amt \<le> c"
      and dy: "\<And>c. maxPerDay (g_caps cfg) = Some c \<Longrightarrow> spent_from (now1 - DAY_MS) b + amt \<le> c"
    let ?e = "\<lparr>ob_idem_key = k, ob_amount = int_to_string amt, ob_ref = or_null (fst s), ob_ts = now2\<rparr>"
    have e: "row_amount ?e = amt" "ob_ts ?e = now2" "b_outbound b' = b_outbound b @ [(k, ?e)]"
      by (simp_all add: row_amount_def b')
    have ok': "rows_ok b'"
      using ok none amt e(3) by (auto simp: rows_ok_def outboundGet_def map_of_eq_None_iff)
    show ?thesis
      unfolding guard_inv_def
    proof (intro conjI allI impI ballI)
      show "rows_ok b'" by (rule ok')
      show "ob_ts x \<le> now2" if "x \<in> set (map snd (b_outbound b'))" for x
        using that e pay.IH pay.hyps(2,3) by (force simp: guard_inv_def)
      show "row_amount x \<le> c" if "maxPerTx (g_caps cfg) = Some c" "x \<in> set (map snd (b_outbound b'))" for x c
        using that e pay.IH tx [OF that(1)] by (auto simp: guard_inv_def)
      show "spent_between (u - HOUR_MS) u b' \<le> c" if "maxPerHour (g_caps cfg) = Some c" "0 \<le> c" for c u
        by (rule window_step [OF ok pay.hyps(3) hr [OF that(1)] _ e])
          (use pay.IH that in \<open>simp add: guard_inv_def\<close>)
      show "spent_between (u - DAY_MS) u b' \<le> c" if "maxPerDay (g_caps cfg) = Some c" "0 \<le> c" for c u
        by (rule window_step [OF ok pay.hyps(3) dy [OF that(1)] _ e])
          (use pay.IH that in \<open>simp add: guard_inv_def\<close>)
    qed
  qed
  then show ?case by simp
qed

lemma make_caps_nonneg:
  "make_caps t h d f = Inr caps \<Longrightarrow>
   (\<forall>c. maxPerTx caps = Some c \<longrightarrow> 0 \<le> c) \<and> (\<forall>c. maxPerHour caps = Some c \<longrightarrow> 0 \<le> c) \<and>
   (\<forall>c. maxPerDay caps = Some c \<longrightarrow> 0 \<le> c) \<and> (\<forall>c. walletFloor caps = Some c \<longrightarrow> 0 \<le> c)"
  by (auto simp: make_caps_def opt_cap_def bindR_Inr_iff split: option.splits)

section \<open>Properties\<close>

text \<open>
  C20: the outbound caps hold for every window, not only when they are checked. Whatever payments
  have been attempted one after the other with a clock that does not go back, the sum of the
  recorded payments in any hour and in any day is within the cap of that length, every payment is
  within the cap per transaction, and no idempotency key was paid twice.\<close>

theorem outbound_caps_hold:
  assumes "guard_reach cfg wb t" "make_caps x h d f = Inr (g_caps cfg)"
  shows "distinct (map fst (b_outbound (snd wb))) \<and>
    (\<forall>c e. maxPerTx (g_caps cfg) = Some c \<longrightarrow> e \<in> snd ` set (b_outbound (snd wb)) \<longrightarrow> row_amount e \<le> c) \<and>
    (\<forall>c u. maxPerHour (g_caps cfg) = Some c \<longrightarrow> spent_between (u - HOUR_MS) u (snd wb) \<le> c) \<and>
    (\<forall>c u. maxPerDay (g_caps cfg) = Some c \<longrightarrow> spent_between (u - DAY_MS) u (snd wb) \<le> c)"
  using guard_reach_inv [OF assms(1)] make_caps_nonneg [OF assms(2)]
  unfolding guard_inv_def rows_ok_def by (intro conjI) auto

theorem outbound_caps_hold_witness:
  "\<exists>cfg b. guard_reach cfg ((), b :: (nat, nat, nat, nat) backing) 10 \<and> maxPerHour (g_caps cfg) = Some 100 \<and>
     length (b_outbound b) = 1 \<and> spent_between (20 - HOUR_MS) 20 b \<le> 100"
proof -
  let ?cfg = "\<lparr>g_enabled = True, g_caps = \<lparr>maxPerTx = None, maxPerHour = Some 100, maxPerDay = None, walletFloor = None\<rparr>\<rparr>"
  let ?b = "createMemoryBacking\<lparr>b_outbound := [(''t:SETTLE_IN'', \<lparr>ob_idem_key = ''t:SETTLE_IN'', ob_amount = int_to_string 60, ob_ref = None, ob_ts = 10\<rparr>)]\<rparr>
    :: (nat, nat, nat, nat) backing"
  have s: "spend ?cfg None 5 10 (ABig 60) ''t:SETTLE_IN'' (returnM (None, JNull)) ((), createMemoryBacking) = (Inr (Spent (None, JNull) (int_to_string 60)), ((), ?b))"
    by (simp add: spend_def authorize_def outboundGet_def createMemoryBacking_def or_else_def rolling_check_def floor_check_def
        spentSince_def outboundRowsSince_def returnM_def commit_def outboundAdd_def insert_if_absent_def or_null_def)
  have r: "guard_reach ?cfg ((), ?b) 10"
    by (rule guard_reach.pay [OF guard_reach.start [where t = 0] _ _ s]) (simp_all add: createMemoryBacking_def)
  have c: "make_caps None (Some (ABig 100)) None None = Inr (g_caps ?cfg)" by (simp add: make_caps_def opt_cap_def)
  show ?thesis using r outbound_caps_hold [OF r c] by (intro exI [of _ ?cfg] exI [of _ ?b]) simp
qed

text \<open>
  Nothing is signed unless the guard allows it. When a spend called the signer and recorded the
  payment, the kill switch was on, the key had not been paid, and the amount was within every cap
  that is set and left the wallet at its floor; when the kill switch is off, a spend neither signs
  nor records, whatever it is asked.\<close>

theorem spend_only_when_allowed:
  assumes "rows_ok b" "spend cfg reader now1 now2 amount k signFn (w, b) = (r, (w', b'))" "b' \<noteq> b \<or> (\<exists>s a. r = Inr (Spent s a))"
  shows "g_enabled cfg \<and> outboundGet k b = None \<and> (\<exists>amt. toMinor amount = Inr amt \<and>
    (\<forall>c. maxPerTx (g_caps cfg) = Some c \<longrightarrow> amt \<le> c) \<and>
    (\<forall>c. maxPerHour (g_caps cfg) = Some c \<longrightarrow> spent_from (now1 - HOUR_MS) b + amt \<le> c) \<and>
    (\<forall>c. maxPerDay (g_caps cfg) = Some c \<longrightarrow> spent_from (now1 - DAY_MS) b + amt \<le> c) \<and>
    (\<forall>f. walletFloor (g_caps cfg) = Some f \<longrightarrow> (\<exists>v bal. reader = Some (Inr v) \<and> toMinor v = Inr bal \<and> f \<le> bal - amt)))"
  using assms(2,1)
proof (cases rule: spend_cases)
  case same
  then show ?thesis using assms(3) by blast
next
  case (paid amt s)
  show ?thesis using paid(3,5,6,8,9,10,11) by blast
qed

theorem spend_only_when_allowed_witness:
  "\<exists>cfg. g_enabled cfg \<and> (\<exists>s a wb. spend cfg (Some (Inr (ABig 90))) 5 10 (ABig 60) ''k'' (returnM (None, JNull))
     ((), createMemoryBacking :: (nat, nat, nat, nat) backing) = (Inr (Spent s a), wb)) \<and> walletFloor (g_caps cfg) = Some 30"
proof -
  let ?cfg = "\<lparr>g_enabled = True, g_caps = \<lparr>maxPerTx = Some 60, maxPerHour = None, maxPerDay = None, walletFloor = Some 30\<rparr>\<rparr>"
  let ?s = "spend ?cfg (Some (Inr (ABig 90))) 5 10 (ABig 60) ''k'' (returnM (None, JNull)) ((), createMemoryBacking :: (nat, nat, nat, nat) backing)"
  have s: "\<exists>b. ?s = (Inr (Spent (None, JNull) (int_to_string 60)), ((), b))"
    by (simp add: spend_def authorize_def outboundGet_def createMemoryBacking_def or_else_def rolling_check_def floor_check_def
        spentSince_def outboundRowsSince_def returnM_def commit_def outboundAdd_def insert_if_absent_def or_null_def)
  then obtain b where b: "?s = (Inr (Spent (None, JNull) (int_to_string 60)), ((), b))" by blast
  have ok: "rows_ok (createMemoryBacking :: (nat, nat, nat, nat) backing)" by (simp add: rows_ok_def createMemoryBacking_def)
  have "g_enabled ?cfg" using spend_only_when_allowed [OF ok b] by blast
  with b show ?thesis by (intro exI [of _ ?cfg]) auto
qed

end
