(* ===== verification/X402_Adapters.thy ===== *)
theory X402_Adapters
  imports Kernel_Adapters Outbound_Guard
begin

text \<open>
  The x402 payment adapters under \<^verbatim>\<open>vnext/adapters/x402/\<close> and their configuration
  \<^verbatim>\<open>payments/x402/config.js\<close>: the purchase workload, the settlement adapter that pays a
  merchant through the outbound guard, the EIP-3009 signer, the balance reader, and the inbound
  side that charges a caller through the facilitator. HTTP, the wallet's signature, keccak, the
  token table and the facilitator are arguments; they act on a network state \<open>'n\<close>. The lemmas
  show that nothing is signed unless the guard allowed it, what makes an inbound payment count,
  and that base64 loses nothing.

  A \<open>maxAmountRequired\<close> that is not an integer has no model as a quote: it throws here.
\<close>

section \<open>Base64\<close>

definition b64_char :: "nat \<Rightarrow> char" where
  "b64_char n = char_of (if n < 26 then 65 + n else if n < 52 then 71 + n else if n < 62 then n - 4 else if n = 62 then 43 else 47)"

definition b64_val :: "char \<Rightarrow> nat" where
  "b64_val c = (let n = (of_char c :: nat) in
     if 65 \<le> n \<and> n \<le> 90 then n - 65 else if 97 \<le> n \<and> n \<le> 122 then n - 71 else if 48 \<le> n \<and> n \<le> 57 then n + 4
     else if n = 43 then 62 else 63)"

fun b64_encode :: "string \<Rightarrow> string" where
  "b64_encode [] = []"
| "b64_encode [a] = (let x = of_char a in [b64_char (x div 4), b64_char (x mod 4 * 16), CHR ''='', CHR ''=''])"
| "b64_encode [a, b] = (let x = of_char a; y = of_char b in
     [b64_char (x div 4), b64_char (x mod 4 * 16 + y div 16), b64_char (y mod 16 * 4), CHR ''=''])"
| "b64_encode (a # b # c # s) = (let x = of_char a; y = of_char b; z = of_char c in
     b64_char (x div 4) # b64_char (x mod 4 * 16 + y div 16) # b64_char (y mod 16 * 4 + z div 64) # b64_char (z mod 64) # b64_encode s)"

fun b64_decode :: "string \<Rightarrow> string" where
  "b64_decode (p # q # r # t # s) =
     (let a = b64_val p * 4 + b64_val q div 16; b = b64_val q mod 16 * 16 + b64_val r div 4; c = b64_val r mod 4 * 64 + b64_val t
      in if r = CHR ''='' then [char_of a] else if t = CHR ''='' then [char_of a, char_of b]
         else char_of a # char_of b # char_of c # b64_decode s)"
| "b64_decode _ = []"

section \<open>Configuration and context\<close>

definition resolveNetwork :: "string \<Rightarrow> string" where
  "resolveNetwork network = (if network = ''base'' then ''eip155:8453'' else if network = ''base-sepolia'' then ''eip155:84532'' else network)"

record x402_config =
  x_payTo :: string
  x_network :: string

text \<open>\<open>getX402Config\<close> from the two variables of the environment that the adapters read.\<close>

definition getX402Config :: "string option \<Rightarrow> string option \<Rightarrow> x402_config" where
  "getX402Config envPayTo envNetwork = \<lparr>x_payTo = or_str envPayTo ''0x966E1Ae22996545015b1414B35234b10719d7Ad4'',
     x_network = resolveNetwork (or_str envNetwork ''base'')\<rparr>"

definition txIdOf :: "string \<Rightarrow> string" where
  "txIdOf key = takeWhile (\<lambda>c. c \<noteq> CHR '':'') key"

record xpayment =
  xp_header :: string
  xp_ref :: string
  xp_amount :: "int option"
  xp_unit :: "string option"
  xp_payTo :: string
  xp_network :: string
  xp_live :: bool

record ('n, 'p, 'v, 's, 'r) xworld =
  xw_net :: 'n
  xw_payments :: "(string, xpayment) jsmap"
  xw_store :: "('p, 'v, 's, 'r) backing"

text \<open>An action of the network lifted to the world of the adapters.\<close>

definition on_net :: "('n, 'a) em \<Rightarrow> (('n, 'p, 'v, 's, 'r) xworld, 'a) em" where
  "on_net m w = (let (r, n) = m (xw_net w) in (r, w\<lparr>xw_net := n\<rparr>))"

section \<open>The purchase workload\<close>

record x402_resource =
  re_url :: string
  re_method :: "string option"
  re_supplierId :: string

definition resource_candidate :: "x402_resource \<Rightarrow> candidate" where
  "resource_candidate r = \<lparr>c_supplierId = re_supplierId r, c_adapterId = None, c_price = None, c_currency = None,
     c_latencyMs = None, c_availability = None, c_reputation = None, c_historicalSuccess = None, c_paymentRail = None,
     c_settlementMode = None, c_riskScore = None, c_chain = None, c_url = Some (re_url r), c_method = re_method r\<rparr>"

definition purchase_discover :: "x402_resource list \<Rightarrow> query \<Rightarrow> candidate list" where
  "purchase_discover resources q =
     map resource_candidate (if truthy (q_resource q) then filter (\<lambda>r. Some (re_url r) = q_resource q) resources else resources)"

text \<open>\<open>Number(v ?? 0)\<close> where it is an integer.\<close>

definition cost_of :: "json option \<Rightarrow> string + int" where
  "cost_of v = (case v of
     None \<Rightarrow> Inr 0 | Some JNull \<Rightarrow> Inr 0 | Some (JNum n) \<Rightarrow> Inr n
   | Some (JStr s) \<Rightarrow> if list_all is_digit s then Inr (int (string_to_nat s)) else Inl ''cost is not an integer''
   | _ \<Rightarrow> Inl ''cost is not an integer'')"

fun json_text :: "json option \<Rightarrow> string option" where
  "json_text (Some (JStr s)) = Some s"
| "json_text _ = None"

text \<open>\<open>fetch url method header\<close> gives the status and the JSON body.\<close>

type_synonym 'n http = "string \<Rightarrow> string \<Rightarrow> string option \<Rightarrow> ('n, int \<times> json) em"

definition purchase_quote :: "x402_config \<Rightarrow> 'n http \<Rightarrow> candidate \<Rightarrow> ('n, quote) em" where
  "purchase_quote cfg fetch c =
     bindM (fetch (coalesce (c_url c) []) (or_str (c_method c) ''GET'') None) (\<lambda>(status, response).
       if status = 402 \<and> response = JNull then throwM ''TypeError''
       else if status = 402 then
         (let acc = coalesce (or_json (jget ''accepts'' response) None) (JObj [])
          in bindM (liftR (cost_of (jget ''maxAmountRequired'' acc))) (\<lambda>cost.
             returnM \<lparr>qt_cost = Some cost, qt_unit = Some ''USDC'', qt_supplierId = Some (c_supplierId c),
               qt_payTo = Some (or_str (json_text (jget ''payTo'' acc)) (x_payTo cfg)),
               qt_network = Some (or_str (json_text (jget ''network'' acc)) (x_network cfg))\<rparr>))
       else returnM \<lparr>qt_cost = Some 0, qt_unit = Some ''none'', qt_supplierId = Some (c_supplierId c), qt_payTo = None, qt_network = None\<rparr>)"

record purchase_result =
  pr_status :: int
  pr_body :: json
  paidWith :: "string option"

definition purchase_execute :: "'n http \<Rightarrow> candidate \<Rightarrow> string \<Rightarrow> (('n, 'p, 'v, 's, 'r) xworld, purchase_result) em" where
  "purchase_execute fetch c key w =
     (let payment = map_of (xw_payments w) (txIdOf key)
      in bindM (on_net (fetch (coalesce (c_url c) []) (or_str (c_method c) ''GET'') (map_option xp_header payment))) (\<lambda>(status, response).
         returnM \<lparr>pr_status = status, pr_body = response, paidWith = map_option xp_ref payment\<rparr>) w)"

definition purchase_adapter :: "x402_config \<Rightarrow> x402_resource list \<Rightarrow> 'n http \<Rightarrow> (('n, 'p, 'v, 's, 'r) xworld, purchase_result) adapter" where
  "purchase_adapter cfg resources fetch = \<lparr>
     ad_capabilities = Inr \<lparr>cap_key = Some ''x402-purchase'', cap_settlementMode = Some ''PRE'', cap_executionSafety = Some ''AT_MOST_ONCE''\<rparr>,
     ad_discover = (\<lambda>q. returnM (Some (purchase_discover resources q))),
     ad_quote = (\<lambda>_ c. on_net (purchase_quote cfg fetch c)),
     ad_execute = (\<lambda>_ c key. purchase_execute fetch c key)\<rparr>"

section \<open>The outbound signer\<close>

record token_domain =
  td_address :: string
  td_name :: string
  td_version :: string

definition tokenDomainFor :: "(string \<Rightarrow> token_domain option) \<Rightarrow> token_domain option \<Rightarrow> string \<Rightarrow> string + token_domain" where
  "tokenDomainFor stablecoins override network =
     (case (case override of Some t \<Rightarrow> Some t | None \<Rightarrow> stablecoins network) of
        Some t \<Rightarrow> if td_address t \<noteq> [] then Inr t else Inl (''no stablecoin domain for network '' @ network)
      | None \<Rightarrow> Inl (''no stablecoin domain for network '' @ network))"

definition nonceFromIdemKey :: "(string \<Rightarrow> string) \<Rightarrow> string \<Rightarrow> string" where
  "nonceFromIdemKey keccak key = keccak (''vnext-outbound:'' @ key)"

definition AUTH_TTL_SECONDS :: int where "AUTH_TTL_SECONDS = 300"

record authorization =
  au_from :: string
  au_to :: string
  au_value :: string
  au_validAfter :: string
  au_validBefore :: string
  au_nonce :: string

record sign_request =
  sq_payTo :: "string option"
  sq_amount :: "string option"
  sq_network :: string
  sq_nonce :: string

text \<open>
  \<open>BigInt(text)\<close> of a decimal text; \<open>BigInt\<close> of an empty text is zero. Hexadecimal and padded
  texts are outside the model.
\<close>

definition bigint :: "string \<Rightarrow> int option" where
  "bigint s = (if s = [] then Some 0 else if list_all is_digit s then Some (int (string_to_nat s))
     else if hd s = CHR ''-'' \<and> tl s \<noteq> [] \<and> list_all is_digit (tl s) then Some (- int (string_to_nat (tl s))) else None)"

definition eip3009_authorization :: "(string \<Rightarrow> string) \<Rightarrow> string \<Rightarrow> int \<Rightarrow> sign_request \<Rightarrow> string + authorization" where
  "eip3009_authorization keccak wallet now r =
     (if \<not> truthy (sq_payTo r) then Inl ''sign requires payTo (supplier address)''
      else case sq_amount r of
        None \<Rightarrow> Inl ''sign requires amount''
      | Some a \<Rightarrow> (case bigint a of
          None \<Rightarrow> Inl ''SyntaxError''
        | Some v \<Rightarrow> Inr \<lparr>au_from = wallet, au_to = the (sq_payTo r), au_value = int_to_string v, au_validAfter = ''0'',
                        au_validBefore = int_to_string (now + AUTH_TTL_SECONDS), au_nonce = nonceFromIdemKey keccak (sq_nonce r)\<rparr>))"

definition payment_json :: "string \<Rightarrow> string \<Rightarrow> authorization \<Rightarrow> json" where
  "payment_json network signature a = JObj
     [(''x402Version'', JNum 1), (''scheme'', JStr ''exact''), (''network'', JStr network),
      (''payload'', JObj [(''signature'', JStr signature), (''authorization'', JObj
        [(''from'', JStr (au_from a)), (''to'', JStr (au_to a)), (''value'', JStr (au_value a)), (''validAfter'', JStr (au_validAfter a)),
         (''validBefore'', JStr (au_validBefore a)), (''nonce'', JStr (au_nonce a))])])]"

text \<open>\<open>sig\<close> is the wallet's \<open>signTypedData\<close> over the domain and the authorization.\<close>

definition eip3009_sign :: "(string \<Rightarrow> token_domain option) \<Rightarrow> token_domain option \<Rightarrow> (string \<Rightarrow> string) \<Rightarrow> string \<Rightarrow> int
    \<Rightarrow> (token_domain \<Rightarrow> authorization \<Rightarrow> ('n, string) em) \<Rightarrow> sign_request \<Rightarrow> ('n, string option \<times> json) em" where
  "eip3009_sign stablecoins token keccak wallet now sig r =
     (if \<not> truthy (sq_payTo r) then throwM ''sign requires payTo (supplier address)''
      else if sq_amount r = None then throwM ''sign requires amount''
      else bindM (liftR (tokenDomainFor stablecoins token (sq_network r))) (\<lambda>dom.
           bindM (liftR (eip3009_authorization keccak wallet now r)) (\<lambda>a.
           bindM (sig dom a) (\<lambda>s.
           returnM (Some (au_nonce a), payment_json (sq_network r) s a)))))"

section \<open>The settlement adapter\<close>

definition amount_arg :: "int option \<Rightarrow> amount" where
  "amount_arg a = (case a of None \<Rightarrow> AOther | Some n \<Rightarrow> ANum (Fin (of_int n)))"

definition amount_str :: "int option \<Rightarrow> string" where
  "amount_str a = (case a of None \<Rightarrow> ''undefined'' | Some n \<Rightarrow> int_to_string n)"

definition dry_payment :: "x402_config \<Rightarrow> int option \<Rightarrow> string option \<Rightarrow> string \<Rightarrow> string \<Rightarrow> json" where
  "dry_payment cfg amount unit payer key = JObj
     [(''x402Version'', JNum 1), (''scheme'', JStr ''exact''), (''network'', JStr (x_network cfg)),
      (''payload'', JObj [(''payTo'', JStr (x_payTo cfg)), (''amount'', JStr (amount_str amount)),
        (''asset'', case unit of None \<Rightarrow> JNull | Some u \<Rightarrow> JStr u), (''payer'', JStr payer), (''nonce'', JStr key)])]"

text \<open>The outbound guard as it is wired: its configuration, the balance it reads and two clock readings.\<close>

record guard_wiring =
  gw_config :: guard_config
  gw_reader :: "(string + amount) option"
  gw_now1 :: int
  gw_now2 :: int

definition sign_fn :: "x402_config \<Rightarrow> (sign_request \<Rightarrow> ('n, string option \<times> json) em) option \<Rightarrow> int option \<Rightarrow> string
    \<Rightarrow> ('n, string option \<times> json) em" where
  "sign_fn cfg signer amount key =
     (case signer of
        None \<Rightarrow> throwM ''outbound_no_signer''
      | Some sign \<Rightarrow>
          bindM (sign \<lparr>sq_payTo = Some (x_payTo cfg), sq_amount = Some (amount_str amount), sq_network = x_network cfg, sq_nonce = key\<rparr>)
            (\<lambda>(r, p). returnM (Some (or_str r (''x402_'' @ txIdOf key)), p)))"

text \<open>What the guard's outcome means: a live payment, or none.\<close>

definition live_payment :: "json spend_outcome \<Rightarrow> string + (string option \<times> json) option" where
  "live_payment out = (case out of
     SpendBlocked reason _ \<Rightarrow> Inl (''outbound_blocked:'' @ coalesce reason [])
   | Spent signed _ \<Rightarrow> Inr (Some signed)
   | _ \<Rightarrow> Inr None)"

definition guarded_spend :: "x402_config \<Rightarrow> guard_wiring option \<Rightarrow> (sign_request \<Rightarrow> ('n, string option \<times> json) em) option
    \<Rightarrow> int option \<Rightarrow> string \<Rightarrow> (('n, 'p, 'v, 's, 'r) xworld, (string option \<times> json) option) em" where
  "guarded_spend cfg guard signer amount key w =
     (case guard of
        None \<Rightarrow> (Inr None, w)
      | Some g \<Rightarrow>
          (case spend (gw_config g) (gw_reader g) (gw_now1 g) (gw_now2 g) (amount_arg amount) key (sign_fn cfg signer amount key)
                  (xw_net w, xw_store w) of
             (Inl e, (n, b)) \<Rightarrow> (Inl e, w\<lparr>xw_net := n, xw_store := b\<rparr>)
           | (Inr out, (n, b)) \<Rightarrow> (live_payment out, w\<lparr>xw_net := n, xw_store := b\<rparr>)))"

definition x402_settleIn :: "x402_config \<Rightarrow> guard_wiring option \<Rightarrow> (sign_request \<Rightarrow> ('n, string option \<times> json) em) option
    \<Rightarrow> int option \<Rightarrow> string option \<Rightarrow> string \<Rightarrow> string \<Rightarrow> (('n, 'p, 'v, 's, 'r) xworld, settle_ref) em" where
  "x402_settleIn cfg guard signer amount unit payer key =
     bindM (guarded_spend cfg guard signer amount key) (\<lambda>paid.
       let live = (paid \<noteq> None);
           ref = (case paid of Some (r, _) \<Rightarrow> coalesce r [] | None \<Rightarrow> ''x402_'' @ txIdOf key);
           payment = (case paid of Some (_, p) \<Rightarrow> p | None \<Rightarrow> dry_payment cfg amount unit payer key)
       in bindM (modifyM (\<lambda>w. w\<lparr>xw_payments := mset_key (txIdOf key)
              \<lparr>xp_header = b64_encode (stringify payment), xp_ref = ref, xp_amount = amount, xp_unit = unit,
               xp_payTo = x_payTo cfg, xp_network = x_network cfg, xp_live = live\<rparr> (xw_payments w)\<rparr>)) (\<lambda>_.
          returnM \<lparr>sr_ref = ref, sr_direction = ''IN'', sr_amount = amount, sr_unit = unit,
            sr_status = (if live then ''settled'' else ''dry-run''), sr_idemKey = key\<rparr>))"

definition x402_settleOut :: "int option \<Rightarrow> string option \<Rightarrow> string \<Rightarrow> string \<Rightarrow> (('n, 'p, 'v, 's, 'r) xworld, settle_ref) em" where
  "x402_settleOut amount unit payee key = returnM \<lparr>sr_ref = ''x402_out_'' @ txIdOf key, sr_direction = ''OUT'',
     sr_amount = amount, sr_unit = unit, sr_status = ''confirmed'', sr_idemKey = key\<rparr>"

definition x402_settlement :: "x402_config \<Rightarrow> guard_wiring option \<Rightarrow> (sign_request \<Rightarrow> ('n, string option \<times> json) em) option
    \<Rightarrow> ('n, 'p, 'v, 's, 'r) xworld settlement" where
  "x402_settlement cfg guard signer = \<lparr>st_settleIn = x402_settleIn cfg guard signer, st_settleOut = x402_settleOut\<rparr>"

text \<open>The balance reader: the text of the contract's answer.\<close>

definition balance_reader :: "(string \<Rightarrow> ('n, int) em) \<Rightarrow> string \<Rightarrow> ('n, string) em" where
  "balance_reader balanceOf address = bindM (balanceOf address) (\<lambda>b. returnM (int_to_string b))"

section \<open>The inbound side\<close>

datatype amt = AmtText string | AmtNum int

fun amt_truthy :: "amt \<Rightarrow> bool" where
  "amt_truthy (AmtText s) = (s \<noteq> [])"
| "amt_truthy (AmtNum n) = (n \<noteq> 0)"

fun amt_text :: "amt \<Rightarrow> string" where
  "amt_text (AmtText s) = s"
| "amt_text (AmtNum n) = int_to_string n"

fun amt_bigint :: "amt \<Rightarrow> int option" where
  "amt_bigint (AmtText s) = bigint s"
| "amt_bigint (AmtNum n) = Some n"

text \<open>The facilitator's answers after the fall-backs over field names.\<close>

record verify_resp =
  vr_valid :: bool
  vr_invalidReason :: "string option"

record settle_resp =
  sp_ok :: bool
  sp_errorReason :: "string option"
  sp_tx :: "string option"
  sp_payer :: "string option"
  sp_amount :: "amt option"

record requirements =
  rq_payTo :: string
  rq_maxAmountRequired :: string
  rq_asset :: string
  rq_net :: string
  rq_resource :: string

record 'n facilitator =
  fc_verify :: "json \<Rightarrow> requirements \<Rightarrow> ('n, verify_resp option) em"
  fc_settle :: "json \<Rightarrow> requirements \<Rightarrow> ('n, settle_resp option) em"

datatype inbound = NotSettled string | Settled "amt" "string option" "string option"

definition amountOf :: "settle_resp \<Rightarrow> amt option" where
  "amountOf r = (case sp_amount r of Some a \<Rightarrow> if amt_truthy a then Some a else None | None \<Rightarrow> None)"

text \<open>\<open>price\<close> is the decimal text of the quoted price; \<open>decode\<close> is base64 and \<open>JSON.parse\<close>.\<close>

definition cdp_verify :: "'n facilitator \<Rightarrow> (string \<Rightarrow> json option) \<Rightarrow> string \<Rightarrow> string \<Rightarrow> int \<Rightarrow> string \<Rightarrow> string \<Rightarrow> string \<Rightarrow> ('n, inbound) em" where
  "cdp_verify fc decode asset header price resource payTo network n =
     (case decode header of
        None \<Rightarrow> (Inr (NotSettled ''malformed_payment''), n)
      | Some payload \<Rightarrow>
          (let req = \<lparr>rq_payTo = payTo, rq_maxAmountRequired = int_to_string price, rq_asset = asset, rq_net = network, rq_resource = resource\<rparr> in
           case fc_verify fc payload req n of
             (Inl e, n1) \<Rightarrow> (Inr (NotSettled (''verify_error:'' @ e)), n1)
           | (Inr None, n1) \<Rightarrow> (Inr (NotSettled ''invalid_payment''), n1)
           | (Inr (Some v), n1) \<Rightarrow>
               if \<not> vr_valid v then (Inr (NotSettled (or_str (vr_invalidReason v) ''invalid_payment'')), n1)
               else (case fc_settle fc payload req n1 of
                 (Inl e, n2) \<Rightarrow> (Inr (NotSettled (''settle_error:'' @ e)), n2)
               | (Inr None, n2) \<Rightarrow> (Inr (NotSettled ''settle_failed''), n2)
               | (Inr (Some s), n2) \<Rightarrow>
                   if \<not> sp_ok s then (Inr (NotSettled (or_str (sp_errorReason s) ''settle_failed'')), n2)
                   else (case amountOf s of
                     None \<Rightarrow> (Inr (Settled (AmtText (int_to_string price)) (sp_tx s) (sp_payer s)), n2)
                   | Some a \<Rightarrow>
                       if (case amt_bigint a of Some x \<Rightarrow> x < price | None \<Rightarrow> False) then (Inr (NotSettled ''underpaid''), n2)
                       else (Inr (Settled (AmtText (amt_text a)) (sp_tx s) (sp_payer s)), n2)))))"

record inbound_config =
  ic_payTo :: string
  ic_network :: string

definition make_inbound :: "string option \<Rightarrow> string option \<Rightarrow> string + inbound_config" where
  "make_inbound payTo network =
     (if \<not> truthy payTo then Inl ''InboundSettlement requires a payTo (Satelink receiving address)''
      else Inr \<lparr>ic_payTo = the payTo, ic_network = or_str network ''eip155:8453''\<rparr>)"

definition challenge :: "inbound_config \<Rightarrow> int \<Rightarrow> string \<Rightarrow> string \<Rightarrow> json" where
  "challenge cfg price unit resource = JObj [(''x402Version'', JNum 1), (''accepts'', JObj
     [(''scheme'', JStr ''exact''), (''network'', JStr (ic_network cfg)), (''payTo'', JStr (ic_payTo cfg)),
      (''maxAmountRequired'', JStr (int_to_string price)), (''asset'', JStr unit), (''resource'', JStr resource),
      (''mimeType'', JStr ''application/json'')])]"

text \<open>
  \<open>verifier header price resource payTo network\<close>; the result of \<open>verify\<close> is the settlement, and
  \<open>Inl\<close> where \<open>BigInt\<close> throws on the amount.
\<close>

definition inbound_verify :: "inbound_config \<Rightarrow> (string \<Rightarrow> int \<Rightarrow> string \<Rightarrow> string \<Rightarrow> string \<Rightarrow> ('n, inbound) em) option
    \<Rightarrow> string option \<Rightarrow> int \<Rightarrow> string \<Rightarrow> ('n, inbound) em" where
  "inbound_verify cfg verifier header price resource n =
     (if \<not> truthy header then (Inr (NotSettled ''no_payment''), n)
      else case verifier of
        None \<Rightarrow> (Inr (NotSettled ''no_verifier''), n)
      | Some v \<Rightarrow>
          (case v (the header) price resource (ic_payTo cfg) (ic_network cfg) n of
             (Inl e, n') \<Rightarrow> (Inr (NotSettled (''verify_error:'' @ e)), n')
           | (Inr (NotSettled r), n') \<Rightarrow> (Inr (NotSettled (if r = [] then ''not_settled'' else r)), n')
           | (Inr (Settled a tx payer), n') \<Rightarrow>
               (case amt_bigint a of
                  None \<Rightarrow> (Inl ''SyntaxError'', n')
                | Some x \<Rightarrow> if x < price then (Inr (NotSettled ''underpaid''), n')
                            else (Inr (Settled (AmtText (amt_text a)) (or_null tx) (or_null payer)), n'))))"

section \<open>Base64 loses nothing\<close>

lemma b64_val_char: "n < 64 \<Longrightarrow> b64_val (b64_char n) = n"
  by (auto simp: b64_val_def b64_char_def Let_def)

lemma b64_char_not_pad: "n < 64 \<Longrightarrow> b64_char n \<noteq> CHR ''=''"
  by (rule notI, drule arg_cong [of _ _ "of_char :: char \<Rightarrow> nat"]) (auto simp: b64_char_def split: if_splits)

lemma char_byte: "(of_char c :: nat) < 256"
  by (metis nat_of_char_less_256)

lemma sextets:
  "(of_char c :: nat) div 16 mod 16 = of_char c div 16 \<and> (of_char c :: nat) div 16 div 16 = 0"
  "(of_char c :: nat) div 64 mod 4 = of_char c div 64 \<and> (of_char c :: nat) div 64 div 4 = 0"
proof -
  have "(of_char c :: nat) div 16 < 16" "(of_char c :: nat) div 64 < 4" using char_byte [of c] by linarith+
  then show "(of_char c :: nat) div 16 mod 16 = of_char c div 16 \<and> (of_char c :: nat) div 16 div 16 = 0"
    "(of_char c :: nat) div 64 mod 4 = of_char c div 64 \<and> (of_char c :: nat) div 64 div 4 = 0" by simp_all
qed

text \<open>
  The payment header loses nothing: decoding the base64 text of any bytes gives the bytes back.\<close>

theorem base64_round_trip: "b64_decode (b64_encode s) = s"
proof (induction s rule: b64_encode.induct)
  case (2 a)
  have "(of_char a :: nat) div 4 < 64" "(of_char a :: nat) mod 4 * 16 < 64" using char_byte [of a] by linarith+
  moreover have "of_char a div 4 * 4 + of_char a mod 4 * 16 div 16 = (of_char a :: nat)" by simp
  ultimately show ?case by (simp add: Let_def b64_val_char)
next
  case (3 a b)
  let ?x = "of_char a :: nat" and ?y = "of_char b :: nat"
  have r: "?x div 4 < 64" "?x mod 4 * 16 + ?y div 16 < 64" "?y mod 16 * 4 < 64"
    using char_byte [of a] char_byte [of b] by linarith+
  have "?x div 4 * 4 + (?x mod 4 * 16 + ?y div 16) div 16 = ?x"
    "(?x mod 4 * 16 + ?y div 16) mod 16 * 16 + ?y mod 16 * 4 div 4 = ?y"
    using sextets(1) [of b] by simp_all
  with r show ?case by (simp add: Let_def b64_val_char b64_char_not_pad)
next
  case (4 a b c s)
  let ?x = "of_char a :: nat" and ?y = "of_char b :: nat" and ?z = "of_char c :: nat"
  have r: "?x div 4 < 64" "?x mod 4 * 16 + ?y div 16 < 64" "?y mod 16 * 4 + ?z div 64 < 64" "?z mod 64 < 64"
    using char_byte [of a] char_byte [of b] char_byte [of c] by linarith+
  have "?x div 4 * 4 + (?x mod 4 * 16 + ?y div 16) div 16 = ?x"
    "(?x mod 4 * 16 + ?y div 16) mod 16 * 16 + (?y mod 16 * 4 + ?z div 64) div 4 = ?y"
    "(?y mod 16 * 4 + ?z div 64) mod 4 * 64 + ?z mod 64 = ?z"
    using sextets(1) [of b] sextets(2) [of c] by simp_all
  with r 4 show ?case by (simp add: Let_def b64_val_char b64_char_not_pad)
qed simp

section \<open>Outbound payments\<close>

lemma txIdOf_idemKey: "CHR '':'' \<notin> set i \<Longrightarrow> txIdOf (idemKey i ph) = i"
  unfolding txIdOf_def idemKey_def by (subst takeWhile_append2) auto

lemma live_payment_some: "live_payment out = Inr (Some s) \<longleftrightarrow> (\<exists>a. out = Spent s a)"
  by (cases out) (auto simp: live_payment_def)

lemma toMinor_amount_arg: "toMinor (amount_arg amount) = Inr n \<longleftrightarrow> amount = Some n \<and> 0 \<le> n \<and> n \<le> max_safe_integer"
  by (cases amount) (auto simp: amount_arg_def)

text \<open>
  A settlement that claims to be live is accounted for. When settling in reports the status
  settled, an enabled guard and a signer were wired, the amount was given, its key was unpaid
  before, and the outbound ledger holds exactly that amount under the key afterwards.\<close>

theorem live_settlement_recorded:
  assumes "x402_settleIn cfg guard signer amount unit payer key w = (Inr r, w')" "sr_status r = ''settled''" "rows_ok (xw_store w)"
  shows "\<exists>g n e sign. guard = Some g \<and> signer = Some sign \<and> g_enabled (gw_config g) \<and> amount = Some n \<and> 0 \<le> n \<and>
    outboundGet key (xw_store w) = None \<and> outboundGet key (xw_store w') = Some e \<and> ob_amount e = int_to_string n"
proof -
  from assms(1,2) obtain sg w1 where gs: "guarded_spend cfg guard signer amount key w = (Inr (Some sg), w1)"
    and w': "xw_store w' = xw_store w1"
    by (auto simp: x402_settleIn_def bindM_def modifyM_def returnM_def Let_def split: prod.splits sum.splits option.splits if_splits)
  from gs obtain g where g: "guard = Some g" by (cases guard) (auto simp: guarded_spend_def)
  obtain out n b where sp: "spend (gw_config g) (gw_reader g) (gw_now1 g) (gw_now2 g) (amount_arg amount) key (sign_fn cfg signer amount key)
      (xw_net w, xw_store w) = (out, (n, b))" by (metis prod.exhaust)
  from gs g sp obtain a where out: "out = Inr (Spent sg a)" and b: "xw_store w1 = b"
    by (cases out) (auto simp: guarded_spend_def live_payment_some)
  from sp assms(3) show ?thesis
  proof (cases rule: spend_cases)
    case same
    with out show ?thesis by blast
  next
    case (paid amt s)
    have "signer \<noteq> None" using paid(2) by (cases signer) (auto simp: sign_fn_def throwM_def)
    with paid g b w' toMinor_amount_arg [of amount amt] show ?thesis
      by (auto simp: outboundGet_def map_of_snoc simp del: map_of_append)
  qed
qed

text \<open>
  With the kill switch off, settling in calls no signer and no network and writes no ledger
  row, whatever amount and key it is asked to settle.\<close>

theorem kill_switch_blocks:
  assumes "guard = Some g" "\<not> g_enabled (gw_config g)"
  shows "xw_net (snd (x402_settleIn cfg guard signer amount unit payer key w)) = xw_net w \<and>
    xw_store (snd (x402_settleIn cfg guard signer amount unit payer key w)) = xw_store w"
proof -
  have auth: "authorize (gw_config g) r now a key (xw_store w) = Inr d \<Longrightarrow> deduped d \<or> dryRun d" for r now a d
    using assms(2) by (auto simp: authorize_def bindR_Inr_iff split: option.splits)
  have "snd (spend (gw_config g) r n1 n2 a key f (xw_net w, xw_store w)) = (xw_net w, xw_store w)" for r n1 n2 a and f :: "(_, string option \<times> json) em"
    using auth by (cases "authorize (gw_config g) r n1 a key (xw_store w)") (auto simp: spend_def)
  then have "xw_net (snd (guarded_spend cfg guard signer amount key w)) = xw_net w \<and>
      xw_store (snd (guarded_spend cfg guard signer amount key w)) = xw_store w"
    unfolding guarded_spend_def assms(1) by (auto split: prod.splits sum.splits) (metis prod.inject snd_conv)+
  then show ?thesis
    by (auto simp: x402_settleIn_def bindM_def modifyM_def returnM_def Let_def split: prod.splits sum.splits)
qed

section \<open>Inbound payments\<close>

lemma bigint_int_to_string [simp]: "bigint (int_to_string n) = Some n"
proof (cases "n < 0")
  case True
  then show ?thesis using nat_to_string_digits minus_not_digit by (simp add: bigint_def int_to_string_def)
next
  case False
  then show ?thesis using nat_to_string_digits by (simp add: bigint_def int_to_string_def)
qed

lemma amt_bigint_text [simp]: "bigint (amt_text a) = amt_bigint a"
  by (cases a) simp_all

lemma inbound_settled:
  assumes "inbound_verify cfg verifier header price resource n = (Inr (Settled a tx payer), n')"
  shows "truthy header \<and> verifier \<noteq> None \<and> (\<exists>x. amt_bigint a = Some x \<and> price \<le> x)"
  using assms by (auto simp: inbound_verify_def split: if_splits option.splits prod.splits sum.splits inbound.splits)

lemma cdp_settled:
  assumes "cdp_verify fc decode asset header price resource payTo network n = (Inr (Settled a tx payer), n')"
  shows "\<exists>payload v n1 s. decode header = Some payload \<and>
    fc_verify fc payload \<lparr>rq_payTo = payTo, rq_maxAmountRequired = int_to_string price, rq_asset = asset, rq_net = network, rq_resource = resource\<rparr> n = (Inr (Some v), n1) \<and> vr_valid v \<and>
    fc_settle fc payload \<lparr>rq_payTo = payTo, rq_maxAmountRequired = int_to_string price, rq_asset = asset, rq_net = network, rq_resource = resource\<rparr> n1 = (Inr (Some s), n') \<and> sp_ok s \<and>
    (\<forall>x. amt_bigint a = Some x \<longrightarrow> price \<le> x)"
  using assms by (auto simp: cdp_verify_def Let_def split: option.splits prod.splits sum.splits if_splits)

lemma cdp_never_throws: "\<exists>r n'. cdp_verify fc decode asset header price resource payTo network n = (Inr r, n')"
  by (auto simp: cdp_verify_def Let_def split: option.splits prod.splits sum.splits if_splits)

section \<open>Properties\<close>


text \<open>
  Retrying a payment cannot pay twice on chain: two authorizations signed for the same request
  at different times carry the same nonce, payee and value, so the token contract accepts one.\<close>

theorem authorization_replay_safe:
  assumes "eip3009_authorization keccak wallet t1 r = Inr a" "eip3009_authorization keccak wallet t2 r = Inr b"
  shows "au_nonce a = au_nonce b \<and> au_to a = au_to b \<and> au_value a = au_value b \<and> au_from a = au_from b"
  using assms by (auto simp: eip3009_authorization_def split: if_splits option.splits)

abbreviation sample_guard :: "bool \<Rightarrow> guard_wiring" where
  "sample_guard on \<equiv> \<lparr>gw_config = \<lparr>g_enabled = on, g_caps = \<lparr>maxPerTx = Some 100, maxPerHour = None, maxPerDay = None, walletFloor = None\<rparr>\<rparr>,
     gw_reader = None, gw_now1 = 5, gw_now2 = 6\<rparr>"

abbreviation sample_world :: "(nat, nat, nat, nat, nat) xworld" where
  "sample_world \<equiv> \<lparr>xw_net = 0, xw_payments = [], xw_store = createMemoryBacking\<rparr>"

abbreviation sample_signer :: "(sign_request \<Rightarrow> (nat, string option \<times> json) em) option" where
  "sample_signer \<equiv> Some (\<lambda>_ n. (Inr (Some ''ref'', JNull), n + 1))"

lemma sample_settle:
  "\<exists>r w'. x402_settleIn (getX402Config None None) (Some (sample_guard True)) sample_signer (Some 60) (Some ''USDC'') ''alice'' ''t:SETTLE_IN'' sample_world = (Inr r, w') \<and>
     sr_status r = ''settled''"
  by (simp add: x402_settleIn_def guarded_spend_def spend_def authorize_def outboundGet_def createMemoryBacking_def or_else_def rolling_check_def
      floor_check_def commit_def outboundAdd_def insert_if_absent_def sign_fn_def bindM_def returnM_def modifyM_def amount_arg_def
      max_safe_integer_def live_payment_def Let_def)

theorem live_settlement_recorded_witness:
  "\<exists>w' e. snd (x402_settleIn (getX402Config None None) (Some (sample_guard True)) sample_signer (Some 60) (Some ''USDC'') ''alice'' ''t:SETTLE_IN'' sample_world) = w' \<and>
     outboundGet ''t:SETTLE_IN'' (xw_store w') = Some e \<and> ob_amount e = int_to_string 60"
proof -
  obtain r w' where s: "x402_settleIn (getX402Config None None) (Some (sample_guard True)) sample_signer (Some 60) (Some ''USDC'') ''alice'' ''t:SETTLE_IN'' sample_world = (Inr r, w')"
    "sr_status r = ''settled''" using sample_settle by blast
  have ok: "rows_ok (xw_store sample_world)" by (simp add: rows_ok_def createMemoryBacking_def)
  show ?thesis using s(1) live_settlement_recorded [OF s ok] by auto
qed

theorem kill_switch_blocks_witness:
  "xw_net (snd (x402_settleIn (getX402Config None None) (Some (sample_guard False)) sample_signer (Some 60) (Some ''USDC'') ''alice'' ''t:SETTLE_IN'' sample_world)) = 0"
  using kill_switch_blocks [OF refl, of "sample_guard False" "getX402Config None None" sample_signer "Some 60" "Some ''USDC''" "''alice''" "''t:SETTLE_IN''" sample_world]
  by simp


theorem authorization_replay_safe_witness:
  "\<exists>a b. eip3009_authorization (\<lambda>s. s) ''0xw'' 10 \<lparr>sq_payTo = Some ''0xs'', sq_amount = Some ''60'', sq_network = ''n'', sq_nonce = ''k''\<rparr> = Inr a \<and>
     eip3009_authorization (\<lambda>s. s) ''0xw'' 99 \<lparr>sq_payTo = Some ''0xs'', sq_amount = Some ''60'', sq_network = ''n'', sq_nonce = ''k''\<rparr> = Inr b \<and> au_nonce a = au_nonce b"
  (is "\<exists>a b. ?x = Inr a \<and> ?y = Inr b \<and> _ a b")
proof -
  have "\<exists>a. ?x = Inr a" "\<exists>b. ?y = Inr b" by (simp_all add: eip3009_authorization_def bigint_def is_digit_def)
  then obtain a b where ab: "?x = Inr a" "?y = Inr b" by blast
  show ?thesis using ab authorization_replay_safe [OF ab] by blast
qed

end
