(* ===== verification/Treasury.thy ===== *)
theory Treasury
  imports Durable_Store Money
begin

text \<open>
  \<^verbatim>\<open>vnext/reliability/treasury_ledger.js\<close>: one durable row per fulfilled resale. \<open>credit\<close>
  looks the row up and inserts it in two separate awaits, so other credits can run in between;
  \<open>treasury_step\<close> interleaves any number of them. The lemmas show that no loss is ever booked,
  that a transaction is credited at most once whatever the interleaving, and that the totals are
  the sums over the rows.
\<close>

record credit_request =
  cr_txId :: "string option"
  cr_amountIn :: amount
  cr_cost :: amount
  cr_unit :: "string option"
  cr_txInRef :: "string option"
  cr_payer :: "string option"

record credit_result =
  credited :: bool
  cr_deduped :: bool
  cr_spread :: string
  cr_entry :: treasury_entry

text \<open>The validation that comes before any access to the store; the clock is read later.\<close>

definition credit_validate :: "credit_request \<Rightarrow> fee_error + (int \<Rightarrow> treasury_entry)" where
  "credit_validate r =
     (if \<not> truthy (cr_txId r) then Inl CONFIG
      else if \<not> truthy (cr_unit r) then Inl CONFIG
      else bindR (toMinor (cr_amountIn r)) (\<lambda>inAmt.
           bindR (toMinor (cr_cost r)) (\<lambda>costAmt.
             let spread = inAmt - costAmt
             in if spread < 0 then Inl NEGATIVE
                else Inr (\<lambda>ts. \<lparr>tr_tx_id = the (cr_txId r), tr_amount_in = int_to_string inAmt,
                       tr_cost = int_to_string costAmt, tr_spread = int_to_string spread,
                       tr_unit = the (cr_unit r), tr_tx_in_ref = or_null (cr_txInRef r),
                       tr_payer = or_null (cr_payer r), tr_ts = ts\<rparr>))))"

definition dedup_result :: "treasury_entry \<Rightarrow> credit_result" where
  "dedup_result e = \<lparr>credited = False, cr_deduped = True, cr_spread = tr_spread e, cr_entry = e\<rparr>"

text \<open>Up to the answer of \<open>treasuryGet\<close>: a final result, or the row that will be inserted.\<close>

definition credit_check :: "credit_request \<Rightarrow> ('p, 'v, 's, 'r) backing
    \<Rightarrow> fee_error + (credit_result + (int \<Rightarrow> treasury_entry))" where
  "credit_check r b =
     bindR (credit_validate r) (\<lambda>mk.
       case treasuryGet (the (cr_txId r)) b of
         Some existing \<Rightarrow> Inr (Inl (dedup_result existing))
       | None \<Rightarrow> Inr (Inr mk))"

definition credit_insert :: "treasury_entry \<Rightarrow> ('p, 'v, 's, 'r) backing \<Rightarrow> credit_result \<times> ('p, 'v, 's, 'r) backing" where
  "credit_insert entry b =
     (let ((inserted, e), b') = treasuryAdd entry b
      in (if \<not> inserted then dedup_result e
          else \<lparr>credited = True, cr_deduped = False, cr_spread = tr_spread entry, cr_entry = entry\<rparr>, b'))"

definition credit :: "int \<Rightarrow> credit_request \<Rightarrow> ('p, 'v, 's, 'r) backing
    \<Rightarrow> (fee_error + credit_result) \<times> ('p, 'v, 's, 'r) backing" where
  "credit now r b =
     (case credit_check r b of
        Inl e \<Rightarrow> (Inl e, b)
      | Inr (Inl res) \<Rightarrow> (Inr res, b)
      | Inr (Inr mk) \<Rightarrow> (let (res, b') = credit_insert (mk now) b in (Inr res, b')))"

record treasury_totals =
  tt_unit :: "string option"
  tt_count :: nat
  tt_gross :: string
  tt_cost :: string
  tt_spread :: string

fun add_rows :: "treasury_entry list \<Rightarrow> int \<times> int \<times> int \<Rightarrow> fee_error + int \<times> int \<times> int" where
  "add_rows [] acc = Inr acc"
| "add_rows (r # rs) (gross, cost, spread) =
     bindR (toMinor (AStr (tr_amount_in r))) (\<lambda>a.
     bindR (toMinor (AStr (tr_cost r))) (\<lambda>c.
     bindR (toMinor (AStr (tr_spread r))) (\<lambda>s. add_rows rs (gross + a, cost + c, spread + s))))"

definition totals :: "string option \<Rightarrow> ('p, 'v, 's, 'r) backing \<Rightarrow> fee_error + treasury_totals" where
  "totals unit b =
     (let rows = treasuryRows unit b
      in bindR (add_rows rows (0, 0, 0)) (\<lambda>(gross, cost, spread).
           Inr \<lparr>tt_unit = or_null unit, tt_count = length rows, tt_gross = int_to_string gross,
                tt_cost = int_to_string cost, tt_spread = int_to_string spread\<rparr>))"

definition balance :: "string option \<Rightarrow> ('p, 'v, 's, 'r) backing \<Rightarrow> fee_error + string" where
  "balance unit b = bindR (totals unit b) (\<lambda>t. Inr (tt_spread t))"

section \<open>Sound rows\<close>

definition row_sound :: "treasury_entry \<Rightarrow> bool" where
  "row_sound e \<longleftrightarrow> (\<exists>a c. 0 \<le> c \<and> c \<le> a \<and> tr_amount_in e = int_to_string a \<and> tr_cost e = int_to_string c \<and>
     tr_spread e = int_to_string (a - c) \<and> tr_tx_id e \<noteq> [] \<and> tr_unit e \<noteq> [])"

definition row_in :: "treasury_entry \<Rightarrow> int" where "row_in e = string_to_int (tr_amount_in e)"
definition row_cost :: "treasury_entry \<Rightarrow> int" where "row_cost e = string_to_int (tr_cost e)"

lemma credit_validate_sound:
  assumes "credit_validate r = Inr mk"
  shows "row_sound (mk ts) \<and> cr_txId r = Some (tr_tx_id (mk ts))"
proof -
  from assms obtain a c where ac: "truthy (cr_txId r)" "truthy (cr_unit r)" "toMinor (cr_amountIn r) = Inr a"
    "toMinor (cr_cost r) = Inr c" "c \<le> a"
    and mk: "mk ts = \<lparr>tr_tx_id = the (cr_txId r), tr_amount_in = int_to_string a, tr_cost = int_to_string c,
      tr_spread = int_to_string (a - c), tr_unit = the (cr_unit r), tr_tx_in_ref = or_null (cr_txInRef r),
      tr_payer = or_null (cr_payer r), tr_ts = ts\<rparr>"
    by (auto simp: credit_validate_def bindR_Inr_iff Let_def not_less split: if_splits)
  from ac(1,2) obtain t u where "cr_txId r = Some t" "cr_unit r = Some u" "t \<noteq> []" "u \<noteq> []"
    by (auto simp: truthy_def split: option.splits)
  with ac(3-5) mk show ?thesis by (auto simp: row_sound_def)
qed

lemma row_sound_amounts:
  "row_sound e \<Longrightarrow> toMinor (AStr (tr_amount_in e)) = Inr (row_in e) \<and> toMinor (AStr (tr_cost e)) = Inr (row_cost e) \<and>
     toMinor (AStr (tr_spread e)) = Inr (row_in e - row_cost e) \<and> 0 \<le> row_cost e \<and> row_cost e \<le> row_in e"
  by (auto simp: row_sound_def row_in_def row_cost_def)

lemma add_rows_sum:
  "\<forall>e \<in> set rs. row_sound e \<Longrightarrow>
   add_rows rs (g, c, s) = Inr (g + (\<Sum>e \<leftarrow> rs. row_in e), c + (\<Sum>e \<leftarrow> rs. row_cost e),
                               s + (\<Sum>e \<leftarrow> rs. row_in e - row_cost e))"
proof (induction rs arbitrary: g c s)
  case (Cons r rs)
  then have "row_sound r" by simp
  note row_sound_amounts [OF this]
  with Cons show ?case by (simp add: algebra_simps)
qed simp

section \<open>Interleaved credits\<close>

text \<open>
  The store, the rows of the credits that have looked up and not yet inserted, and the
  transactions that were told \<open>credited: true\<close>, in order.
\<close>

record ('p, 'v, 's, 'r) treasury_state =
  ts_store :: "('p, 'v, 's, 'r) backing"
  ts_pending :: "(int \<Rightarrow> treasury_entry) list"
  ts_credited :: "string list"

inductive treasury_step :: "('p, 'v, 's, 'r) treasury_state \<Rightarrow> ('p, 'v, 's, 'r) treasury_state \<Rightarrow> bool" where
  look_up: "credit_check r (ts_store s) = Inr (Inr mk) \<Longrightarrow> treasury_step s (s\<lparr>ts_pending := mk # ts_pending s\<rparr>)"
| insert_row: "mk \<in> set (ts_pending s) \<Longrightarrow> credit_insert (mk now) (ts_store s) = (res, b') \<Longrightarrow>
    treasury_step s (s\<lparr>ts_store := b', ts_pending := remove1 mk (ts_pending s),
                       ts_credited := ts_credited s @ (if credited res then [tr_tx_id (mk now)] else [])\<rparr>)"

definition treasury_init :: "('p, 'v, 's, 'r) treasury_state \<Rightarrow> bool" where
  "treasury_init s \<longleftrightarrow> b_treasury (ts_store s) = [] \<and> ts_pending s = [] \<and> ts_credited s = []"

definition treasury_inv :: "('p, 'v, 's, 'r) treasury_state \<Rightarrow> bool" where
  "treasury_inv s \<longleftrightarrow>
     map fst (b_treasury (ts_store s)) = ts_credited s \<and> distinct (ts_credited s) \<and>
     (\<forall>(k, e) \<in> set (b_treasury (ts_store s)). row_sound e \<and> tr_tx_id e = k) \<and>
     (\<forall>mk \<in> set (ts_pending s). \<forall>ts. row_sound (mk ts))"

lemma credit_insert_cases:
  obtains (new) "treasuryGet (tr_tx_id e) b = None" "credited (fst (credit_insert e b))"
      "snd (credit_insert e b) = b\<lparr>b_treasury := b_treasury b @ [(tr_tx_id e, e)]\<rparr>"
  | (old) x where "treasuryGet (tr_tx_id e) b = Some x" "credit_insert e b = (dedup_result x, b)"
  by (cases "treasuryGet (tr_tx_id e) b")
    (auto simp: credit_insert_def treasuryAdd_def treasuryGet_def insert_if_absent_def mset_key_fresh Let_def)

lemma treasury_step_inv:
  assumes "treasury_step s s'" "treasury_inv s"
  shows "treasury_inv s'"
  using assms
proof (cases rule: treasury_step.cases)
  case (look_up r mk)
  then have "credit_validate r = Inr mk"
    by (auto simp: credit_check_def bindR_Inr_iff split: option.splits)
  then have "\<forall>ts. row_sound (mk ts)" using credit_validate_sound by blast
  with look_up(1) assms(2) show ?thesis by (auto simp: treasury_inv_def)
next
  case (insert_row mk now res b')
  have snd: "row_sound (mk now)" using insert_row(2) assms(2) by (auto simp: treasury_inv_def)
  have pend: "\<forall>m \<in> set (remove1 mk (ts_pending s)). \<forall>ts. row_sound (m ts)"
    using assms(2) by (auto simp: treasury_inv_def dest: notin_set_remove1 [rotated])
  show ?thesis
  proof (cases rule: credit_insert_cases [of "mk now" "ts_store s"])
    case new
    with insert_row(3) have b': "b_treasury b' = b_treasury (ts_store s) @ [(tr_tx_id (mk now), mk now)]" "credited res"
      by auto
    moreover have "tr_tx_id (mk now) \<notin> set (ts_credited s)"
      using new(1) assms(2) unfolding treasury_inv_def treasuryGet_def map_of_eq_None_iff by (metis set_map)
    ultimately show ?thesis using insert_row(1) assms(2) snd pend by (auto simp: treasury_inv_def)
  next
    case (old x)
    with insert_row(3) have "b' = ts_store s" "\<not> credited res" by (auto simp: dedup_result_def)
    with insert_row(1) assms(2) pend show ?thesis by (auto simp: treasury_inv_def)
  qed
qed

lemma treasury_reach_inv:
  assumes "treasury_step\<^sup>*\<^sup>* s s'" "treasury_init s"
  shows "treasury_inv s'"
  using assms by (induction rule: rtranclp_induct)
    (auto simp: treasury_init_def treasury_inv_def [of s] intro: treasury_step_inv)

text \<open>A credit that runs without interruption is a look-up followed by an insert.\<close>

lemma credit_as_steps:
  assumes "ts_pending s = []"
  shows "\<exists>s'. treasury_step\<^sup>*\<^sup>* s s' \<and> ts_store s' = snd (credit now r (ts_store s)) \<and> ts_pending s' = []"
proof (cases "credit_check r (ts_store s)")
  case (Inl e)
  then show ?thesis using assms by (intro exI [of _ s]) (simp add: credit_def)
next
  case (Inr x)
  show ?thesis
  proof (cases x)
    case (Inl res)
    with Inr assms show ?thesis by (intro exI [of _ s]) (simp add: credit_def)
  next
    case mk: (Inr mk)
    obtain res b' where ins: "credit_insert (mk now) (ts_store s) = (res, b')" by fastforce
    let ?s1 = "s\<lparr>ts_pending := [mk]\<rparr>"
    have "treasury_step s ?s1" using treasury_step.look_up [of r s mk] Inr mk assms by simp
    moreover have "treasury_step ?s1 (?s1\<lparr>ts_store := b', ts_pending := remove1 mk (ts_pending ?s1),
        ts_credited := ts_credited ?s1 @ (if credited res then [tr_tx_id (mk now)] else [])\<rparr>)"
      by (rule treasury_step.insert_row) (simp_all add: ins)
    ultimately show ?thesis using Inr mk ins
      by (intro exI [of _ "?s1\<lparr>ts_store := b', ts_pending := remove1 mk (ts_pending ?s1),
        ts_credited := ts_credited ?s1 @ (if credited res then [tr_tx_id (mk now)] else [])\<rparr>"])
        (simp add: credit_def)
  qed
qed

lemma totals_sound:
  assumes "treasury_inv s"
  shows "\<exists>t. totals unit (ts_store s) = Inr t \<and> tt_count t = length (treasuryRows unit (ts_store s)) \<and>
    string_to_int (tt_gross t) = (\<Sum>e \<leftarrow> treasuryRows unit (ts_store s). row_in e) \<and>
    string_to_int (tt_cost t) = (\<Sum>e \<leftarrow> treasuryRows unit (ts_store s). row_cost e) \<and>
    string_to_int (tt_spread t) = string_to_int (tt_gross t) - string_to_int (tt_cost t) \<and>
    0 \<le> string_to_int (tt_spread t)"
proof -
  let ?rs = "treasuryRows unit (ts_store s)"
  have ok: "\<forall>e \<in> set ?rs. row_sound e"
    using assms by (fastforce simp: treasury_inv_def treasuryRows_def)
  then have "0 \<le> (\<Sum>e \<leftarrow> ?rs. row_in e - row_cost e)"
    by (intro sum_list_nonneg) (use row_sound_amounts in fastforce)
  moreover have "(\<Sum>e \<leftarrow> ?rs. row_in e - row_cost e) = (\<Sum>e \<leftarrow> ?rs. row_in e) - (\<Sum>e \<leftarrow> ?rs. row_cost e)"
    by (rule sum_list_subtractf)
  ultimately show ?thesis using add_rows_sum [OF ok, of 0 0 0] by (simp add: totals_def Let_def)
qed

section \<open>Properties\<close>

text \<open>
  C27: revenue is booked once and adds up. Whatever number of credits is interleaved, each being a
  look-up and a later insert, no transaction has two rows, no row books a loss, and the totals the
  ledger reports are the sums over its rows, with a net revenue that is never negative.\<close>

theorem treasury_sound:
  assumes "treasury_step\<^sup>*\<^sup>* s s'" "treasury_init s"
  shows "distinct (map fst (b_treasury (ts_store s'))) \<and> map fst (b_treasury (ts_store s')) = ts_credited s' \<and>
    (\<forall>(k, e) \<in> set (b_treasury (ts_store s')). tr_tx_id e = k \<and> row_cost e \<le> row_in e) \<and>
    (\<exists>t. totals unit (ts_store s') = Inr t \<and> tt_count t = length (treasuryRows unit (ts_store s')) \<and>
       string_to_int (tt_gross t) = (\<Sum>e \<leftarrow> treasuryRows unit (ts_store s'). row_in e) \<and>
       string_to_int (tt_cost t) = (\<Sum>e \<leftarrow> treasuryRows unit (ts_store s'). row_cost e) \<and>
       string_to_int (tt_spread t) = string_to_int (tt_gross t) - string_to_int (tt_cost t) \<and> 0 \<le> string_to_int (tt_spread t))"
proof -
  have i: "treasury_inv s'" by (rule treasury_reach_inv [OF assms])
  then have "\<forall>(k, e) \<in> set (b_treasury (ts_store s')). tr_tx_id e = k \<and> row_cost e \<le> row_in e"
    using row_sound_amounts unfolding treasury_inv_def by blast
  with i show ?thesis using totals_sound [OF i, of unit] unfolding treasury_inv_def by auto
qed

theorem treasury_sound_witness:
  "\<exists>s' :: (nat, nat, nat, nat) treasury_state. length (b_treasury (ts_store s')) = 1 \<and>
     (\<exists>t. totals (Some ''USDC'') (ts_store s') = Inr t \<and> 0 \<le> string_to_int (tt_spread t))"
proof -
  let ?s = "\<lparr>ts_store = createMemoryBacking, ts_pending = [], ts_credited = []\<rparr> :: (nat, nat, nat, nat) treasury_state"
  let ?r = "\<lparr>cr_txId = Some ''t'', cr_amountIn = ABig 105, cr_cost = ABig 100, cr_unit = Some ''USDC'', cr_txInRef = None, cr_payer = None\<rparr>"
  have i: "treasury_init ?s" by (simp add: treasury_init_def createMemoryBacking_def)
  obtain s' where s': "treasury_step\<^sup>*\<^sup>* ?s s'" "ts_store s' = snd (credit 7 ?r (ts_store ?s))"
    using credit_as_steps [of ?s 7 ?r] by auto
  have "length (b_treasury (ts_store s')) = 1"
    unfolding s'(2) by (simp add: credit_def credit_check_def credit_validate_def treasuryGet_def createMemoryBacking_def
        credit_insert_def treasuryAdd_def insert_if_absent_def Let_def)
  then show ?thesis using treasury_sound [OF s'(1) i, of "Some ''USDC''"] by blast
qed

text \<open>
  A retry is not always idempotent. A transaction whose revenue is in the treasury is refused as
  a loss when the supplier's cost has risen above what was collected, although its row is there: the
  amounts are compared before the row is looked up.\<close>

theorem credit_retry_refused:
  assumes "toMinor (cr_amountIn r) = Inr a" "toMinor (cr_cost r) = Inr c" "a < c" "truthy (cr_txId r)" "truthy (cr_unit r)"
    "treasuryGet (the (cr_txId r)) b = Some e"
  shows "credit now r b = (Inl NEGATIVE, b)"
  using assms by (simp add: credit_def credit_check_def credit_validate_def Let_def)

theorem credit_retry_refused_witness:
  "\<exists>b :: (nat, nat, nat, nat) backing. treasuryGet ''t'' b \<noteq> None \<and>
     fst (credit 9 \<lparr>cr_txId = Some ''t'', cr_amountIn = ABig 105, cr_cost = ABig 110, cr_unit = Some ''USDC'', cr_txInRef = None, cr_payer = None\<rparr> b) = Inl NEGATIVE"
proof -
  let ?r = "\<lparr>cr_txId = Some ''t'', cr_amountIn = ABig 105, cr_cost = ABig 110, cr_unit = Some ''USDC'', cr_txInRef = None, cr_payer = None\<rparr>"
  let ?b = "snd (credit 7 (?r\<lparr>cr_cost := ABig 100\<rparr>) createMemoryBacking) :: (nat, nat, nat, nat) backing"
  have "treasuryGet ''t'' ?b \<noteq> None"
    by (simp add: credit_def credit_check_def credit_validate_def treasuryGet_def createMemoryBacking_def
        credit_insert_def treasuryAdd_def insert_if_absent_def Let_def)
  then obtain e where e: "treasuryGet ''t'' ?b = Some e" by blast
  have "credit 9 ?r ?b = (Inl NEGATIVE, ?b)" by (rule credit_retry_refused [of _ 105 110]) (use e in simp_all)
  with e show ?thesis by (intro exI [of _ ?b]) simp
qed

end
