(* ===== verification/Withdrawal.thy ===== *)
theory Withdrawal
  imports Durable_Store Money
begin

text \<open>
  \<^verbatim>\<open>vnext/adapters/x402/withdrawal.js\<close>: moving collected funds to the operator's fixed
  address. A withdrawal claims its idempotency row before it transfers and records a second row
  afterwards; other withdrawals can run between the two. The lemmas show that, whatever the
  interleaving, there is exactly one transfer begun per claimed row, to the configured
  destination and never above the cap. The transfer of the token contract is a parameter.
\<close>

record withdraw_config =
  wc_dest :: string
  wc_cap :: "int option"

record withdraw_result =
  wr_ok :: bool
  wr_deduped :: bool
  wr_status :: string
  wr_reason :: "string option"
  wr_amount :: string
  wr_dest :: string
  wr_ref :: "string option"

definition make_withdrawal :: "string option \<Rightarrow> amount option \<Rightarrow> string + withdraw_config" where
  "make_withdrawal dest cap =
     (if \<not> truthy dest then Inl ''Withdrawal requires a fixed destination address''
      else case cap of
        None \<Rightarrow> Inr \<lparr>wc_dest = the dest, wc_cap = None\<rparr>
      | Some v \<Rightarrow> bindR (throw_fee (toMinor v)) (\<lambda>c. Inr \<lparr>wc_dest = the dest, wc_cap = Some c\<rparr>))"

definition withdraw_key :: "string \<Rightarrow> string" where
  "withdraw_key idempotencyKey = ''withdraw:'' @ idempotencyKey"

text \<open>
  Up to the answer of the claiming \<open>withdrawalAdd\<close>: a final result, or the amount to transfer.
\<close>

definition withdraw_claim :: "withdraw_config \<Rightarrow> int \<Rightarrow> amount \<Rightarrow> string option \<Rightarrow> ('p, 'v, 's, 'r) backing
    \<Rightarrow> (fee_error + (withdraw_result + int)) \<times> ('p, 'v, 's, 'r) backing" where
  "withdraw_claim cfg now amount idempotencyKey b =
     (if \<not> truthy idempotencyKey then (Inl CONFIG, b)
      else case toMinor amount of
        Inl e \<Rightarrow> (Inl e, b)
      | Inr amt \<Rightarrow>
          if amt \<le> 0 then (Inl CONFIG, b)
          else if (case wc_cap cfg of None \<Rightarrow> False | Some c \<Rightarrow> amt > c) then
            (Inr (Inl \<lparr>wr_ok = False, wr_deduped = False, wr_status = ''blocked'',
               wr_reason = Some ''per_withdrawal_cap'', wr_amount = int_to_string amt,
               wr_dest = wc_dest cfg, wr_ref = None\<rparr>), b)
          else
            (let ((inserted, e), b') = withdrawalAdd
                   \<lparr>wd_idem_key = withdraw_key (the idempotencyKey), wd_amount = int_to_string amt,
                    wd_dest = wc_dest cfg, wd_ref = None, wd_status = ''pending'', wd_ts = now\<rparr> b
             in if \<not> inserted then
                  (Inr (Inl \<lparr>wr_ok = (wd_status e = ''sent''), wr_deduped = True, wr_status = wd_status e,
                     wr_reason = None, wr_amount = wd_amount e, wr_dest = wd_dest e,
                     wr_ref = or_null (wd_ref e)\<rparr>), b')
                else (Inr (Inr amt), b')))"

text \<open>
  After the transfer, which threw or gave the hash of the receipt (if there is one).
\<close>

definition withdraw_finish :: "withdraw_config \<Rightarrow> int \<Rightarrow> string \<Rightarrow> int \<Rightarrow> string + string option
    \<Rightarrow> ('p, 'v, 's, 'r) backing \<Rightarrow> withdraw_result \<times> ('p, 'v, 's, 'r) backing" where
  "withdraw_finish cfg now idempotencyKey amt outcome b =
     (case outcome of
        Inl e \<Rightarrow> (\<lparr>wr_ok = False, wr_deduped = False, wr_status = ''error'', wr_reason = Some e,
                   wr_amount = int_to_string amt, wr_dest = wc_dest cfg, wr_ref = None\<rparr>, b)
      | Inr ref \<Rightarrow>
          (\<lparr>wr_ok = True, wr_deduped = False, wr_status = ''sent'', wr_reason = None,
            wr_amount = int_to_string amt, wr_dest = wc_dest cfg, wr_ref = ref\<rparr>,
           snd (withdrawalAdd \<lparr>wd_idem_key = withdraw_key idempotencyKey @ '':sent'',
             wd_amount = int_to_string amt, wd_dest = wc_dest cfg, wd_ref = ref, wd_status = ''sent'',
             wd_ts = now\<rparr> b)))"

text \<open>The whole call, with the token's \<open>transfer(dest, amt)\<close> acting on the outside world.\<close>

definition withdraw :: "withdraw_config \<Rightarrow> int \<Rightarrow> int \<Rightarrow> (string \<Rightarrow> int \<Rightarrow> ('w, string option) em)
    \<Rightarrow> amount \<Rightarrow> string option \<Rightarrow> 'w \<times> ('p, 'v, 's, 'r) backing
    \<Rightarrow> (fee_error + withdraw_result) \<times> 'w \<times> ('p, 'v, 's, 'r) backing" where
  "withdraw cfg now1 now2 transfer amount idempotencyKey wb =
     (case withdraw_claim cfg now1 amount idempotencyKey (snd wb) of
        (Inl e, b') \<Rightarrow> (Inl e, fst wb, b')
      | (Inr (Inl res), b') \<Rightarrow> (Inr res, fst wb, b')
      | (Inr (Inr amt), b') \<Rightarrow>
          (let (outcome, w') = transfer (wc_dest cfg) amt (fst wb);
               (res, b'') = withdraw_finish cfg now2 (the idempotencyKey) amt outcome b'
           in (Inr res, w', b'')))"

section \<open>Interleaved withdrawals\<close>

text \<open>
  The store, the claims whose transfer has begun and not finished, and every call of \<open>transfer\<close>
  so far in the order of the claims.
\<close>

record ('p, 'v, 's, 'r) withdraw_state =
  ws_store :: "('p, 'v, 's, 'r) backing"
  ws_flight :: "(string \<times> int) list"
  ws_calls :: "(string \<times> string \<times> int) list"

inductive withdraw_step :: "withdraw_config \<Rightarrow> ('p, 'v, 's, 'r) withdraw_state \<Rightarrow> ('p, 'v, 's, 'r) withdraw_state \<Rightarrow> bool"
  for cfg where
  refuse: "withdraw_claim cfg now amount k (ws_store s) = (Inl e, b') \<Longrightarrow>
    withdraw_step cfg s (s\<lparr>ws_store := b'\<rparr>)"
| answer: "withdraw_claim cfg now amount k (ws_store s) = (Inr (Inl res), b') \<Longrightarrow>
    withdraw_step cfg s (s\<lparr>ws_store := b'\<rparr>)"
| begin_transfer: "withdraw_claim cfg now amount k (ws_store s) = (Inr (Inr amt), b') \<Longrightarrow>
    withdraw_step cfg s (s\<lparr>ws_store := b', ws_flight := (the k, amt) # ws_flight s,
                           ws_calls := ws_calls s @ [(withdraw_key (the k), wc_dest cfg, amt)]\<rparr>)"
| finish: "(k, amt) \<in> set (ws_flight s) \<Longrightarrow> withdraw_finish cfg now k amt outcome (ws_store s) = (res, b') \<Longrightarrow>
    withdraw_step cfg s (s\<lparr>ws_store := b', ws_flight := remove1 (k, amt) (ws_flight s)\<rparr>)"

definition withdraw_init :: "('p, 'v, 's, 'r) withdraw_state \<Rightarrow> bool" where
  "withdraw_init s \<longleftrightarrow> b_withdrawal (ws_store s) = [] \<and> ws_flight s = [] \<and> ws_calls s = []"

definition claim_rows :: "('p, 'v, 's, 'r) backing \<Rightarrow> (string \<times> withdrawal_entry) list" where
  "claim_rows b = filter (\<lambda>p. wd_status (snd p) = ''pending'') (b_withdrawal b)"

definition withdraw_inv :: "withdraw_config \<Rightarrow> ('p, 'v, 's, 'r) withdraw_state \<Rightarrow> bool" where
  "withdraw_inv cfg s \<longleftrightarrow>
     mwf (b_withdrawal (ws_store s)) \<and>
     map (\<lambda>p. (fst p, wd_dest (snd p), string_to_int (wd_amount (snd p)))) (claim_rows (ws_store s)) = ws_calls s \<and>
     (\<forall>(k, d, a) \<in> set (ws_calls s). d = wc_dest cfg \<and> 0 < a \<and> (\<forall>c. wc_cap cfg = Some c \<longrightarrow> a \<le> c)) \<and>
     (\<forall>p \<in> set (b_withdrawal (ws_store s)). wd_idem_key (snd p) = fst p)"

lemma withdrawalAdd_new:
  "withdrawalGet (wd_idem_key e) b = None \<Longrightarrow>
   withdrawalAdd e b = ((True, e), b\<lparr>b_withdrawal := b_withdrawal b @ [(wd_idem_key e, e)]\<rparr>)"
  by (simp add: withdrawalAdd_def withdrawalGet_def insert_if_absent_def mset_key_fresh)

lemma withdraw_claim_cases:
  assumes "withdraw_claim cfg now amount k b = (r, b')"
  obtains (none) "b' = b" "\<And>a. r \<noteq> Inr (Inr a)"
  | (claimed) amt where "r = Inr (Inr amt)" "toMinor amount = Inr amt" "0 < amt"
    "\<And>c. wc_cap cfg = Some c \<Longrightarrow> amt \<le> c" "truthy k"
    "withdrawalGet (withdraw_key (the k)) b = None"
    "b' = b\<lparr>b_withdrawal := b_withdrawal b @ [(withdraw_key (the k),
       \<lparr>wd_idem_key = withdraw_key (the k), wd_amount = int_to_string amt, wd_dest = wc_dest cfg,
        wd_ref = None, wd_status = ''pending'', wd_ts = now\<rparr>)]\<rparr>"
proof (cases "\<exists>amt. truthy k \<and> toMinor amount = Inr amt \<and> 0 < amt \<and>
    (case wc_cap cfg of None \<Rightarrow> True | Some c \<Rightarrow> amt \<le> c)")
  case False
  then have "b' = b \<and> (\<forall>a. r \<noteq> Inr (Inr a))"
    using assms by (auto simp: withdraw_claim_def split: if_splits sum.splits option.splits)
  then show thesis using none by blast
next
  case True
  then obtain amt where amt: "truthy k" "toMinor amount = Inr amt" "0 < amt"
    and cap: "case wc_cap cfg of None \<Rightarrow> True | Some c \<Rightarrow> amt \<le> c" by blast
  from cap have cap': "\<And>c. wc_cap cfg = Some c \<Longrightarrow> amt \<le> c" by simp
  from cap have nb: "\<not> (case wc_cap cfg of None \<Rightarrow> False | Some c \<Rightarrow> amt > c)" by (auto split: option.splits)
  let ?e = "\<lparr>wd_idem_key = withdraw_key (the k), wd_amount = int_to_string amt, wd_dest = wc_dest cfg,
        wd_ref = None, wd_status = ''pending'', wd_ts = now\<rparr>"
  show thesis
  proof (cases "withdrawalGet (withdraw_key (the k)) b")
    case None
    then have "r = Inr (Inr amt)" "b' = b\<lparr>b_withdrawal := b_withdrawal b @ [(withdraw_key (the k), ?e)]\<rparr>"
      using assms amt nb withdrawalAdd_new [of ?e b] by (auto simp: withdraw_claim_def)
    with amt cap' None show thesis by (intro claimed) auto
  next
    case (Some x)
    then have "withdrawalAdd ?e b = ((False, x), b)"
      by (simp add: mem_withdrawal.add_present)
    with assms amt nb have "b' = b \<and> (\<forall>a. r \<noteq> Inr (Inr a))" by (auto simp: withdraw_claim_def)
    then show thesis using none by blast
  qed
qed

lemma withdraw_finish_rows:
  assumes "withdraw_finish cfg now k amt outcome b = (res, b')"
  shows "b' = b \<or> (\<exists>e. wd_status e = ''sent'' \<and> withdrawalGet (wd_idem_key e) b = None \<and>
    b' = b\<lparr>b_withdrawal := b_withdrawal b @ [(wd_idem_key e, e)]\<rparr>)"
proof (cases outcome)
  case (Inr ref)
  let ?e = "\<lparr>wd_idem_key = withdraw_key k @ '':sent'', wd_amount = int_to_string amt, wd_dest = wc_dest cfg,
    wd_ref = ref, wd_status = ''sent'', wd_ts = now\<rparr>"
  have b': "b' = snd (withdrawalAdd ?e b)" using assms Inr by (simp add: withdraw_finish_def)
  show ?thesis
  proof (cases "withdrawalGet (wd_idem_key ?e) b")
    case None
    then show ?thesis using b' withdrawalAdd_new [OF None] by (intro disjI2 exI [of _ ?e]) simp
  next
    case (Some x)
    then show ?thesis using b' mem_withdrawal.add_present [OF Some] by simp
  qed
qed (use assms in \<open>simp add: withdraw_finish_def\<close>)

lemma withdraw_inv_sent:
  assumes "withdraw_inv cfg s" "wd_status e = ''sent''" "withdrawalGet (wd_idem_key e) (ws_store s) = None"
  shows "withdraw_inv cfg (s\<lparr>ws_store := ws_store s\<lparr>b_withdrawal := b_withdrawal (ws_store s) @ [(wd_idem_key e, e)]\<rparr>, ws_flight := fl\<rparr>)"
  using assms by (auto simp: withdraw_inv_def claim_rows_def withdrawalGet_def map_of_eq_None_iff)

lemma withdraw_step_inv:
  assumes "withdraw_step cfg s s'" "withdraw_inv cfg s"
  shows "withdraw_inv cfg s'"
  using assms
proof (cases rule: withdraw_step.cases)
  case (refuse now amount k e b')
  then have "b' = ws_store s" by (auto elim: withdraw_claim_cases)
  with refuse assms(2) show ?thesis by simp
next
  case (answer now amount k res b')
  then have "b' = ws_store s" by (auto elim: withdraw_claim_cases)
  with answer assms(2) show ?thesis by simp
next
  case (begin_transfer now amount k amt b')
  from begin_transfer(2) show ?thesis
  proof (cases rule: withdraw_claim_cases)
    case (claimed amt')
    then show ?thesis using begin_transfer(1) assms(2)
      by (auto simp: withdraw_inv_def claim_rows_def withdrawalGet_def map_of_eq_None_iff)
  qed blast
next
  case (finish k amt now outcome res b')
  from withdraw_finish_rows [OF finish(3)] show ?thesis
  proof
    assume "b' = ws_store s"
    with finish(1) assms(2) show ?thesis by (simp add: withdraw_inv_def)
  next
    assume "\<exists>e. wd_status e = ''sent'' \<and> withdrawalGet (wd_idem_key e) (ws_store s) = None \<and>
      b' = ws_store s\<lparr>b_withdrawal := b_withdrawal (ws_store s) @ [(wd_idem_key e, e)]\<rparr>"
    then show ?thesis using finish(1) withdraw_inv_sent [OF assms(2)] by auto
  qed
qed

lemma withdraw_reach_inv:
  assumes "(withdraw_step cfg)\<^sup>*\<^sup>* s s'" "withdraw_init s"
  shows "withdraw_inv cfg s'"
  using assms by (induction rule: rtranclp_induct)
    (auto simp: withdraw_init_def withdraw_inv_def [of cfg s] claim_rows_def intro: withdraw_step_inv)

lemma withdraw_inv_distinct_keys: "withdraw_inv cfg s \<Longrightarrow> distinct (map fst (ws_calls s))"
proof -
  assume inv: "withdraw_inv cfg s"
  then have "map fst (ws_calls s) = map fst (claim_rows (ws_store s))"
    by (auto simp: withdraw_inv_def comp_def dest!: arg_cong [where f = "map fst"])
  with inv show ?thesis by (auto simp: withdraw_inv_def claim_rows_def distinct_map_filter)
qed

section \<open>Properties\<close>

text \<open>
  C28: payouts leave once. Whatever withdrawals are interleaved, each claiming its row before it
  transfers, there is one transfer begun per idempotency key, always to the configured address and
  never above the cap.\<close>

theorem withdrawal_once:
  assumes "(withdraw_step cfg)\<^sup>*\<^sup>* s s'" "withdraw_init s"
  shows "distinct (map fst (ws_calls s')) \<and>
    (\<forall>(k, dest, amt) \<in> set (ws_calls s'). dest = wc_dest cfg \<and> 0 < amt \<and> (\<forall>c. wc_cap cfg = Some c \<longrightarrow> amt \<le> c))"
  using withdraw_reach_inv [OF assms] withdraw_inv_distinct_keys unfolding withdraw_inv_def by blast

theorem withdrawal_once_witness:
  "\<exists>s' :: (nat, nat, nat, nat) withdraw_state. ws_calls s' = [(''withdraw:k'', ''0xcold'', 40)] \<and> distinct (map fst (ws_calls s'))"
proof -
  let ?cfg = "\<lparr>wc_dest = ''0xcold'', wc_cap = Some 50\<rparr>"
  let ?s = "\<lparr>ws_store = createMemoryBacking, ws_flight = [], ws_calls = []\<rparr> :: (nat, nat, nat, nat) withdraw_state"
  have c: "withdraw_claim ?cfg 3 (ABig 40) (Some ''k'') (ws_store ?s) = (Inr (Inr 40), snd (withdraw_claim ?cfg 3 (ABig 40) (Some ''k'') (ws_store ?s)))"
    by (simp add: withdraw_claim_def withdrawalAdd_def insert_if_absent_def createMemoryBacking_def Let_def)
  let ?t = "?s\<lparr>ws_store := snd (withdraw_claim ?cfg 3 (ABig 40) (Some ''k'') (ws_store ?s)), ws_flight := (the (Some ''k''), 40) # ws_flight ?s,
    ws_calls := ws_calls ?s @ [(withdraw_key (the (Some ''k'')), wc_dest ?cfg, 40)]\<rparr>"
  have st: "(withdraw_step ?cfg)\<^sup>*\<^sup>* ?s ?t" by (rule r_into_rtranclp) (rule withdraw_step.begin_transfer [OF c])
  have i: "withdraw_init ?s" by (simp add: withdraw_init_def createMemoryBacking_def)
  show ?thesis using withdrawal_once [OF st i] by (intro exI [of _ ?t]) (simp add: withdraw_key_def)
qed

end
