(* ===== verification/Kernel_Router.thy ===== *)
theory Kernel_Router
  imports Reliability X402_Adapters Treasury Withdrawal
begin

text \<open>
  \<^verbatim>\<open>vnext/http/kernel_router.js\<close>: the HTTP surface of the durable kernel. Each handler is a
  function of the request and of the state the process and its store are in, and gives the reply
  with the state left behind. The environment, the parser of the configured allowlist, the
  network and the facilitator are arguments; the admin check runs before the handlers and is not
  modelled. The lemmas show that the public resale route delivers nothing before the revenue is
  in the treasury, that it asks for the price it will book, and that neither a missing payment
  nor a refused one starts the kernel.
\<close>

section \<open>Configuration\<close>

text \<open>\<open>BigInt(bps)\<close> of a number throws unless it is an integer.\<close>

definition resalePrice :: "string \<Rightarrow> jsnum \<Rightarrow> string + int \<times> int" where
  "resalePrice cost bps =
     (case bigint cost of
        None \<Rightarrow> Inl ''SyntaxError''
      | Some c \<Rightarrow>
          (case bps of
             Fin q \<Rightarrow> if isInteger bps then (let spread = big_div (c * \<lfloor>q\<rfloor>) 10000 in Inr (c + spread, spread))
                      else Inl ''RangeError''
           | _ \<Rightarrow> Inl ''RangeError''))"

text \<open>\<open>Number(text)\<close> of an integer text; other texts count as no number.\<close>

definition to_number :: "string \<Rightarrow> jsnum" where
  "to_number s = (case bigint s of Some n \<Rightarrow> Fin (of_int n) | None \<Rightarrow> NaN)"

definition http_url :: "string \<Rightarrow> bool" where
  "http_url u \<longleftrightarrow> take 7 u = ''http://'' \<or> take 8 u = ''https://''"

fun resource_ok :: "json \<Rightarrow> bool" where
  "resource_ok r = (json_truthy r \<and> (case jget ''url'' r of Some (JStr u) \<Rightarrow> http_url u | _ \<Rightarrow> False))"

definition resource_of :: "nat \<times> json \<Rightarrow> x402_resource" where
  "resource_of ir = (case ir of (i, r) \<Rightarrow>
     \<lparr>re_url = coalesce (json_text (jget ''url'' r)) [],
      re_method = Some (js_string (coalesce (or_json (jget ''method'' r) None) (JStr ''GET''))),
      re_supplierId = js_string (coalesce (or_json (jget ''supplierId'' r) None) (JStr (''x402-'' @ nat_to_string i)))\<rparr>)"

text \<open>\<open>parse\<close> is \<open>JSON.parse\<close>, \<open>None\<close> where it throws. A \<open>null\<close> entry is dropped by the filter.\<close>

definition parseResources :: "(string \<Rightarrow> json option) \<Rightarrow> string option \<Rightarrow> x402_resource list" where
  "parseResources parse raw =
     (if \<not> truthy raw then []
      else case parse (the raw) of
        Some (JArr rs) \<Rightarrow> (let ok = filter resource_ok rs in map resource_of (zip [0..<length ok] ok))
      | _ \<Rightarrow> [])"

definition is_true :: "string option \<Rightarrow> bool" where
  "is_true v \<longleftrightarrow> v = Some ''true''"

definition env_cap :: "string option \<Rightarrow> amount option" where
  "env_cap v = (if truthy v then map_option AStr v else None)"

text \<open>The caps go through the constructor of the guard, which may throw.\<close>

definition buildOutboundGuard :: "(string \<Rightarrow> string option) \<Rightarrow> fee_error + guard_config" where
  "buildOutboundGuard env =
     bindR (make_caps (env_cap (env ''VNEXT_OUTBOUND_MAX_PER_TX'')) (env_cap (env ''VNEXT_OUTBOUND_MAX_PER_HOUR''))
              (env_cap (env ''VNEXT_OUTBOUND_MAX_PER_DAY'')) (env_cap (env ''VNEXT_OUTBOUND_WALLET_FLOOR''))) (\<lambda>caps.
       Inr \<lparr>g_enabled = is_true (env ''VNEXT_OUTBOUND_ENABLED''), g_caps = caps\<rparr>)"

record router_config =
  rc_enabled :: bool
  submitEnabled :: bool
  rc_resources :: "x402_resource list"
  feeBps :: jsnum

definition make_router_config :: "(string \<Rightarrow> json option) \<Rightarrow> (string \<Rightarrow> string option) \<Rightarrow> router_config" where
  "make_router_config parse env = \<lparr>
     rc_enabled = is_true (env ''VNEXT_KERNEL_ENABLED''),
     submitEnabled = is_true (env ''VNEXT_SUBMIT_ENABLED''),
     rc_resources = parseResources parse (env ''VNEXT_X402_RESOURCES''),
     feeBps = to_number (or_str (env ''VNEXT_FEE_BPS'') ''0'')\<rparr>"

definition x402Active :: "router_config \<Rightarrow> bool" where
  "x402Active cfg \<longleftrightarrow> submitEnabled cfg \<and> rc_resources cfg \<noteq> []"

section \<open>The router\<close>

text \<open>
  The results of the two workloads the router registers, and what a reply shows of them: the
  status and the reference of the payment, never the body.
\<close>

datatype work_result = Purchased purchase_result | RpcAnswer rpc_result

fun summarizeResult :: "work_result option \<Rightarrow> (int \<times> string option) option" where
  "summarizeResult None = None"
| "summarizeResult (Some (Purchased r)) = Some (pr_status r, or_null (paidWith r))"
| "summarizeResult (Some (RpcAnswer r)) = Some (rr_status r, None)"

definition result_adapter :: "('x \<Rightarrow> 'y) \<Rightarrow> ('w, 'x) adapter \<Rightarrow> ('w, 'y) adapter" where
  "result_adapter f ad = \<lparr>ad_capabilities = ad_capabilities ad, ad_discover = ad_discover ad, ad_quote = ad_quote ad,
     ad_execute = (\<lambda>req c key. bindM (ad_execute ad req c key) (\<lambda>r. returnM (f r)))\<rparr>"

text \<open>The kernel that the router boots when the resale path is active.\<close>

definition resale_kernel ::
  "router_config \<Rightarrow> x402_config \<Rightarrow> 'n http \<Rightarrow> (('n, 'p, 'v, 's, 'r) xworld, rpc_result) adapter option
   \<Rightarrow> guard_wiring option \<Rightarrow> (sign_request \<Rightarrow> ('n, string option \<times> json) em) option
   \<Rightarrow> (nat \<Rightarrow> int) \<Rightarrow> (nat \<Rightarrow> string option) \<Rightarrow> (string \<Rightarrow> string) \<Rightarrow> (work_result kpayload \<Rightarrow> json) \<Rightarrow> (decision_core \<Rightarrow> string)
   \<Rightarrow> string + (('n, 'p, 'v, 's, 'r) xworld, work_result) kernel" where
  "resale_kernel cfg xcfg fetch rpc guard signer clock fails sha pj hashCore =
     bindR (registry_register (result_adapter Purchased (purchase_adapter xcfg (rc_resources cfg) fetch)) []) (\<lambda>reg.
     bindR (case rpc of None \<Rightarrow> Inr reg | Some ad \<Rightarrow> registry_register (result_adapter RpcAnswer ad) reg) (\<lambda>reg.
     Inr \<lparr>kn_registry = reg, kn_settlement = x402_settlement xcfg guard signer, kn_fee = (\<lambda>_ _. Inl ''TypeError''),
       kn_clock = clock, kn_append_fails = fails, kn_sha = sha, kn_pj = pj, kn_decisionEngine = Some hashCore,
       kn_policy = \<lparr>pol_name = ''cheapest'', pol_weights = [(Price, 1)]\<rparr>, kn_feeEngine = Some sha,
       kn_feePolicy = \<lparr>params = \<lparr>ctype = ''bps'', camount = AOther, cbps = ANum (feeBps cfg), cpercent = [],
         captureBps = None, tiers = None\<rparr>, components = None, flatAmount = None, policy_currency = None,
         policy_receiver = None, policy_splits = None\<rparr>,
       kn_feeCurrency = Some ''USDC'', kn_feeReceiver = ''satelink-treasury'', kn_supply = None\<rparr>))"

type_synonym ('n, 'p, 'v, 's, 'r) rstate_http = "(('n, 'p, 'v, 's, 'r) xworld, work_result) kst"

record ('n, 'p, 'v, 's, 'r) router =
  ro_config :: router_config
  ro_bootErr :: "string option"
  ro_kernel :: "(('n, 'p, 'v, 's, 'r) xworld, work_result) kernel"
  ro_inbound :: inbound_config
  ro_verifier :: "(string \<Rightarrow> int \<Rightarrow> string \<Rightarrow> string \<Rightarrow> string \<Rightarrow> ('n, inbound) em) option"
  ro_withdrawal :: "withdraw_config option"
  ro_transfer :: "string \<Rightarrow> int \<Rightarrow> ('n, string option) em"
  ro_fetch :: "'n http"
  ro_sha :: "string \<Rightarrow> string"
  ro_now :: int

datatype 'a reply = Refused int string | Reply int 'a

text \<open>A disabled router answers every route alike; a failed boot too. Neither touches the state.\<close>

definition guarded :: "('n, 'p, 'v, 's, 'r) router \<Rightarrow> ('st \<Rightarrow> 'a reply \<times> 'st) \<Rightarrow> 'st \<Rightarrow> 'a reply \<times> 'st" where
  "guarded R handler s =
     (if \<not> rc_enabled (ro_config R) then (Refused 503 ''vnext kernel disabled'', s)
      else if ro_bootErr R \<noteq> None then (Refused 503 ''vnext boot failed'', s)
      else handler s)"

text \<open>A field of the parsed body of a request, where it is truthy, as text.\<close>

definition body_text :: "string \<Rightarrow> json option \<Rightarrow> string option" where
  "body_text k rb = map_option js_string (or_json (case rb of Some b \<Rightarrow> jget k b | None \<Rightarrow> None) None)"

definition on_world :: "('w, 'a) em \<Rightarrow> (('w, 'x) kst, 'a) em" where
  "on_world m s = (let (r, w) = m (ks_world s) in (r, s\<lparr>ks_world := w\<rparr>))"

definition on_store :: "(('p, 'v, 's, 'r) backing \<Rightarrow> (string + 'a) \<times> ('p, 'v, 's, 'r) backing)
    \<Rightarrow> (('n, 'p, 'v, 's, 'r) xworld, 'a) em" where
  "on_store m w = (let (r, b) = m (xw_store w) in (r, w\<lparr>xw_store := b\<rparr>))"

section \<open>The routes\<close>

record health_reply =
  hr_submit :: bool
  hr_resale :: bool
  hr_x402Resources :: nat
  hr_feeBps :: jsnum
  hr_treasury :: "treasury_totals option"
  hr_suppliers :: nat
  hr_journalEvents :: nat
  hr_chainValid :: bool

text \<open>\<open>suppliers\<close> is the durable registry's list, where there is one. A totals row that does not parse throws.\<close>

definition route_health :: "('n, 'p, 'v, 's, 'r) router \<Rightarrow> supplier list option \<Rightarrow> ('n, 'p, 'v, 's, 'r) rstate_http \<Rightarrow> health_reply reply" where
  "route_health R suppliers s = fst (guarded R (\<lambda>s.
     (case (if x402Active (ro_config R) then bindR (totals (Some ''USDC'') (xw_store (ks_world s))) (\<lambda>t. Inr (Some t)) else Inr None) of
        Inl e \<Rightarrow> Refused 500 (fee_error_name e)
      | Inr t \<Rightarrow> Reply 200 \<lparr>hr_submit = submitEnabled (ro_config R), hr_resale = x402Active (ro_config R),
          hr_x402Resources = (if x402Active (ro_config R) then length (rc_resources (ro_config R)) else 0),
          hr_feeBps = feeBps (ro_config R), hr_treasury = t,
          hr_suppliers = (case suppliers of None \<Rightarrow> 0 | Some xs \<Rightarrow> length xs),
          hr_journalEvents = length (j_events (ks_journal s)),
          hr_chainValid = verifyChain (kn_sha (ro_kernel R)) (kn_pj (ro_kernel R)) (j_events (ks_journal s))\<rparr>, s)) s)"

text \<open>\<open>Reply\<close> with \<open>None\<close> where no treasury is active.\<close>

definition route_treasury :: "('n, 'p, 'v, 's, 'r) router \<Rightarrow> string option \<Rightarrow> ('n, 'p, 'v, 's, 'r) rstate_http \<Rightarrow> treasury_totals option reply" where
  "route_treasury R unit s = fst (guarded R (\<lambda>s.
     (if \<not> x402Active (ro_config R) then Reply 200 None
      else case totals (Some (or_str unit ''USDC'')) (xw_store (ks_world s)) of
        Inl e \<Rightarrow> Refused 500 (fee_error_name e)
      | Inr t \<Rightarrow> Reply 200 (Some t), s)) s)"

text \<open>\<open>amount == null\<close> asks for null or missing only; the key must be truthy.\<close>

definition route_withdraw :: "('n, 'p, 'v, 's, 'r) router \<Rightarrow> json option \<Rightarrow> ('n, 'p, 'v, 's, 'r) rstate_http
    \<Rightarrow> withdraw_result reply \<times> ('n, 'p, 'v, 's, 'r) rstate_http" where
  "route_withdraw R rb = guarded R (\<lambda>s.
     (case ro_withdrawal R of
        None \<Rightarrow> (Refused 403 ''vnext withdrawal not configured'', s)
      | Some cfg \<Rightarrow>
          (let amount = (case rb of Some b \<Rightarrow> jget ''amount'' b | None \<Rightarrow> None); key = body_text ''idempotencyKey'' rb
           in if amount = None \<or> amount = Some JNull \<or> key = None then (Refused 400 ''amount and idempotencyKey are required'', s)
              else (let (r, n, b) = withdraw cfg (ro_now R) (ro_now R) (ro_transfer R) (AStr (js_string (the amount))) key
                          (xw_net (ks_world s), xw_store (ks_world s));
                        s' = s\<lparr>ks_world := (ks_world s)\<lparr>xw_net := n, xw_store := b\<rparr>\<rparr>
                    in case r of
                         Inl e \<Rightarrow> (Refused 500 (fee_error_name e), s')
                       | Inr out \<Rightarrow> (Reply (if wr_ok out then 200 else 422) out, s')))))"

definition submit_request :: "string \<Rightarrow> string option \<Rightarrow> string option \<Rightarrow> request" where
  "submit_request workload payer resource = \<lparr>rq_workload = workload,
     rq_query = \<lparr>q_workload = None, q_settlementMode = None, q_paymentRail = None, q_chain = None,
       q_resource = resource, q_body = None\<rparr>,
     rq_payload = None, rq_payer = payer, rq_allowWrites = False\<rparr>"

record submit_reply =
  su_ok :: bool
  su_txId :: string
  su_state :: tx_state
  su_supplier :: "string option"
  su_reason :: "string option"
  su_fee :: "(string \<times> string) option"
  su_result :: "(int \<times> string option) option"

definition submit_reply_of :: "string \<Rightarrow> work_result tx \<Rightarrow> submit_reply" where
  "submit_reply_of i tx = \<lparr>su_ok = (tx_state tx = CLOSED), su_txId = i, su_state = tx_state tx,
     su_supplier = map_option c_supplierId (tx_supplier tx), su_reason = or_null (tx_reason tx),
     su_fee = map_option (\<lambda>f. (feeAmount f, fi_currency f)) (tx_feeInstruction tx),
     su_result = summarizeResult (tx_result tx)\<rparr>"

definition route_submit :: "('n, 'p, 'v, 's, 'r) router \<Rightarrow> json option \<Rightarrow> ('n, 'p, 'v, 's, 'r) rstate_http
    \<Rightarrow> submit_reply reply \<times> ('n, 'p, 'v, 's, 'r) rstate_http" where
  "route_submit R rb = guarded R (\<lambda>s.
     (if \<not> submitEnabled (ro_config R) then (Refused 403 ''vnext submit disabled'', s)
      else case (body_text ''workload'' rb, body_text ''idempotencyKey'' rb) of
        (Some workload, Some key) \<Rightarrow>
          (let i = deriveTxId (ro_sha R) key
           in case reliable_submit (ro_kernel R) (submit_request workload (body_text ''payer'' rb) (body_text ''resource'' rb)) (Some i) s of
                (Inl e, s') \<Rightarrow> (Refused 500 e, s')
              | (Inr tx, s') \<Rightarrow> (Reply 200 (submit_reply_of i tx), s'))
      | _ \<Rightarrow> (Refused 400 ''workload and idempotencyKey are required'', s)))"

definition route_journal :: "('n, 'p, 'v, 's, 'r) router \<Rightarrow> string \<Rightarrow> ('n, 'p, 'v, 's, 'r) rstate_http \<Rightarrow> (string \<times> int) list reply" where
  "route_journal R i s = fst (guarded R (\<lambda>s. (Reply 200 (map (\<lambda>e. (ev_phase e, ev_ts e)) (read_tx i (ks_journal s))), s)) s)"

section \<open>Resale\<close>

record delivery =
  de_ok :: bool
  de_txId :: string
  de_collected :: string
  de_cost :: string
  de_revenue :: string
  de_deduped :: bool
  de_state :: tx_state
  de_reason :: "string option"
  de_result :: "(int \<times> string option) option"

datatype resell_reply = Challenged json string int string int "string option" | Delivered delivery

text \<open>The supplier's cost as the merchant's 402 states it.\<close>

definition quoted_cost :: "int \<Rightarrow> json \<Rightarrow> string + string" where
  "quoted_cost status response =
     (if status \<noteq> 402 then Inr ''0''
      else if response = JNull then Inl ''TypeError''
      else case jget ''maxAmountRequired'' (coalesce (or_json (jget ''accepts'' response) None) (JObj [])) of
        None \<Rightarrow> Inr ''0'' | Some JNull \<Rightarrow> Inr ''0'' | Some v \<Rightarrow> Inr (js_string v))"

definition resell_request :: "x402_resource \<Rightarrow> string option \<Rightarrow> request" where
  "resell_request resource payer = submit_request ''x402-purchase'' (Some (or_str payer ''caller'')) (Some (re_url resource))"

text \<open>Collecting: the row that is there already, or the verified payment of the caller.\<close>

definition resell_settle :: "('n, 'p, 'v, 's, 'r) router \<Rightarrow> x402_resource \<Rightarrow> string option \<Rightarrow> treasury_entry option \<Rightarrow> int
    \<Rightarrow> (('n, 'p, 'v, 's, 'r) rstate_http, inbound) em" where
  "resell_settle R resource header existing price =
     (case existing of
        Some e \<Rightarrow> returnM (Settled (AmtText (tr_amount_in e)) (tr_tx_in_ref e) (tr_payer e))
      | None \<Rightarrow> on_world (on_net (inbound_verify (ro_inbound R) (ro_verifier R) header price (re_url resource))))"

definition resell_credit :: "('n, 'p, 'v, 's, 'r) router \<Rightarrow> string \<Rightarrow> amt \<Rightarrow> string \<Rightarrow> string option \<Rightarrow> string option
    \<Rightarrow> (('n, 'p, 'v, 's, 'r) rstate_http, credit_result) em" where
  "resell_credit R i a cost ref payer =
     on_world (on_store (\<lambda>b. let (r, b') = credit (ro_now R) \<lparr>cr_txId = Some i, cr_amountIn = AStr (amt_text a),
        cr_cost = AStr cost, cr_unit = Some ''USDC'', cr_txInRef = ref, cr_payer = payer\<rparr> b in (throw_fee r, b')))"

definition resell_fulfil :: "('n, 'p, 'v, 's, 'r) router \<Rightarrow> x402_resource \<Rightarrow> string \<Rightarrow> amt \<Rightarrow> string \<Rightarrow> string option \<Rightarrow> credit_result
    \<Rightarrow> (('n, 'p, 'v, 's, 'r) rstate_http, resell_reply) em" where
  "resell_fulfil R resource i a cost payer c =
     bindM (reliable_submit (ro_kernel R) (resell_request resource payer) (Some i)) (\<lambda>tx.
     returnM (Delivered \<lparr>de_ok = (tx_state tx = CLOSED), de_txId = i, de_collected = amt_text a, de_cost = cost,
       de_revenue = cr_spread c, de_deduped = cr_deduped c, de_state = tx_state tx, de_reason = or_null (tx_reason tx),
       de_result = summarizeResult (tx_result tx)\<rparr>))"

definition resell_paid :: "('n, 'p, 'v, 's, 'r) router \<Rightarrow> x402_resource \<Rightarrow> string \<Rightarrow> string option
    \<Rightarrow> (('n, 'p, 'v, 's, 'r) rstate_http, resell_reply) em" where
  "resell_paid R resource i header =
     bindM (getM (\<lambda>s. treasuryGet i (xw_store (ks_world s)))) (\<lambda>existing.
     bindM (on_world (on_net (ro_fetch R (re_url resource) (or_str (re_method resource) ''GET'') None))) (\<lambda>(status, response).
     bindM (liftR (quoted_cost status response)) (\<lambda>cost.
     bindM (liftR (resalePrice cost (feeBps (ro_config R)))) (\<lambda>(price, spread).
     let ask = Challenged (challenge (ro_inbound R) price ''USDC'' (re_url resource)) i price cost spread in
     if \<not> truthy header \<and> existing = None then returnM (ask None)
     else bindM (resell_settle R resource header existing price) (\<lambda>settlement.
       case settlement of
         NotSettled reason \<Rightarrow> returnM (ask (Some reason))
       | Settled a ref payer \<Rightarrow> bindM (resell_credit R i a cost ref payer) (resell_fulfil R resource i a cost payer))))))"

definition route_resell :: "('n, 'p, 'v, 's, 'r) router \<Rightarrow> json option \<Rightarrow> string option \<Rightarrow> ('n, 'p, 'v, 's, 'r) rstate_http
    \<Rightarrow> resell_reply reply \<times> ('n, 'p, 'v, 's, 'r) rstate_http" where
  "route_resell R rb header = guarded R (\<lambda>s.
     (if \<not> x402Active (ro_config R) then (Refused 403 ''vnext resale disabled'', s)
      else case (body_text ''resourceId'' rb, body_text ''idempotencyKey'' rb) of
        (Some rid, Some key) \<Rightarrow>
          (case find (\<lambda>r. re_supplierId r = rid) (rc_resources (ro_config R)) of
             None \<Rightarrow> (Refused 404 ''unknown resourceId'', s)
           | Some resource \<Rightarrow>
               (case resell_paid R resource (deriveTxId (ro_sha R) key) header s of
                  (Inl e, s') \<Rightarrow> (Refused 500 e, s')
                | (Inr (Delivered d), s') \<Rightarrow> (Reply 200 (Delivered d), s')
                | (Inr ask, s') \<Rightarrow> (Reply 402 ask, s')))
      | _ \<Rightarrow> (Refused 400 ''resourceId and idempotencyKey are required'', s)))"

section \<open>Revenue before goods\<close>

lemma bigint_toMinor: "toMinor (AStr t) = Inr n \<Longrightarrow> bigint t = Some n"
  by (auto simp: bigint_def split: if_splits)

lemma resell_settle_new:
  assumes "resell_settle R resource header None price s = (Inr (Settled a ref payer), s')"
  shows "truthy header \<and> ro_verifier R \<noteq> None \<and> (\<exists>x. amt_bigint a = Some x \<and> price \<le> x)"
  using assms by (auto simp: resell_settle_def on_world_def on_net_def split: prod.splits dest: inbound_settled)

text \<open>Only the network part of the state changes before the credit.\<close>

definition same_but_net :: "('n, 'p, 'v, 's, 'r) rstate_http \<Rightarrow> ('n, 'p, 'v, 's, 'r) rstate_http \<Rightarrow> bool" where
  "same_but_net s t \<longleftrightarrow> (\<exists>n. t = s\<lparr>ks_world := (ks_world s)\<lparr>xw_net := n\<rparr>\<rparr>)"

lemma same_but_net_refl [simp]: "same_but_net s s"
  unfolding same_but_net_def by (rule exI [of _ "xw_net (ks_world s)"]) simp

lemma same_but_net_trans: "same_but_net s t \<Longrightarrow> same_but_net t u \<Longrightarrow> same_but_net s u"
  by (auto simp: same_but_net_def)

lemma same_but_net_store: "same_but_net s t \<Longrightarrow> xw_store (ks_world t) = xw_store (ks_world s) \<and>
    ks_journal t = ks_journal s \<and> ks_idem t = ks_idem s \<and> ks_trace t = ks_trace s"
  by (auto simp: same_but_net_def)

lemma on_net_same: "on_world (on_net m) s = (r, t) \<Longrightarrow> same_but_net s t"
  by (auto simp: on_world_def on_net_def same_but_net_def split: prod.splits)

lemma resell_settle_same: "resell_settle R resource header existing price s = (r, t) \<Longrightarrow> same_but_net s t"
  by (auto simp: resell_settle_def returnM_def split: option.splits dest: on_net_same)

lemma resell_credit_row:
  assumes "resell_credit R i a cost ref payer s = (Inr c, t)" "treasuryGet i (xw_store (ks_world s)) = existing"
  shows "\<exists>row. treasuryGet i (xw_store (ks_world t)) = Some row \<and> cr_spread c = tr_spread row \<and> cr_deduped c = (existing \<noteq> None) \<and>
    (\<forall>e. existing = Some e \<longrightarrow> row = e) \<and> (existing = None \<longrightarrow> row_sound row \<and>
       Some (row_in row) = amt_bigint a \<and> Some (row_cost row) = bigint cost) \<and>
    ks_journal t = ks_journal s \<and> ks_idem t = ks_idem s \<and> ks_trace t = ks_trace s"
proof -
  let ?r = "\<lparr>cr_txId = Some i, cr_amountIn = AStr (amt_text a), cr_cost = AStr cost, cr_unit = Some ''USDC'', cr_txInRef = ref, cr_payer = payer\<rparr>"
  let ?b = "xw_store (ks_world s)"
  from assms(1) obtain b' where cr: "credit (ro_now R) ?r ?b = (Inr c, b')" and t: "t = s\<lparr>ks_world := (ks_world s)\<lparr>xw_store := b'\<rparr>\<rparr>"
    by (auto simp: resell_credit_def on_world_def on_store_def throw_fee_def split: prod.splits sum.splits)
  from cr obtain mk where mk: "credit_validate ?r = Inr mk"
    by (auto simp: credit_def credit_check_def bindR_Inr_iff split: sum.splits option.splits)
  note snd = credit_validate_sound [OF mk, of "ro_now R"]
  have amts: "Some (row_in (mk (ro_now R))) = amt_bigint a" "Some (row_cost (mk (ro_now R))) = bigint cost"
    using mk bigint_toMinor [of "amt_text a"] bigint_toMinor [of cost]
    by (auto simp: credit_validate_def bindR_Inr_iff Let_def row_in_def row_cost_def split: if_splits)
  show ?thesis
  proof (cases existing)
    case None
    with cr mk assms(2) have ins: "credit_insert (mk (ro_now R)) ?b = (c, b')"
      by (simp add: credit_def credit_check_def split: prod.splits)
    from snd have "tr_tx_id (mk (ro_now R)) = i" by simp
    with ins None assms(2) have "c = \<lparr>credited = True, cr_deduped = False, cr_spread = tr_spread (mk (ro_now R)), cr_entry = mk (ro_now R)\<rparr>"
      "treasuryGet i b' = Some (mk (ro_now R))"
      by (auto simp: credit_insert_def treasuryAdd_def treasuryGet_def insert_if_absent_def mset_key_fresh map_of_snoc
          simp del: map_of_append split: prod.splits)
    with None snd amts t show ?thesis by simp
  next
    case (Some e)
    with cr mk assms(2) have "c = dedup_result e" "b' = ?b"
      by (simp_all add: credit_def credit_check_def)
    with Some assms(2) t show ?thesis by (simp add: dedup_result_def)
  qed
qed

lemma bindM_InrE:
  assumes "bindM m f s = (Inr y, t)"
  obtains x u where "m s = (Inr x, u)" "f x u = (Inr y, t)"
  using assms by (auto simp: bindM_def split: prod.splits sum.splits)

text \<open>What has happened when the paid part of the resale returns, up to the start of the kernel.\<close>

lemma resell_paid_cases:
  assumes "resell_paid R resource i header s = (Inr rep, s')"
  obtains (ask) c price cost spread reason where "rep = Challenged c i price cost spread reason" "same_but_net s s'"
      "resalePrice cost (feeBps (ro_config R)) = Inr (price, spread)" "treasuryGet i (xw_store (ks_world s)) = None"
  | (paid) cost price spread a ref payer c s1 s2 where
      "same_but_net s s1" "resalePrice cost (feeBps (ro_config R)) = Inr (price, spread)"
      "treasuryGet i (xw_store (ks_world s)) = None \<Longrightarrow> truthy header \<and> ro_verifier R \<noteq> None \<and> (\<exists>x. amt_bigint a = Some x \<and> price \<le> x)"
      "resell_credit R i a cost ref payer s1 = (Inr c, s2)" "resell_fulfil R resource i a cost payer c s2 = (Inr rep, s')"
proof -
  let ?ex = "treasuryGet i (xw_store (ks_world s))"
  from assms obtain status response cost price spread u where
    f: "on_world (on_net (ro_fetch R (re_url resource) (or_str (re_method resource) ''GET'') None)) s = (Inr (status, response), u)"
    and p: "resalePrice cost (feeBps (ro_config R)) = Inr (price, spread)"
    and rest: "(if \<not> truthy header \<and> ?ex = None then returnM (Challenged (challenge (ro_inbound R) price ''USDC'' (re_url resource)) i price cost spread None)
      else bindM (resell_settle R resource header ?ex price) (\<lambda>settlement. case settlement of
         NotSettled reason \<Rightarrow> returnM (Challenged (challenge (ro_inbound R) price ''USDC'' (re_url resource)) i price cost spread (Some reason))
       | Settled a ref payer \<Rightarrow> bindM (resell_credit R i a cost ref payer) (resell_fulfil R resource i a cost payer))) u = (Inr rep, s')"
    unfolding resell_paid_def Let_def by (auto elim!: bindM_InrE simp: getM_def liftR_def)
  have su: "same_but_net s u" using f by (rule on_net_same)
  show thesis
  proof (cases "\<not> truthy header \<and> ?ex = None")
    case True
    with rest su p show ?thesis using ask by (auto simp: returnM_def)
  next
    case False
    with rest obtain st v where st: "resell_settle R resource header ?ex price u = (Inr st, v)"
      and k: "(case st of NotSettled reason \<Rightarrow> returnM (Challenged (challenge (ro_inbound R) price ''USDC'' (re_url resource)) i price cost spread (Some reason))
       | Settled a ref payer \<Rightarrow> bindM (resell_credit R i a cost ref payer) (resell_fulfil R resource i a cost payer)) v = (Inr rep, s')"
      by (auto elim: bindM_InrE)
    have sv: "same_but_net s v" using su resell_settle_same [OF st] same_but_net_trans by blast
    show ?thesis
    proof (cases st)
      case (NotSettled reason)
      then have "?ex = None" using st by (cases ?ex) (auto simp: resell_settle_def returnM_def)
      with k NotSettled sv p show ?thesis using ask by (auto simp: returnM_def)
    next
      case (Settled a ref payer)
      with k obtain c w where c: "resell_credit R i a cost ref payer v = (Inr c, w)" and fu: "resell_fulfil R resource i a cost payer c w = (Inr rep, s')"
        by (auto elim: bindM_InrE)
      have "?ex = None \<Longrightarrow> truthy header \<and> ro_verifier R \<noteq> None \<and> (\<exists>x. amt_bigint a = Some x \<and> price \<le> x)"
        using st Settled resell_settle_new by metis
      from paid [OF sv p this c fu] show ?thesis .
    qed
  qed
qed

lemma route_resell_reply:
  assumes "route_resell R rb header s = (Reply st rep, s')"
  obtains resource key where "resource \<in> set (rc_resources (ro_config R))" "body_text ''idempotencyKey'' rb = Some key"
    "resell_paid R resource (deriveTxId (ro_sha R) key) header s = (Inr rep, s')"
    "st = (case rep of Delivered _ \<Rightarrow> 200 | _ \<Rightarrow> 402)"
  using assms that
  by (auto simp: route_resell_def guarded_def find_Some_iff split: if_splits option.splits prod.splits sum.splits resell_reply.splits)
    (metis in_set_conv_nth nth_mem)+

section \<open>Properties\<close>

text \<open>An example: one shop that asks for 1000 units, a spread of five per cent, and a verifier that accepts the price.\<close>

definition sample_router_config :: router_config where
  "sample_router_config = make_router_config (\<lambda>_. Some (JArr [JObj [(''url'', JStr ''https://shop''), (''supplierId'', JStr ''shop'')]]))
     (\<lambda>k. map_of [(''VNEXT_KERNEL_ENABLED'', ''true''), (''VNEXT_SUBMIT_ENABLED'', ''true''), (''VNEXT_X402_RESOURCES'', ''x''), (''VNEXT_FEE_BPS'', ''500'')] k)"

definition sample_fetch :: "nat http" where
  "sample_fetch url meth header = (\<lambda>n. (Inr (case header of None \<Rightarrow> (402, JObj [(''accepts'', JObj [(''maxAmountRequired'', JStr ''1000'')])])
      | Some _ \<Rightarrow> (200, JNull)), n + 1))"

definition sample_router :: "(nat, nat, nat, nat, nat) router" where
  "sample_router = \<lparr>ro_config = sample_router_config, ro_bootErr = None,
     ro_kernel = (projr (resale_kernel sample_router_config (getX402Config None None) sample_fetch None None None int (\<lambda>_. None) (\<lambda>s. ''h'') (\<lambda>_. JNull) (\<lambda>_. ''d'')))
       \<lparr>kn_decisionEngine := None, kn_feeEngine := None, kn_fee := fixed_fee, kn_settlement := shadow_settlement (returnM ''1'')\<rparr>,
     ro_inbound = \<lparr>ic_payTo = ''0xme'', ic_network = ''eip155:8453''\<rparr>,
     ro_verifier = Some (\<lambda>header price _ _ _ n. (Inr (Settled (AmtText (int_to_string price)) (Some ''ref'') (Some ''alice'')), n)),
     ro_withdrawal = None, ro_transfer = (\<lambda>_ _ n. (Inr None, n)), ro_fetch = sample_fetch, ro_sha = (\<lambda>s. ''0123456789abcdef0123456789abcdef''), ro_now = 7\<rparr>"

definition sample_http_state :: "(nat, nat, nat, nat, nat) rstate_http" where
  "sample_http_state = \<lparr>ks_world = sample_world, ks_idem = [], ks_journal = empty_journal,
     ks_ticks = 0, ks_appends = 0, ks_seq = 0, ks_trace = [], ks_tx = new_tx [] no_request, ks_saga = []\<rparr>"

definition sample_body :: json where
  "sample_body = JObj [(''resourceId'', JStr ''shop''), (''idempotencyKey'', JStr ''k1'')]"

lemma sample_resell:
  "case fst (route_resell sample_router (Some sample_body) (Some ''pay'') sample_http_state) of
     Reply c (Delivered d) \<Rightarrow> c = 200 \<and> de_ok d \<and> de_revenue d = ''50'' | _ \<Rightarrow> False"
  by code_simp

lemma sample_challenge:
  "case fst (route_resell sample_router (Some sample_body) None sample_http_state) of
     Reply c (Challenged _ _ price _ _ _) \<Rightarrow> c = 402 \<and> price = 1050 | _ \<Rightarrow> False"
  by code_simp

text \<open>
  C18: revenue is booked before goods are delivered. When the public resale route delivers, it picked
  an allowlisted resource, and before the kernel started, with journal and calls untouched, the
  treasury held a row for the transaction whose spread is the revenue reported. If the transaction
  had not been collected before, the caller sent a payment, a verifier is wired, the amount booked
  covers the price made of cost and spread, and the profit booked is at least the spread.\<close>

theorem revenue_before_goods:
  assumes "route_resell R rb header s = (Reply st (Delivered d), s')"
  shows "st = 200 \<and> (\<exists>resource \<in> set (rc_resources (ro_config R)). \<exists>payer s2 row tx.
    reliable_submit (ro_kernel R) (resell_request resource payer) (Some (de_txId d)) s2 = (Inr tx, s') \<and> de_state d = tx_state tx \<and>
    ks_journal s2 = ks_journal s \<and> ks_trace s2 = ks_trace s \<and>
    treasuryGet (de_txId d) (xw_store (ks_world s2)) = Some row \<and> de_revenue d = tr_spread row \<and>
    (treasuryGet (de_txId d) (xw_store (ks_world s)) = None \<longrightarrow>
       truthy header \<and> ro_verifier R \<noteq> None \<and> (\<exists>price spread. resalePrice (de_cost d) (feeBps (ro_config R)) = Inr (price, spread) \<and>
         price \<le> row_in row \<and> spread \<le> row_in row - row_cost row)))"
proof -
  obtain resource key where res: "resource \<in> set (rc_resources (ro_config R))" and st: "st = 200"
    and p: "resell_paid R resource (deriveTxId (ro_sha R) key) header s = (Inr (Delivered d), s')"
    by (rule route_resell_reply [OF assms]) auto
  let ?i = "deriveTxId (ro_sha R) key"
  from p show ?thesis
  proof (cases rule: resell_paid_cases)
    case (paid cost price spread a ref payer c s1 s2)
    from paid(5) obtain tx v where v: "reliable_submit (ro_kernel R) (resell_request resource payer) (Some ?i) s2 = (Inr tx, v)"
      and ret: "returnM (Delivered \<lparr>de_ok = (tx_state tx = CLOSED), de_txId = ?i, de_collected = amt_text a, de_cost = cost,
         de_revenue = cr_spread c, de_deduped = cr_deduped c, de_state = tx_state tx, de_reason = or_null (tx_reason tx),
         de_result = summarizeResult (tx_result tx)\<rparr>) v = (Inr (Delivered d), s')"
      unfolding resell_fulfil_def by (rule bindM_InrE)
    then have tx: "reliable_submit (ro_kernel R) (resell_request resource payer) (Some ?i) s2 = (Inr tx, s')"
      "de_state d = tx_state tx" "de_txId d = ?i" "de_revenue d = cr_spread c" "de_cost d = cost" by (auto simp: returnM_def)
    note same = same_but_net_store [OF paid(1)]
    obtain row where row: "treasuryGet ?i (xw_store (ks_world s2)) = Some row" "cr_spread c = tr_spread row"
      "treasuryGet ?i (xw_store (ks_world s1)) = None \<longrightarrow> row_sound row \<and> Some (row_in row) = amt_bigint a \<and> Some (row_cost row) = bigint cost"
      "ks_journal s2 = ks_journal s1" "ks_trace s2 = ks_trace s1"
      using resell_credit_row [OF paid(4) refl] by (elim exE conjE) (rule that; assumption)
    have new: "truthy header \<and> ro_verifier R \<noteq> None \<and> price \<le> row_in row \<and> spread \<le> row_in row - row_cost row"
      if n: "treasuryGet ?i (xw_store (ks_world s)) = None"
    proof -
      have "Some (row_in row) = amt_bigint a" "Some (row_cost row) = bigint cost" using row(3) same n by auto
      moreover have "price = row_cost row + spread" using paid(2) \<open>Some (row_cost row) = bigint cost\<close>
        by (auto simp: resalePrice_def Let_def split: option.splits jsnum.splits if_splits)
      ultimately show ?thesis using paid(3) [OF n] by auto
    qed
    have priced: "treasuryGet ?i (xw_store (ks_world s)) = None \<longrightarrow> truthy header \<and> ro_verifier R \<noteq> None \<and>
        (\<exists>price spread. resalePrice (de_cost d) (feeBps (ro_config R)) = Inr (price, spread) \<and>
           price \<le> row_in row \<and> spread \<le> row_in row - row_cost row)"
      using new paid(2) unfolding tx(5) by blast
    have kept: "ks_journal s2 = ks_journal s" "ks_trace s2 = ks_trace s" "de_revenue d = tr_spread row"
      using row(2,4,5) same tx(4) by simp_all
    show ?thesis unfolding tx(3)
      by (rule conjI [OF st], rule bexI [OF _ res], rule exI [of _ payer], rule exI [of _ s2], rule exI [of _ row], rule exI [of _ tx])
        (intro conjI tx(1,2) row(1) kept priced)
  qed simp
qed

theorem revenue_before_goods_witness:
  "\<exists>d s' row (s2 :: (nat, nat, nat, nat, nat) rstate_http). route_resell sample_router (Some sample_body) (Some ''pay'') sample_http_state = (Reply 200 (Delivered d), s') \<and>
     treasuryGet (de_txId d) (xw_store (ks_world s2)) = Some row \<and> de_revenue d = tr_spread row"
proof -
  obtain rep s' where r: "route_resell sample_router (Some sample_body) (Some ''pay'') sample_http_state = (rep, s')" by (metis prod.exhaust)
  with sample_resell obtain d where d: "rep = Reply 200 (Delivered d)" by (auto split: reply.splits resell_reply.splits)
  show ?thesis using r revenue_before_goods [OF r [unfolded d]] unfolding d by blast
qed

text \<open>
  An unpaid request gets nothing. Without a payment header, and with no earlier collection under
  the key, the resale route never delivers: it leaves the stores, the journal, the memoised phases
  and the calls of the kernel as they were, and a challenge it answers asks for the cost plus the
  spread of the configured basis points.\<close>

theorem unpaid_gets_nothing:
  assumes "route_resell R rb None s = (rep, s')" "\<forall>key. body_text ''idempotencyKey'' rb = Some key \<longrightarrow>
      treasuryGet (deriveTxId (ro_sha R) key) (xw_store (ks_world s)) = None"
  shows "ks_journal s' = ks_journal s \<and> ks_idem s' = ks_idem s \<and> ks_trace s' = ks_trace s \<and> xw_store (ks_world s') = xw_store (ks_world s) \<and>
    (\<forall>st d. rep \<noteq> Reply st (Delivered d)) \<and>
    (\<forall>st c i price cost spread reason. rep = Reply st (Challenged c i price cost spread reason) \<longrightarrow>
       st = 402 \<and> resalePrice cost (feeBps (ro_config R)) = Inr (price, spread))"
proof -
  have ask: "same_but_net s t \<and> (\<forall>d. r \<noteq> Inr (Delivered d)) \<and> (\<forall>c j price cost spread reason. r = Inr (Challenged c j price cost spread reason) \<longrightarrow>
      resalePrice cost (feeBps (ro_config R)) = Inr (price, spread))"
    if "resell_paid R resource i None s = (r, t)" "treasuryGet i (xw_store (ks_world s)) = None" for resource i r t
    using that unfolding resell_paid_def Let_def
    by (auto simp: bindM_def getM_def liftR_def returnM_def split: prod.splits sum.splits dest: on_net_same)
  have "same_but_net s s' \<and> (\<forall>st d. rep \<noteq> Reply st (Delivered d)) \<and>
    (\<forall>st c i price cost spread reason. rep = Reply st (Challenged c i price cost spread reason) \<longrightarrow>
       st = 402 \<and> resalePrice cost (feeBps (ro_config R)) = Inr (price, spread))"
    using assms unfolding route_resell_def guarded_def
    by (auto split: if_splits option.splits prod.splits sum.splits resell_reply.splits dest!: ask)
  then show ?thesis using same_but_net_store by auto
qed

theorem unpaid_gets_nothing_witness:
  "ks_trace (snd (route_resell sample_router (Some sample_body) None sample_http_state)) = []"
proof -
  have u: "\<forall>key. body_text ''idempotencyKey'' (Some sample_body) = Some key \<longrightarrow>
      treasuryGet (deriveTxId (ro_sha sample_router) key) (xw_store (ks_world sample_http_state)) = None"
    by (simp add: sample_http_state_def createMemoryBacking_def treasuryGet_def)
  obtain rep s' where r: "route_resell sample_router (Some sample_body) None sample_http_state = (rep, s')" by (metis prod.exhaust)
  show ?thesis using unpaid_gets_nothing [OF r u] r by (simp add: sample_http_state_def)
qed

text \<open>
  Only allowlisted URLs are reached. Whatever a request asks for, every candidate of the
  purchase workload carries the URL of an entry of the operator's configuration, and it is an http
  or https URL.\<close>

theorem only_allowlisted_urls:
  assumes "c \<in> set (purchase_discover (parseResources parse raw) q)"
  shows "\<exists>rs r u. parse (the raw) = Some (JArr rs) \<and> r \<in> set rs \<and> jget ''url'' r = Some (JStr u) \<and> http_url u \<and> c_url c = Some u"
proof -
  obtain x where x: "x \<in> set (parseResources parse raw)" "c_url c = Some (re_url x)"
    using assms by (auto simp: purchase_discover_def resource_candidate_def split: if_splits)
  then obtain rs where rs: "parse (the raw) = Some (JArr rs)"
    and "x \<in> resource_of ` set (zip [0..<length (filter resource_ok rs)] (filter resource_ok rs))"
    by (auto simp: parseResources_def Let_def simp del: resource_ok.simps split: if_splits option.splits json.splits)
      (metis image_eqI)
  then obtain i r where r: "(i, r) \<in> set (zip [0..<length (filter resource_ok rs)] (filter resource_ok rs))" "x = resource_of (i, r)"
    by (metis imageE prod.exhaust)
  then have "r \<in> set rs" "resource_ok r" using set_zip_rightD [OF r(1)] by auto
  then obtain u where "jget ''url'' r = Some (JStr u)" "http_url u" by (auto split: option.splits json.splits)
  with rs r x \<open>r \<in> set rs\<close> show ?thesis by (auto simp: resource_of_def)
qed

theorem only_allowlisted_urls_witness:
  "\<exists>c u. c \<in> set (purchase_discover (parseResources (\<lambda>_. Some (JArr [JObj [(''url'', JStr ''https://shop'')], JObj [(''url'', JStr ''file:///etc'')]])) (Some ''x''))
      \<lparr>q_workload = None, q_settlementMode = None, q_paymentRail = None, q_chain = None, q_resource = None, q_body = None\<rparr>) \<and> c_url c = Some u \<and> http_url u"
  (is "\<exists>c u. c \<in> set ?cs \<and> _ c u \<and> _ u")
proof -
  have "?cs \<noteq> []"
    by (simp add: purchase_discover_def parseResources_def Let_def http_url_def)
  then have c: "hd ?cs \<in> set ?cs" by simp
  show ?thesis using c only_allowlisted_urls [OF c] by blast
qed

end
