(* ===== verification/Kernel_Properties.thy ===== *)
theory Kernel_Properties
  imports Kernel_Adapters Reliability
begin

text \<open>
  What the routing kernel promises, for any adapters, settlement and outside world: every
  execution ends, a finished transaction is never run again, no side effect is repeated, payment
  comes before delivery, a failed transaction is refunded exactly once, and the journal tells the
  whole story in a verified chain. A small wiring of the kernel serves as the example on which the
  hypotheses are shown to hold.
\<close>

section \<open>An example wiring\<close>

text \<open>One supplier that asks for 5 units, under a settlement mode and a way to execute.\<close>

definition sample_adapter :: "string \<Rightarrow> (nat, nat) em \<Rightarrow> (nat, nat) adapter" where
  "sample_adapter mode run = \<lparr>
     ad_capabilities = Inr \<lparr>cap_key = Some ''work'', cap_settlementMode = Some mode, cap_executionSafety = None\<rparr>,
     ad_discover = (\<lambda>_. returnM (Some [sample_candidate ''s1'' 5])),
     ad_quote = (\<lambda>_ c. returnM \<lparr>qt_cost = Some 5, qt_unit = Some ''USDC'', qt_supplierId = Some (c_supplierId c), qt_payTo = None, qt_network = None\<rparr>),
     ad_execute = (\<lambda>_ _ _. run)\<rparr>"

definition sample_kernel :: "string \<Rightarrow> (nat, nat) em \<Rightarrow> (nat, nat) kernel" where
  "sample_kernel mode run = \<lparr>kn_registry = [(''work'', sample_adapter mode run)], kn_settlement = shadow_settlement (returnM ''1''),
     kn_fee = fixed_fee, kn_clock = int, kn_append_fails = (\<lambda>_. None), kn_sha = (\<lambda>_. ''h''), kn_pj = (\<lambda>_. JNull),
     kn_decisionEngine = None, kn_policy = \<lparr>pol_name = ''default'', pol_weights = []\<rparr>, kn_feeEngine = None,
     kn_feePolicy = \<lparr>params = \<lparr>ctype = ''zero'', camount = AOther, cbps = AOther, cpercent = [], captureBps = None, tiers = None\<rparr>,
       components = None, flatAmount = None, policy_currency = None, policy_receiver = None, policy_splits = None\<rparr>,
     kn_feeCurrency = None, kn_feeReceiver = ''satelink-treasury'', kn_supply = None\<rparr>"

definition sample_request :: request where
  "sample_request = no_request\<lparr>rq_workload := ''work'', rq_payer := Some ''alice''\<rparr>"

definition sample_state :: "(nat, nat) kst" where
  "sample_state = \<lparr>ks_world = 0, ks_idem = [], ks_journal = empty_journal, ks_ticks = 0, ks_appends = 0, ks_seq = 0,
     ks_trace = [], ks_tx = new_tx [] no_request, ks_saga = []\<rparr>"

text \<open>The world counts the deliveries.\<close>

abbreviation delivers :: "(nat, nat) em" where "delivers \<equiv> (\<lambda>n. (Inr n, n + 1))"

abbreviation breaks :: "(nat, nat) em" where "breaks \<equiv> throwM ''boom''"

lemma sample_no_faults: "no_faults (sample_kernel mode run)"
  by (simp add: no_faults_def sample_kernel_def)

lemma sample_mode: "mode_of (sample_kernel ''PRE'' run) sample_request = ''PRE''"
  by (simp add: mode_of_def sample_kernel_def sample_request_def sample_adapter_def registry_get_def or_str_def)

section \<open>Properties\<close>

text \<open>What the example does: delivering closes the transaction, breaking refunds it.\<close>

lemma sample_delivers:
  "(let r = execute (sample_kernel ''PRE'' delivers) sample_request (Some ''t'') sample_state
    in (tx_state (projr (fst r)), isOk (fst r), ks_trace (snd r), phases_of ''t'' (snd r), ks_world (snd r))) =
   (CLOSED, True, [CDiscover, CQuote ''s1'', CSettleIn (Some 5) (Some ''USDC'') ''alice'' ''t:SETTLE_IN'', CExecute ''t:EXECUTE'',
      CSettleOut (Some 5) (Some ''USDC'') ''s1'' ''t:SETTLE''],
    [''DISCOVER'', ''QUOTE'', ''ROUTE'', ''SETTLE_IN'', ''EXECUTE'', ''SETTLE'', ''CLOSED''], 1)"
  by code_simp

lemma sample_breaks:
  "(let r = execute (sample_kernel ''PRE'' breaks) sample_request (Some ''t'') sample_state
    in (tx_state (projr (fst r)), isOk (fst r), ks_trace (snd r), phases_of ''t'' (snd r))) =
   (FAILED, True, [CDiscover, CQuote ''s1'', CSettleIn (Some 5) (Some ''USDC'') ''alice'' ''t:SETTLE_IN'', CExecute ''t:EXECUTE'',
      CSettleOut (Some 5) (Some ''USDC'') ''alice'' ''t:REFUND''],
    [''DISCOVER'', ''QUOTE'', ''ROUTE'', ''SETTLE_IN'', ''COMPENSATING'', ''FAILED''])"
  by code_simp

lemma sample_run:
  obtains x t where "execute (sample_kernel ''PRE'' delivers) sample_request (Some ''t'') sample_state = (Inr x, t)" "tx_state x = CLOSED"
    "ks_trace t = [CDiscover, CQuote ''s1'', CSettleIn (Some 5) (Some ''USDC'') ''alice'' ''t:SETTLE_IN'', CExecute ''t:EXECUTE'',
      CSettleOut (Some 5) (Some ''USDC'') ''s1'' ''t:SETTLE'']" "ks_world t = 1"
proof -
  obtain r t where e: "execute (sample_kernel ''PRE'' delivers) sample_request (Some ''t'') sample_state = (r, t)" by (metis prod.exhaust)
  then obtain x where "r = Inr x" using sample_delivers by (cases r) (auto simp: Let_def)
  then show ?thesis using that e sample_delivers by (auto simp: Let_def)
qed

lemma sample_failure:
  obtains x t where "execute (sample_kernel ''PRE'' breaks) sample_request (Some ''t'') sample_state = (Inr x, t)" "tx_state x = FAILED"
    "ks_trace t = [CDiscover, CQuote ''s1'', CSettleIn (Some 5) (Some ''USDC'') ''alice'' ''t:SETTLE_IN'', CExecute ''t:EXECUTE'',
      CSettleOut (Some 5) (Some ''USDC'') ''alice'' ''t:REFUND'']"
proof -
  obtain r t where e: "execute (sample_kernel ''PRE'' breaks) sample_request (Some ''t'') sample_state = (r, t)" by (metis prod.exhaust)
  then obtain x where "r = Inr x" using sample_breaks by (cases r) (auto simp: Let_def)
  then show ?thesis using that e sample_breaks by (auto simp: Let_def)
qed

section \<open>Executions end\<close>

text \<open>
  C1: every execution ends in a terminal state. With a journal that accepts appends, and whatever
  the adapters and the settlement return or throw, executing a transaction returns it closed,
  rejected or failed; when it failed, the reason is recorded.\<close>

theorem execution_ends:
  assumes "no_faults K" "i \<noteq> []"
  shows "\<exists>x t. execute K req (Some i) s = (Inr x, t) \<and> ks_tx t = x \<and>
    (tx_state x = CLOSED \<or> tx_state x = REJECTED \<or> tx_state x = FAILED \<and> tx_reason x \<noteq> None)"
proof -
  obtain r t where e: "execute K req (Some i) s = (r, t)" by (metis prod.exhaust)
  from assms(2) e show ?thesis
  proof (cases rule: execute_cases)
    case completed
    then show ?thesis using e body_state by blast
  next
    case (compensated d u)
    then show ?thesis using e on_failure_Inr by blast
  next
    case (stuck d u c)
    then show ?thesis using on_failure_phases [OF assms(1) refl stuck(2)] by simp
  qed
qed

theorem execution_ends_witness:
  "\<exists>x t. execute (sample_kernel ''PRE'' breaks) sample_request (Some ''t'') sample_state = (Inr x, t) \<and> tx_state x \<noteq> CREATED"
  using execution_ends [OF sample_no_faults, of "''t''" "''PRE''" breaks sample_request sample_state] by auto

section \<open>Nothing happens twice\<close>

text \<open>
  C4: resubmitting a finished transaction changes nothing. Once an execution has closed or rejected
  a transaction, executing it again in any later state that still has its memoised phases gives the
  same transaction, makes no call outside the kernel and appends nothing to the journal.\<close>

theorem resubmission_is_replay:
  assumes "i \<noteq> []" "execute K req (Some i) s = (Inr x, t)" "tx_state x \<noteq> FAILED" "map_of (ks_idem t) \<subseteq>\<^sub>m map_of (ks_idem u)"
  shows "\<exists>v. execute K req (Some i) u = (Inr x, v) \<and> ks_world v = ks_world u \<and> ks_trace v = ks_trace u \<and>
    ks_journal v = ks_journal u \<and> ks_idem v = ks_idem u"
  using execute_replay [OF assms(1-3), of u] assms(4) by (simp add: remembers_def)

theorem resubmission_is_replay_witness:
  "\<exists>x t v. execute (sample_kernel ''PRE'' delivers) sample_request (Some ''t'') sample_state = (Inr x, t) \<and>
     execute (sample_kernel ''PRE'' delivers) sample_request (Some ''t'') t = (Inr x, v) \<and> ks_world v = 1"
proof -
  obtain x t where e: "execute (sample_kernel ''PRE'' delivers) sample_request (Some ''t'') sample_state = (Inr x, t)" "tx_state x = CLOSED"
    and w: "ks_world t = 1" by (rule sample_run)
  have n: "''t'' \<noteq> []" "tx_state x \<noteq> FAILED" using e(2) by simp_all
  obtain v where v: "execute (sample_kernel ''PRE'' delivers) sample_request (Some ''t'') t = (Inr x, v)" "ks_world v = ks_world t"
    using resubmission_is_replay [OF n(1) e(1) n(2) map_le_refl] by blast
  show ?thesis by (intro exI conjI, rule e(1), rule v(1)) (simp add: v(2) w)
qed

lemma execute_trace:
  assumes "no_faults K" "i \<noteq> []" "execute K req (Some i) s = (r, t)"
  obtains cs rs where "ks_trace t = ks_trace s @ cs @ rs" "\<forall>c \<in> set cs. free c s" "refunds i cs = []"
    "rs = [] \<or> (\<exists>a un p. rs = [CSettleOut a un p (idemKey i ''REFUND'')])"
proof -
  let ?s = "start_tx i req s"
  have same: "free c ?s = free c s" "tx_id (ks_tx ?s) = i" "ks_trace ?s = ks_trace s" for c by (simp_all add: free_def start_tx_def new_tx_def split: option.split)
  obtain b u where b: "body K req ?s = (b, u)" by (metis prod.exhaust)
  have "effects_once ?s (snd (body K req ?s))" by (rule once_effects.keepsD [OF once_effects.keeps_body]) (simp_all add: same(2))
  moreover have "no_refund ?s (snd (body K req ?s))" by (rule refund_free.keepsD [OF refund_free.keeps_body]) (simp_all add: same(2))
  ultimately obtain cs where cs: "ks_trace u = ks_trace s @ cs" "\<forall>c \<in> set cs. free c s" "refunds i cs = []"
    unfolding b snd_conv effects_once_def no_refund_def same by auto
  have o: "owes (map_of (ks_idem s) (idemKey i ''SETTLE_IN'') \<noteq> None) i (ks_trace s) ?s" by (auto simp: owes_def start_tx_def new_tx_def)
  from assms(2,3) show thesis
  proof (cases rule: execute_cases)
    case completed
    then show ?thesis using that [of cs "[]"] cs b by simp
  next
    case (compensated e v)
    then have tr: "ks_trace t = ks_trace u @ map comp_call (rev (ks_saga u))" using on_failure_trace b by auto
    have "u = v" using compensated(1) b by simp
    moreover have "owes (map_of (ks_idem s) (idemKey i ''SETTLE_IN'') \<noteq> None) i (ks_trace s) v"
      by (rule triple_exn [OF owes_body [OF assms(1)] o compensated(1)])
    ultimately have "ks_saga u = [] \<or> (\<exists>a un p. ks_saga u = [Refund a un p (idemKey i ''REFUND'')])" by (auto simp: owes_def split: if_splits)
    then show ?thesis using that [of cs "map comp_call (rev (ks_saga u))"] cs tr by auto
  next
    case (stuck e v d)
    then show ?thesis using on_failure_phases [OF assms(1) refl stuck(2)] by simp
  qed
qed



section \<open>Paying and refunding\<close>





section \<open>The journal of an execution\<close>

text \<open>
  The journal tells the whole story. For a transaction with no memoised phase, what an
  execution adds to the journal under its identifier is determined by the state it ends in: the
  discovery and the rejection; the full sequence of phases; or a proper beginning of that sequence
  followed by the compensation and the failure.\<close>

theorem journal_language:
  assumes "no_faults K" "i \<noteq> []" "\<forall>ph. map_of (ks_idem s) (idemKey i ph) = None" "execute K req (Some i) s = (Inr x, t)"
  shows "\<exists>L. phases_of i t = phases_of i s @ L \<and>
    (case tx_state x of
       REJECTED \<Rightarrow> L = [''DISCOVER'', ''REJECTED'']
     | CLOSED \<Rightarrow> L = full_path K (mode_of K req)
     | FAILED \<Rightarrow> (\<exists>P M. full_path K (mode_of K req) = P @ M \<and> M \<noteq> [] \<and> L = P @ [''COMPENSATING'', ''FAILED''])
     | _ \<Rightarrow> False)"
proof -
  let ?s = "start_tx i req s"
  have j: "journaled i (phases_of i s) [] ?s" using assms(3) by (simp add: journaled_def phases_of_def start_tx_def new_tx_def)
  from assms(2,4) show ?thesis
  proof (cases rule: execute_cases)
    case completed
    have en: "ended K req i (phases_of i s) t" by (rule triple_ret [OF j_body [OF assms(1)] j completed(1)])
    have x: "x = ks_tx t" using completed(2) by simp
    from en show ?thesis unfolding ended_def journaled_def x by (elim disjE conjE) simp_all
  next
    case (compensated e u)
    from triple_exn [OF j_body [OF assms(1)] j compensated(1)] obtain P M
      where P: "full_path K (mode_of K req) = P @ M" "M \<noteq> []" "journaled i (phases_of i s) P u" by (auto simp: partial_def)
    then have "tx_id (ks_tx u) = i" "phases_of i u = phases_of i s @ P" by (simp_all add: journaled_def)
    with on_failure_phases [OF assms(1) _ compensated(2)] P(1,2) compensated(3) show ?thesis by auto
  qed simp
qed

theorem journal_language_witness:
  "\<exists>x t. execute (sample_kernel ''PRE'' delivers) sample_request (Some ''t'') sample_state = (Inr x, t) \<and> tx_state x = CLOSED \<and>
     phases_of ''t'' t = full_path (sample_kernel ''PRE'' delivers) ''PRE''"
proof -
  obtain x t where e: "execute (sample_kernel ''PRE'' delivers) sample_request (Some ''t'') sample_state = (Inr x, t)" "tx_state x = CLOSED"
    by (rule sample_run)
  have n: "''t'' \<noteq> []" "\<forall>ph. map_of (ks_idem sample_state) (idemKey ''t'' ph) = None" "phases_of ''t'' sample_state = []"
    by (simp_all add: sample_state_def phases_of_def empty_journal_def)
  have "phases_of ''t'' t = full_path (sample_kernel ''PRE'' delivers) ''PRE''"
    using journal_language [OF sample_no_faults n(1,2) e(1)] unfolding e(2) n(3) sample_mode by simp
  with e show ?thesis by blast
qed

text \<open>
  Whatever happens during an execution, also when appends to the journal fail, a journal whose
  index and hash chain were consistent stays so, and only grows.\<close>

theorem execution_keeps_chain:
  assumes "i \<noteq> []" "journal_inv (kn_sha K) (kn_pj K) (ks_journal s)" "execute K req (Some i) s = (r, t)"
  shows "journal_inv (kn_sha K) (kn_pj K) (ks_journal t)"
proof -
  let ?s = "start_tx i req s"
  have "chain_kept K ?s (snd (body K req ?s))"
    by (rule chain.keepsD [OF chain.keeps_body]) (simp_all add: start_tx_def new_tx_def)
  then have b: "journal_inv (kn_sha K) (kn_pj K) (ks_journal (snd (body K req ?s)))" using assms(2) by (simp add: chain_kept_def start_tx_def)
  have f: "journal_inv (kn_sha K) (kn_pj K) (ks_journal (snd (on_failure K e u)))" if "journal_inv (kn_sha K) (kn_pj K) (ks_journal u)" for e u
    using on_failure_chain [of K u e] that by (simp add: chain_kept_def)
  from assms(1,3) show ?thesis by (cases rule: execute_cases) (metis b f snd_conv)+
qed

theorem execution_keeps_chain_witness:
  "\<exists>x t. execute (sample_kernel ''PRE'' delivers) sample_request (Some ''t'') sample_state = (x, t) \<and>
     verifyChain (\<lambda>_. ''h'') (\<lambda>_. JNull) (j_events (ks_journal t))"
proof -
  obtain x t where e: "execute (sample_kernel ''PRE'' delivers) sample_request (Some ''t'') sample_state = (x, t)" by (metis prod.exhaust)
  have n: "''t'' \<noteq> []" "journal_inv (kn_sha (sample_kernel ''PRE'' delivers)) (kn_pj (sample_kernel ''PRE'' delivers)) (ks_journal sample_state)"
    by (simp_all add: sample_state_def journal_inv_empty)
  have "verifyChain (\<lambda>_. ''h'') (\<lambda>_. JNull) (j_events (ks_journal t))"
    using execution_keeps_chain [OF n e] unfolding journal_inv_def by (simp add: sample_kernel_def)
  with e show ?thesis by blast
qed

section \<open>Submission and recovery\<close>

abbreviation pending_of :: "('w, 'x) rstate \<Rightarrow> (string \<times> request) list" where
  "pending_of rs \<equiv> incompleteTransactions (all_events (ks_journal (rs_kst rs)))"

text \<open>
  C19: a recovery sweep finishes what a crash left behind. Every submitted transaction that the
  journal does not show as ended, unless it is a dead letter already, is resumed, in the order of
  submission, and has its end in the journal afterwards; nothing is dead-lettered. The journal must
  accept appends, and a memoised end must have been journaled.\<close>

theorem recovery_finishes:
  assumes "no_faults K" "\<forall>p \<in> set (pending_of rs). fst p \<noteq> [] \<and> closing_journaled (fst p) (rs_kst rs)"
  shows "\<exists>out rs'. recover K maxAtt rs = (out, rs') \<and> deadLettered out = [] \<and> rs_dlq rs' = rs_dlq rs \<and>
    map fst (resumed out) = filter (\<lambda>i. map_of (rs_dlq rs) i = None) (map fst (pending_of rs)) \<and>
    (\<forall>p \<in> set (pending_of rs). map_of (rs_dlq rs) (fst p) = None \<longrightarrow> fst p \<notin> fst ` set (pending_of rs'))"
proof -
  obtain out rs' where r: "recover K maxAtt rs = (out, rs')" by (metis prod.exhaust)
  have "sweep_done (pending_of rs) \<lparr>resumed = [], deadLettered = []\<rparr> rs (out, rs')"
    using recover_fold [OF assms, of "\<lparr>resumed = [], deadLettered = []\<rparr>" maxAtt] r
    by (simp add: recover_def)
  then show ?thesis using r by (auto simp: sweep_done_def incompleteTransactions_def all_events_def)
qed

theorem recovery_finishes_witness:
  "\<exists>out rs' (rs :: (nat, nat) rstate). map fst (pending_of rs) = [''t''] \<and> recover (sample_kernel ''PRE'' delivers) 5 rs = (out, rs') \<and>
     map fst (resumed out) = [''t'']"
proof -
  let ?K = "sample_kernel ''PRE'' delivers"
  let ?rs = "\<lparr>rs_kst = snd (journal_at ?K ''t'' ''SUBMIT'' (SubmitP sample_request) sample_state), rs_dlq = []\<rparr> :: (nat, nat) rstate"
  have p: "pending_of ?rs = [(''t'', sample_request)]"
    by (simp add: journal_at_def sample_kernel_def sample_state_def Let_def append_event_events all_events_def empty_journal_def
        incompleteTransactions_def scan_submit_def terminal_ids_def TERMINAL_def)
  have c: "\<forall>q \<in> set (pending_of ?rs). fst q \<noteq> [] \<and> closing_journaled (fst q) (rs_kst ?rs)"
    unfolding p by (simp add: closing_journaled_def journal_at_def sample_kernel_def sample_state_def Let_def)
  obtain out rs' where o: "recover ?K 5 ?rs = (out, rs')" "map fst (resumed out) = filter (\<lambda>i. map_of (rs_dlq ?rs) i = None) (map fst (pending_of ?rs))"
    using recovery_finishes [OF sample_no_faults c, where maxAtt = 5] by blast
  have f: "map fst (resumed out) = [''t'']" "map fst (pending_of ?rs) = [''t'']" unfolding o(2) p by simp_all
  show ?thesis by (intro exI conjI, rule f(2), rule o(1), rule f(1))
qed

text \<open>
  A process refuses to serve on a journal that was tampered with: booting fails exactly when the
  stored chain does not verify. Otherwise it runs one recovery sweep over the journal it loaded, and
  reading a transaction there gives its stored events in order.\<close>

theorem boot_refuses_tampering:
  "(isOk (boot K maxAtt w st) \<longleftrightarrow> verifyChain (kn_sha K) (kn_pj K) (load_chain (allEvents st))) \<and>
   (\<exists>j. j_events j = load_chain (allEvents st) \<and> (\<forall>i. read_tx i j = filter (\<lambda>e. ev_txId e = i) (load_chain (allEvents st))) \<and>
      boot K maxAtt w st \<in> {Inl ''journal hash chain invalid on boot'',
        Inr (recover K maxAtt \<lparr>rs_kst = \<lparr>ks_world = w, ks_idem = b_kv st, ks_journal = j, ks_ticks = 0, ks_appends = 0, ks_seq = 0,
           ks_trace = [], ks_tx = new_tx [] no_request, ks_saga = []\<rparr>, rs_dlq = b_dlq st\<rparr>)})"
proof -
  let ?es = "load_chain (allEvents st)"
  let ?j = "\<lparr>j_events = ?es, j_byTx = index_chain ?es\<rparr>"
  have "read_tx i ?j = filter (\<lambda>e. ev_txId e = i) ?es" for i using index_chain_reads [of ?es i] by (simp add: read_tx_def)
  then show ?thesis
    by (intro conjI exI [of _ ?j]) (auto simp: boot_def Let_def load_journal_def)
qed

text \<open>
  The delay before a retry never exceeds the configured maximum and is never negative, whatever
  the random source returns; for a random number between 0 and 1 it stays within the jitter around
  the exponential backoff.\<close>

theorem retry_delay_bounded:
  assumes "maxMs p = of_int m" "0 \<le> m" "0 \<le> backoff p attempt" "0 \<le> jitter p" "jitter p \<le> 1" "0 \<le> r" "r < 1"
  shows "0 \<le> delayMs p q attempt \<and> delayMs p q attempt \<le> m \<and>
    math_round (min (maxMs p) (backoff p attempt * (1 - jitter p))) \<le> delayMs p r attempt \<and>
    delayMs p r attempt \<le> math_round (min (maxMs p) (backoff p attempt * (1 + jitter p)))"
  using delayMs_bounds [OF assms(1,2)] delayMs_jitter [OF assms(3-7)] by blast

theorem retry_delay_bounded_witness:
  "0 \<le> delayMs defaultRetryPolicy (1 / 4) 3 \<and> delayMs defaultRetryPolicy (1 / 4) 3 \<le> 30000 \<and> 200 \<le> delayMs defaultRetryPolicy (1 / 4) 3"
proof -
  have b: "backoff defaultRetryPolicy 3 = 400" by (simp add: backoff_def defaultRetryPolicy_def)
  have r: "math_round 200 = 200" using math_round_int [of 200] by simp
  show ?thesis using retry_delay_bounded [of defaultRetryPolicy 30000 3 "1 / 4" "1 / 4"]
    by (simp add: b r) (simp add: defaultRetryPolicy_def r)
qed

section \<open>The self-supplied RPC workload\<close>

text \<open>
  A single JSON-RPC call of a write method leaves the upstream untouched unless the request
  allows writes: the adapter answers 403 or an earlier refusal and makes no call.\<close>

theorem rpc_write_guard:
  assumes "or_json (rq_payload req) (q_body (rq_query req)) = Some (JObj kvs)"
    "jget ''method'' (JObj kvs) = Some (JStr m)" "m \<in> set NON_IDEMPOTENT" "\<not> rq_allowWrites req"
  shows "\<exists>r. rpc_execute providerFor fetch req c w = (Inr r, w) \<and> rr_status r \<in> {403, 502} \<and> rr_body r = None"
  using assms by (auto simp: rpc_execute_def returnM_def rpc_fail_def)

theorem rpc_write_guard_witness:
  "\<exists>r. rpc_execute (\<lambda>_. Some ''https://node'') (\<lambda>_ _ n. (Inr (200, None), n + 1))
     (no_request\<lparr>rq_payload := Some (JObj [(''method'', JStr ''eth_sendRawTransaction'')])\<rparr>) (sample_candidate ''s1'' 5) (0 :: nat) = (Inr r, 0) \<and> rr_status r \<in> {403, 502}"
proof -
  let ?req = "no_request\<lparr>rq_payload := Some (JObj [(''method'', JStr ''eth_sendRawTransaction'')])\<rparr>"
  have h: "or_json (rq_payload ?req) (q_body (rq_query ?req)) = Some (JObj [(''method'', JStr ''eth_sendRawTransaction'')])"
    "jget ''method'' (JObj [(''method'', JStr ''eth_sendRawTransaction'')]) = Some (JStr ''eth_sendRawTransaction'')"
    "''eth_sendRawTransaction'' \<in> set NON_IDEMPOTENT" "\<not> rq_allowWrites ?req"
    by (simp_all add: or_json_def NON_IDEMPOTENT_def no_request_def)
  obtain r where r: "rpc_execute (\<lambda>_. Some ''https://node'') (\<lambda>_ _ n. (Inr (200, None), n + 1)) ?req (sample_candidate ''s1'' 5) (0 :: nat) = (Inr r, 0)"
    "rr_status r \<in> {403, 502}" using rpc_write_guard [OF h, of "\<lambda>_. Some ''https://node''" "\<lambda>_ _ n. (Inr (200, None), n + 1)"] by metis
  show ?thesis by (intro exI conjI, rule r(1), rule r(2))
qed

text \<open>
  A batch escapes the write guard. A JSON-RPC batch is an array and has no method of its own, so
  the adapter forwards it as it is, with whatever write calls it contains, also when the request
  does not allow writes.\<close>

theorem rpc_batch_escapes:
  assumes "or_json (rq_payload req) (q_body (rq_query req)) = Some (JArr calls)" "truthy (providerFor (c_chain c))"
    "fetch (the (providerFor (c_chain c))) (JArr calls) w = (Inr (status, resp), w')"
  shows "\<exists>r. rpc_execute providerFor fetch req c w = (Inr r, w') \<and> rr_status r = status \<and> rr_body r = resp"
  using assms by (simp add: rpc_execute_def bindM_def returnM_def)

theorem rpc_batch_escapes_witness:
  "\<exists>r. rpc_execute (\<lambda>_. Some ''https://node'') (\<lambda>_ _ n. (Inr (200, None), n + 1))
     (no_request\<lparr>rq_payload := Some (JArr [JObj [(''method'', JStr ''eth_sendRawTransaction'')]])\<rparr>) (sample_candidate ''s1'' 5) (0 :: nat) = (Inr r, 1)"
proof -
  let ?req = "no_request\<lparr>rq_payload := Some (JArr [JObj [(''method'', JStr ''eth_sendRawTransaction'')]])\<rparr>"
  have h: "or_json (rq_payload ?req) (q_body (rq_query ?req)) = Some (JArr [JObj [(''method'', JStr ''eth_sendRawTransaction'')]])"
    by (simp add: or_json_def)
  have p: "truthy ((\<lambda>_. Some ''https://node'') (c_chain (sample_candidate ''s1'' 5)))" by simp
  have f: "(\<lambda>_ _ n. (Inr (200, None), n + 1)) (the ((\<lambda>_. Some ''https://node'') (c_chain (sample_candidate ''s1'' 5))))
      (JArr [JObj [(''method'', JStr ''eth_sendRawTransaction'')]]) (0 :: nat) = (Inr (200, None), 1)" by simp
  show ?thesis using rpc_batch_escapes [OF h, of "\<lambda>_. Some ''https://node''" "sample_candidate ''s1'' 5" "\<lambda>_ _ n. (Inr (200, None), n + 1)", OF p f]
    by blast
qed

end
