(* ===== verification/Market_Scoring.thy ===== *)
theory Market_Scoring
  imports Sat_Prelude
begin

text \<open>
  \<^verbatim>\<open>vnext/market/health_scorer.js\<close>: the health score of a supplier from observed metrics, and the
  decay of its reputation towards that score. Numbers are finite rationals; a metric that is
  \<open>undefined\<close> is \<open>None\<close>, which \<open>Number\<close> turns into \<open>NaN\<close>.
\<close>

section \<open>The code\<close>

definition W_availability :: rat where "W_availability = 35 / 100"
definition W_successRate :: rat where "W_successRate = 35 / 100"
definition W_latency :: rat where "W_latency = 20 / 100"
definition W_priceCompetitiveness :: rat where "W_priceCompetitiveness = 10 / 100"

lemmas weight_defs = W_availability_def W_successRate_def W_latency_def W_priceCompetitiveness_def

definition LATENCY_CEILING_MS :: rat where "LATENCY_CEILING_MS = 3000"

definition clamp01 :: "rat \<Rightarrow> rat" where
  "clamp01 x = clampQ 0 1 x"

definition round2 :: "rat \<Rightarrow> rat" where
  "round2 x = of_int (math_round (x * 100)) / 100"

record health_metrics =
  hm_availability :: "rat option"
  hm_successRate :: "rat option"
  hm_latencyMs :: "rat option"
  hm_price :: "rat option"
  hm_marketMedianPrice :: "rat option"

record health_breakdown =
  hb_availability :: rat
  hb_successRate :: rat
  hb_latency :: rat
  hb_priceCompetitiveness :: rat

definition price_score :: "rat option \<Rightarrow> rat option \<Rightarrow> rat" where
  "price_score price median =
     (case (price, median) of
        (Some p, Some m) \<Rightarrow> if m > 0 then clamp01 (1 - p / (2 * m)) else 1 / 2
      | _ \<Rightarrow> 1 / 2)"

definition computeHealthScore :: "health_metrics \<Rightarrow> int \<times> health_breakdown" where
  "computeHealthScore m =
     (let av = clamp01 (coalesce (hm_availability m) 1);
          sr = clamp01 (coalesce (hm_successRate m) 1);
          ls = clamp01 (1 - coalesce (hm_latencyMs m) 0 / LATENCY_CEILING_MS);
          ps = price_score (hm_price m) (hm_marketMedianPrice m);
          composite = W_availability * av + W_successRate * sr + W_latency * ls + W_priceCompetitiveness * ps
      in (math_round (composite * 100),
          \<lparr>hb_availability = round2 av, hb_successRate = round2 sr, hb_latency = round2 ls,
           hb_priceCompetitiveness = round2 ps\<rparr>))"

definition decayReputation :: "rat \<Rightarrow> rat \<Rightarrow> rat \<Rightarrow> int" where
  "decayReputation current observed alpha =
     (let c = clampQ 0 100 current; o' = clampQ 0 100 observed; a = clampQ 0 1 alpha
      in math_round (c * (1 - a) + o' * a))"

text \<open>The number of missed rounds is a count.\<close>

definition idleDecay :: "rat \<Rightarrow> nat \<Rightarrow> rat \<Rightarrow> int" where
  "idleDecay current missedRounds perRound =
     math_round (clampQ 0 100 current * clampQ 0 1 perRound ^ missedRounds)"

section \<open>Scores are bounded and monotone\<close>

lemma clamp01_bounds [simp]: "0 \<le> clamp01 x" "clamp01 x \<le> 1"
  by (simp_all add: clamp01_def clampQ_bounds)

lemma clamp01_mono: "x \<le> y \<Longrightarrow> clamp01 x \<le> clamp01 y"
  by (simp add: clamp01_def clampQ_def)

lemma price_score_bounds: "0 \<le> price_score p m \<and> price_score p m \<le> 1"
  by (simp add: price_score_def split: option.splits)

lemma round2_bounds: "0 \<le> x \<Longrightarrow> x \<le> 1 \<Longrightarrow> 0 \<le> round2 x \<and> round2 x \<le> 1"
  using math_round_bounds [of 0 "x * 100" 100] by (simp add: round2_def)

lemma weighted_bounds:
  fixes a s l p :: rat
  assumes "0 \<le> a" "a \<le> 1" "0 \<le> s" "s \<le> 1" "0 \<le> l" "l \<le> 1" "0 \<le> p" "p \<le> 1"
  shows "0 \<le> (W_availability * a + W_successRate * s + W_latency * l + W_priceCompetitiveness * p) * 100 \<and>
         (W_availability * a + W_successRate * s + W_latency * l + W_priceCompetitiveness * p) * 100 \<le> 100"
  using assms unfolding weight_defs by (simp add: field_simps)

lemma weighted_mono:
  fixes a s l p :: rat
  assumes "a \<le> a'" "s \<le> s'" "l \<le> l'" "p \<le> p'"
  shows "(W_availability * a + W_successRate * s + W_latency * l + W_priceCompetitiveness * p) * 100 \<le>
         (W_availability * a' + W_successRate * s' + W_latency * l' + W_priceCompetitiveness * p') * 100"
  using assms unfolding weight_defs by simp

lemma price_score_cheaper: "p \<le> q \<Longrightarrow> price_score (Some q) m \<le> price_score (Some p) m"
  by (cases m) (auto simp: price_score_def divide_right_mono intro!: clamp01_mono)

lemma score_in_range: "0 \<le> fst (computeHealthScore m) \<and> fst (computeHealthScore m) \<le> 100"
  unfolding computeHealthScore_def Let_def fst_conv
  using math_round_bounds [of 0 _ 100] weighted_bounds price_score_bounds by simp

section \<open>Reputation moves towards the observed score\<close>

lemma decay_range: "0 \<le> decayReputation c x a \<and> decayReputation c x a \<le> 100"
proof -
  define u v w where "u = clampQ 0 100 c" and "v = clampQ 0 100 x" and "w = clampQ 0 1 a"
  have b: "0 \<le> u" "u \<le> 100" "0 \<le> v" "v \<le> 100" "0 \<le> w" "w \<le> 1"
    by (simp_all add: u_def v_def w_def clampQ_bounds)
  have "u * (1 - w) + v * w \<le> 100 * (1 - w) + 100 * w"
    by (intro add_mono mult_right_mono) (use b in simp_all)
  moreover have "0 \<le> u * (1 - w) + v * w" using b by simp
  ultimately show ?thesis
    using math_round_bounds [of 0 "u * (1 - w) + v * w" 100]
    by (simp add: decayReputation_def Let_def u_def v_def w_def algebra_simps)
qed

text \<open>With the default smoothing and whole numbers the step is a whole number of at least three tenths of the gap.\<close>

lemma decay_step:
  assumes "0 \<le> c" "c \<le> 100" "0 \<le> x" "x \<le> 100"
  shows "decayReputation (of_int c) (of_int x) (3 / 10) = c + (3 * (x - c) + 5) div 10"
proof -
  have "(of_int c :: rat) * (7 / 10) + of_int x * (3 / 10) + 1 / 2 = of_int c + of_int (3 * (x - c) + 5) / of_int 10"
    by (simp add: field_simps)
  then have "\<lfloor>(of_int c :: rat) * (7 / 10) + of_int x * (3 / 10) + 1 / 2\<rfloor> = c + (3 * (x - c) + 5) div 10"
    by (simp only: add.commute [of "of_int c :: rat"] floor_add_int [symmetric] floor_divide_of_int_eq
          add.commute [of c])
  then show ?thesis using assms by (simp add: decayReputation_def math_round_def)
qed

lemma decay_nearer:
  fixes c x :: int
  assumes "0 \<le> c" "c \<le> 100" "0 \<le> x" "x \<le> 100" "\<bar>c - x\<bar> \<le> k + 2" "0 \<le> k"
    and d: "d = c + (3 * (x - c) + 5) div 10"
  shows "0 \<le> d \<and> d \<le> 100 \<and> \<bar>d - x\<bar> \<le> k + 1"
proof -
  define e where "e = x - c"
  define q where "q = (3 * e + 5) div 10"
  have b: "10 * q \<le> 3 * e + 5" "3 * e + 5 < 10 * q + 10" by (simp_all add: q_def)
  have up: "0 \<le> q" "q \<le> e" if "0 \<le> e" using b that by linarith+
  have down: "e \<le> q" "q \<le> 0" if "e < 0" using b that by linarith+
  have up2: "1 \<le> q" if "2 \<le> e" using b that by linarith
  have down2: "q \<le> - 1" if "e \<le> - 2" using b that by linarith
  have dc: "d = c + q" "c = x - e" using d by (simp_all add: q_def e_def)
  show ?thesis
  proof (cases "0 \<le> e")
    case True
    with assms dc up up2 show ?thesis by (cases "2 \<le> e") auto
  next
    case False
    with assms dc down down2 show ?thesis by (cases "e \<le> - 2") auto
  qed
qed

fun rounds :: "nat \<Rightarrow> int \<Rightarrow> int \<Rightarrow> int" where
  "rounds 0 x c = c"
| "rounds (Suc n) x c = rounds n x (decayReputation (of_int c) (of_int x) (3 / 10))"

lemma rounds_near:
  assumes "0 \<le> c" "c \<le> 100" "0 \<le> x" "x \<le> 100" "\<bar>c - x\<bar> \<le> int n + 1"
  shows "\<bar>rounds n x c - x\<bar> \<le> 1"
  using assms
proof (induction n arbitrary: c)
  case (Suc n)
  have "0 \<le> c + (3 * (x - c) + 5) div 10 \<and> c + (3 * (x - c) + 5) div 10 \<le> 100 \<and>
        \<bar>c + (3 * (x - c) + 5) div 10 - x\<bar> \<le> int n + 1"
    by (rule decay_nearer [of c x]) (use Suc.prems in simp_all)
  then show ?case using Suc by (simp add: decay_step)
qed simp

lemma breakdown_in_range:
  "part \<in> {hb_availability, hb_successRate, hb_latency, hb_priceCompetitiveness} \<Longrightarrow>
   0 \<le> part (snd (computeHealthScore m)) \<and> part (snd (computeHealthScore m)) \<le> 1"
  by (auto simp: computeHealthScore_def Let_def round2_bounds price_score_bounds)

lemma score_mono:
  assumes "coalesce (hm_availability m) 1 \<le> coalesce (hm_availability m') 1"
    and "coalesce (hm_successRate m) 1 \<le> coalesce (hm_successRate m') 1"
    and "coalesce (hm_latencyMs m') 0 \<le> coalesce (hm_latencyMs m) 0"
    and "price_score (hm_price m) (hm_marketMedianPrice m) \<le> price_score (hm_price m') (hm_marketMedianPrice m')"
  shows "fst (computeHealthScore m) \<le> fst (computeHealthScore m')"
proof -
  have "clamp01 (1 - coalesce (hm_latencyMs m) 0 / LATENCY_CEILING_MS) \<le>
        clamp01 (1 - coalesce (hm_latencyMs m') 0 / LATENCY_CEILING_MS)"
    using assms(3) by (intro clamp01_mono) (simp add: LATENCY_CEILING_MS_def divide_right_mono)
  then show ?thesis unfolding computeHealthScore_def Let_def fst_conv
    by (intro math_round_mono weighted_mono) (use assms in \<open>simp_all add: clamp01_mono\<close>)
qed

section \<open>Properties\<close>

text \<open>
  The health score is bounded and rewards better suppliers. It is a whole number from 0 to 100
  whatever the metrics are, each part of the breakdown lies between 0 and 1, and of two suppliers
  with prices in the same market the one that is at least as available and successful, no slower
  and no more expensive never scores lower.\<close>
theorem health_score_monotone:
  assumes "coalesce (hm_availability m) 1 \<le> coalesce (hm_availability m') 1"
    and "coalesce (hm_successRate m) 1 \<le> coalesce (hm_successRate m') 1"
    and "coalesce (hm_latencyMs m') 0 \<le> coalesce (hm_latencyMs m) 0"
    and "hm_price m = Some p" and "hm_price m' = Some p'" and "p' \<le> p"
    and "hm_marketMedianPrice m = hm_marketMedianPrice m'"
  shows "0 \<le> fst (computeHealthScore m) \<and>
    fst (computeHealthScore m) \<le> fst (computeHealthScore m') \<and>
    fst (computeHealthScore m') \<le> 100 \<and>
    (\<forall>part \<in> {hb_availability, hb_successRate, hb_latency, hb_priceCompetitiveness}.
       0 \<le> part (snd (computeHealthScore m)) \<and> part (snd (computeHealthScore m)) \<le> 1)"
  using score_mono [of m m'] price_score_cheaper [of p' p] score_in_range breakdown_in_range assms
  by simp

theorem health_score_monotone_witness:
  "fst (computeHealthScore \<lparr>hm_availability = Some (1 / 2), hm_successRate = None, hm_latencyMs = Some 900,
          hm_price = Some 30, hm_marketMedianPrice = Some 20\<rparr>) \<le>
   fst (computeHealthScore \<lparr>hm_availability = Some 1, hm_successRate = None, hm_latencyMs = Some 100,
          hm_price = Some 10, hm_marketMedianPrice = Some 20\<rparr>)"
  using health_score_monotone
    [of "\<lparr>hm_availability = Some (1 / 2), hm_successRate = None, hm_latencyMs = Some 900,
          hm_price = Some 30, hm_marketMedianPrice = Some 20\<rparr>"
        "\<lparr>hm_availability = Some 1, hm_successRate = None, hm_latencyMs = Some 100,
          hm_price = Some 10, hm_marketMedianPrice = Some 20\<rparr>" 30 10]
  by simp

text \<open>
  A reputation settles at what is observed. When a supplier keeps scoring the same, its
  reputation comes within one point of the score after at most as many rounds as they were apart,
  and it never leaves the range from 0 to 100.\<close>
theorem reputation_settles:
  assumes "0 \<le> c" "c \<le> 100" "0 \<le> x" "x \<le> 100" and "nat \<bar>c - x\<bar> \<le> n"
  shows "\<bar>((\<lambda>r. decayReputation (of_int r) (of_int x) (3 / 10)) ^^ n) c - x\<bar> \<le> 1 \<and>
         (\<forall>r a. 0 \<le> decayReputation r (of_int x) a \<and> decayReputation r (of_int x) a \<le> 100)"
proof -
  have iter: "rounds k x r = ((\<lambda>r. decayReputation (of_int r) (of_int x) (3 / 10)) ^^ k) r" for k r
    by (induction k arbitrary: r) (simp_all add: funpow_Suc_right del: funpow.simps(2))
  show ?thesis using rounds_near [of c x n] decay_range assms by (auto simp: iter [symmetric])
qed

theorem reputation_settles_witness:
  "\<bar>((\<lambda>r. decayReputation (of_int r) (of_int 0) (3 / 10)) ^^ 50) 50 - 0\<bar> \<le> 1"
  using reputation_settles [of 50 0 50] by simp

end
