(* ===== verification/Market_Store.thy ===== *)
theory Market_Store
  imports Supplier_Registry Market_Scoring
begin

text \<open>
  \<^verbatim>\<open>vnext/market/market_store.js\<close>: bounded series of prices, latencies and benchmarks for each
  supplier and of discovery rounds, each point also appended to the journal that the supplier
  registry writes to. The lemmas show that the series are the last points of the journal and
  that a replay of the journal gives the store back.

  \<open>txt\<close> is the text of a number; \<open>clk i\<close> is the i-th reading of the clock in a call.
\<close>

section \<open>The code\<close>

record price_point =
  pp_price :: string
  pp_currency :: string
  pp_ts :: int

record latency_point =
  lp_latencyMs :: rat
  lp_ts :: int

record bench_metrics =
  bm_ok :: bool
  bm_error :: "string option"
  bm_price :: "string option"
  bm_latencyMs :: "rat option"
  bm_availability :: "rat option"
  bm_successRate :: "rat option"
  bm_healthScore :: int
  bm_reputation :: int
  bm_breakdown :: "health_breakdown option"

record discovery_point =
  dp_source :: string
  dp_discovered :: nat
  dp_added :: nat
  dp_ts :: int

text \<open>What the market engine writes into the journal beside the registry's snapshots.\<close>

datatype mpoint =
    PricePt price_point
  | LatencyPt latency_point
  | BenchmarkPt bench_metrics int
  | DiscoveryPt discovery_point
  | SourcePt string nat nat "string option"

type_synonym mpayload = "mpoint reg_payload"

record market_store =
  ms_price :: "(string, price_point list) jsmap"
  ms_latency :: "(string, latency_point list) jsmap"
  ms_benchmark :: "(string, (bench_metrics \<times> int) list) jsmap"
  ms_discovery :: "discovery_point list"

definition empty_store :: market_store where
  "empty_store = \<lparr>ms_price = [], ms_latency = [], ms_benchmark = [], ms_discovery = []\<rparr>"

text \<open>The registry, with the journal it shares with the store, and the store.\<close>

record market =
  mk_registry :: "mpoint registry"
  mk_store :: market_store

definition MAX_POINTS :: nat where "MAX_POINTS = 500"

definition pushBounded :: "'a list \<Rightarrow> 'a \<Rightarrow> 'a list" where
  "pushBounded arr point =
     (let arr = arr @ [point] in if length arr > MAX_POINTS then tl arr else arr)"

definition history :: "(string, 'a list) jsmap \<Rightarrow> string \<Rightarrow> 'a list" where
  "history m i = coalesce (map_of m i) []"

definition push_series :: "string \<Rightarrow> 'a \<Rightarrow> (string, 'a list) jsmap \<Rightarrow> (string, 'a list) jsmap" where
  "push_series i p m = mset_key i (pushBounded (history m i) p) m"

definition market_stream :: "string \<Rightarrow> string" where
  "market_stream i = ''market:'' @ i"

definition journal_point :: "(string \<Rightarrow> string) \<Rightarrow> (mpayload \<Rightarrow> json) \<Rightarrow> string \<Rightarrow> string \<Rightarrow> mpoint \<Rightarrow> int \<Rightarrow> market \<Rightarrow> market" where
  "journal_point sha pj stream phase p ts m =
     m\<lparr>mk_registry := (mk_registry m)
        \<lparr>reg_journal := snd (append_event sha pj stream phase (ForeignP p) ts (reg_journal (mk_registry m)))\<rparr>\<rparr>"

definition recordPrice ::
  "(string \<Rightarrow> string) \<Rightarrow> (mpayload \<Rightarrow> json) \<Rightarrow> (rat \<Rightarrow> string) \<Rightarrow> readings \<Rightarrow> string \<Rightarrow> rat \<Rightarrow> string option \<Rightarrow> market \<Rightarrow> price_point \<times> market" where
  "recordPrice sha pj txt clk i price currency m =
     (let point = \<lparr>pp_price = txt price, pp_currency = or_str currency ''USDC'', pp_ts = clk 0\<rparr>;
          m = m\<lparr>mk_store := (mk_store m)\<lparr>ms_price := push_series i point (ms_price (mk_store m))\<rparr>\<rparr>
      in (point, journal_point sha pj (market_stream i) ''PRICE'' (PricePt point) (clk 1) m))"

definition recordLatency ::
  "(string \<Rightarrow> string) \<Rightarrow> (mpayload \<Rightarrow> json) \<Rightarrow> readings \<Rightarrow> string \<Rightarrow> rat \<Rightarrow> market \<Rightarrow> latency_point \<times> market" where
  "recordLatency sha pj clk i latencyMs m =
     (let point = \<lparr>lp_latencyMs = latencyMs, lp_ts = clk 0\<rparr>;
          m = m\<lparr>mk_store := (mk_store m)\<lparr>ms_latency := push_series i point (ms_latency (mk_store m))\<rparr>\<rparr>
      in (point, journal_point sha pj (market_stream i) ''LATENCY'' (LatencyPt point) (clk 1) m))"

definition recordBenchmark ::
  "(string \<Rightarrow> string) \<Rightarrow> (mpayload \<Rightarrow> json) \<Rightarrow> readings \<Rightarrow> string \<Rightarrow> bench_metrics \<Rightarrow> market \<Rightarrow> (bench_metrics \<times> int) \<times> market" where
  "recordBenchmark sha pj clk i metrics m =
     (let point = (metrics, clk 0);
          m = m\<lparr>mk_store := (mk_store m)\<lparr>ms_benchmark := push_series i point (ms_benchmark (mk_store m))\<rparr>\<rparr>
      in (point, journal_point sha pj (market_stream i) ''BENCHMARK'' (BenchmarkPt metrics (clk 0)) (clk 1) m))"

definition recordDiscovery ::
  "(string \<Rightarrow> string) \<Rightarrow> (mpayload \<Rightarrow> json) \<Rightarrow> readings \<Rightarrow> string \<Rightarrow> nat \<Rightarrow> nat \<Rightarrow> market \<Rightarrow> discovery_point \<times> market" where
  "recordDiscovery sha pj clk source discovered added m =
     (let point = \<lparr>dp_source = source, dp_discovered = discovered, dp_added = added, dp_ts = clk 0\<rparr>;
          m = m\<lparr>mk_store := (mk_store m)\<lparr>ms_discovery := pushBounded (ms_discovery (mk_store m)) point\<rparr>\<rparr>
      in (point, journal_point sha pj ''market:discovery'' ''DISCOVERY'' (DiscoveryPt point) (clk 1) m))"

definition priceHistory :: "string \<Rightarrow> market_store \<Rightarrow> price_point list" where
  "priceHistory i st = history (ms_price st) i"

definition latencyHistory :: "string \<Rightarrow> market_store \<Rightarrow> latency_point list" where
  "latencyHistory i st = history (ms_latency st) i"

definition benchmarkHistory :: "string \<Rightarrow> market_store \<Rightarrow> (bench_metrics \<times> int) list" where
  "benchmarkHistory i st = history (ms_benchmark st) i"

definition discoveryHistory :: "market_store \<Rightarrow> discovery_point list" where
  "discoveryHistory st = ms_discovery st"

text \<open>The supplier of an event of a market stream, if there is one.\<close>

definition market_id :: "mpayload event \<Rightarrow> string option" where
  "market_id e = (if take 7 (ev_txId e) = ''market:'' then Some (drop 7 (ev_txId e)) else None)"

definition replay_point :: "market_store \<Rightarrow> mpayload event \<Rightarrow> market_store" where
  "replay_point st e =
     (case (ev_payload e) of
        ForeignP (DiscoveryPt p) \<Rightarrow>
          if market_id e = Some ''discovery'' \<and> ev_phase e = ''DISCOVERY''
          then st\<lparr>ms_discovery := pushBounded (ms_discovery st) p\<rparr> else st
      | ForeignP (PricePt p) \<Rightarrow>
          if truthy (market_id e) \<and> ev_phase e = ''PRICE''
          then st\<lparr>ms_price := push_series (the (market_id e)) p (ms_price st)\<rparr> else st
      | ForeignP (LatencyPt p) \<Rightarrow>
          if truthy (market_id e) \<and> ev_phase e = ''LATENCY''
          then st\<lparr>ms_latency := push_series (the (market_id e)) p (ms_latency st)\<rparr> else st
      | ForeignP (BenchmarkPt p ts) \<Rightarrow>
          if truthy (market_id e) \<and> ev_phase e = ''BENCHMARK''
          then st\<lparr>ms_benchmark := push_series (the (market_id e)) (p, ts) (ms_benchmark st)\<rparr> else st
      | _ \<Rightarrow> st)"

definition replay_market :: "mpayload journal \<Rightarrow> market_store" where
  "replay_market j = foldl replay_point empty_store (all_events j)"

section \<open>The states that the operations can build\<close>

text \<open>
  Points are recorded for suppliers with a name, and other components append to the shared
  journal and change the registry, on streams that are not the market's; a discovery source is
  noted on the market's own stream.
\<close>

inductive market_reach :: "(string \<Rightarrow> string) \<Rightarrow> (mpayload \<Rightarrow> json) \<Rightarrow> market \<Rightarrow> bool" for sha pj where
  start: "market_reach sha pj \<lparr>mk_registry = \<lparr>reg_suppliers = [], reg_journal = empty_journal\<rparr>, mk_store = empty_store\<rparr>"
| price: "market_reach sha pj m \<Longrightarrow> i \<noteq> [] \<Longrightarrow> market_reach sha pj (snd (recordPrice sha pj txt clk i p c m))"
| latency: "market_reach sha pj m \<Longrightarrow> i \<noteq> [] \<Longrightarrow> market_reach sha pj (snd (recordLatency sha pj clk i l m))"
| benchmark: "market_reach sha pj m \<Longrightarrow> i \<noteq> [] \<Longrightarrow> market_reach sha pj (snd (recordBenchmark sha pj clk i b m))"
| discovery: "market_reach sha pj m \<Longrightarrow> market_reach sha pj (snd (recordDiscovery sha pj clk s n k m))"
| source: "market_reach sha pj m \<Longrightarrow>
    market_reach sha pj (journal_point sha pj ''market:discovery'' ''DISCOVERY_SOURCE'' (SourcePt s n k e) ts m)"
| other: "market_reach sha pj m \<Longrightarrow> all_events (reg_journal g) = all_events (reg_journal (mk_registry m)) @ es \<Longrightarrow>
    list_all (\<lambda>e. take 7 (ev_txId e) \<noteq> ''market:'') es \<Longrightarrow> market_reach sha pj (m\<lparr>mk_registry := g\<rparr>)"

section \<open>Replay\<close>

lemma replay_append:
  "replay_market (snd (append_event sha pj t ph x ts j)) =
   replay_point (replay_market j) (make_event sha pj (j_events j) t ph x ts)"
  by (simp add: replay_market_def append_event_def all_events_def Let_def)

lemma replay_other:
  assumes "list_all (\<lambda>e. take 7 (ev_txId e) \<noteq> ''market:'') es"
  shows "foldl replay_point st es = st"
  using assms
proof (induction es arbitrary: st)
  case (Cons e es)
  have "replay_point st e = st"
    using Cons.prems by (simp add: replay_point_def market_id_def split: reg_payload.splits mpoint.splits)
  then show ?case using Cons by simp
qed simp

lemma make_event_sel [simp]:
  "ev_txId (make_event sha pj es t ph x ts) = t"
  "ev_phase (make_event sha pj es t ph x ts) = ph"
  "ev_payload (make_event sha pj es t ph x ts) = x"
  by (simp_all add: make_event_def Let_def)

lemma market_stream_id:
  "take 7 (market_stream i) = ''market:''" "drop 7 (market_stream i) = i"
  by (simp_all add: market_stream_def)

lemmas record_defs = recordPrice_def recordLatency_def recordBenchmark_def recordDiscovery_def journal_point_def Let_def

lemma market_replayed: "market_reach sha pj m \<Longrightarrow> replay_market (reg_journal (mk_registry m)) = mk_store m"
proof (induction rule: market_reach.induct)
  case start
  show ?case by (simp add: replay_market_def all_events_def empty_journal_def)
next
  case (other m g es)
  then show ?case by (simp add: replay_market_def replay_other)
qed (simp_all add: record_defs replay_append replay_point_def market_id_def market_stream_id)

section \<open>The series are the last points of the journal\<close>

definition last_points :: "'a list \<Rightarrow> 'a list" where
  "last_points xs = drop (length xs - MAX_POINTS) xs"

lemma pushBounded_last: "pushBounded (last_points xs) p = last_points (xs @ [p])"
proof (cases "length xs < MAX_POINTS")
  case True
  then show ?thesis by (simp add: pushBounded_def last_points_def)
next
  case False
  then have "Suc (length xs) - MAX_POINTS = Suc (length xs - MAX_POINTS)" and "last_points xs \<noteq> []"
    by (simp_all add: last_points_def MAX_POINTS_def)
  with False show ?thesis
    by (simp add: pushBounded_def last_points_def Let_def drop_Suc tl_drop)
qed

definition points_of :: "(mpayload event \<Rightarrow> (string \<times> 'a) option) \<Rightarrow> string \<Rightarrow> mpayload event list \<Rightarrow> 'a list" where
  "points_of sel i es = map snd (filter (\<lambda>p. fst p = i) (List.map_filter sel es))"

definition fold_series :: "(mpayload event \<Rightarrow> (string \<times> 'a) option) \<Rightarrow> mpayload event list \<Rightarrow> (string, 'a list) jsmap" where
  "fold_series sel es = foldl (\<lambda>m e. case sel e of None \<Rightarrow> m | Some (i, p) \<Rightarrow> push_series i p m) [] es"

lemma history_push: "history (push_series i p m) k = (if k = i then pushBounded (history m i) p else history m k)"
  by (simp add: history_def push_series_def)

lemma fold_series_snoc:
  "fold_series sel (es @ [e]) =
     (case sel e of None \<Rightarrow> fold_series sel es | Some (i, p) \<Rightarrow> push_series i p (fold_series sel es))"
  by (simp add: fold_series_def split: option.splits)

lemma points_of_snoc:
  "points_of sel i (es @ [e]) =
     points_of sel i es @ (case sel e of None \<Rightarrow> [] | Some (k, p) \<Rightarrow> if k = i then [p] else [])"
  by (simp add: points_of_def List.map_filter_def split: option.splits prod.splits)

lemma fold_series_history: "history (fold_series sel es) i = last_points (points_of sel i es)"
proof (induction es rule: rev_induct)
  case Nil
  show ?case by (simp add: fold_series_def points_of_def history_def last_points_def List.map_filter_def)
next
  case (snoc e es)
  then show ?case
    by (simp add: fold_series_snoc points_of_snoc history_push pushBounded_last split: option.splits prod.splits)
qed

definition price_of :: "mpayload event \<Rightarrow> (string \<times> price_point) option" where
  "price_of e = (case ev_payload e of
     ForeignP (PricePt p) \<Rightarrow> if truthy (market_id e) \<and> ev_phase e = ''PRICE'' then Some (the (market_id e), p) else None
   | _ \<Rightarrow> None)"

definition latency_of :: "mpayload event \<Rightarrow> (string \<times> latency_point) option" where
  "latency_of e = (case ev_payload e of
     ForeignP (LatencyPt p) \<Rightarrow> if truthy (market_id e) \<and> ev_phase e = ''LATENCY'' then Some (the (market_id e), p) else None
   | _ \<Rightarrow> None)"

definition benchmark_of :: "mpayload event \<Rightarrow> (string \<times> bench_metrics \<times> int) option" where
  "benchmark_of e = (case ev_payload e of
     ForeignP (BenchmarkPt p ts) \<Rightarrow> if truthy (market_id e) \<and> ev_phase e = ''BENCHMARK'' then Some (the (market_id e), p, ts) else None
   | _ \<Rightarrow> None)"

lemma replay_point_series:
  "ms_price (replay_point st e) =
     (case price_of e of None \<Rightarrow> ms_price st | Some (i, p) \<Rightarrow> push_series i p (ms_price st))"
  "ms_latency (replay_point st e) =
     (case latency_of e of None \<Rightarrow> ms_latency st | Some (i, p) \<Rightarrow> push_series i p (ms_latency st))"
  "ms_benchmark (replay_point st e) =
     (case benchmark_of e of None \<Rightarrow> ms_benchmark st | Some (i, p) \<Rightarrow> push_series i p (ms_benchmark st))"
  by (auto simp: replay_point_def price_of_def latency_of_def benchmark_of_def
      split: reg_payload.splits mpoint.splits)

lemma replay_price: "ms_price (foldl replay_point empty_store es) = fold_series price_of es"
  by (induction es rule: rev_induct)
    (simp add: fold_series_def empty_store_def, simp add: fold_series_snoc replay_point_series split: option.splits)

lemma replay_latency: "ms_latency (foldl replay_point empty_store es) = fold_series latency_of es"
  by (induction es rule: rev_induct)
    (simp add: fold_series_def empty_store_def, simp add: fold_series_snoc replay_point_series split: option.splits)

lemma replay_benchmark: "ms_benchmark (foldl replay_point empty_store es) = fold_series benchmark_of es"
  by (induction es rule: rev_induct)
    (simp add: fold_series_def empty_store_def, simp add: fold_series_snoc replay_point_series split: option.splits)

lemmas replay_series = replay_price replay_latency replay_benchmark

section \<open>Properties\<close>

text \<open>
  The market can be rebuilt from the journal. Whatever prices, latencies, benchmarks and
  discovery rounds were recorded, interleaved with what the registry and other components append,
  replaying the journal gives the store back, and every series is made of the last points, at
  most five hundred, that the journal holds for its supplier.\<close>
theorem market_replay:
  assumes "market_reach sha pj m"
  shows "replay_market (reg_journal (mk_registry m)) = mk_store m \<and>
    priceHistory i (mk_store m) = last_points (points_of price_of i (all_events (reg_journal (mk_registry m)))) \<and>
    latencyHistory i (mk_store m) = last_points (points_of latency_of i (all_events (reg_journal (mk_registry m)))) \<and>
    benchmarkHistory i (mk_store m) = last_points (points_of benchmark_of i (all_events (reg_journal (mk_registry m)))) \<and>
    length (priceHistory i (mk_store m)) \<le> 500"
proof -
  let ?es = "all_events (reg_journal (mk_registry m))"
  have eq: "mk_store m = foldl replay_point empty_store ?es"
    using market_replayed [OF assms] by (simp add: replay_market_def)
  have "length (last_points xs) \<le> 500" for xs :: "price_point list"
    by (simp add: last_points_def MAX_POINTS_def)
  with market_replayed [OF assms] show ?thesis
    by (simp add: priceHistory_def latencyHistory_def benchmarkHistory_def eq replay_series fold_series_history)
qed

abbreviation sample_market :: market where
  "sample_market \<equiv> snd (recordPrice (\<lambda>_. ''h'') (\<lambda>_. JNull) (\<lambda>_. ''5'') int ''s1'' 5 None
     \<lparr>mk_registry = \<lparr>reg_suppliers = [], reg_journal = empty_journal\<rparr>, mk_store = empty_store\<rparr>)"

theorem market_replay_witness:
  "replay_market (reg_journal (mk_registry sample_market)) = mk_store sample_market \<and>
   length (priceHistory ''s1'' (mk_store sample_market)) = 1"
proof -
  have "market_reach (\<lambda>_. ''h'') (\<lambda>_. JNull) sample_market"
    by (intro market_reach.price market_reach.start) simp
  note replayed = market_replay [OF this, of "''s1''", THEN conjunct1]
  have "length (priceHistory ''s1'' (mk_store sample_market)) = 1"
    by (simp add: recordPrice_def priceHistory_def journal_point_def Let_def pushBounded_def
        history_def push_series_def empty_store_def MAX_POINTS_def)
  with replayed show ?thesis by blast
qed

end
