(* ===== verification/Market_Sources.thy ===== *)
theory Market_Sources
  imports Kernel_Router
begin

text \<open>
  \<^verbatim>\<open>vnext/market/sources.js\<close> and \<^verbatim>\<open>vnext/market/bazaar_source.js\<close>: what five external
  registries and the x402 Bazaar answer is read into supplier records. The answers are arbitrary
  JSON; the lemmas show which listings survive and what a record then guarantees. The registry
  keeps prices as rationals: an amount that is no number has no price in a record here.
\<close>

section \<open>Numbers\<close>

text \<open>\<open>Number\<close> of a text: sign, digits, fraction and exponent, or the empty text; else \<open>NaN\<close>.\<close>

definition number_digits :: "string \<Rightarrow> nat" where
  "number_digits s = string_to_nat s"

definition exponent_of :: "string \<Rightarrow> rat option" where
  "exponent_of s =
     (case s of
        [] \<Rightarrow> Some 1
      | c # r \<Rightarrow>
          if c \<noteq> CHR ''e'' \<and> c \<noteq> CHR ''E'' then None
          else
            let neg = (take 1 r = ''-'');
                d = (if take 1 r = ''-'' \<or> take 1 r = ''+'' then drop 1 r else r)
            in if d = [] \<or> \<not> list_all is_digit d then None
               else Some (if neg then 1 / 10 ^ number_digits d else 10 ^ number_digits d))"

definition unsigned_number :: "string \<Rightarrow> rat option" where
  "unsigned_number s =
     (let whole = takeWhile is_digit s; rest = dropWhile is_digit s;
          dot = (take 1 rest = ''.'');
          frac = (if dot then takeWhile is_digit (drop 1 rest) else []);
          tail = (if dot then dropWhile is_digit (drop 1 rest) else rest)
      in if whole = [] \<and> frac = [] then None
         else map_option (\<lambda>e. (of_nat (number_digits whole) + of_nat (number_digits frac) / 10 ^ length frac) * e)
                (exponent_of tail))"

definition is_space :: "char \<Rightarrow> bool" where
  "is_space c \<longleftrightarrow> c \<in> {CHR '' '', CHR 9, CHR 10, CHR 11, CHR 12, CHR 13}"

definition trim :: "string \<Rightarrow> string" where
  "trim s = rev (dropWhile is_space (rev (dropWhile is_space s)))"

definition text_number :: "string \<Rightarrow> jsnum" where
  "text_number s =
     (let t = trim s in
      case t of
        [] \<Rightarrow> Fin 0
      | c # r \<Rightarrow>
          (case unsigned_number (if c = CHR ''-'' \<or> c = CHR ''+'' then r else t) of
             None \<Rightarrow> NaN
           | Some q \<Rightarrow> Fin (if c = CHR ''-'' then - q else q)))"

fun number_of :: "json option \<Rightarrow> jsnum" where
  "number_of None = NaN"
| "number_of (Some JNull) = Fin 0"
| "number_of (Some (JBool b)) = Fin (if b then 1 else 0)"
| "number_of (Some (JNum n)) = Fin (of_int n)"
| "number_of (Some (JStr s)) = text_number s"
| "number_of (Some (JArr xs)) = text_number (js_string (JArr xs))"
| "number_of (Some (JObj _)) = NaN"

section \<open>Supplier records\<close>

record found =
  fo_spec :: supplier_spec
  fo_url :: string
  fo_paymentMethods :: "string list"
  fo_protocols :: "string list"
  fo_source :: string
  fo_marketMeta :: "(string, json) jsmap option"

record source_result =
  so_records :: "found list"
  so_error :: "string option"

record fetched =
  fe_ok :: bool
  fe_status :: int
  fe_body :: "json option"

text \<open>A source: its name and what one call of \<open>discover\<close> does to the world outside.\<close>

record 'w source =
  src_name :: string
  src_discover :: "('w, source_result) em"

text \<open>\<open>v ?? w\<close> on properties that may be absent or \<open>null\<close>.\<close>

definition nullish :: "json option \<Rightarrow> json option \<Rightarrow> json option" where
  "nullish a b = (if a = None \<or> a = Some JNull then b else a)"

definition str_of :: "json option \<Rightarrow> string" where
  "str_of v = (if v = None \<or> v = Some JNull then [] else js_string (the v))"

fun arr :: "json option \<Rightarrow> string list" where
  "arr (Some (JArr xs)) = map js_string (filter (\<lambda>x. x \<noteq> JNull) xs)"
| "arr _ = []"

definition num :: "json option \<Rightarrow> rat" where
  "num v = (case number_of v of Fin q \<Rightarrow> q | _ \<Rightarrow> 0)"

definition or_list :: "string list \<Rightarrow> string list \<Rightarrow> string list" where
  "or_list xs d = (if xs = [] then d else xs)"

definition purchase_spec :: "string \<Rightarrow> string list \<Rightarrow> string list \<Rightarrow> rat option \<Rightarrow> string \<Rightarrow> supplier_spec" where
  "purchase_spec i rails nets price currency = \<lparr>sp_supplierId = Some i, sp_adapterId = Some ''x402-purchase'',
     sp_capabilities = None, sp_workloads = Some [''x402-purchase''], sp_modes = Some [''PRE''],
     sp_rails = Some rails, sp_chains = Some nets, sp_health = None, sp_status = None, sp_latency = None,
     sp_basePrice = price, sp_currency = Some currency, sp_reputation = Some 50, sp_version = None\<rparr>"

definition normalize :: "json \<Rightarrow> string \<Rightarrow> found option" where
  "normalize raw source =
     (if \<not> is_object raw then None
      else
        let get = (\<lambda>k. jget k raw);
            url = str_of (or_json (get ''url'') (or_json (get ''resource'') (or_json (get ''endpoint'') (get ''uri''))));
            i = str_of (or_json (get ''id'') (or_json (get ''supplierId'') (or_json (get ''name'') (Some (JStr url)))))
        in if i = [] \<or> url = [] then None
           else Some \<lparr>fo_spec = purchase_spec (source @ '':'' @ i)
               (or_list (arr (or_json (get ''paymentRails'') (get ''rails''))) [''x402''])
               (or_list (arr (or_json (get ''chains'') (get ''networks''))) [''eip155:8453''])
               (Some (num (nullish (get ''price'') (nullish (get ''amount'') (get ''maxAmountRequired'')))))
               (str_of (or_json (get ''asset'') (or_json (get ''currency'') (Some (JStr ''USDC''))))),
             fo_url = url, fo_paymentMethods = arr (or_json (get ''paymentMethods'') (get ''methods'')),
             fo_protocols = or_list (arr (get ''protocols'')) [''x402''], fo_source = source, fo_marketMeta = None\<rparr>)"

definition EXTRACTORS :: "(string, string \<times> string) jsmap" where
  "EXTRACTORS = [(''agentic-market'', ''items'', ''resources''), (''x402scan'', ''resources'', ''data''),
     (''ampersend'', ''directory'', ''services''), (''paysh'', ''services'', ''items''), (''mcp-registry'', ''servers'', ''items'')]"

definition DEFAULT_ENDPOINTS :: "(string, string) jsmap" where
  "DEFAULT_ENDPOINTS = [(''agentic-market'', ''https://api.agentic.market/x402/resources''),
     (''x402scan'', ''https://x402scan.com/api/resources''), (''ampersend'', ''https://api.ampersend.io/directory''),
     (''paysh'', ''https://pay.sh/api/services''), (''mcp-registry'', ''https://registry.modelcontextprotocol.io/servers'')]"

text \<open>
  The list a \<open>for ... of\<close> loop runs over: the elements of an array; the characters of a text,
  none of which is an object; anything else that is truthy is not iterable.
\<close>

fun iterate :: "json option \<Rightarrow> string + json list" where
  "iterate (Some (JArr xs)) = Inr xs"
| "iterate (Some (JStr s)) = Inr (map (\<lambda>c. JStr [c]) s)"
| "iterate (Some v) = (if json_truthy v then Inl ''TypeError'' else Inr [])"
| "iterate None = Inr []"

definition extract_list :: "string \<times> string \<Rightarrow> json \<Rightarrow> string + json list" where
  "extract_list keys b =
     (if b = JNull then Inl ''TypeError''
      else iterate (or_json (jget (fst keys) b) (or_json (jget (snd keys) b) None)))"

definition no_records :: "string \<Rightarrow> source_result" where
  "no_records err = \<lparr>so_records = [], so_error = Some err\<rparr>"

definition http_error :: "fetched option \<Rightarrow> string" where
  "http_error r = ''http_'' @ (case r of None \<Rightarrow> ''no_response'' | Some f \<Rightarrow> int_to_string (fe_status f))"

definition source_discover :: "(string \<Rightarrow> ('w, fetched option) em) \<Rightarrow> string \<Rightarrow> string \<Rightarrow> string \<times> string \<Rightarrow> ('w, source_result) em" where
  "source_discover fetch name url keys =
     bindM (fetch url) (\<lambda>res.
     if res = None \<or> \<not> fe_ok (the res) then returnM (no_records (http_error res))
     else case fe_body (the res) of
       None \<Rightarrow> returnM (no_records ''bad_json'')
     | Some b \<Rightarrow> bindM (liftR (extract_list keys b)) (\<lambda>raws.
         returnM \<lparr>so_records = List.map_filter (\<lambda>raw. normalize raw name) raws, so_error = None\<rparr>))"

definition createSource :: "(string \<Rightarrow> ('w, fetched option) em) \<Rightarrow> string \<Rightarrow> string option \<Rightarrow> string + 'w source" where
  "createSource fetch name endpoint =
     (let url = or_str endpoint (coalesce (map_of DEFAULT_ENDPOINTS name) [])
      in case map_of EXTRACTORS name of
           None \<Rightarrow> Inl (''unknown discovery source '' @ [CHR 39] @ name @ [CHR 39])
         | Some keys \<Rightarrow>
             if url = [] then Inl (''unknown discovery source '' @ [CHR 39] @ name @ [CHR 39])
             else Inr \<lparr>src_name = name, src_discover = source_discover fetch name url keys\<rparr>)"

definition createAllSources :: "(string \<Rightarrow> ('w, fetched option) em) \<Rightarrow> (string \<Rightarrow> string option) \<Rightarrow> string + 'w source list" where
  "createAllSources fetch endpoints = mapR (\<lambda>name. createSource fetch name (endpoints name)) (map fst DEFAULT_ENDPOINTS)"

section \<open>The x402 Bazaar\<close>

definition slug_char :: "char \<Rightarrow> bool" where
  "slug_char c \<longleftrightarrow> (CHR ''a'' \<le> c \<and> c \<le> CHR ''z'') \<or> (CHR ''A'' \<le> c \<and> c \<le> CHR ''Z'') \<or> is_digit c \<or>
     c \<in> set ''._:/-''"

definition slug :: "string \<Rightarrow> string" where
  "slug s = take 120 (filter slug_char s)"

definition lower :: "char \<Rightarrow> char" where
  "lower c = (if CHR ''A'' \<le> c \<and> c \<le> CHR ''Z'' then char_of ((of_char c :: nat) + 32) else c)"

definition mentions_usd :: "string \<Rightarrow> bool" where
  "mentions_usd s \<longleftrightarrow> (\<exists>k \<in> {..length s}. take 3 (drop k (map lower s)) = ''usd'')"

definition assetCurrency :: "json \<Rightarrow> string" where
  "assetCurrency a =
     (case or_json (case jget ''extra'' a of Some e \<Rightarrow> jget ''name'' e | None \<Rightarrow> None) None of
        None \<Rightarrow> ''USDC''
      | Some n \<Rightarrow> if mentions_usd (js_string n) then ''USDC'' else js_string n)"

definition accept_amount :: "json \<Rightarrow> json option" where
  "accept_amount a = nullish (jget ''amount'' a) (jget ''maxAmountRequired'' a)"

definition acceptable :: "string \<Rightarrow> json \<Rightarrow> bool" where
  "acceptable network a \<longleftrightarrow> jget ''scheme'' a = Some (JStr ''exact'') \<and> jget ''network'' a = Some (JStr network) \<and>
     accept_amount a \<noteq> None \<and> accept_amount a \<noteq> Some JNull \<and> js_string (the (accept_amount a)) \<noteq> ''0''"

fun pickAccept :: "json option \<Rightarrow> string \<Rightarrow> json option" where
  "pickAccept (Some (JArr xs)) network = find (acceptable network) xs"
| "pickAccept _ network = None"

text \<open>\<open>(v || '').slice(0, n)\<close>: texts and arrays can be sliced, other truthy values throw.\<close>

fun sliced :: "nat \<Rightarrow> json option \<Rightarrow> string + json" where
  "sliced n (Some (JStr s)) = Inr (JStr (take n s))"
| "sliced n (Some (JArr xs)) = Inr (JArr (take n xs))"
| "sliced n (Some v) = (if json_truthy v then Inl ''TypeError'' else Inr (JStr []))"
| "sliced n None = Inr (JStr [])"

definition tags_of :: "json option \<Rightarrow> json" where
  "tags_of v = (case v of Some (JArr xs) \<Rightarrow> JArr (take 10 xs) | _ \<Rightarrow> JArr [])"

definition or_jnull :: "json option \<Rightarrow> json" where
  "or_jnull v = coalesce (or_json v None) JNull"

definition normalizeItem :: "json \<Rightarrow> string \<Rightarrow> string + found option" where
  "normalizeItem item network =
     (if \<not> is_object item then Inr None
      else
        let url = js_string (coalesce (or_json (jget ''resource'' item) None) (JStr []))
        in if \<not> http_url url then Inr None
           else case pickAccept (jget ''accepts'' item) network of
             None \<Rightarrow> Inr None
           | Some a \<Rightarrow>
               bindR (sliced 200 (or_json (jget ''description'' item) None)) (\<lambda>description.
               Inr (Some \<lparr>
                 fo_spec = purchase_spec (''cdp-bazaar:'' @ slug (js_string (coalesce (or_json (jget ''serviceName'' item) None) (JStr url))))
                   [''x402''] [network] (case number_of (accept_amount a) of Fin q \<Rightarrow> Some q | _ \<Rightarrow> None) (assetCurrency a),
                 fo_url = url, fo_paymentMethods = [''x402''], fo_protocols = [''x402''], fo_source = ''cdp-bazaar'',
                 fo_marketMeta = Some [(''serviceName'', or_jnull (jget ''serviceName'' item)), (''description'', description),
                   (''tags'', tags_of (jget ''tags'' item)), (''payTo'', or_jnull (jget ''payTo'' a)),
                   (''asset'', or_jnull (jget ''asset'' a)), (''lastUpdated'', or_jnull (jget ''lastUpdated'' item)),
                   (''url'', JStr url)]\<rparr>)))"

text \<open>The loop over the items: it stops when \<open>maxItems\<close> records are there, or when an item throws.\<close>

fun collect :: "string \<Rightarrow> nat \<Rightarrow> json list \<Rightarrow> found list \<Rightarrow> string + found list" where
  "collect network maxItems [] records = Inr records"
| "collect network maxItems (it # its) records =
     bindR (normalizeItem it network) (\<lambda>r.
     let records = (case r of None \<Rightarrow> records | Some f \<Rightarrow> records @ [f])
     in if length records \<ge> maxItems then Inr records else collect network maxItems its records)"

definition bazaar_items :: "json \<Rightarrow> string + json list" where
  "bazaar_items b =
     (case b of
        JArr xs \<Rightarrow> Inr xs
      | JNull \<Rightarrow> Inl ''TypeError''
      | _ \<Rightarrow> iterate (or_json (jget ''items'' b) None))"

definition bazaar_discover :: "(string \<Rightarrow> ('w, fetched option) em) \<Rightarrow> string \<Rightarrow> string \<Rightarrow> nat \<Rightarrow> ('w, source_result) em" where
  "bazaar_discover fetch url network maxItems =
     bindM (catchM (bindM (fetch url) (\<lambda>r. returnM (Inr r))) (\<lambda>e. returnM (Inl (''fetch_error:'' @ e)))) (\<lambda>res.
     case res of
       Inl e \<Rightarrow> returnM (no_records e)
     | Inr res \<Rightarrow>
         if res = None \<or> \<not> fe_ok (the res) then returnM (no_records (http_error res))
         else case fe_body (the res) of
           None \<Rightarrow> returnM (no_records ''bad_json'')
         | Some b \<Rightarrow> bindM (liftR (bindR (bazaar_items b) (\<lambda>items. collect network maxItems items []))) (\<lambda>records.
             returnM \<lparr>so_records = records, so_error = None\<rparr>))"

definition createBazaarSource :: "(string \<Rightarrow> ('w, fetched option) em) \<Rightarrow> string option \<Rightarrow> string \<Rightarrow> nat \<Rightarrow> 'w source" where
  "createBazaarSource fetch endpoint network maxItems =
     \<lparr>src_name = ''cdp-bazaar'',
      src_discover = bazaar_discover fetch
        (or_str endpoint ''https://api.cdp.coinbase.com/platform/v2/x402/discovery/resources'') network maxItems\<rparr>"

section \<open>What a record guarantees\<close>

text \<open>Records of a source carry its name in front of their identifier.\<close>

lemma normalize_id:
  "normalize raw source = Some f \<Longrightarrow>
   \<exists>i. i \<noteq> [] \<and> sp_supplierId (fo_spec f) = Some (source @ '':'' @ i) \<and> fo_source f = source \<and> fo_url f \<noteq> []"
  by (auto simp: normalize_def Let_def purchase_spec_def split: if_splits)

lemma prefix_determines:
  assumes "list_all (\<lambda>c. c \<noteq> CHR '':'') a" "list_all (\<lambda>c. c \<noteq> CHR '':'') b" "a @ '':'' @ x = b @ '':'' @ y"
  shows "a = b"
proof -
  have cut: "takeWhile (\<lambda>c. c \<noteq> CHR '':'') (s @ '':'' @ t) = s" if "list_all (\<lambda>c. c \<noteq> CHR '':'') s" for s t :: string
    using that by (induction s) auto
  from assms cut [of a x] cut [of b y] show ?thesis by simp
qed

lemma normalizeItem_payable:
  assumes "normalizeItem it network = Inr (Some f)"
  shows "http_url (fo_url f) \<and> sp_chains (fo_spec f) = Some [network] \<and>
    (\<exists>xs a. jget ''accepts'' it = Some (JArr xs) \<and> a \<in> set xs \<and> acceptable network a \<and>
       sp_basePrice (fo_spec f) = (case number_of (accept_amount a) of Fin q \<Rightarrow> Some q | _ \<Rightarrow> None))"
proof -
  have pick: "\<exists>xs. v = Some (JArr xs) \<and> a \<in> set xs \<and> acceptable network a" if "pickAccept v network = Some a" for v a
    using that by (induction v network rule: pickAccept.induct) (auto simp: find_Some_iff in_set_conv_nth)
  from assms show ?thesis
    by (fastforce simp: normalizeItem_def Let_def bindR_Inr_iff purchase_spec_def dest!: pick split: if_splits option.splits)
qed

lemma collect_records:
  assumes "collect network n its acc = Inr rs" and "f \<in> set rs"
  shows "f \<in> set acc \<or> (\<exists>it \<in> set its. normalizeItem it network = Inr (Some f))"
  using assms
proof (induction its arbitrary: acc)
  case (Cons it its)
  then show ?case
    by (fastforce simp: Let_def bindR_Inr_iff split: if_splits option.splits)
qed simp

lemma collect_bound:
  "collect network n its acc = Inr rs \<Longrightarrow> length acc < n \<Longrightarrow> length rs \<le> n"
  by (induction its arbitrary: acc) (auto simp: Let_def bindR_Inr_iff not_le split: if_splits option.splits)

section \<open>Properties\<close>

text \<open>
  Discovery sources cannot overwrite each other's suppliers. The identifiers of the records
  that two different sources of the five registries and the Bazaar give are different, so a
  registration never replaces a supplier of another source; and every record has an address.\<close>
theorem sources_do_not_collide:
  assumes "a \<in> set (''cdp-bazaar'' # map fst DEFAULT_ENDPOINTS)" and "b \<in> set (''cdp-bazaar'' # map fst DEFAULT_ENDPOINTS)"
    and "a \<noteq> b" and "normalize raw a = Some f"
    and "normalize raw' b = Some f' \<or> (b = ''cdp-bazaar'' \<and> normalizeItem raw' network = Inr (Some f'))"
  shows "sp_supplierId (fo_spec f) \<noteq> sp_supplierId (fo_spec f') \<and> fo_url f \<noteq> []"
proof -
  have plain: "list_all (\<lambda>c. c \<noteq> CHR '':'') s" if "s \<in> set (''cdp-bazaar'' # map fst DEFAULT_ENDPOINTS)" for s
    using that by (auto simp: DEFAULT_ENDPOINTS_def)
  obtain i where i: "sp_supplierId (fo_spec f) = Some (a @ '':'' @ i)" "fo_url f \<noteq> []"
    using normalize_id [OF assms(4)] by blast
  obtain k where "sp_supplierId (fo_spec f') = Some (b @ '':'' @ k)"
    using assms(5) normalize_id
    by (fastforce simp: normalizeItem_def Let_def bindR_Inr_iff purchase_spec_def split: if_splits option.splits)
  with i prefix_determines [of a b i k] plain assms(1-3) show ?thesis by auto
qed

theorem sources_do_not_collide_witness:
  "\<exists>f f'. normalize (JObj [(''url'', JStr ''u''), (''id'', JStr ''1'')]) ''paysh'' = Some f \<and>
     normalize (JObj [(''url'', JStr ''u''), (''id'', JStr ''1'')]) ''x402scan'' = Some f' \<and>
     sp_supplierId (fo_spec f) \<noteq> sp_supplierId (fo_spec f')"
proof -
  obtain f f' where f: "normalize (JObj [(''url'', JStr ''u''), (''id'', JStr ''1'')]) ''paysh'' = Some f"
    and f': "normalize (JObj [(''url'', JStr ''u''), (''id'', JStr ''1'')]) ''x402scan'' = Some f'"
    by (simp add: normalize_def Let_def or_json_def str_of_def)
  have "sp_supplierId (fo_spec f) \<noteq> sp_supplierId (fo_spec f') \<and> fo_url f \<noteq> []"
    by (rule sources_do_not_collide [OF _ _ _ f disjI1 [OF f']]) (simp_all add: DEFAULT_ENDPOINTS_def)
  with f f' show ?thesis by blast
qed

text \<open>
  What the Bazaar adds can be paid for. Every record it gives has an http or https address, is
  listed for the one network asked for, and its price is the amount of an \<open>exact\<close> offer on that
  network whose amount is there and is not 0; at most the configured number of records is taken.\<close>
theorem bazaar_records_payable:
  assumes "collect network maxItems items [] = Inr records" and "0 < maxItems"
  shows "length records \<le> maxItems \<and>
    (\<forall>f \<in> set records. http_url (fo_url f) \<and> sp_chains (fo_spec f) = Some [network] \<and>
       (\<exists>item \<in> set items. \<exists>xs a. jget ''accepts'' item = Some (JArr xs) \<and> a \<in> set xs \<and> acceptable network a \<and>
          sp_basePrice (fo_spec f) = (case number_of (accept_amount a) of Fin q \<Rightarrow> Some q | _ \<Rightarrow> None)))"
proof (intro conjI ballI)
  show "length records \<le> maxItems" using collect_bound assms by fastforce
next
  fix f assume "f \<in> set records"
  with collect_records [OF assms(1)] obtain it where it: "it \<in> set items" "normalizeItem it network = Inr (Some f)"
    by auto
  note p = normalizeItem_payable [OF it(2)]
  show "http_url (fo_url f)" "sp_chains (fo_spec f) = Some [network]" using p by blast+
  show "\<exists>item \<in> set items. \<exists>xs a. jget ''accepts'' item = Some (JArr xs) \<and> a \<in> set xs \<and> acceptable network a \<and>
          sp_basePrice (fo_spec f) = (case number_of (accept_amount a) of Fin q \<Rightarrow> Some q | _ \<Rightarrow> None)"
    using p it(1) by blast
qed

abbreviation sample_item :: json where
  "sample_item \<equiv> JObj [(''resource'', JStr ''https://a''), (''accepts'', JArr [JObj [(''scheme'', JStr ''exact''),
     (''network'', JStr ''n''), (''amount'', JNum 7)]])]"

theorem bazaar_records_payable_witness:
  "\<exists>f. collect ''n'' 500 [sample_item] [] = Inr [f] \<and> http_url (fo_url f)"
proof -
  have "map_sum id length (collect ''n'' 500 [sample_item] []) = Inr 1" by code_simp
  then obtain f where f: "collect ''n'' 500 [sample_item] [] = Inr [f]"
    by (cases "collect ''n'' 500 [sample_item] []") (auto simp: length_Suc_conv)
  from bazaar_records_payable [OF f] f show ?thesis by simp
qed

text \<open>
  One odd listing can silence the Bazaar. The source is meant to skip what it cannot read, but
  an item whose description is a number throws, and the whole answer is lost with it.\<close>
theorem bazaar_item_throws:
  "\<exists>odd. collect network maxItems (odd # items) [] = Inl ''TypeError''"
proof -
  have "int_to_string 7 \<noteq> ''0''" by code_simp
  then show ?thesis
    by (intro exI [of _ "JObj [(''resource'', JStr ''https://a''), (''description'', JNum 1), (''accepts'', JArr [JObj
        [(''scheme'', JStr ''exact''), (''network'', JStr network), (''amount'', JNum 7)]])]"])
      (simp add: normalizeItem_def or_json_def http_url_def acceptable_def accept_amount_def nullish_def Let_def)
qed

end
