(* ===== verification/Market_Agents.thy ===== *)
theory Market_Agents
  imports Market_Store Market_Sources
begin

text \<open>
  The agents of the market engine: \<^verbatim>\<open>vnext/market/discovery_agent.js\<close> registers what the sources
  find, \<^verbatim>\<open>vnext/market/benchmark_agent.js\<close> probes the suppliers and folds the measurements into
  the registry, \<^verbatim>\<open>vnext/market/market_admin_router.js\<close> reads both. A state is the world outside
  (the sources and the probed suppliers) and the market. The calls of a round share the readings
  of the clock.
\<close>

section \<open>Discovery\<close>

definition in_world :: "('w, 'a) em \<Rightarrow> ('w \<times> market, 'a) em" where
  "in_world f = (\<lambda>(w, m). case f w of (r, w') \<Rightarrow> (r, (w', m)))"

definition in_registry :: "(mpoint registry, 'a) em \<Rightarrow> ('w \<times> market, 'a) em" where
  "in_registry f = (\<lambda>(w, m). case f (mk_registry m) of (r, g) \<Rightarrow> (r, (w, m\<lparr>mk_registry := g\<rparr>)))"

definition in_store :: "(market \<Rightarrow> 'a \<times> market) \<Rightarrow> ('w \<times> market, 'a) em" where
  "in_store f = (\<lambda>(w, m). case f m of (x, m') \<Rightarrow> (Inr x, (w, m')))"

definition found_patch :: "found \<Rightarrow> market_patch" where
  "found_patch f = \<lparr>mp_paymentMethods = Some (fo_paymentMethods f), mp_protocols = Some (fo_protocols f),
     mp_successRate = None, mp_source = Some (fo_source f),
     mp_marketMeta = Some (coalesce (fo_marketMeta f) [(''url'', JStr (fo_url f))])\<rparr>"

text \<open>Registration of one record; an exception is logged and the record is not counted.\<close>

definition add_found :: "(string \<Rightarrow> string) \<Rightarrow> (mpayload \<Rightarrow> json) \<Rightarrow> readings \<Rightarrow> found \<Rightarrow> ('w \<times> market, nat) em" where
  "add_found sha pj clk f =
     catchM (bindM (in_registry (register sha pj clk (fo_spec f))) (\<lambda>s.
             bindM (in_registry (updateMetadata sha pj clk (coalesce (sp_supplierId (fo_spec f)) []) (found_patch f))) (\<lambda>_.
             returnM 1)))
       (\<lambda>_. returnM 0)"

fun add_records :: "(string \<Rightarrow> string) \<Rightarrow> (mpayload \<Rightarrow> json) \<Rightarrow> readings \<Rightarrow> found list \<Rightarrow> ('w \<times> market, nat) em" where
  "add_records sha pj clk [] = returnM 0"
| "add_records sha pj clk (f # fs) =
     bindM (add_found sha pj clk f) (\<lambda>n. bindM (add_records sha pj clk fs) (\<lambda>k. returnM (n + k)))"

record source_summary =
  ss_source :: string
  ss_discovered :: nat
  ss_added :: nat
  ss_error :: "string option"

definition discover_source :: "(string \<Rightarrow> string) \<Rightarrow> (mpayload \<Rightarrow> json) \<Rightarrow> readings \<Rightarrow> 'w source \<Rightarrow> ('w \<times> market, source_summary) em" where
  "discover_source sha pj clk src =
     bindM (catchM (in_world (src_discover src)) (\<lambda>e. returnM (no_records e))) (\<lambda>result.
     bindM (add_records sha pj clk (so_records result)) (\<lambda>added.
     bindM (in_store (recordDiscovery sha pj clk (src_name src) (length (so_records result)) added)) (\<lambda>_.
     bindM (modifyM (\<lambda>(w, m). (w, journal_point sha pj ''market:discovery'' ''DISCOVERY_SOURCE''
       (SourcePt (src_name src) (length (so_records result)) added (or_null (so_error result))) (clk 0) m))) (\<lambda>_.
     returnM \<lparr>ss_source = src_name src, ss_discovered = length (so_records result), ss_added = added,
              ss_error = or_null (so_error result)\<rparr>))))"

fun discover_all :: "(string \<Rightarrow> string) \<Rightarrow> (mpayload \<Rightarrow> json) \<Rightarrow> readings \<Rightarrow> 'w source list \<Rightarrow> ('w \<times> market, source_summary list) em" where
  "discover_all sha pj clk [] = returnM []"
| "discover_all sha pj clk (src # srcs) =
     bindM (discover_source sha pj clk src) (\<lambda>s. bindM (discover_all sha pj clk srcs) (\<lambda>ss. returnM (s # ss)))"

definition discoverOnce :: "(string \<Rightarrow> string) \<Rightarrow> (mpayload \<Rightarrow> json) \<Rightarrow> readings \<Rightarrow> 'w source list \<Rightarrow> ('w \<times> market, source_summary list \<times> nat) em" where
  "discoverOnce sha pj clk srcs =
     bindM (discover_all sha pj clk srcs) (\<lambda>summary. returnM (summary, sum_list (map ss_added summary)))"

section \<open>Benchmarks\<close>

record probe =
  pb_ok :: bool
  pb_error :: "string option"
  pb_latencyMs :: "rat option"
  pb_price :: "rat option"
  pb_currency :: "string option"
  pb_successRate :: "rat option"
  pb_availability :: "rat option"
  pb_paymentMethods :: "string list option"
  pb_protocols :: "string list option"

definition failed_probe :: "string \<Rightarrow> probe" where
  "failed_probe e = \<lparr>pb_ok = False, pb_error = Some e, pb_latencyMs = None, pb_price = None, pb_currency = None,
     pb_successRate = None, pb_availability = None, pb_paymentMethods = None, pb_protocols = None\<rparr>"

definition median :: "rat list \<Rightarrow> rat option" where
  "median nums =
     (let a = sort nums; m = length a div 2
      in if a = [] then None
         else if length a mod 2 = 1 then Some (a ! m) else Some ((a ! (m - 1) + a ! m) / 2))"

fun probe_all :: "(supplier \<Rightarrow> ('w, probe option) em) \<Rightarrow> supplier list \<Rightarrow> ('w \<times> market, (supplier \<times> probe option) list) em" where
  "probe_all prober [] = returnM []"
| "probe_all prober (s # ss) =
     bindM (catchM (in_world (prober s)) (\<lambda>e. returnM (Some (failed_probe e)))) (\<lambda>r.
     bindM (probe_all prober ss) (\<lambda>rs. returnM ((s, r) # rs)))"

definition market_median :: "(supplier \<times> probe option) list \<Rightarrow> rat option" where
  "market_median results = median (List.map_filter (\<lambda>(s, r). case r of
     Some p \<Rightarrow> if pb_ok p then pb_price p else None | None \<Rightarrow> None) results)"

definition on_some :: "'a option \<Rightarrow> ('a \<Rightarrow> ('s, unit) em) \<Rightarrow> ('s, unit) em" where
  "on_some x f = (case x of None \<Rightarrow> returnM () | Some y \<Rightarrow> f y)"

definition doM :: "('s, 'a) em \<Rightarrow> ('s, unit) em" where
  "doM f = bindM f (\<lambda>_. returnM ())"

definition bench_failed ::
  "(string \<Rightarrow> string) \<Rightarrow> (mpayload \<Rightarrow> json) \<Rightarrow> readings \<Rightarrow> rat \<Rightarrow> supplier \<Rightarrow> string option \<Rightarrow> ('w \<times> market, bench_metrics) em" where
  "bench_failed sha pj clk alpha s err =
     (let i = sup_supplierId s; decayed = decayReputation (sup_reputation s) 0 alpha;
          metrics = \<lparr>bm_ok = False, bm_error = Some (or_str err ''probe_failed''), bm_price = None, bm_latencyMs = None,
            bm_availability = None, bm_successRate = None, bm_healthScore = 0, bm_reputation = decayed, bm_breakdown = None\<rparr>
      in bindM (in_registry (updateHealth sha pj clk i (Some ''degraded'') (Some ''degraded'') (Some ''benchmark_fail''))) (\<lambda>_.
         bindM (in_registry (updateReputation sha pj clk i (Some (of_int decayed)))) (\<lambda>_.
         bindM (in_store (recordBenchmark sha pj clk i metrics)) (\<lambda>_.
         returnM metrics))))"

definition probe_metrics :: "probe \<Rightarrow> rat option \<Rightarrow> health_metrics" where
  "probe_metrics r med = \<lparr>hm_availability = Some (coalesce (pb_availability r) 1),
     hm_successRate = Some (coalesce (pb_successRate r) 1), hm_latencyMs = pb_latencyMs r, hm_price = pb_price r,
     hm_marketMedianPrice = med\<rparr>"

definition probe_patch :: "probe \<Rightarrow> market_patch" where
  "probe_patch r = \<lparr>mp_paymentMethods = pb_paymentMethods r, mp_protocols = pb_protocols r,
     mp_successRate = Some (coalesce (pb_successRate r) 1), mp_source = None, mp_marketMeta = None\<rparr>"

definition bench_ok ::
  "(string \<Rightarrow> string) \<Rightarrow> (mpayload \<Rightarrow> json) \<Rightarrow> (rat \<Rightarrow> string) \<Rightarrow> readings \<Rightarrow> rat \<Rightarrow> rat option \<Rightarrow> supplier \<Rightarrow> probe \<Rightarrow> ('w \<times> market, bench_metrics) em" where
  "bench_ok sha pj txt clk alpha med s r =
     (let i = sup_supplierId s; availability = coalesce (pb_availability r) 1; currency = Some (or_str (pb_currency r) (sup_currency s));
          (score, breakdown) = computeHealthScore (probe_metrics r med);
          newRep = decayReputation (sup_reputation s) (of_int score) alpha;
          metrics = \<lparr>bm_ok = True, bm_error = None, bm_price = map_option txt (pb_price r), bm_latencyMs = pb_latencyMs r,
            bm_availability = Some availability, bm_successRate = Some (coalesce (pb_successRate r) 1), bm_healthScore = score,
            bm_reputation = newRep, bm_breakdown = Some breakdown\<rparr>
      in bindM (on_some (pb_price r) (\<lambda>p. doM (in_registry (updatePrice sha pj clk i (Some p) currency)))) (\<lambda>_.
         bindM (on_some (pb_latencyMs r) (\<lambda>l. doM (in_registry (heartbeat sha pj clk i (Some l) None)))) (\<lambda>_.
         bindM (in_registry (updateHealth sha pj clk i (Some (if availability \<ge> 1 / 2 then ''healthy'' else ''degraded''))
                  (Some ''healthy'') None)) (\<lambda>_.
         bindM (if pb_paymentMethods r \<noteq> None \<or> pb_protocols r \<noteq> None \<or> pb_successRate r \<noteq> None
                then doM (in_registry (updateMetadata sha pj clk i (probe_patch r))) else returnM ()) (\<lambda>_.
         bindM (in_registry (updateReputation sha pj clk i (Some (of_int newRep)))) (\<lambda>_.
         bindM (on_some (pb_price r) (\<lambda>p. doM (in_store (recordPrice sha pj txt clk i p currency)))) (\<lambda>_.
         bindM (on_some (pb_latencyMs r) (\<lambda>l. doM (in_store (recordLatency sha pj clk i l)))) (\<lambda>_.
         bindM (in_store (recordBenchmark sha pj clk i metrics)) (\<lambda>_.
         returnM metrics)))))))))"

definition bench_one ::
  "(string \<Rightarrow> string) \<Rightarrow> (mpayload \<Rightarrow> json) \<Rightarrow> (rat \<Rightarrow> string) \<Rightarrow> readings \<Rightarrow> rat \<Rightarrow> rat option \<Rightarrow> supplier \<times> probe option \<Rightarrow> ('w \<times> market, bench_metrics) em" where
  "bench_one sha pj txt clk alpha med sr =
     (case sr of
        (s, None) \<Rightarrow> bench_failed sha pj clk alpha s None
      | (s, Some r) \<Rightarrow> if pb_ok r then bench_ok sha pj txt clk alpha med s r else bench_failed sha pj clk alpha s (pb_error r))"

fun bench_all ::
  "(string \<Rightarrow> string) \<Rightarrow> (mpayload \<Rightarrow> json) \<Rightarrow> (rat \<Rightarrow> string) \<Rightarrow> readings \<Rightarrow> rat \<Rightarrow> rat option \<Rightarrow> (supplier \<times> probe option) list
    \<Rightarrow> ('w \<times> market, (string \<times> bench_metrics) list) em" where
  "bench_all sha pj txt clk alpha med [] = returnM []"
| "bench_all sha pj txt clk alpha med (sr # srs) =
     bindM (bench_one sha pj txt clk alpha med sr) (\<lambda>b.
     bindM (bench_all sha pj txt clk alpha med srs) (\<lambda>bs. returnM ((sup_supplierId (fst sr), b) # bs)))"

definition benchmarkOnce ::
  "(string \<Rightarrow> string) \<Rightarrow> (mpayload \<Rightarrow> json) \<Rightarrow> (rat \<Rightarrow> string) \<Rightarrow> readings \<Rightarrow> rat \<Rightarrow> (supplier \<Rightarrow> ('w, probe option) em) \<Rightarrow> string option
    \<Rightarrow> ('w \<times> market, rat option \<times> (string \<times> bench_metrics) list) em" where
  "benchmarkOnce sha pj txt clk alpha prober workload =
     bindM (getM (\<lambda>(w, m). list_suppliers None workload (mk_registry m))) (\<lambda>suppliers.
     bindM (probe_all prober suppliers) (\<lambda>results.
     bindM (bench_all sha pj txt clk alpha (market_median results) results) (\<lambda>report.
     returnM (market_median results, report))))"

section \<open>The administrative reads\<close>

definition countBySource :: "supplier list \<Rightarrow> (string, nat) jsmap" where
  "countBySource ss = foldl (\<lambda>out s. let k = or_str (sup_source s) ''unknown''
     in mset_key k (coalesce (map_of out k) 0 + 1) out) [] ss"

definition meta_of :: "string \<Rightarrow> supplier \<Rightarrow> json" where
  "meta_of k s = (case marketMeta s of None \<Rightarrow> JNull | Some m \<Rightarrow> or_jnull (map_of m k))"

record ranking =
  rk_supplierId :: string
  rk_source :: "string option"
  rk_status :: string
  rk_reputation :: rat
  rk_price :: rat
  rk_currency :: string
  rk_latencyMs :: rat
  rk_availability :: rat
  rk_successRate :: "rat option"
  rk_paymentMethods :: "string list"
  rk_protocols :: "string list"
  rk_serviceName :: json
  rk_url :: json
  rk_lastUpdated :: json

definition to_ranking :: "supplier \<Rightarrow> ranking" where
  "to_ranking s = \<lparr>rk_supplierId = sup_supplierId s, rk_source = or_null (sup_source s), rk_status = sup_status s,
     rk_reputation = sup_reputation s, rk_price = basePrice s, rk_currency = sup_currency s, rk_latencyMs = sup_latency s,
     rk_availability = sup_availability s, rk_successRate = successRate s,
     rk_paymentMethods = coalesce (paymentMethods s) [], rk_protocols = coalesce (protocols s) [],
     rk_serviceName = meta_of ''serviceName'' s, rk_url = meta_of ''url'' s, rk_lastUpdated = meta_of ''lastUpdated'' s\<rparr>"

text \<open>\<open>Math.min(500, Math.max(1, Number(limit) || 100))\<close>, cut to a whole number by \<open>slice\<close>.\<close>

definition rank_limit :: "jsnum \<Rightarrow> nat" where
  "rank_limit limit =
     (case limit of
        NaN \<Rightarrow> 100
      | PosInf \<Rightarrow> 500
      | NegInf \<Rightarrow> 1
      | Fin q \<Rightarrow> if q = 0 then 100 else nat \<lfloor>min 500 (max 1 q)\<rfloor>)"

definition rankings :: "string option \<Rightarrow> jsnum \<Rightarrow> market \<Rightarrow> ranking list \<times> (string, nat) jsmap" where
  "rankings workload limit m =
     (let ss = list_suppliers None workload (mk_registry m)
      in (take (rank_limit limit) (sort_key (\<lambda>r. (- rk_reputation r, rk_price r)) (map to_ranking ss)), countBySource ss))"

section \<open>What an operation does to one supplier\<close>

abbreviation sups :: "market \<Rightarrow> (string, supplier) jsmap" where
  "sups m \<equiv> reg_suppliers (mk_registry m)"

text \<open>
  \<open>touches i f P op\<close>: on a market that has the supplier \<open>i\<close>, \<open>op\<close> returns a value in \<open>P\<close>, leaves the
  world alone and changes that supplier by \<open>f\<close> and no other.
\<close>

definition touches :: "string \<Rightarrow> (supplier \<Rightarrow> supplier) \<Rightarrow> ('a \<Rightarrow> bool) \<Rightarrow> ('w \<times> market, 'a) em \<Rightarrow> bool" where
  "touches i f P op \<longleftrightarrow>
     (\<forall>w m s. map_of (sups m) i = Some s \<and> sup_supplierId s = i \<longrightarrow>
        (\<exists>x m'. op (w, m) = (Inr x, (w, m')) \<and> P x \<and> sup_supplierId (f s) = i \<and>
           map_of (sups m') = (map_of (sups m))(i \<mapsto> f s)))"

lemma touches_bind:
  assumes "touches i f (\<lambda>_. True) op" and "\<And>x. touches i g Q (k x)"
  shows "touches i (g \<circ> f) Q (bindM op k)"
  unfolding touches_def
proof (intro allI impI)
  fix w m s assume "map_of (sups m) i = Some s \<and> sup_supplierId s = i"
  with assms(1) obtain x m' where op: "op (w, m) = (Inr x, (w, m'))" "sup_supplierId (f s) = i"
    "map_of (sups m') = (map_of (sups m))(i \<mapsto> f s)" unfolding touches_def by blast
  then have "map_of (sups m') i = Some (f s) \<and> sup_supplierId (f s) = i" by simp
  with assms(2) [of x] obtain y m'' where "k x (w, m') = (Inr y, (w, m''))" "Q y" "sup_supplierId (g (f s)) = i"
    "map_of (sups m'') = (map_of (sups m'))(i \<mapsto> g (f s))" unfolding touches_def by blast
  with op show "\<exists>x m'. bindM op k (w, m) = (Inr x, (w, m')) \<and> Q x \<and> sup_supplierId ((g \<circ> f) s) = i \<and>
      map_of (sups m') = (map_of (sups m))(i \<mapsto> (g \<circ> f) s)"
    by (simp add: bindM_def)
qed

lemma touches_return: "P x \<Longrightarrow> touches i id P (returnM x)"
  by (auto simp: touches_def returnM_def)

lemma touches_do: "touches i f (\<lambda>_. True) op \<Longrightarrow> touches i f (\<lambda>_. True) (doM op)"
  using touches_bind [of i f op id "\<lambda>_. True" "\<lambda>_. returnM ()"] touches_return [of "\<lambda>_. True" "()" i]
  by (simp add: doM_def)

lemma touches_some:
  "(\<And>y. touches i (f y) (\<lambda>_. True) (op y)) \<Longrightarrow>
   touches i (case x of None \<Rightarrow> id | Some y \<Rightarrow> f y) (\<lambda>_. True) (on_some x op)"
  by (cases x) (simp_all add: on_some_def touches_return)

lemma touches_store:
  "(\<And>m. sups (snd (op m)) = sups m) \<Longrightarrow> touches i id (\<lambda>_. True) (in_store op)"
  by (auto simp: touches_def in_store_def case_prod_beta map_upd_triv)

lemma touches_mutate:
  "(\<And>s. sup_supplierId (f s) = sup_supplierId s) \<Longrightarrow>
   touches i f (\<lambda>_. True) (in_registry (mutate sha pj op ts f i))"
  by (auto simp: touches_def in_registry_def mutate_def require_def store_and_record_def record_op_def)

lemma touches_registry:
  "touches i (set_price p c (clk 0)) (\<lambda>_. True) (in_registry (updatePrice sha pj clk i p c))"
  "touches i (beat l ts clk) (\<lambda>_. True) (in_registry (heartbeat sha pj clk i l ts))"
  "touches i (set_health st h r clk) (\<lambda>_. True) (in_registry (updateHealth sha pj clk i st h r))"
  "touches i (patch_metadata mp (clk 0)) (\<lambda>_. True) (in_registry (updateMetadata sha pj clk i mp))"
  "touches i (\<lambda>s. s\<lparr>sup_reputation := clampQ 0 100 q, updatedAt := clk 0\<rparr>) (\<lambda>_. True)
     (in_registry (updateReputation sha pj clk i (Some q)))"
  unfolding updatePrice_def heartbeat_def updateHealth_def updateMetadata_def updateReputation_def
  by (simp_all add: touches_mutate set_price_def beat_def set_health_def patch_metadata_def Let_def split: option.splits)

lemma record_sups:
  "sups (snd (recordPrice sha pj txt clk i p c m)) = sups m"
  "sups (snd (recordLatency sha pj clk i l m)) = sups m"
  "sups (snd (recordBenchmark sha pj clk i b m)) = sups m"
  "sups (snd (recordDiscovery sha pj clk src n k m)) = sups m"
  "sups (journal_point sha pj t ph x ts m) = sups m"
  by (simp_all add: record_defs)

lemma touches_if:
  "touches i f P op \<Longrightarrow> touches i g P op' \<Longrightarrow> touches i (if c then f else g) P (if c then op else op')"
  by simp

lemmas touch_rules = touches_bind touches_do touches_some touches_store touches_registry touches_if
  record_sups touches_return TrueI refl

section \<open>One benchmark\<close>

text \<open>The state of a benchmarked supplier, and what the report says of it.\<close>

definition benched :: "supplier \<Rightarrow> bench_metrics \<Rightarrow> bool" where
  "benched t b \<longleftrightarrow> sup_reputation t = of_int (bm_reputation b) \<and> 0 \<le> bm_reputation b \<and> bm_reputation b \<le> 100 \<and>
     sup_status t = (if bm_ok b \<and> coalesce (bm_availability b) 1 \<ge> 1 / 2 then HEALTHY else DEGRADED)"

lemma decay_clamped: "clampQ 0 100 (of_int (decayReputation c x a)) = of_int (decayReputation c x a)"
  using decay_range [of c x a] by (simp add: clampQ_def)

lemma set_health_status: "x \<noteq> [] \<Longrightarrow> sup_status (set_health (Some x) h r clk s) = x"
  by (simp add: set_health_def Let_def truthy_def split: option.splits)

text \<open>\<open>benches s ok op\<close>: \<open>op\<close> reports on \<open>s\<close> and leaves it as the report says.\<close>

definition benches :: "supplier \<Rightarrow> bool \<Rightarrow> ('w \<times> market, bench_metrics) em \<Rightarrow> bool" where
  "benches s ok op \<longleftrightarrow> (\<exists>f b. touches (sup_supplierId s) f (\<lambda>x. x = b) op \<and> (\<forall>t. benched (f t) b) \<and> bm_ok b = ok)"

lemma benchesI:
  "touches (sup_supplierId s) f (\<lambda>x. x = b) op \<Longrightarrow> (\<And>t. benched (f t) b) \<Longrightarrow> bm_ok b = ok \<Longrightarrow> benches s ok op"
  by (auto simp: benches_def)

lemma bench_failed_benches: "benches s False (bench_failed sha pj clk alpha s err)"
  unfolding bench_failed_def Let_def
  by (rule benchesI, (rule touch_rules)+)
    (simp_all add: benched_def decay_clamped decay_range set_health_status DEGRADED_def)

lemma bench_ok_benches: "benches s True (bench_ok sha pj txt clk alpha med s r)"
proof -
  obtain score breakdown where sc: "computeHealthScore (probe_metrics r med) = (score, breakdown)" by fastforce
  show ?thesis
    unfolding bench_ok_def Let_def sc case_prod_conv
    by (rule benchesI, (rule touch_rules)+)
      (simp_all add: benched_def decay_clamped decay_range set_health_status patch_metadata_def HEALTHY_def DEGRADED_def
        split: option.splits)
qed

definition probe_ok :: "probe option \<Rightarrow> bool" where
  "probe_ok r \<longleftrightarrow> (case r of None \<Rightarrow> False | Some p \<Rightarrow> pb_ok p)"

lemma bench_one_benches:
  "benches s (probe_ok r) (bench_one sha pj txt clk alpha med (s, r))"
  by (simp add: bench_one_def probe_ok_def bench_failed_benches bench_ok_benches split: option.splits)

section \<open>A round\<close>

lemma bench_all_round:
  fixes w :: 'w
  assumes "distinct (map (\<lambda>x. sup_supplierId (fst x)) srs)"
    and "\<forall>(s, r) \<in> set srs. map_of (sups m) (sup_supplierId s) = Some s"
  shows "\<exists>report m'. bench_all sha pj txt clk alpha med srs (w, m) = (Inr report, (w, m')) \<and>
    map fst report = map (\<lambda>x. sup_supplierId (fst x)) srs \<and>
    map (\<lambda>x. bm_ok (snd x)) report = map (\<lambda>x. probe_ok (snd x)) srs \<and>
    (\<forall>(i, b) \<in> set report. \<exists>t. map_of (sups m') i = Some t \<and> benched t b) \<and>
    (\<forall>i. i \<notin> set (map fst report) \<longrightarrow> map_of (sups m') i = map_of (sups m) i)"
  using assms
proof (induction srs arbitrary: m)
  case Nil
  show ?case by (simp add: returnM_def)
next
  case (Cons sr srs)
  obtain s r where sr: "sr = (s, r)" by fastforce
  let ?i = "sup_supplierId s"
  obtain f b where t: "touches ?i f (\<lambda>x. x = b) (bench_one sha pj txt clk alpha med sr :: ('w \<times> market, bench_metrics) em)"
    and fb: "\<And>t. benched (f t) b" and ok: "bm_ok b = probe_ok r"
    using bench_one_benches [of s r sha pj "txt" clk alpha med] unfolding benches_def sr by blast
  have "map_of (sups m) ?i = Some s" using Cons.prems sr by simp
  with t obtain m1 where one: "bench_one sha pj txt clk alpha med sr (w, m) = (Inr b, (w, m1))"
    "map_of (sups m1) = (map_of (sups m))(?i \<mapsto> f s)" unfolding touches_def by blast
  have kept: "map_of (sups m1) (sup_supplierId s') = Some s'" if "(s', r') \<in> set srs" for s' r'
  proof -
    have "sup_supplierId s' \<noteq> ?i" using Cons.prems(1) that sr by (force simp: image_iff)
    moreover have "map_of (sups m) (sup_supplierId s') = Some s'" using Cons.prems(2) that by auto
    ultimately show ?thesis using one(2) by simp
  qed
  have "distinct (map (\<lambda>x. sup_supplierId (fst x)) srs)" using Cons.prems(1) by simp
  moreover have "\<forall>(s, r) \<in> set srs. map_of (sups m1) (sup_supplierId s) = Some s" using kept by auto
  ultimately obtain report m' where rest: "bench_all sha pj txt clk alpha med srs (w, m1) = (Inr report, (w, m'))"
    "map fst report = map (\<lambda>x. sup_supplierId (fst x)) srs"
    "map (\<lambda>x. bm_ok (snd x)) report = map (\<lambda>x. probe_ok (snd x)) srs"
    "\<forall>(i, b) \<in> set report. \<exists>t. map_of (sups m') i = Some t \<and> benched t b"
    "\<forall>i. i \<notin> set (map fst report) \<longrightarrow> map_of (sups m') i = map_of (sups m1) i"
    using Cons.IH [of m1] by blast
  have "?i \<notin> set (map fst report)" using Cons.prems(1) rest(2) sr by simp
  then have "map_of (sups m') ?i = Some (f s)" using rest(5) one(2) by simp
  with one rest fb ok show ?case
    by (intro exI [of _ "(?i, b) # report"] exI [of _ m']) (simp add: bindM_def returnM_def sr; force)
qed

lemma probe_all_world:
  "\<exists>rs w'. probe_all prober ss (w, m) = (Inr rs, (w', m)) \<and> map fst rs = ss"
proof (induction ss arbitrary: w)
  case Nil
  show ?case by (simp add: returnM_def)
next
  case (Cons s ss)
  obtain r w1 where "catchM (in_world (prober s)) (\<lambda>e. returnM (Some (failed_probe e))) (w, m) = (Inr r, (w1, m))"
    by (cases "prober s w"; cases "fst (prober s w)") (auto simp: catchM_def in_world_def returnM_def)
  with Cons [of w1] show ?case by (auto simp: bindM_def returnM_def)
qed

lemma listed_suppliers:
  assumes "reg_inv g"
  shows "distinct (map sup_supplierId (list_suppliers st wl g)) \<and>
    (\<forall>s \<in> set (list_suppliers st wl g). map_of (reg_suppliers g) (sup_supplierId s) = Some s)"
proof -
  have ids: "map sup_supplierId (map snd (reg_suppliers g)) = map fst (reg_suppliers g)" and d: "mwf (reg_suppliers g)"
    using assms by (auto simp: reg_inv_def)
  have "distinct (map sup_supplierId (map snd (reg_suppliers g)))" by (subst ids) (rule d)
  then have "distinct (map sup_supplierId (list_suppliers st wl g))"
    unfolding list_suppliers_def Let_def by (auto intro: distinct_map_filter)
  moreover have "map_of (reg_suppliers g) (sup_supplierId s) = Some s" if "s \<in> set (map snd (reg_suppliers g))" for s
    using that assms d by (auto simp: reg_inv_def)
  ultimately show ?thesis by (auto simp: list_suppliers_def Let_def split: if_splits)
qed

section \<open>One discovery\<close>

lemma add_found_registers:
  assumes "sp_supplierId (fo_spec f) = Some i" and "sp_adapterId (fo_spec f) \<noteq> None"
  shows "\<exists>m'. add_found sha pj clk f (w, m) = (Inr 1, (w, m')) \<and>
    map_of (sups m') = (map_of (sups m))(i \<mapsto> patch_metadata (found_patch f) (clk 0) (build_supplier (fo_spec f) (clk 0)))"
  using assms
  by (auto simp: add_found_def catchM_def bindM_def returnM_def in_registry_def register_def updateMetadata_def mutate_def
      require_def store_and_record_def record_op_def Let_def build_supplier_def patch_metadata_def)

lemma add_found_total:
  "\<exists>n m'. add_found sha pj clk f (w, m) = (Inr n, (w, m')) \<and> n \<le> 1 \<and> dom (map_of (sups m)) \<subseteq> dom (map_of (sups m'))"
proof (cases "sp_supplierId (fo_spec f) = None \<or> sp_adapterId (fo_spec f) = None")
  case True
  then show ?thesis
    by (auto simp: add_found_def catchM_def bindM_def returnM_def in_registry_def register_def)
next
  case False
  then obtain i where "sp_supplierId (fo_spec f) = Some i" "sp_adapterId (fo_spec f) \<noteq> None" by auto
  from add_found_registers [OF this, of sha pj clk w m] show ?thesis by auto
qed

definition well_formed :: "found \<Rightarrow> bool" where
  "well_formed f \<longleftrightarrow> sp_supplierId (fo_spec f) \<noteq> None \<and> sp_adapterId (fo_spec f) \<noteq> None \<and> sp_status (fo_spec f) = None"

lemma add_records_total:
  "\<exists>n m'. add_records sha pj clk fs (w, m) = (Inr n, (w, m')) \<and> n \<le> length fs \<and> dom (map_of (sups m)) \<subseteq> dom (map_of (sups m'))"
proof (induction fs arbitrary: m)
  case Nil
  show ?case by (simp add: returnM_def)
next
  case (Cons f fs)
  obtain n m1 where "add_found sha pj clk f (w, m) = (Inr n, (w, m1))" "n \<le> 1" "dom (map_of (sups m)) \<subseteq> dom (map_of (sups m1))"
    using add_found_total [of sha pj clk f w m] by blast
  moreover obtain k m' where "add_records sha pj clk fs (w, m1) = (Inr k, (w, m'))" "k \<le> length fs"
    "dom (map_of (sups m1)) \<subseteq> dom (map_of (sups m'))"
    using Cons.IH [of m1] by blast
  ultimately show ?case by (fastforce simp: bindM_def returnM_def)
qed

lemma add_records_routable:
  assumes "\<forall>f \<in> set fs. well_formed f"
  shows "\<exists>m'. add_records sha pj clk fs (w, m) = (Inr (length fs), (w, m')) \<and>
    (\<forall>f \<in> set fs. \<exists>t. map_of (sups m') (the (sp_supplierId (fo_spec f))) = Some t \<and> sup_status t = HEALTHY \<and> sup_availability t = 1) \<and>
    (\<forall>i t. map_of (sups m) i = Some t \<and> sup_status t = HEALTHY \<and> sup_availability t = 1 \<longrightarrow>
       (\<exists>t. map_of (sups m') i = Some t \<and> sup_status t = HEALTHY \<and> sup_availability t = 1))"
  using assms
proof (induction fs arbitrary: m)
  case Nil
  show ?case by (simp add: returnM_def)
next
  case (Cons f fs)
  let ?up = "\<lambda>m i. \<exists>t. map_of (sups m) i = Some t \<and> sup_status t = HEALTHY \<and> sup_availability t = 1"
  obtain i where i: "sp_supplierId (fo_spec f) = Some i" "sp_adapterId (fo_spec f) \<noteq> None" "sp_status (fo_spec f) = None"
    using Cons.prems by (auto simp: well_formed_def)
  let ?t = "patch_metadata (found_patch f) (clk 0) (build_supplier (fo_spec f) (clk 0))"
  obtain m1 where m1: "add_found sha pj clk f (w, m) = (Inr 1, (w, m1))" "map_of (sups m1) = (map_of (sups m))(i \<mapsto> ?t)"
    using add_found_registers [OF i(1,2), of sha pj clk w m] by blast
  have t: "sup_status ?t = HEALTHY" "sup_availability ?t = 1"
    using i(3) by (simp_all add: patch_metadata_def build_supplier_def Let_def availability_of_def)
  obtain m' where m': "add_records sha pj clk fs (w, m1) = (Inr (length fs), (w, m'))"
    "\<forall>f \<in> set fs. ?up m' (the (sp_supplierId (fo_spec f)))" "\<forall>k. ?up m1 k \<longrightarrow> ?up m' k"
    using Cons.IH [of m1] Cons.prems by auto
  have "?up m1 i" and "\<forall>k. ?up m k \<longrightarrow> ?up m1 k" using m1(2) t by auto
  with m1(1) m' i(1) show ?case by (auto simp: bindM_def returnM_def)
qed

lemma discover_source_total:
  "\<exists>sm w' m'. discover_source sha pj clk src (w, m) = (Inr sm, (w', m')) \<and> ss_source sm = src_name src \<and>
     ss_added sm \<le> ss_discovered sm \<and> dom (map_of (sups m)) \<subseteq> dom (map_of (sups m'))"
proof -
  obtain r w1 where r: "catchM (in_world (src_discover src)) (\<lambda>e. returnM (no_records e)) (w, m) = (Inr r, (w1, m))"
    by (cases "src_discover src w"; cases "fst (src_discover src w)") (auto simp: catchM_def in_world_def returnM_def)
  obtain n m1 where "add_records sha pj clk (so_records r) (w1, m) = (Inr n, (w1, m1))" "n \<le> length (so_records r)"
    "dom (map_of (sups m)) \<subseteq> dom (map_of (sups m1))"
    using add_records_total [of sha pj clk "so_records r" w1 m] by blast
  with r show ?thesis
    by (simp add: discover_source_def bindM_def returnM_def modifyM_def in_store_def case_prod_beta record_sups)
qed

lemma discover_all_total:
  "\<exists>sms w' m'. discover_all sha pj clk srcs (w, m) = (Inr sms, (w', m')) \<and> map ss_source sms = map src_name srcs \<and>
     (\<forall>sm \<in> set sms. ss_added sm \<le> ss_discovered sm) \<and> dom (map_of (sups m)) \<subseteq> dom (map_of (sups m'))"
proof (induction srcs arbitrary: w m)
  case Nil
  show ?case by (simp add: returnM_def)
next
  case (Cons src srcs)
  obtain sm w1 m1 where one: "discover_source sha pj clk src (w, m) = (Inr sm, (w1, m1))" "ss_source sm = src_name src"
    "ss_added sm \<le> ss_discovered sm" "dom (map_of (sups m)) \<subseteq> dom (map_of (sups m1))"
    using discover_source_total [of sha pj clk src w m] by blast
  obtain sms w' m' where rest: "discover_all sha pj clk srcs (w1, m1) = (Inr sms, (w', m'))" "map ss_source sms = map src_name srcs"
    "\<forall>sm \<in> set sms. ss_added sm \<le> ss_discovered sm" "dom (map_of (sups m1)) \<subseteq> dom (map_of (sups m'))"
    using Cons.IH [of w1 m1] by blast
  show ?case
    by (intro exI [of _ "sm # sms"] exI [of _ w'] exI [of _ m']) (use one rest in \<open>auto simp: bindM_def returnM_def\<close>)
qed

lemma discover_source_routable:
  assumes "src_discover src w = (Inr r, w1)" and "\<forall>f \<in> set (so_records r). well_formed f"
  shows "\<exists>sm m'. discover_source sha pj clk src (w, m) = (Inr sm, (w1, m')) \<and>
    ss_added sm = length (so_records r) \<and>
    (\<forall>f \<in> set (so_records r). \<exists>t. map_of (sups m') (the (sp_supplierId (fo_spec f))) = Some t \<and>
       sup_status t = HEALTHY \<and> sup_availability t = 1)"
proof -
  obtain m1 where "add_records sha pj clk (so_records r) (w1, m) = (Inr (length (so_records r)), (w1, m1))"
    "\<forall>f \<in> set (so_records r). \<exists>t. map_of (sups m1) (the (sp_supplierId (fo_spec f))) = Some t \<and>
       sup_status t = HEALTHY \<and> sup_availability t = 1"
    using add_records_routable [OF assms(2), of sha pj clk w1 m] by blast
  with assms(1) show ?thesis
    by (simp add: discover_source_def bindM_def returnM_def modifyM_def in_store_def in_world_def catchM_def
        case_prod_beta record_sups)
qed

section \<open>Properties\<close>

text \<open>
  A discovery round survives its sources. Whatever the sources answer or throw, the round ends
  with one summary for each source, in order, counts no more additions than records, and loses no
  supplier that was registered; and when a source answers records with an identity and an
  adapter, all of them are registered afterwards, healthy and available to routing.\<close>
theorem discovery_round:
  assumes "src_discover src w0 = (Inr r, w1)" and "\<forall>f \<in> set (so_records r). well_formed f"
  shows "(\<exists>sms total w' m'. discoverOnce sha pj clk srcs (w, m) = (Inr (sms, total), (w', m')) \<and>
      map ss_source sms = map src_name srcs \<and> (\<forall>sm \<in> set sms. ss_added sm \<le> ss_discovered sm) \<and>
      total = sum_list (map ss_added sms) \<and>
      (\<forall>i. get_supplier i (mk_registry m) \<noteq> None \<longrightarrow> get_supplier i (mk_registry m') \<noteq> None)) \<and>
    (\<exists>sm m'. discover_source sha pj clk src (w0, m) = (Inr sm, (w1, m')) \<and> ss_added sm = length (so_records r) \<and>
      (\<forall>f \<in> set (so_records r). \<exists>t. get_supplier (the (sp_supplierId (fo_spec f))) (mk_registry m') = Some t \<and>
         sup_status t = HEALTHY \<and> sup_availability t = 1))"
proof (rule conjI)
  obtain sms w' m' where all: "discover_all sha pj clk srcs (w, m) = (Inr sms, (w', m'))" "map ss_source sms = map src_name srcs"
    "\<forall>sm \<in> set sms. ss_added sm \<le> ss_discovered sm" "dom (map_of (sups m)) \<subseteq> dom (map_of (sups m'))"
    using discover_all_total [of sha pj clk srcs w m] by blast
  show "\<exists>sms total w' m'. discoverOnce sha pj clk srcs (w, m) = (Inr (sms, total), (w', m')) \<and>
      map ss_source sms = map src_name srcs \<and> (\<forall>sm \<in> set sms. ss_added sm \<le> ss_discovered sm) \<and>
      total = sum_list (map ss_added sms) \<and>
      (\<forall>i. get_supplier i (mk_registry m) \<noteq> None \<longrightarrow> get_supplier i (mk_registry m') \<noteq> None)"
    by (intro exI [of _ sms] exI [of _ "sum_list (map ss_added sms)"] exI [of _ w'] exI [of _ m'])
      (use all in \<open>auto simp: discoverOnce_def bindM_def returnM_def get_supplier_def\<close>)
next
  show "\<exists>sm m'. discover_source sha pj clk src (w0, m) = (Inr sm, (w1, m')) \<and> ss_added sm = length (so_records r) \<and>
      (\<forall>f \<in> set (so_records r). \<exists>t. get_supplier (the (sp_supplierId (fo_spec f))) (mk_registry m') = Some t \<and>
         sup_status t = HEALTHY \<and> sup_availability t = 1)"
    using discover_source_routable [OF assms, of sha pj clk m] by (simp add: get_supplier_def)
qed

abbreviation sample_found :: found where
  "sample_found \<equiv> \<lparr>fo_spec = purchase_spec ''x:1'' [''x402''] [''n''] (Some 5) ''USDC'', fo_url = ''u'', fo_paymentMethods = [],
     fo_protocols = [], fo_source = ''x'', fo_marketMeta = None\<rparr>"

abbreviation empty_market :: market where
  "empty_market \<equiv> \<lparr>mk_registry = \<lparr>reg_suppliers = [], reg_journal = empty_journal\<rparr>, mk_store = empty_store\<rparr>"

abbreviation sample_source :: "nat source" where
  "sample_source \<equiv> \<lparr>src_name = ''x'', src_discover = (\<lambda>w. (Inr \<lparr>so_records = [sample_found], so_error = None\<rparr>, w))\<rparr>"

theorem discovery_round_witness:
  "\<exists>sm m'. discover_source (\<lambda>_. ''h'') (\<lambda>_. JNull) int sample_source (0, empty_market) = (Inr sm, (0, m')) \<and>
     ss_added sm = 1"
  using discovery_round [of sample_source 0 "\<lparr>so_records = [sample_found], so_error = None\<rparr>" 0
      "\<lambda>_. ''h''" "\<lambda>_. JNull" int "[]" 0 empty_market, THEN conjunct2]
  by (auto simp: well_formed_def purchase_spec_def)

text \<open>
  Rediscovery forgets. Registration replaces a supplier that is known, so what the benchmarks
  have learned and what an operator has set is lost: whatever status and reputation it had, the
  supplier is healthy again and its reputation is the default of the record.\<close>
theorem rediscovery_resets:
  assumes "normalize raw name = Some f" and "get_supplier (the (sp_supplierId (fo_spec f))) (mk_registry m) = Some t"
  shows "\<exists>m' t'. add_found sha pj clk f (w, m) = (Inr 1, (w, m')) \<and>
    get_supplier (the (sp_supplierId (fo_spec f))) (mk_registry m') = Some t' \<and>
    sup_status t' = HEALTHY \<and> sup_reputation t' = 50"
proof -
  have f: "sp_supplierId (fo_spec f) = Some (the (sp_supplierId (fo_spec f)))" "sp_adapterId (fo_spec f) \<noteq> None"
    "sp_status (fo_spec f) = None" "sp_reputation (fo_spec f) = Some 50"
    using assms(1) by (auto simp: normalize_def Let_def purchase_spec_def split: if_splits)
  from add_found_registers [OF f(1,2), of sha pj clk w m] f(3,4) show ?thesis
    by (auto simp: get_supplier_def patch_metadata_def build_supplier_def Let_def)
qed

abbreviation known_market :: market where
  "known_market \<equiv> \<lparr>mk_registry = \<lparr>reg_suppliers = [(''x:1'', (build_supplier (purchase_spec ''x:1'' [] [] None ''USDC'') 0)
     \<lparr>sup_status := OFFLINE, sup_reputation := 3\<rparr>)], reg_journal = empty_journal\<rparr>, mk_store = empty_store\<rparr>"

theorem rediscovery_resets_witness:
  "\<exists>f m' t'. normalize (JObj [(''url'', JStr ''u''), (''id'', JStr ''1'')]) ''x'' = Some f \<and>
     add_found (\<lambda>_. ''h'') (\<lambda>_. JNull) int f (0 :: nat, known_market) = (Inr 1, (0, m')) \<and>
     get_supplier ''x:1'' (mk_registry m') = Some t' \<and> sup_reputation t' = 50"
proof -
  obtain f where f: "normalize (JObj [(''url'', JStr ''u''), (''id'', JStr ''1'')]) ''x'' = Some f"
    and i: "sp_supplierId (fo_spec f) = Some ''x:1''"
    by (simp add: normalize_def Let_def or_json_def str_of_def purchase_spec_def)
  have "get_supplier (the (sp_supplierId (fo_spec f))) (mk_registry known_market) =
      Some ((build_supplier (purchase_spec ''x:1'' [] [] None ''USDC'') 0)\<lparr>sup_status := OFFLINE, sup_reputation := 3\<rparr>)"
    by (simp add: i get_supplier_def)
  from rediscovery_resets [OF f this, of "\<lambda>_. ''h''" "\<lambda>_. JNull" int "0 :: nat"] f i show ?thesis by auto
qed

text \<open>
  A benchmark round measures every supplier once. On a consistent registry it always ends,
  with one report for each listed supplier in order; afterwards each reported supplier has the
  reputation of its report, between 0 and 100, and is healthy exactly when its probe succeeded
  with an availability of at least one half, degraded otherwise; the other suppliers are as before.\<close>
theorem benchmark_round:
  assumes "reg_inv (mk_registry m)"
  shows "\<exists>med report w' m'. benchmarkOnce sha pj txt clk alpha prober workload (w, m) = (Inr (med, report), (w', m')) \<and>
    map fst report = map sup_supplierId (list_suppliers None workload (mk_registry m)) \<and>
    (\<forall>(i, b) \<in> set report. \<exists>t. get_supplier i (mk_registry m') = Some t \<and>
       sup_reputation t = of_int (bm_reputation b) \<and> 0 \<le> bm_reputation b \<and> bm_reputation b \<le> 100 \<and>
       sup_status t = (if bm_ok b \<and> coalesce (bm_availability b) 1 \<ge> 1 / 2 then HEALTHY else DEGRADED)) \<and>
    (\<forall>i. i \<notin> set (map fst report) \<longrightarrow> get_supplier i (mk_registry m') = get_supplier i (mk_registry m))"
proof -
  let ?ss = "list_suppliers None workload (mk_registry m)"
  obtain rs w1 where rs: "probe_all prober ?ss (w, m) = (Inr rs, (w1, m))" "map fst rs = ?ss"
    using probe_all_world [of prober ?ss w m] by blast
  have ids: "map (\<lambda>x. sup_supplierId (fst x)) rs = map sup_supplierId ?ss" using rs(2) by (auto simp flip: rs(2))
  have look: "\<forall>(s, r) \<in> set rs. map_of (sups m) (sup_supplierId s) = Some s"
    using listed_suppliers [OF assms, of None workload] unfolding rs(2) [symmetric] by auto
  obtain report m' where rep: "bench_all sha pj txt clk alpha (market_median rs) rs (w1, m) = (Inr report, (w1, m'))"
    "map fst report = map (\<lambda>x. sup_supplierId (fst x)) rs"
    "\<forall>(i, b) \<in> set report. \<exists>t. map_of (sups m') i = Some t \<and> benched t b"
    "\<forall>i. i \<notin> set (map fst report) \<longrightarrow> map_of (sups m') i = map_of (sups m) i"
    using bench_all_round [OF _ look, of sha pj "txt" clk alpha "market_median rs" w1] listed_suppliers [OF assms, of None workload]
    unfolding ids by blast
  show ?thesis
    by (intro exI [of _ "market_median rs"] exI [of _ report] exI [of _ w1] exI [of _ m'] conjI)
      (use rs rep ids in \<open>auto simp: benchmarkOnce_def bindM_def returnM_def getM_def get_supplier_def benched_def\<close>)
qed

theorem benchmark_round_witness:
  "\<exists>med report w' m'. benchmarkOnce (\<lambda>_. ''h'') (\<lambda>_. JNull) (\<lambda>_. ''5'') int (3 / 10) (\<lambda>s w. (Inl ''timeout'', w)) None
     (0 :: nat, empty_market) = (Inr (med, report), (w', m')) \<and> map fst report = []"
proof -
  have "reg_inv (mk_registry empty_market)"
    by (simp add: reg_inv_def reconstructSuppliers_def all_events_def empty_journal_def)
  from benchmark_round [OF this, of "\<lambda>_. ''h''" "\<lambda>_. JNull" "\<lambda>_. ''5''" int "3 / 10" "\<lambda>s w. (Inl ''timeout'', w)" None "0 :: nat"]
  show ?thesis by (fastforce simp: list_suppliers_def)
qed

text \<open>
  The rankings show the best suppliers. They are ordered by falling reputation and, at equal
  reputation, by rising price, hold at most five hundred entries and never none while there are
  suppliers; no supplier left out has a higher reputation than one shown, and the counts by source
  add up to the number of suppliers.\<close>
theorem rankings_best_first:
  "let ss = list_suppliers None workload (mk_registry m); rows = fst (rankings workload limit m) in
   sorted (map (\<lambda>r. (- rk_reputation r, rk_price r)) rows) \<and>
   length rows = min (rank_limit limit) (length ss) \<and> 1 \<le> rank_limit limit \<and> rank_limit limit \<le> 500 \<and>
   (\<exists>left_out. mset (map to_ranking ss) = mset rows + mset left_out \<and>
      list_all (\<lambda>r. list_all (\<lambda>o'. rk_reputation o' \<le> rk_reputation r) left_out) rows) \<and>
   sum_list (map snd (snd (rankings workload limit m))) = length ss"
proof -
  let ?ss = "list_suppliers None workload (mk_registry m)"
  let ?k = "\<lambda>r. (- rk_reputation r, rk_price r)"
  let ?all = "sort_key ?k (map to_ranking ?ss)"
  have lim: "1 \<le> rank_limit limit \<and> rank_limit limit \<le> 500"
  proof (cases limit)
    case (Fin q)
    define z where "z = \<lfloor>min 500 (max 1 q)\<rfloor>"
    have "1 \<le> z" "z \<le> 500" by (simp_all add: z_def le_floor_iff floor_le_iff)
    then have "1 \<le> nat z \<and> nat z \<le> 500" by linarith
    with Fin show ?thesis by (simp add: rank_limit_def z_def)
  qed (simp_all add: rank_limit_def)
  have s: "sorted (map ?k ?all)" by simp
  have "sorted (map ?k (take n ?all @ drop n ?all))" for n using s by simp
  then have cut: "sorted (map ?k (take n ?all))" "\<forall>r \<in> set (take n ?all). \<forall>o' \<in> set (drop n ?all). rk_reputation o' \<le> rk_reputation r" for n
    unfolding map_append sorted_append by (auto simp: less_eq_prod_def) (meson less_imp_le)
  have counts: "sum_list (map snd (foldl (\<lambda>out s. let k = or_str (sup_source s) ''unknown''
      in mset_key k (coalesce (map_of out k) 0 + 1) out) out ss)) = sum_list (map snd out) + length ss"
    for out :: "(string, nat) jsmap" and ss
  proof (induction ss arbitrary: out)
    case (Cons s ss)
    have "sum_list (map snd (mset_key k (coalesce (map_of out k) 0 + 1) out)) = sum_list (map snd out) + 1" for k
      by (induction out) auto
    with Cons show ?case by (simp add: Let_def)
  qed simp
  show ?thesis
    unfolding Let_def rankings_def fst_conv snd_conv
    using lim cut [of "rank_limit limit"] counts [of "[]" ?ss]
    by (auto simp: countBySource_def list_all_iff
        intro!: exI [of _ "drop (rank_limit limit) ?all"] simp flip: mset_append)
qed

end
