(* ===== verification/Rpc_Providers.thy ===== *)
theory Rpc_Providers
  imports Sat_Prelude
begin

text \<open>
  \<^verbatim>\<open>workloads/rpc_gateway/providers.js\<close>: the table of upstream RPC providers for each chain, a
  function of the environment variables it is built from, the aliases of the chains and the
  look-ups. The lemmas show that every alias leads to a chain of the table and which providers a
  look-up can give.
\<close>

type_synonym environment = "string \<Rightarrow> string option"

text \<open>\<open>url = None\<close> is \<open>null\<close>; \<open>enabled = None\<close> is a provider without that field.\<close>

record provider =
  pv_id :: string
  pv_url :: "string option"
  pv_priority :: nat
  pv_rateLimit :: nat
  pv_type :: string
  pv_enabled :: "bool option"

record chain_config =
  cc_chainId :: int
  cc_name :: string
  cc_providers :: "provider list"

definition occurs_in :: "string \<Rightarrow> string \<Rightarrow> bool" where
  "occurs_in p s \<longleftrightarrow> (\<exists>k \<in> {..length s}. take (length p) (drop k s) = p)"

definition ANKR_VALID :: "environment \<Rightarrow> bool" where
  "ANKR_VALID env = (case env ''ANKR_API_KEY'' of
     None \<Rightarrow> False
   | Some k \<Rightarrow> length k > 10 \<and> \<not> occurs_in ''REPLACE'' k \<and> \<not> occurs_in ''demo'' k \<and> \<not> occurs_in ''your-'' k)"

text \<open>A template with the Ankr key, if the key is valid.\<close>

definition ankr_url :: "environment \<Rightarrow> string \<Rightarrow> string option" where
  "ankr_url env prefix = (if ANKR_VALID env then Some (prefix @ the (env ''ANKR_API_KEY'')) else None)"

definition or_url :: "string option \<Rightarrow> string option \<Rightarrow> string option" where
  "or_url a b = (if truthy a then a else b)"

definition polygon_amoy :: "environment \<Rightarrow> chain_config" where
  "polygon_amoy env = \<lparr>cc_chainId = 80002, cc_name = ''Polygon Amoy Testnet'', cc_providers = [
     \<lparr>pv_id = ''polygon-amoy-official'',
      pv_url = or_url (env ''RPC_POLYGON_AMOY_1'') (Some ''https://rpc-amoy.polygon.technology''),
      pv_priority = 1, pv_rateLimit = 100, pv_type = ''public'', pv_enabled = None\<rparr>,
     \<lparr>pv_id = ''alchemy-amoy'',
      pv_url = or_url (env ''ALCHEMY_AMOY_URL'')
        (Some (''https://polygon-amoy.g.alchemy.com/v2/'' @ or_str (env ''ALCHEMY_API_KEY'') ''demo'')),
      pv_priority = 2, pv_rateLimit = 300, pv_type = ''alchemy'', pv_enabled = None\<rparr>,
     \<lparr>pv_id = ''ankr-amoy'',
      pv_url = or_url (env ''ANKR_AMOY_URL'') (ankr_url env ''https://rpc.ankr.com/polygon_amoy/''),
      pv_priority = 3, pv_rateLimit = 100, pv_type = ''ankr'',
      pv_enabled = Some (ANKR_VALID env \<or> truthy (env ''ANKR_AMOY_URL''))\<rparr>,
     \<lparr>pv_id = ''drpc-amoy'',
      pv_url = or_url (env ''DRPC_AMOY_URL'') (Some ''https://polygon-amoy.drpc.org''),
      pv_priority = 4, pv_rateLimit = 100, pv_type = ''drpc'', pv_enabled = None\<rparr>]\<rparr>"

definition polygon :: "environment \<Rightarrow> chain_config" where
  "polygon env = (let key = or_url (env ''ALCHEMY_POLYGON_KEY'') (env ''ALCHEMY_API_KEY'') in
     \<lparr>cc_chainId = 137, cc_name = ''Polygon PoS Mainnet'', cc_providers = [
     \<lparr>pv_id = ''llamarpc-polygon'',
      pv_url = or_url (env ''RPC_POLYGON_1'') (Some ''https://polygon.llamarpc.com''),
      pv_priority = 1, pv_rateLimit = 100, pv_type = ''public'', pv_enabled = Some False\<rparr>,
     \<lparr>pv_id = ''alchemy-polygon'',
      pv_url = or_url (env ''ALCHEMY_POLYGON_URL'')
        (if truthy key then Some (''https://polygon-mainnet.g.alchemy.com/v2/'' @ the key) else None),
      pv_priority = 2, pv_rateLimit = 25, pv_type = ''alchemy'',
      pv_enabled = Some (truthy (env ''ALCHEMY_POLYGON_URL'') \<or> truthy key)\<rparr>,
     \<lparr>pv_id = ''publicnode-polygon'',
      pv_url = or_url (env ''PUBLICNODE_POLYGON_URL'') (Some ''https://polygon-bor-rpc.publicnode.com''),
      pv_priority = 3, pv_rateLimit = 100, pv_type = ''public'', pv_enabled = Some True\<rparr>,
     \<lparr>pv_id = ''ankr-polygon'',
      pv_url = or_url (env ''ANKR_POLYGON_URL'') (ankr_url env ''https://rpc.ankr.com/polygon/''),
      pv_priority = 3, pv_rateLimit = 100, pv_type = ''ankr'', pv_enabled = Some False\<rparr>,
     \<lparr>pv_id = ''drpc-polygon'',
      pv_url = or_url (env ''DRPC_POLYGON_URL'') (Some ''https://polygon.drpc.org''),
      pv_priority = 4, pv_rateLimit = 100, pv_type = ''drpc'', pv_enabled = None\<rparr>]\<rparr>)"

definition ethereum :: "environment \<Rightarrow> chain_config" where
  "ethereum env = \<lparr>cc_chainId = 1, cc_name = ''Ethereum Mainnet'', cc_providers = [
     \<lparr>pv_id = ''llamarpc-eth'',
      pv_url = or_url (env ''LLAMARPC_ETH_URL'') (Some ''https://eth.llamarpc.com''),
      pv_priority = 1, pv_rateLimit = 100, pv_type = ''public'', pv_enabled = Some False\<rparr>,
     \<lparr>pv_id = ''alchemy-eth'',
      pv_url = or_url (env ''ALCHEMY_ETH_URL'')
        (if truthy (env ''ALCHEMY_API_KEY'') then Some (''https://eth-mainnet.g.alchemy.com/v2/'' @ the (env ''ALCHEMY_API_KEY'')) else None),
      pv_priority = 2, pv_rateLimit = 300, pv_type = ''alchemy'',
      pv_enabled = Some (truthy (env ''ALCHEMY_ETH_URL'') \<or> truthy (env ''ALCHEMY_API_KEY''))\<rparr>,
     \<lparr>pv_id = ''ankr-eth'',
      pv_url = or_url (env ''ANKR_ETH_URL'') (ankr_url env ''https://rpc.ankr.com/eth/''),
      pv_priority = 3, pv_rateLimit = 100, pv_type = ''ankr'',
      pv_enabled = Some (ANKR_VALID env \<or> truthy (env ''ANKR_ETH_URL''))\<rparr>,
     \<lparr>pv_id = ''drpc-eth'',
      pv_url = or_url (env ''DRPC_ETH_URL'') (Some ''https://eth.drpc.org''),
      pv_priority = 5, pv_rateLimit = 100, pv_type = ''drpc'', pv_enabled = None\<rparr>]\<rparr>"

definition arbitrum :: "environment \<Rightarrow> chain_config" where
  "arbitrum env = \<lparr>cc_chainId = 42161, cc_name = ''Arbitrum One'', cc_providers = [
     \<lparr>pv_id = ''arbitrum-official'', pv_url = Some ''https://arb1.arbitrum.io/rpc'',
      pv_priority = 1, pv_rateLimit = 100, pv_type = ''public'', pv_enabled = None\<rparr>,
     \<lparr>pv_id = ''ankr-arbitrum'', pv_url = ankr_url env ''https://rpc.ankr.com/arbitrum/'',
      pv_priority = 2, pv_rateLimit = 100, pv_type = ''ankr'', pv_enabled = Some (ANKR_VALID env)\<rparr>]\<rparr>"

definition base :: "environment \<Rightarrow> chain_config" where
  "base env = \<lparr>cc_chainId = 8453, cc_name = ''Base Mainnet'', cc_providers = [
     \<lparr>pv_id = ''base-official'', pv_url = Some ''https://mainnet.base.org'',
      pv_priority = 1, pv_rateLimit = 100, pv_type = ''public'', pv_enabled = None\<rparr>,
     \<lparr>pv_id = ''ankr-base'', pv_url = ankr_url env ''https://rpc.ankr.com/base/'',
      pv_priority = 2, pv_rateLimit = 100, pv_type = ''ankr'', pv_enabled = Some (ANKR_VALID env)\<rparr>]\<rparr>"

definition solana :: chain_config where
  "solana = \<lparr>cc_chainId = 0, cc_name = ''Solana Mainnet'', cc_providers = [
     \<lparr>pv_id = ''solana-official'', pv_url = Some ''https://api.mainnet-beta.solana.com'',
      pv_priority = 1, pv_rateLimit = 40, pv_type = ''public'', pv_enabled = Some False\<rparr>]\<rparr>"

definition PROVIDER_CONFIGS :: "environment \<Rightarrow> (string, chain_config) jsmap" where
  "PROVIDER_CONFIGS env = [(''polygon-amoy'', polygon_amoy env), (''polygon'', polygon env),
     (''ethereum'', ethereum env), (''arbitrum'', arbitrum env), (''base'', base env), (''solana'', solana)]"

definition CHAIN_ALIASES :: "(string, string) jsmap" where
  "CHAIN_ALIASES = [(''amoy'', ''polygon-amoy''), (''matic'', ''polygon''), (''eth'', ''ethereum''), (''arb'', ''arbitrum''),
     (''base-mainnet'', ''base''), (''sol'', ''solana''), (''80002'', ''polygon-amoy''), (''137'', ''polygon''),
     (''1'', ''ethereum''), (''42161'', ''arbitrum''), (''8453'', ''base'')]"

definition normalized :: "string \<Rightarrow> string" where
  "normalized chain = coalesce (map_of CHAIN_ALIASES chain) chain"

definition getChainConfig :: "environment \<Rightarrow> string \<Rightarrow> chain_config option" where
  "getChainConfig env chainKey = map_of (PROVIDER_CONFIGS env) (normalized chainKey)"

definition getProviders :: "environment \<Rightarrow> string \<Rightarrow> provider list" where
  "getProviders env chainKey =
     (case getChainConfig env chainKey of
        None \<Rightarrow> []
      | Some c \<Rightarrow> filter (\<lambda>p. truthy (pv_url p) \<and> pv_enabled p \<noteq> Some False) (cc_providers c))"

definition getPrimaryProvider :: "environment \<Rightarrow> string \<Rightarrow> provider option" where
  "getPrimaryProvider env chainKey =
     (case getProviders env chainKey of [] \<Rightarrow> None | p # _ \<Rightarrow> Some p)"

definition getSupportedChains :: "environment \<Rightarrow> string list" where
  "getSupportedChains env = map fst (PROVIDER_CONFIGS env)"

definition getChainId :: "environment \<Rightarrow> string \<Rightarrow> int option" where
  "getChainId env chainKey = map_option cc_chainId (getChainConfig env chainKey)"

section \<open>The table\<close>

lemmas chain_defs = polygon_amoy_def polygon_def ethereum_def arbitrum_def base_def solana_def

lemma truthy_or_url [simp]: "truthy (or_url a b) \<longleftrightarrow> truthy a \<or> truthy b"
  by (simp add: or_url_def)

lemma normalized_idem: "normalized (normalized c) = normalized c"
  by (simp add: normalized_def CHAIN_ALIASES_def coalesce_def)

lemma provider_ids:
  "map_of (PROVIDER_CONFIGS env) k = Some c \<Longrightarrow> distinct (map pv_id (cc_providers c))"
  by (auto simp: PROVIDER_CONFIGS_def chain_defs Let_def split: if_splits)

lemma distinct_ids: "distinct (map pv_id (getProviders env chain))"
  by (auto simp: getProviders_def getChainConfig_def intro!: distinct_map_filter provider_ids split: option.splits)

text \<open>
  Every supported chain but Solana can be served without any configuration. Whatever the
  environment is, an alias and its chain give the same configuration; the providers of a chain
  have different identifiers and an address; and for each chain name, Solana apart, there is
  always at least one provider.\<close>
theorem providers_always_there:
  "getChainConfig env (normalized chain) = getChainConfig env chain \<and>
   distinct (map pv_id (getProviders env chain)) \<and>
   list_all (\<lambda>p. truthy (pv_url p)) (getProviders env chain) \<and>
   (getChainConfig env chain = None \<or> getProviders env chain \<noteq> [] \<or> normalized chain = ''solana'')"
proof -
  have "getProviders env chain \<noteq> [] \<or> normalized chain = ''solana''" if "getChainConfig env chain \<noteq> None"
  proof -
    from that obtain k c where "normalized chain = k" and c: "map_of (PROVIDER_CONFIGS env) k = Some c"
      by (auto simp: getChainConfig_def)
    then have "k = ''solana'' \<or> filter (\<lambda>p. truthy (pv_url p) \<and> pv_enabled p \<noteq> Some False) (cc_providers c) \<noteq> []"
      by (auto simp: PROVIDER_CONFIGS_def chain_defs Let_def split: if_splits)
    with c \<open>normalized chain = k\<close> show ?thesis by (auto simp: getProviders_def getChainConfig_def)
  qed
  then show ?thesis
    using distinct_ids by (auto simp: getChainConfig_def normalized_idem list_all_iff getProviders_def split: option.splits)
qed

end
