(* ===== verification/Circuit_Breakers.thy ===== *)
theory Circuit_Breakers
  imports Rpc_Providers
begin

text \<open>
  The two circuit breakers: \<^verbatim>\<open>workloads/rpc_gateway/circuit_breaker.js\<close>, kept in Redis for each
  RPC provider, and \<^verbatim>\<open>nodes/node_circuit_breaker.js\<close>, kept in memory for each node with a
  table behind it. Both interpret the locale \<open>quarantine\<close>: an open circuit denies every call for
  a fixed time, whatever failures are reported meanwhile.

  Times are milliseconds; a call reads the clock once. \<open>up\<close> tells whether the Redis client is
  there and the command succeeds; the code treats a missing client and a failing command alike.
\<close>

datatype circuit_state = Closed | Open | HalfOpen

section \<open>The contract\<close>

datatype breaker_event = Check int | Fail int

fun event_time :: "breaker_event \<Rightarrow> int" where
  "event_time (Check t) = t"
| "event_time (Fail t) = t"

locale quarantine =
  fixes inv :: "'s \<Rightarrow> bool" and st :: "'s \<Rightarrow> circuit_state" and opened :: "'s \<Rightarrow> int"
    and allows :: "int \<Rightarrow> 's \<Rightarrow> bool \<times> 's" and failed :: "int \<Rightarrow> 's \<Rightarrow> 's" and dur :: int
  assumes denies: "inv s \<Longrightarrow> st s = Open \<Longrightarrow> now - opened s < dur \<Longrightarrow> allows now s = (False, s)"
    and stays: "inv s \<Longrightarrow> st s = Open \<Longrightarrow> opened s \<le> now \<Longrightarrow>
      inv (failed now s) \<and> st (failed now s) = Open \<and> opened s \<le> opened (failed now s) \<and> opened (failed now s) \<le> now"
begin

fun verdicts :: "breaker_event list \<Rightarrow> 's \<Rightarrow> bool list" where
  "verdicts [] s = []"
| "verdicts (Check t # es) s = (case allows t s of (b, s') \<Rightarrow> b # verdicts es s')"
| "verdicts (Fail t # es) s = verdicts es (failed t s)"

lemma denied_throughout:
  assumes "inv s" and "st s = Open" and "lo \<le> opened s" and "sorted (map event_time es)"
    and "\<forall>e \<in> set es. opened s \<le> event_time e \<and> event_time e < lo + dur"
  shows "\<forall>b \<in> set (verdicts es s). \<not> b"
  using assms
proof (induction es arbitrary: s)
  case (Cons e es)
  show ?case
  proof (cases e)
    case (Check t)
    with Cons.prems have "allows t s = (False, s)" by (intro denies) auto
    with Check Cons show ?thesis by auto
  next
    case (Fail t)
    with Cons.prems have f: "inv (failed t s)" "st (failed t s) = Open" "opened s \<le> opened (failed t s)" "opened (failed t s) \<le> t"
      using stays [of s t] by auto
    have "\<forall>e \<in> set es. opened (failed t s) \<le> event_time e \<and> event_time e < lo + dur"
      using Cons.prems f Fail by fastforce
    with Cons.IH [of "failed t s"] Cons.prems f Fail show ?thesis by auto
  qed
qed simp

end

section \<open>The breaker of the RPC providers\<close>

definition FAILURE_THRESHOLD :: nat where "FAILURE_THRESHOLD = 5"
definition RESET_TIMEOUT_MS :: int where "RESET_TIMEOUT_MS = 30000"

record circuit =
  ci_state :: circuit_state
  failures :: nat
  lastFailure :: int
  lastTest :: int

definition closed_circuit :: circuit where
  "closed_circuit = \<lparr>ci_state = Closed, failures = 0, lastFailure = 0, lastTest = 0\<rparr>"

text \<open>A Redis value and the time it expires, for one family of keys.\<close>

type_synonym ('k, 'v) expiring = "('k, 'v \<times> int) jsmap"
type_synonym 'v redis = "(string, 'v) expiring"

definition redis_get :: "int \<Rightarrow> 'k \<Rightarrow> ('k, 'v) expiring \<Rightarrow> 'v option" where
  "redis_get now k r = (case map_of r k of None \<Rightarrow> None | Some (v, till) \<Rightarrow> if now < till then Some v else None)"

definition redis_set_ex :: "int \<Rightarrow> 'k \<Rightarrow> 'v \<Rightarrow> int \<Rightarrow> ('k, 'v) expiring \<Rightarrow> ('k, 'v) expiring" where
  "redis_set_ex now k v seconds r = mset_key k (v, now + seconds * 1000) r"

definition getCircuitKey :: "string \<Rightarrow> string \<Rightarrow> string" where
  "getCircuitKey chain providerId = ''rpc:circuit:'' @ normalized chain @ '':'' @ providerId"

definition getCircuitState :: "bool \<Rightarrow> int \<Rightarrow> string \<Rightarrow> string \<Rightarrow> circuit redis \<Rightarrow> circuit" where
  "getCircuitState up now chain providerId r =
     (if \<not> up then closed_circuit else coalesce (redis_get now (getCircuitKey chain providerId) r) closed_circuit)"

definition setCircuitState :: "bool \<Rightarrow> int \<Rightarrow> string \<Rightarrow> string \<Rightarrow> circuit \<Rightarrow> circuit redis \<Rightarrow> circuit redis" where
  "setCircuitState up now chain providerId c r =
     (if \<not> up then r else redis_set_ex now (getCircuitKey chain providerId) c 3600 r)"

definition isOpen :: "bool \<Rightarrow> int \<Rightarrow> string \<Rightarrow> string \<Rightarrow> circuit redis \<Rightarrow> bool \<times> circuit redis" where
  "isOpen up now chain providerId r =
     (let c = getCircuitState up now chain providerId r in
      case ci_state c of
        Closed \<Rightarrow> (False, r)
      | Open \<Rightarrow>
          if now - lastFailure c \<ge> RESET_TIMEOUT_MS
          then (False, setCircuitState up now chain providerId (c\<lparr>ci_state := HalfOpen, lastTest := now\<rparr>) r)
          else (True, r)
      | HalfOpen \<Rightarrow> (False, r))"

definition recordSuccess :: "bool \<Rightarrow> int \<Rightarrow> string \<Rightarrow> string \<Rightarrow> circuit redis \<Rightarrow> circuit redis" where
  "recordSuccess up now chain providerId r = setCircuitState up now chain providerId closed_circuit r"

text \<open>The new state that a failure writes.\<close>

definition after_failure :: "int \<Rightarrow> circuit \<Rightarrow> circuit" where
  "after_failure now c =
     (if ci_state c = HalfOpen
      then \<lparr>ci_state = Open, failures = failures c + 1, lastFailure = now, lastTest = lastTest c\<rparr>
      else if failures c + 1 \<ge> FAILURE_THRESHOLD
      then \<lparr>ci_state = Open, failures = failures c + 1, lastFailure = now, lastTest = 0\<rparr>
      else \<lparr>ci_state = Closed, failures = failures c + 1, lastFailure = now, lastTest = 0\<rparr>)"

definition recordFailure :: "bool \<Rightarrow> int \<Rightarrow> string \<Rightarrow> string \<Rightarrow> circuit redis \<Rightarrow> circuit redis" where
  "recordFailure up now chain providerId r =
     setCircuitState up now chain providerId (after_failure now (getCircuitState up now chain providerId r)) r"

record circuit_stats =
  cs_state :: circuit_state
  cs_failures :: nat
  cs_lastFailure :: int
  cs_lastTest :: int
  timeUntilReset :: int

definition getCircuitStats :: "bool \<Rightarrow> int \<Rightarrow> string \<Rightarrow> string \<Rightarrow> circuit redis \<Rightarrow> circuit_stats" where
  "getCircuitStats up now chain providerId r =
     (let c = getCircuitState up now chain providerId r in
      \<lparr>cs_state = (if ci_state c = Open \<and> now - lastFailure c \<ge> RESET_TIMEOUT_MS then HalfOpen else ci_state c),
       cs_failures = failures c, cs_lastFailure = lastFailure c, cs_lastTest = lastTest c,
       timeUntilReset = (if ci_state c = Open then max 0 (RESET_TIMEOUT_MS - (now - lastFailure c)) else 0)\<rparr>)"

definition forceOpen :: "bool \<Rightarrow> int \<Rightarrow> string \<Rightarrow> string \<Rightarrow> circuit redis \<Rightarrow> circuit redis" where
  "forceOpen up now chain providerId r = setCircuitState up now chain providerId
     \<lparr>ci_state = Open, failures = FAILURE_THRESHOLD, lastFailure = now, lastTest = 0\<rparr> r"

definition forceClose :: "bool \<Rightarrow> int \<Rightarrow> string \<Rightarrow> string \<Rightarrow> circuit redis \<Rightarrow> circuit redis" where
  "forceClose up now chain providerId r = setCircuitState up now chain providerId closed_circuit r"

subsection \<open>Invariant\<close>

inductive circuit_reach :: "circuit redis \<Rightarrow> bool" where
  start: "circuit_reach []"
| check: "circuit_reach r \<Longrightarrow> circuit_reach (snd (isOpen up now chain p r))"
| success: "circuit_reach r \<Longrightarrow> circuit_reach (recordSuccess up now chain p r)"
| failure: "circuit_reach r \<Longrightarrow> circuit_reach (recordFailure up now chain p r)"
| force_open: "circuit_reach r \<Longrightarrow> circuit_reach (forceOpen up now chain p r)"
| force_close: "circuit_reach r \<Longrightarrow> circuit_reach (forceClose up now chain p r)"

definition circuit_ok :: "circuit \<Rightarrow> bool" where
  "circuit_ok c \<longleftrightarrow>
     (case ci_state c of
        Closed \<Rightarrow> failures c < FAILURE_THRESHOLD
      | Open \<Rightarrow> failures c \<ge> FAILURE_THRESHOLD
      | HalfOpen \<Rightarrow> failures c \<ge> FAILURE_THRESHOLD \<and> lastTest c - lastFailure c \<ge> RESET_TIMEOUT_MS)"

definition circuits_ok :: "circuit redis \<Rightarrow> bool" where
  "circuits_ok r \<longleftrightarrow> (\<forall>k c till. map_of r k = Some (c, till) \<longrightarrow> circuit_ok c)"

lemma closed_ok [simp]: "circuit_ok closed_circuit"
  by (simp add: circuit_ok_def closed_circuit_def FAILURE_THRESHOLD_def)

lemma get_ok: "circuits_ok r \<Longrightarrow> circuit_ok (getCircuitState up now chain p r)"
  by (auto simp: getCircuitState_def redis_get_def circuits_ok_def coalesce_def split: option.splits)

lemma set_ok: "circuits_ok r \<Longrightarrow> circuit_ok c \<Longrightarrow> circuits_ok (setCircuitState up now chain p c r)"
  by (simp add: circuits_ok_def setCircuitState_def redis_set_ex_def)

lemma after_failure_ok: "circuit_ok c \<Longrightarrow> circuit_ok (after_failure now c)"
  by (auto simp: circuit_ok_def after_failure_def split: circuit_state.splits)

lemma reach_ok: "circuit_reach r \<Longrightarrow> circuits_ok r"
proof (induction rule: circuit_reach.induct)
  case start
  show ?case by (simp add: circuits_ok_def)
next
  case (check r up now chain p)
  then have "circuit_ok (getCircuitState up now chain p r)" by (intro get_ok)
  with check show ?case
    by (auto simp: isOpen_def Let_def circuit_ok_def intro!: set_ok split: circuit_state.splits)
qed (simp_all add: recordSuccess_def recordFailure_def forceOpen_def forceClose_def set_ok after_failure_ok get_ok,
     simp add: set_ok circuit_ok_def)

subsection \<open>The contract for one circuit\<close>

definition circuit_check :: "int \<Rightarrow> circuit \<Rightarrow> bool \<times> circuit" where
  "circuit_check now c =
     (if ci_state c = Open
      then if now - lastFailure c \<ge> RESET_TIMEOUT_MS then (True, c\<lparr>ci_state := HalfOpen, lastTest := now\<rparr>) else (False, c)
      else (True, c))"

interpretation rpc_breaker: quarantine circuit_ok ci_state lastFailure circuit_check after_failure RESET_TIMEOUT_MS
  by unfold_locales (auto simp: circuit_check_def after_failure_def circuit_ok_def split: circuit_state.splits)

lemma isOpen_check:
  "fst (isOpen True now chain p r) \<longleftrightarrow> \<not> fst (circuit_check now (getCircuitState True now chain p r))"
  by (simp add: isOpen_def circuit_check_def Let_def split: circuit_state.splits)

lemma get_set: "t \<le> now \<Longrightarrow> now < t + 3600000 \<Longrightarrow> getCircuitState True now chain p (setCircuitState True t chain p c r) = c"
  by (simp add: getCircuitState_def setCircuitState_def redis_get_def redis_set_ex_def)

text \<open>A run of failures, each within the hour that the state is kept.\<close>

lemma failures_counted:
  assumes "sorted ts" "ts \<noteq> []" "last ts - hd ts < 3600000" "redis_get (hd ts) (getCircuitKey chain p) r = None"
  shows "\<exists>r0 c. foldl (\<lambda>r t. recordFailure True t chain p r) r ts = setCircuitState True (last ts) chain p c r0 \<and>
    failures c = length ts \<and> lastFailure c = last ts \<and> ci_state c = (if length ts \<ge> FAILURE_THRESHOLD then Open else Closed)"
  using assms
proof (induction ts rule: rev_induct)
  case (snoc t ts)
  show ?case
  proof (cases "ts = []")
    case True
    then have "recordFailure True t chain p r = setCircuitState True t chain p (after_failure t closed_circuit) r"
      using snoc.prems by (simp add: recordFailure_def getCircuitState_def coalesce_def)
    moreover have "failures (after_failure t closed_circuit) = 1" "lastFailure (after_failure t closed_circuit) = t"
      "ci_state (after_failure t closed_circuit) = Closed"
      by (simp_all add: after_failure_def closed_circuit_def FAILURE_THRESHOLD_def)
    ultimately show ?thesis using True
      by (intro exI [of _ r] exI [of _ "after_failure t closed_circuit"]) (simp add: FAILURE_THRESHOLD_def)
  next
    case False
    then have "hd (ts @ [t]) = hd ts" "sorted ts" "last ts \<le> t" using snoc.prems by (auto simp: sorted_append)
    then have "\<exists>r0 c. foldl (\<lambda>r t. recordFailure True t chain p r) r ts = setCircuitState True (last ts) chain p c r0 \<and>
      failures c = length ts \<and> lastFailure c = last ts \<and> ci_state c = (if length ts \<ge> FAILURE_THRESHOLD then Open else Closed)"
      using snoc.prems False by (intro snoc.IH) auto
    then obtain r0 c where IH: "foldl (\<lambda>r t. recordFailure True t chain p r) r ts = setCircuitState True (last ts) chain p c r0"
      "failures c = length ts" "lastFailure c = last ts" "ci_state c = (if length ts \<ge> FAILURE_THRESHOLD then Open else Closed)"
      by blast
    have "last ts \<le> t" "hd ts \<le> last ts" using snoc.prems False by (cases ts; auto simp: sorted_append)+
    with snoc.prems False have "last ts \<le> t" "t < last ts + 3600000" by auto
    then have "getCircuitState True t chain p (setCircuitState True (last ts) chain p c r0) = c" by (rule get_set)
    with IH have "foldl (\<lambda>r t. recordFailure True t chain p r) r (ts @ [t]) =
        setCircuitState True t chain p (after_failure t c) (setCircuitState True (last ts) chain p c r0)"
      by (simp add: recordFailure_def)
    moreover have "failures (after_failure t c) = length (ts @ [t])" "lastFailure (after_failure t c) = t"
      "ci_state (after_failure t c) = (if length (ts @ [t]) \<ge> FAILURE_THRESHOLD then Open else Closed)"
      using IH by (auto simp: after_failure_def)
    ultimately show ?thesis by (intro exI conjI) simp_all
  qed
qed simp

section \<open>The breaker of the nodes\<close>

definition NODE_FAILURE_THRESHOLD :: nat where "NODE_FAILURE_THRESHOLD = 5"
definition WINDOW_MS :: int where "WINDOW_MS = 60000"
definition OPEN_DURATION_MS :: int where "OPEN_DURATION_MS = 300000"
definition HALF_OPEN_MAX_TRIALS :: nat where "HALF_OPEN_MAX_TRIALS = 2"

record node_entry =
  ne_state :: circuit_state
  ne_failures :: "int list"
  openedAt :: "int option"
  halfOpenSuccesses :: nat

text \<open>A row of \<open>node_circuit_state\<close>: state, number of failures, opening time, time of the update.\<close>

record node_row =
  nr_state :: circuit_state
  failure_count :: nat
  opened_at :: "int option"
  updated_at :: int

record node_breaker =
  nb_states :: "(string, node_entry) jsmap"
  nb_table :: "(string, node_row) jsmap"

definition new_entry :: node_entry where
  "new_entry = \<lparr>ne_state = Closed, ne_failures = [], openedAt = None, halfOpenSuccesses = 0\<rparr>"

definition getOrCreate :: "string \<Rightarrow> node_breaker \<Rightarrow> node_entry \<times> node_breaker" where
  "getOrCreate i b =
     (case map_of (nb_states b) i of
        Some e \<Rightarrow> (e, b)
      | None \<Rightarrow> (new_entry, b\<lparr>nb_states := mset_key i new_entry (nb_states b)\<rparr>))"

definition put_entry :: "string \<Rightarrow> node_entry \<Rightarrow> node_breaker \<Rightarrow> node_breaker" where
  "put_entry i e b = b\<lparr>nb_states := mset_key i e (nb_states b)\<rparr>"

text \<open>\<open>ok\<close>: the table can be written; an exception is swallowed.\<close>

definition persist_entry :: "bool \<Rightarrow> int \<Rightarrow> string \<Rightarrow> node_entry \<Rightarrow> node_breaker \<Rightarrow> node_breaker" where
  "persist_entry ok now i e b =
     (if ok then b\<lparr>nb_table := mset_key i \<lparr>nr_state = ne_state e, failure_count = length (ne_failures e),
        opened_at = openedAt e, updated_at = now\<rparr> (nb_table b)\<rparr> else b)"

definition node_check :: "int \<Rightarrow> node_entry \<Rightarrow> bool \<times> node_entry" where
  "node_check now e =
     (case ne_state e of
        Closed \<Rightarrow> (True, e)
      | Open \<Rightarrow>
          if now - coalesce (openedAt e) 0 \<ge> OPEN_DURATION_MS then (True, e\<lparr>ne_state := HalfOpen, halfOpenSuccesses := 0\<rparr>)
          else (False, e)
      | HalfOpen \<Rightarrow> (True, e))"

definition breaker_check :: "bool \<Rightarrow> int \<Rightarrow> string \<Rightarrow> node_breaker \<Rightarrow> (bool \<times> circuit_state) \<times> node_breaker" where
  "breaker_check ok now i b =
     (let (e, b) = getOrCreate i b; (allowed, e') = node_check now e
      in ((allowed, ne_state e'),
          if ne_state e = Open \<and> allowed then persist_entry ok now i e' (put_entry i e' b) else b))"

definition breaker_success :: "bool \<Rightarrow> int \<Rightarrow> string \<Rightarrow> node_breaker \<Rightarrow> node_breaker" where
  "breaker_success ok now i b =
     (let (e, b) = getOrCreate i b
      in if ne_state e \<noteq> HalfOpen then b
         else let n = halfOpenSuccesses e + 1;
                  e' = (if n \<ge> HALF_OPEN_MAX_TRIALS then e\<lparr>ne_state := Closed, ne_failures := [], halfOpenSuccesses := 0\<rparr>
                        else e\<lparr>halfOpenSuccesses := n\<rparr>)
              in persist_entry ok now i e' (put_entry i e' b))"

definition node_failed :: "int \<Rightarrow> node_entry \<Rightarrow> node_entry" where
  "node_failed now e =
     (if ne_state e = HalfOpen then e\<lparr>ne_state := Open, openedAt := Some now, halfOpenSuccesses := 0\<rparr>
      else let fs = filter (\<lambda>ts. now - ts < WINDOW_MS) (ne_failures e) @ [now]; e = e\<lparr>ne_failures := fs\<rparr>
           in if length fs \<ge> NODE_FAILURE_THRESHOLD \<and> ne_state e = Closed then e\<lparr>ne_state := Open, openedAt := Some now\<rparr> else e)"

definition breaker_failure :: "bool \<Rightarrow> int \<Rightarrow> string \<Rightarrow> node_breaker \<Rightarrow> node_breaker" where
  "breaker_failure ok now i b =
     (let (e, b) = getOrCreate i b; e' = node_failed now e in persist_entry ok now i e' (put_entry i e' b))"

definition breaker_getAll :: "node_breaker \<Rightarrow> (string \<times> circuit_state \<times> nat \<times> int option) list" where
  "breaker_getAll b = map (\<lambda>(i, e). (i, ne_state e, length (ne_failures e), if openedAt e = Some 0 then None else openedAt e)) (nb_states b)"

definition loadFromDb :: "(string, node_row) jsmap \<Rightarrow> node_breaker" where
  "loadFromDb t = \<lparr>nb_states = foldl (\<lambda>m row. mset_key (fst row) \<lparr>ne_state = nr_state (snd row), ne_failures = [],
     openedAt = opened_at (snd row), halfOpenSuccesses = 0\<rparr> m) [] t, nb_table = t\<rparr>"

subsection \<open>Memory and table\<close>

inductive node_reach :: "node_breaker \<Rightarrow> bool" where
  start: "node_reach \<lparr>nb_states = [], nb_table = []\<rparr>"
| check: "node_reach b \<Longrightarrow> node_reach (snd (breaker_check True now i b))"
| success: "node_reach b \<Longrightarrow> node_reach (breaker_success True now i b)"
| failure: "node_reach b \<Longrightarrow> node_reach (breaker_failure True now i b)"
| restart: "node_reach b \<Longrightarrow> node_reach (loadFromDb (nb_table b))"

text \<open>A node without a row is closed in memory; a row has the state and the opening time of the entry.\<close>

definition entry_of :: "string \<Rightarrow> node_breaker \<Rightarrow> node_entry" where
  "entry_of i b = coalesce (map_of (nb_states b) i) new_entry"

definition node_inv :: "node_breaker \<Rightarrow> bool" where
  "node_inv b \<longleftrightarrow> mwf (nb_table b) \<and>
     (\<forall>i. (case map_of (nb_table b) i of
        None \<Rightarrow> ne_state (entry_of i b) = Closed
      | Some row \<Rightarrow> ne_state (entry_of i b) = nr_state row \<and> openedAt (entry_of i b) = opened_at row) \<and>
        (ne_state (entry_of i b) \<noteq> Closed \<longrightarrow> openedAt (entry_of i b) \<noteq> None))"

definition node_open_ok :: "node_entry \<Rightarrow> bool" where
  "node_open_ok e \<longleftrightarrow> ne_state e \<noteq> Closed \<longrightarrow> openedAt e \<noteq> None"

interpretation node_breaker: quarantine node_open_ok ne_state "\<lambda>e. coalesce (openedAt e) 0" node_check node_failed OPEN_DURATION_MS
  by unfold_locales (auto simp: node_check_def node_failed_def node_open_ok_def Let_def split: circuit_state.splits)

lemma getOrCreate_entry:
  "getOrCreate i b = (e, b') \<Longrightarrow> e = entry_of i b \<and> nb_table b' = nb_table b \<and> (\<forall>k. entry_of k b' = entry_of k b)"
  by (auto simp: getOrCreate_def entry_of_def split: option.splits)

lemma node_inv_getOrCreate: "getOrCreate i b = (e, b') \<Longrightarrow> node_inv b \<Longrightarrow> node_inv b'"
  using getOrCreate_entry [of i b e b'] unfolding node_inv_def by presburger

lemma node_inv_write:
  assumes "node_inv b" "node_open_ok e"
  shows "node_inv (persist_entry True now i e (put_entry i e b))"
proof -
  let ?b = "persist_entry True now i e (put_entry i e b)"
  have "entry_of k ?b = (if k = i then e else entry_of k b)" for k
    by (simp add: entry_of_def persist_entry_def put_entry_def coalesce_def)
  moreover have "map_of (nb_table ?b) k = (if k = i then Some \<lparr>nr_state = ne_state e, failure_count = length (ne_failures e),
      opened_at = openedAt e, updated_at = now\<rparr> else map_of (nb_table b) k)" for k
    by (simp add: persist_entry_def put_entry_def)
  moreover have "mwf (nb_table ?b)" using assms by (simp add: node_inv_def persist_entry_def put_entry_def)
  ultimately show ?thesis using assms by (simp add: node_inv_def node_open_ok_def cong: option.case_cong)
qed

lemma entry_open_ok: "node_inv b \<Longrightarrow> node_open_ok (entry_of i b)"
  by (simp add: node_inv_def node_open_ok_def)

lemma loaded_entry:
  assumes "mwf t"
  shows "entry_of i (loadFromDb t) = (case map_of t i of None \<Rightarrow> new_entry
     | Some row \<Rightarrow> \<lparr>ne_state = nr_state row, ne_failures = [], openedAt = opened_at row, halfOpenSuccesses = 0\<rparr>)"
proof -
  have "map_of (foldl (\<lambda>m row. mset_key (fst row) (f (snd row)) m) m t) i =
      (case map_of t i of None \<Rightarrow> map_of m i | Some row \<Rightarrow> Some (f row))" for f :: "node_row \<Rightarrow> node_entry" and m
    using assms
  proof (induction t arbitrary: m)
    case (Cons row t)
    obtain k v where [simp]: "row = (k, v)" by fastforce
    show ?case using Cons by (cases "i = k") (auto simp: map_of_eq_None_iff [THEN iffD2] cong: option.case_cong)
  qed simp
  from this [of "\<lambda>row. \<lparr>ne_state = nr_state row, ne_failures = [], openedAt = opened_at row, halfOpenSuccesses = 0\<rparr>" "[]"]
  show ?thesis by (simp add: entry_of_def loadFromDb_def coalesce_def split: option.splits)
qed

lemma node_reach_inv: "node_reach b \<Longrightarrow> node_inv b"
proof (induction rule: node_reach.induct)
  case start
  show ?case by (simp add: node_inv_def entry_of_def new_entry_def)
next
  case (check b now i)
  obtain e b1 where g: "getOrCreate i b = (e, b1)" by fastforce
  note facts = getOrCreate_entry [OF g] node_inv_getOrCreate [OF g check.IH] entry_open_ok [OF check.IH, of i]
  then show ?case
    by (auto simp: breaker_check_def g node_check_def node_open_ok_def Let_def intro!: node_inv_write split: circuit_state.splits)
next
  case (success b now i)
  obtain e b1 where g: "getOrCreate i b = (e, b1)" by fastforce
  note facts = getOrCreate_entry [OF g] node_inv_getOrCreate [OF g success.IH] entry_open_ok [OF success.IH, of i]
  then show ?case by (auto simp: breaker_success_def g node_open_ok_def Let_def intro!: node_inv_write)
next
  case (failure b now i)
  obtain e b1 where g: "getOrCreate i b = (e, b1)" by fastforce
  note facts = getOrCreate_entry [OF g] node_inv_getOrCreate [OF g failure.IH] entry_open_ok [OF failure.IH, of i]
  then show ?case by (auto simp: breaker_failure_def g node_failed_def node_open_ok_def Let_def intro!: node_inv_write)
next
  case (restart b)
  then show ?case
    by (auto simp: node_inv_def loaded_entry new_entry_def split: option.splits) (simp add: loadFromDb_def)+
qed

subsection \<open>Runs of one node\<close>

fun breaker_verdicts :: "bool \<Rightarrow> string \<Rightarrow> breaker_event list \<Rightarrow> node_breaker \<Rightarrow> bool list" where
  "breaker_verdicts ok i [] b = []"
| "breaker_verdicts ok i (Check t # es) b =
     (case breaker_check ok t i b of (v, b') \<Rightarrow> fst v # breaker_verdicts ok i es b')"
| "breaker_verdicts ok i (Fail t # es) b = breaker_verdicts ok i es (breaker_failure ok t i b)"

lemma entry_of_write [simp]: "entry_of k (persist_entry ok now i e (put_entry i e b)) = (if k = i then e else entry_of k b)"
  by (simp add: entry_of_def persist_entry_def put_entry_def coalesce_def)

lemma breaker_check_entry:
  "fst (fst (breaker_check ok now i b)) = fst (node_check now (entry_of i b))"
  "entry_of i (snd (breaker_check ok now i b)) = snd (node_check now (entry_of i b))"
proof -
  obtain e b1 where g: "getOrCreate i b = (e, b1)" by fastforce
  then show "fst (fst (breaker_check ok now i b)) = fst (node_check now (entry_of i b))"
    "entry_of i (snd (breaker_check ok now i b)) = snd (node_check now (entry_of i b))"
    using getOrCreate_entry [OF g]
    by (auto simp: breaker_check_def g node_check_def Let_def split: circuit_state.splits)
qed

lemma breaker_failure_entry: "entry_of i (breaker_failure ok now i b) = node_failed now (entry_of i b)"
proof -
  obtain e b1 where g: "getOrCreate i b = (e, b1)" by fastforce
  then show ?thesis using getOrCreate_entry [OF g] by (simp add: breaker_failure_def g Let_def)
qed

lemma breaker_verdicts_entry: "breaker_verdicts ok i es b = node_breaker.verdicts es (entry_of i b)"
proof (induction ok i es b rule: breaker_verdicts.induct)
  case (2 ok i t es b)
  obtain v b' where c: "breaker_check ok t i b = (v, b')" by fastforce
  then show ?case using 2 [OF c [symmetric]] breaker_check_entry [where ok = ok and now = t and i = i and b = b]
    by (simp split: prod.splits)
qed (simp_all add: breaker_failure_entry)

section \<open>Properties\<close>

text \<open>
  The breaker of a provider skips it only for cause. Whatever sequence of checks, successes, failures and
  operator overrides built the state, with Redis there or not at each step, a provider is skipped only when Redis
  answers, five or more failures are recorded in its circuit and the last of them is less than thirty seconds old.\<close>

theorem circuit_skips_for_cause:
  assumes "circuit_reach r" and "fst (isOpen up now chain p r)"
  shows "up \<and> FAILURE_THRESHOLD \<le> failures (getCircuitState up now chain p r) \<and>
    now - lastFailure (getCircuitState up now chain p r) < RESET_TIMEOUT_MS"
proof -
  have "circuit_ok (getCircuitState up now chain p r)" using reach_ok [OF assms(1)] by (rule get_ok)
  with assms(2) show ?thesis
    by (cases up) (auto simp: isOpen_def Let_def circuit_ok_def getCircuitState_def closed_circuit_def
        split: circuit_state.splits if_splits)
qed

lemma forceOpen_now: "fst (isOpen True t chain p (forceOpen True t chain p r))"
  using get_set [of t t chain p _ r]
  by (simp add: isOpen_def forceOpen_def Let_def RESET_TIMEOUT_MS_def)

theorem circuit_skips_for_cause_witness:
  "FAILURE_THRESHOLD \<le> failures (getCircuitState True 0 ''eth'' ''x'' (forceOpen True 0 ''eth'' ''x'' []))"
  using circuit_skips_for_cause [OF circuit_reach.force_open [OF circuit_reach.start] forceOpen_now] by blast

text \<open>
  Five failures in a row open the circuit of a provider: after a run of at least five failures within an hour,
  with no earlier state, the provider is skipped exactly until thirty seconds after the last one. The first check after
  that turns the circuit half open, and from then on every check of the next hour lets its call through.\<close>

theorem circuit_opens:
  assumes "sorted ts" and "FAILURE_THRESHOLD \<le> length ts" and "last ts - hd ts < 3600000"
    and "redis_get (hd ts) (getCircuitKey chain p) r = None" and "last ts \<le> now" and "now < last ts + 3600000"
  defines "r' \<equiv> foldl (\<lambda>r t. recordFailure True t chain p r) r ts"
  shows "(fst (isOpen True now chain p r') \<longleftrightarrow> now < last ts + RESET_TIMEOUT_MS) \<and>
    (last ts + RESET_TIMEOUT_MS \<le> now \<longrightarrow> (\<forall>later. now \<le> later \<and> later < now + 3600000 \<longrightarrow>
       isOpen True later chain p (snd (isOpen True now chain p r')) = (False, snd (isOpen True now chain p r'))))"
proof -
  from assms have "ts \<noteq> []" by (auto simp: FAILURE_THRESHOLD_def)
  with failures_counted [of ts chain p r] assms obtain r0 c where r': "r' = setCircuitState True (last ts) chain p c r0"
    and c: "lastFailure c = last ts" "ci_state c = Open" by auto
  have g: "getCircuitState True now chain p r' = c" using get_set [OF assms(5,6)] r' by simp
  have "isOpen True later chain p (snd (isOpen True now chain p r')) = (False, snd (isOpen True now chain p r'))"
    if "last ts + RESET_TIMEOUT_MS \<le> now" "now \<le> later" "later < now + 3600000" for later
  proof -
    have "snd (isOpen True now chain p r') = setCircuitState True now chain p (c\<lparr>ci_state := HalfOpen, lastTest := now\<rparr>) r'"
      using g c that by (simp add: isOpen_def Let_def)
    with get_set [OF that(2,3)] show ?thesis by (simp add: isOpen_def Let_def)
  qed
  with g c show ?thesis by (auto simp: isOpen_def Let_def)
qed

theorem circuit_opens_witness:
  "fst (isOpen True 29004 ''eth'' ''x'' (foldl (\<lambda>r t. recordFailure True t ''eth'' ''x'' r) [] [0, 1, 2, 3, 4]))"
  using circuit_opens [of "[0, 1, 2, 3, 4]" "''eth''" "''x''" "[]" 29004]
  by (simp add: FAILURE_THRESHOLD_def redis_get_def RESET_TIMEOUT_MS_def)

text \<open>
  A node that its breaker opened receives no job for five minutes: in every run of checks and further failures of
  that node, in the order of time and within five minutes of the opening, every check is refused, whether or not the table
  can be written. Failures reported meanwhile do not reopen the way.\<close>

theorem node_quarantined:
  assumes "node_reach b" and "ne_state (entry_of i b) = Open" and "openedAt (entry_of i b) = Some t0"
    and "sorted (map event_time es)" and "\<forall>e \<in> set es. t0 \<le> event_time e \<and> event_time e < t0 + OPEN_DURATION_MS"
  shows "\<forall>v \<in> set (breaker_verdicts ok i es b). \<not> v"
  unfolding breaker_verdicts_entry
  using assms entry_open_ok [OF node_reach_inv [OF assms(1)], of i]
  by (intro node_breaker.denied_throughout [of _ t0]) simp_all

lemma node_reach_failures: "node_reach b \<Longrightarrow> node_reach (foldl (\<lambda>b t. breaker_failure True t i b) b ts)"
  by (induction ts arbitrary: b) (auto intro: node_reach.failure)

lemma entry_of_failures: "entry_of i (foldl (\<lambda>b t. breaker_failure ok t i b) b ts) = foldl (\<lambda>e t. node_failed t e) (entry_of i b) ts"
  by (induction ts arbitrary: b) (simp_all add: breaker_failure_entry)

lemma opened_example:
  "entry_of ''n1'' (foldl (\<lambda>b t. breaker_failure True t ''n1'' b) \<lparr>nb_states = [], nb_table = []\<rparr> [0, 1, 2, 3, 4]) =
     \<lparr>ne_state = Open, ne_failures = [0, 1, 2, 3, 4], openedAt = Some 4, halfOpenSuccesses = 0\<rparr>"
  unfolding entry_of_failures by code_simp

theorem node_quarantined_witness:
  "list_all Not (breaker_verdicts False ''n1'' [Check 10, Fail 20, Check 300003]
     (foldl (\<lambda>b t. breaker_failure True t ''n1'' b) \<lparr>nb_states = [], nb_table = []\<rparr> [0, 1, 2, 3, 4]))"
  unfolding list_all_iff
  by (rule node_quarantined [of _ _ 4, OF node_reach_failures [OF node_reach.start]], unfold opened_example)
    (simp_all add: OPEN_DURATION_MS_def)

text \<open>
  A restart of the process keeps every verdict of the node breaker: the breaker that the constructor loads from
  the table answers each check, for each node at each time, as the one in memory did.\<close>

theorem node_restart_keeps_verdicts:
  assumes "node_reach b"
  shows "fst (breaker_check ok now i (loadFromDb (nb_table b))) = fst (breaker_check ok' now i b)"
proof -
  have inv: "node_inv b" using node_reach_inv [OF assms] .
  have st: "fst (breaker_check ok now i b) = (fst (node_check now (entry_of i b)), ne_state (snd (node_check now (entry_of i b))))"
    for ok b
  proof -
    obtain e b1 where g: "getOrCreate i b = (e, b1)" by fastforce
    then show ?thesis using getOrCreate_entry [OF g] by (simp add: breaker_check_def g Let_def split: prod.splits)
  qed
  have l: "ne_state (entry_of i (loadFromDb (nb_table b))) = ne_state (entry_of i b)"
    "ne_state (entry_of i b) = Open \<Longrightarrow> openedAt (entry_of i (loadFromDb (nb_table b))) = openedAt (entry_of i b)"
    using inv loaded_entry [of "nb_table b" i] unfolding node_inv_def
    by (auto simp: new_entry_def split: option.splits dest!: spec [of _ i])
  show ?thesis unfolding st using l by (auto simp: node_check_def split: circuit_state.splits)
qed

theorem node_restart_keeps_verdicts_witness:
  "fst (breaker_check True 9 ''n1'' (loadFromDb (nb_table (breaker_failure True 0 ''n1'' \<lparr>nb_states = [], nb_table = []\<rparr>)))) =
   fst (breaker_check True 9 ''n1'' (breaker_failure True 0 ''n1'' \<lparr>nb_states = [], nb_table = []\<rparr>))"
  by (rule node_restart_keeps_verdicts [OF node_reach.failure [OF node_reach.start]])

end
