(* ===== verification/Rpc_Limits.thy ===== *)
theory Rpc_Limits
  imports Circuit_Breakers Kernel_Adapters
begin

text \<open>
  The rate limiter and the response cache of the RPC gateway:
  \<^verbatim>\<open>workloads/rpc_gateway/rate_limiter.js\<close> and \<^verbatim>\<open>workloads/rpc_gateway/cache.js\<close>, with
  \<open>keyRef\<close> of \<^verbatim>\<open>security/key_mask.mjs\<close>. Both keep their state in Redis; \<open>up\<close> tells whether
  the client is there and the command succeeds. \<open>sha\<close> is the platform's SHA-256 in hex. A date
  is the number of its day, which its ISO text names.
\<close>

text \<open>The names an object literal inherits: looking one up gives something that is not \<open>undefined\<close>.\<close>

definition object_prototype :: "string list" where
  "object_prototype = [''constructor'', ''hasOwnProperty'', ''isPrototypeOf'', ''propertyIsEnumerable'', ''toLocaleString'',
     ''toString'', ''valueOf'', ''__proto__'', ''__defineGetter__'', ''__defineSetter__'', ''__lookupGetter__'', ''__lookupSetter__'']"

section \<open>Rate limiter\<close>

record tier =
  ti_limit :: nat
  ti_priceUsdt :: nat

definition TIERS :: "(string, tier) jsmap" where
  "TIERS = [(''free'', \<lparr>ti_limit = 500, ti_priceUsdt = 0\<rparr>), (''basic'', \<lparr>ti_limit = 10000, ti_priceUsdt = 10\<rparr>),
     (''pro'', \<lparr>ti_limit = 100000, ti_priceUsdt = 50\<rparr>), (''enterprise'', \<lparr>ti_limit = 1000000, ti_priceUsdt = 200\<rparr>)]"

text \<open>\<open>TIERS[t].limit\<close>: \<open>None\<close> when \<open>TIERS[t]\<close> is undefined, so that the access throws;
  \<open>Some None\<close> when it is an inherited member, which has no limit.\<close>

definition tier_limit :: "string \<Rightarrow> nat option option" where
  "tier_limit t = (case map_of TIERS t of
     Some d \<Rightarrow> Some (Some (ti_limit d))
   | None \<Rightarrow> if t \<in> set object_prototype then Some None else None)"

record key_info =
  ki_tier :: string
  ki_owner :: string
  ki_created :: int
  ki_status :: string

record limiter =
  li_keys :: "(string, key_info) jsmap"
  li_usage :: "(string \<times> int, nat) expiring"

definition MS_PER_DAY :: int where "MS_PER_DAY = 86400000"

definition getDateKey :: "int \<Rightarrow> int" where
  "getDateKey now = now div MS_PER_DAY"

definition getNextResetTime :: "int \<Rightarrow> int" where
  "getNextResetTime now = (now div MS_PER_DAY + 1) * MS_PER_DAY"

definition keyRef :: "(string \<Rightarrow> string) \<Rightarrow> string \<Rightarrow> string" where
  "keyRef sha k = ''kref_'' @ take 16 (sha k)"

definition getApiKeyInfoKey :: "(string \<Rightarrow> string) \<Rightarrow> string \<Rightarrow> string" where
  "getApiKeyInfoKey sha k = ''rpc:apikey:'' @ keyRef sha k"

definition legacyApiKeyInfoKey :: "string \<Rightarrow> string" where
  "legacyApiKeyInfoKey k = ''rpc:apikey:'' @ k"

definition getUsageKey :: "(string \<Rightarrow> string) \<Rightarrow> string \<Rightarrow> int \<Rightarrow> string \<times> int" where
  "getUsageKey sha k date = (''rpc:usage:'' @ keyRef sha k, date)"

definition getIpUsageKey :: "string \<Rightarrow> int \<Rightarrow> string \<times> int" where
  "getIpUsageKey ip date = (''rpc:usage:ip:'' @ ip, date)"

text \<open>\<open>apiKey\<close> is the random key that \<open>generateApiKey\<close> drew.\<close>

definition createApiKey ::
  "(string \<Rightarrow> string) \<Rightarrow> bool \<Rightarrow> int \<Rightarrow> string \<Rightarrow> string \<Rightarrow> string option \<Rightarrow> limiter \<Rightarrow> string + (key_info \<times> limiter)" where
  "createApiKey sha up now apiKey tier owner l =
     (if \<not> up then Inl ''Redis not available''
      else if tier_limit tier = None then Inl (''Invalid tier: '' @ tier)
      else let info = \<lparr>ki_tier = tier, ki_owner = or_str owner ''anonymous'', ki_created = now, ki_status = ''active''\<rparr>
           in Inr (info, l\<lparr>li_keys := mset_key (getApiKeyInfoKey sha apiKey) info (li_keys l)\<rparr>))"

definition getApiKeyInfo :: "(string \<Rightarrow> string) \<Rightarrow> bool \<Rightarrow> string \<Rightarrow> limiter \<Rightarrow> key_info option \<times> limiter" where
  "getApiKeyInfo sha up apiKey l =
     (if \<not> up then (None, l)
      else case map_of (li_keys l) (getApiKeyInfoKey sha apiKey) of
        Some d \<Rightarrow> (Some d, l)
      | None \<Rightarrow>
          (case map_of (li_keys l) (legacyApiKeyInfoKey apiKey) of
             None \<Rightarrow> (None, l)
           | Some d \<Rightarrow> (Some d, l\<lparr>li_keys := mdelete (legacyApiKeyInfoKey apiKey)
               (mset_key (getApiKeyInfoKey sha apiKey) d (li_keys l))\<rparr>)))"

text \<open>Whom a request counts against: the tier and the counter. Both \<open>checkRateLimit\<close> and
  \<open>incrementUsage\<close> begin with it.\<close>

definition usage_of ::
  "(string \<Rightarrow> string) \<Rightarrow> bool \<Rightarrow> int \<Rightarrow> string option \<Rightarrow> string \<Rightarrow> limiter \<Rightarrow> (string \<times> string \<times> int) \<times> limiter" where
  "usage_of sha up now apiKey ip l =
     (case apiKey of
        None \<Rightarrow> ((''free'', getIpUsageKey ip (getDateKey now)), l)
      | Some k \<Rightarrow>
          if take 3 k = ''sk_'' then
            case getApiKeyInfo sha up k l of
              (Some info, l) \<Rightarrow> if ki_status info = ''active'' then ((ki_tier info, getUsageKey sha k (getDateKey now)), l)
                                else ((''free'', getIpUsageKey ip (getDateKey now)), l)
            | (None, l) \<Rightarrow> ((''free'', getIpUsageKey ip (getDateKey now)), l)
          else ((''free'', getIpUsageKey ip (getDateKey now)), l))"

text \<open>A verdict; an absent limit or remaining count is \<open>undefined\<close> or \<open>NaN\<close>.\<close>

record rate_verdict =
  rv_allowed :: bool
  rv_tier :: string
  rv_remaining :: "nat option"
  rv_limit :: "nat option"
  rv_resetAt :: "int option"

text \<open>\<open>up\<close> for the key, \<open>readable\<close> for the counter. \<open>None\<close>: the promise is rejected.\<close>

definition checkRateLimit ::
  "(string \<Rightarrow> string) \<Rightarrow> bool \<Rightarrow> bool \<Rightarrow> int \<Rightarrow> string option \<Rightarrow> string \<Rightarrow> limiter \<Rightarrow> rate_verdict option \<times> limiter" where
  "checkRateLimit sha up readable now apiKey ip l =
     (let ((tier, key), l) = usage_of sha up now apiKey ip l in
      case tier_limit tier of
        None \<Rightarrow> (None, l)
      | Some limit \<Rightarrow>
          if \<not> readable then (Some \<lparr>rv_allowed = True, rv_tier = tier, rv_remaining = limit, rv_limit = limit, rv_resetAt = None\<rparr>, l)
          else let current = coalesce (redis_get now key (li_usage l)) 0 in
            case limit of
              None \<Rightarrow> (Some \<lparr>rv_allowed = True, rv_tier = tier, rv_remaining = None, rv_limit = None, rv_resetAt = None\<rparr>, l)
            | Some n \<Rightarrow>
                if current \<ge> n
                then (Some \<lparr>rv_allowed = False, rv_tier = tier, rv_remaining = Some 0, rv_limit = Some n,
                            rv_resetAt = Some (getNextResetTime now)\<rparr>, l)
                else (Some \<lparr>rv_allowed = True, rv_tier = tier, rv_remaining = Some (n - current - 1), rv_limit = Some n,
                            rv_resetAt = None\<rparr>, l))"

definition incrementUsage :: "(string \<Rightarrow> string) \<Rightarrow> bool \<Rightarrow> int \<Rightarrow> string option \<Rightarrow> string \<Rightarrow> limiter \<Rightarrow> limiter" where
  "incrementUsage sha up now apiKey ip l =
     (if \<not> up then l
      else let ((tier, key), l) = usage_of sha up now apiKey ip l
           in l\<lparr>li_usage := redis_set_ex now key (coalesce (redis_get now key (li_usage l)) 0 + 1) (86400 * 2) (li_usage l)\<rparr>)"

text \<open>\<open>percentUsed\<close> is \<open>((current / limit) * 100).toFixed(1)\<close>.\<close>

record usage_stats =
  us_tier :: string
  us_used :: nat
  us_limit :: "nat option"
  us_remaining :: "nat option"
  us_percentUsed :: "rat option"
  us_resetAt :: int

definition getUsageStats :: "(string \<Rightarrow> string) \<Rightarrow> bool \<Rightarrow> int \<Rightarrow> string \<Rightarrow> limiter \<Rightarrow> usage_stats option \<times> limiter" where
  "getUsageStats sha up now apiKey l =
     (case getApiKeyInfo sha up apiKey l of
        (None, l) \<Rightarrow> (None, l)
      | (Some info, l) \<Rightarrow>
          (case tier_limit (ki_tier info) of
             None \<Rightarrow> (None, l)
           | Some limit \<Rightarrow>
               let used = coalesce (redis_get now (getUsageKey sha apiKey (getDateKey now)) (li_usage l)) 0 in
               (Some \<lparr>us_tier = ki_tier info, us_used = used, us_limit = limit, us_remaining = map_option (\<lambda>n. n - used) limit,
                      us_percentUsed = map_option (\<lambda>n. of_int \<lfloor>(of_nat used / of_nat n * 1000 + 1 / 2 :: rat)\<rfloor> / 10) limit,
                      us_resetAt = getNextResetTime now\<rparr>, l)))"

subsection \<open>The counter of a client\<close>

lemma usage_of_state: "usage_of sha up now apiKey ip l = (i, l') \<Longrightarrow> li_usage l' = li_usage l"
  by (auto simp: usage_of_def getApiKeyInfo_def split: option.splits if_splits prod.splits)

lemma getApiKeyInfo_again:
  assumes "keyRef sha k \<noteq> k" and "getApiKeyInfo sha True k l = (i, l')" and "li_keys l'' = li_keys l'"
  shows "getApiKeyInfo sha True k l'' = (i, l'')"
proof -
  from assms(1) have "getApiKeyInfoKey sha k \<noteq> legacyApiKeyInfoKey k"
    by (simp add: getApiKeyInfoKey_def legacyApiKeyInfoKey_def)
  with assms(2,3) show ?thesis by (auto simp: getApiKeyInfo_def dest: sym split: option.splits if_splits)
qed

text \<open>The reference of a key does not begin like the key itself.\<close>

lemma keyRef_not_sk: "take 3 k = ''sk_'' \<Longrightarrow> keyRef sha k \<noteq> k"
proof
  assume "take 3 k = ''sk_''" and "keyRef sha k = k"
  moreover have "take 3 (keyRef sha k) = ''kre''" by (simp add: keyRef_def)
  ultimately show False by simp
qed

lemma usage_of_again:
  assumes "usage_of sha True now apiKey ip l = (i, l')" and "li_keys l'' = li_keys l'" and "getDateKey now' = getDateKey now"
  shows "usage_of sha True now' apiKey ip l'' = (i, l'')"
proof (cases "\<exists>k. apiKey = Some k \<and> take 3 k = ''sk_''")
  case True
  then obtain k where k: "apiKey = Some k" "take 3 k = ''sk_''" by blast
  obtain d l1 where g: "getApiKeyInfo sha True k l = (d, l1)" by fastforce
  with assms k have "l1 = l'" by (auto simp: usage_of_def split: option.splits if_splits)
  then have "getApiKeyInfo sha True k l'' = (d, l'')"
    using getApiKeyInfo_again [OF keyRef_not_sk [OF k(2)] g] assms(2) by simp
  with assms k g show ?thesis by (auto simp: usage_of_def split: option.splits if_splits)
qed (use assms in \<open>auto simp: usage_of_def split: option.splits if_splits\<close>)

lemma redis_get_set: "t \<le> now \<Longrightarrow> now < t + s * 1000 \<Longrightarrow> redis_get now k (redis_set_ex t k v s r) = Some v"
  by (simp add: redis_get_def redis_set_ex_def)

text \<open>A client that sends one request after another: each is checked and, if it is admitted, counted.\<close>

fun request_run ::
  "(string \<Rightarrow> string) \<Rightarrow> string option \<Rightarrow> string \<Rightarrow> int list \<Rightarrow> limiter \<Rightarrow> bool list \<times> limiter" where
  "request_run sha apiKey ip [] l = ([], l)"
| "request_run sha apiKey ip (t # ts) l =
     (case checkRateLimit sha True True t apiKey ip l of
        (v, l) \<Rightarrow>
          (let ok = (case v of None \<Rightarrow> True | Some d \<Rightarrow> rv_allowed d);
               (bs, l) = request_run sha apiKey ip ts (if ok then incrementUsage sha True t apiKey ip l else l)
           in (ok # bs, l)))"

text \<open>The run seen from its counter alone.\<close>

lemma check_counter:
  assumes "usage_of sha True t apiKey ip l = ((tier, key), l')" and "tier_limit tier = Some (Some n)"
    and "redis_get t key (li_usage l) = c"
  shows "\<exists>d. checkRateLimit sha True True t apiKey ip l = (Some d, l') \<and> (rv_allowed d \<longleftrightarrow> coalesce c 0 < n)"
  using assms usage_of_state [OF assms(1)] by (simp add: checkRateLimit_def Let_def)

lemma increment_counter:
  assumes "usage_of sha True t apiKey ip l = ((tier, key), l)"
  shows "li_keys (incrementUsage sha True t apiKey ip l) = li_keys l"
    and "t \<le> t' \<Longrightarrow> t' < t + 172800000 \<Longrightarrow>
      redis_get t' key (li_usage (incrementUsage sha True t apiKey ip l)) = Some (coalesce (redis_get t key (li_usage l)) 0 + 1)"
  using assms by (simp_all add: incrementUsage_def Let_def redis_get_set)

lemma same_day: "getDateKey t = getDateKey t' \<Longrightarrow> t' - t < MS_PER_DAY"
  unfolding getDateKey_def MS_PER_DAY_def by linarith

lemma redis_get_later: "t \<le> t' \<Longrightarrow> redis_get t' k r = Some v \<Longrightarrow> redis_get t k r = Some v"
  by (auto simp: redis_get_def split: option.splits if_splits)

lemma denied_run:
  assumes "sorted (t0 # ts)" and "\<forall>t \<in> set ts. getDateKey t = getDateKey t0"
    and "usage_of sha True t0 apiKey ip l = ((tier, key), l)" and "tier_limit tier = Some (Some n)"
    and "\<forall>t \<in> set ts. \<exists>c \<ge> n. redis_get t key (li_usage l) = Some c"
  shows "fst (request_run sha apiKey ip ts l) = replicate (length ts) False"
  using assms
proof (induction ts)
  case (Cons t ts)
  have u: "usage_of sha True t apiKey ip l = ((tier, key), l)"
    using Cons.prems usage_of_again [OF Cons.prems(3) refl, of t] by simp
  obtain c where "c \<ge> n" "redis_get t key (li_usage l) = Some c" using Cons.prems(5) by auto
  with check_counter [OF u Cons.prems(4)] obtain d
    where "checkRateLimit sha True True t apiKey ip l = (Some d, l)" "\<not> rv_allowed d" by fastforce
  with Cons show ?case by (simp add: Let_def case_prod_beta)
qed simp

lemma counted_run:
  assumes "sorted (t0 # ts)" and "\<forall>t \<in> set ts. getDateKey t = getDateKey t0"
    and "usage_of sha True t0 apiKey ip l = ((tier, key), l)" and "tier_limit tier = Some (Some n)" and "c \<le> n"
    and "\<forall>t. t0 \<le> t \<and> t < t0 + MS_PER_DAY \<longrightarrow> coalesce (redis_get t key (li_usage l)) 0 = c"
  shows "fst (request_run sha apiKey ip ts l) = replicate (min (n - c) (length ts)) True @ replicate (length ts - (n - c)) False"
  using assms
proof (induction ts arbitrary: t0 l c)
  case (Cons t ts)
  have u: "usage_of sha True t apiKey ip l = ((tier, key), l)"
    using Cons.prems(2) usage_of_again [OF Cons.prems(3) refl, of t] by simp
  have day: "t0 \<le> t" "t < t0 + MS_PER_DAY" using Cons.prems(1,2) same_day [of t0 t] by simp_all
  with Cons.prems(6) have c: "coalesce (redis_get t key (li_usage l)) 0 = c" by blast
  obtain d where d: "checkRateLimit sha True True t apiKey ip l = (Some d, l)" "rv_allowed d \<longleftrightarrow> c < n"
    using check_counter [OF u Cons.prems(4) refl] c by auto
  show ?case
  proof (cases "c < n")
    case True
    let ?l = "incrementUsage sha True t apiKey ip l"
    have "usage_of sha True t apiKey ip ?l = ((tier, key), ?l)"
      using usage_of_again [OF u increment_counter(1) [OF u] refl] .
    moreover have "\<forall>t'. t \<le> t' \<and> t' < t + MS_PER_DAY \<longrightarrow> coalesce (redis_get t' key (li_usage ?l)) 0 = c + 1"
      using increment_counter(2) [OF u] c by (auto simp: MS_PER_DAY_def)
    ultimately have "fst (request_run sha apiKey ip ts ?l) =
        replicate (min (n - (c + 1)) (length ts)) True @ replicate (length ts - (n - (c + 1))) False"
      using Cons.prems True by (intro Cons.IH [of t]) auto
    moreover obtain k where "n = Suc (c + k)" using True by (auto dest: less_imp_Suc_add)
    ultimately show ?thesis using d by (simp add: Let_def case_prod_beta)
  next
    case False
    then have "c = n" using Cons.prems(5) by simp
    have "\<exists>x \<ge> n. redis_get t' key (li_usage l) = Some x" if "t' \<in> set ts" "0 < n" for t'
    proof -
      have "t0 \<le> t'" "t' < t0 + MS_PER_DAY" using that Cons.prems(1,2) same_day [of t0 t'] by auto
      with Cons.prems(6) have "coalesce (redis_get t' key (li_usage l)) 0 = c" by blast
      with \<open>c = n\<close> that show ?thesis by (cases "redis_get t' key (li_usage l)") auto
    qed
    moreover have "0 < n" using Cons.prems(4) by (auto simp: tier_limit_def TIERS_def split: if_splits)
    ultimately have "fst (request_run sha apiKey ip ts l) = replicate (length ts) False"
      using Cons.prems u by (intro denied_run [of t _ sha apiKey ip l tier key n]) auto
    with d False \<open>c = n\<close> show ?thesis by (simp add: Let_def case_prod_beta)
  qed
qed simp

section \<open>Cache\<close>

definition METHOD_TTL :: "(string, int) jsmap" where
  "METHOD_TTL = [(''eth_blockNumber'', 3), (''eth_chainId'', 86400), (''eth_gasPrice'', 10), (''eth_getBalance'', 5),
     (''eth_getCode'', 300), (''eth_getBlockByNumber'', 60), (''eth_getBlockByHash'', 3600),
     (''eth_getTransactionByHash'', 3600), (''eth_getTransactionReceipt'', 300), (''net_version'', 86400),
     (''web3_clientVersion'', 3600)]"

definition NEVER_CACHE :: "string list" where
  "NEVER_CACHE = [''eth_sendRawTransaction'', ''eth_sendTransaction'', ''eth_call'', ''eth_getLogs'', ''eth_estimateGas'',
     ''eth_sign'', ''personal_sign'', ''eth_signTypedData'', ''eth_accounts'', ''eth_requestAccounts'']"

record rpc_cache =
  ca_data :: "json redis"
  ca_hits :: nat
  ca_misses :: nat

definition hashParams :: "(string \<Rightarrow> string) \<Rightarrow> json \<Rightarrow> string" where
  "hashParams sha ps =
     (if \<not> json_truthy ps \<or> ps = JArr [] then ''empty'' else take 16 (sha (stringify ps)))"

definition getCacheKey :: "(string \<Rightarrow> string) \<Rightarrow> string \<Rightarrow> string \<Rightarrow> json \<Rightarrow> string" where
  "getCacheKey sha chain m ps = ''rpc:cache:'' @ normalized chain @ '':'' @ m @ '':'' @ hashParams sha ps"

definition isCacheable :: "string \<Rightarrow> bool" where
  "isCacheable m \<longleftrightarrow> m \<notin> set NEVER_CACHE \<and> (map_of METHOD_TTL m \<noteq> None \<or> m \<in> set object_prototype)"

text \<open>\<open>None\<close> is an inherited member: not a number, so that it is not \<open>\<le> 0\<close> and Redis refuses it.\<close>

definition getTTL :: "string \<Rightarrow> int option" where
  "getTTL m = (case map_of METHOD_TTL m of Some n \<Rightarrow> Some n | None \<Rightarrow> if m \<in> set object_prototype then None else Some 0)"

definition getCached :: "(string \<Rightarrow> string) \<Rightarrow> bool \<Rightarrow> int \<Rightarrow> string \<Rightarrow> string \<Rightarrow> json \<Rightarrow> rpc_cache \<Rightarrow> json option \<times> rpc_cache" where
  "getCached sha up now chain m ps c =
     (if \<not> isCacheable m then (None, c)
      else if \<not> up then (None, c\<lparr>ca_misses := ca_misses c + 1\<rparr>)
      else case redis_get now (getCacheKey sha chain m ps) (ca_data c) of
        Some r \<Rightarrow> (Some r, c\<lparr>ca_hits := ca_hits c + 1\<rparr>)
      | None \<Rightarrow> (None, c\<lparr>ca_misses := ca_misses c + 1\<rparr>))"

definition setCached :: "(string \<Rightarrow> string) \<Rightarrow> bool \<Rightarrow> int \<Rightarrow> string \<Rightarrow> string \<Rightarrow> json \<Rightarrow> json \<Rightarrow> rpc_cache \<Rightarrow> rpc_cache" where
  "setCached sha up now chain m ps response c =
     (if \<not> isCacheable m then c
      else case getTTL m of
        None \<Rightarrow> c
      | Some ttl \<Rightarrow>
          if ttl \<le> 0 \<or> \<not> up then c
          else c\<lparr>ca_data := redis_set_ex now (getCacheKey sha chain m ps) response ttl (ca_data c)\<rparr>)"

text \<open>Hits, misses, their sum and the rate of hits to one decimal.\<close>

definition getCacheStats :: "rpc_cache \<Rightarrow> nat \<times> nat \<times> nat \<times> rat" where
  "getCacheStats c =
     (let total = ca_hits c + ca_misses c
      in (ca_hits c, ca_misses c, total, if total > 0 then of_int \<lfloor>(of_nat (ca_hits c) / of_nat total * 1000 + 1 / 2 :: rat)\<rfloor> / 10 else 0))"

definition resetCacheStats :: "rpc_cache \<Rightarrow> rpc_cache" where
  "resetCacheStats c = c\<lparr>ca_hits := 0, ca_misses := 0\<rparr>"

lemma cut_at_colon:
  "CHR '':'' \<notin> set a \<Longrightarrow> CHR '':'' \<notin> set a' \<Longrightarrow> a @ CHR '':'' # b = a' @ CHR '':'' # b' \<Longrightarrow> a = a' \<and> b = b'"
proof (induction a arbitrary: a')
  case Nil
  then show ?case by (cases a') auto
next
  case (Cons x a)
  then show ?case by (cases a') auto
qed

lemma chain_no_colon: "getChainConfig env chain \<noteq> None \<Longrightarrow> CHR '':'' \<notin> set (normalized chain)"
  by (auto simp: getChainConfig_def PROVIDER_CONFIGS_def split: if_splits)

lemma method_no_colon: "map_of METHOD_TTL m = Some ttl \<Longrightarrow> CHR '':'' \<notin> set m"
  by (auto simp: METHOD_TTL_def split: if_splits)

lemma method_ttl_cacheable: "map_of METHOD_TTL m = Some ttl \<Longrightarrow> isCacheable m \<and> getTTL m = Some ttl \<and> 0 < ttl"
  by (auto simp: METHOD_TTL_def NEVER_CACHE_def isCacheable_def getTTL_def split: if_splits)

lemma object_prototype_no_colon: "m \<in> set object_prototype \<Longrightarrow> CHR '':'' \<notin> set m"
  by (auto simp: object_prototype_def)

lemma cache_key_inj:
  assumes "getCacheKey sha chain m ps = getCacheKey sha chain' m' ps'" and "isCacheable m" and "isCacheable m'"
    and "getChainConfig env chain \<noteq> None" and "getChainConfig env chain' \<noteq> None"
  shows "normalized chain = normalized chain' \<and> m = m' \<and> hashParams sha ps = hashParams sha ps'"
proof -
  have colon: "CHR '':'' \<notin> set m" "CHR '':'' \<notin> set m'"
    using assms(2,3) method_no_colon object_prototype_no_colon by (auto simp: isCacheable_def)
  have "normalized chain @ CHR '':'' # m @ CHR '':'' # hashParams sha ps =
      normalized chain' @ CHR '':'' # m' @ CHR '':'' # hashParams sha ps'"
    using assms(1) by (simp add: getCacheKey_def)
  with cut_at_colon [OF chain_no_colon [OF assms(4)] chain_no_colon [OF assms(5)]] cut_at_colon [OF colon]
  show ?thesis by blast
qed

section \<open>Properties\<close>

text \<open>
  The daily limit holds exactly for a client whose requests follow one another: of the requests of one day, counted
  against one key or one address whose counter is still empty, the first \<open>limit\<close> are admitted and every later one is refused.\<close>

theorem daily_limit_exact:
  assumes "sorted (t0 # ts)" and "\<forall>t \<in> set ts. getDateKey t = getDateKey t0"
    and "usage_of sha True t0 apiKey ip l = ((tier, key), l')" and "map_of TIERS tier = Some d"
    and "map_of (li_usage l) key = None"
  shows "fst (request_run sha apiKey ip (t0 # ts) l) =
    replicate (min (ti_limit d) (length ts + 1)) True @ replicate (length ts + 1 - ti_limit d) False"
proof -
  have l: "li_usage l' = li_usage l" by (rule usage_of_state [OF assms(3)])
  have lim: "tier_limit tier = Some (Some (ti_limit d))" by (simp add: tier_limit_def assms(4))
  have u: "usage_of sha True t0 apiKey ip l' = ((tier, key), l')" by (rule usage_of_again [OF assms(3)]) simp_all
  have "checkRateLimit sha True True t0 apiKey ip l = checkRateLimit sha True True t0 apiKey ip l'"
    using assms(3) u l by (simp add: checkRateLimit_def)
  then have "request_run sha apiKey ip (t0 # ts) l = request_run sha apiKey ip (t0 # ts) l'" by simp
  moreover have "fst (request_run sha apiKey ip (t0 # ts) l') =
      replicate (min (ti_limit d - 0) (length (t0 # ts))) True @ replicate (length (t0 # ts) - (ti_limit d - 0)) False"
    by (rule counted_run [OF _ _ u lim]) (use assms l in \<open>auto simp: redis_get_def\<close>)
  ultimately show ?thesis by simp
qed

theorem daily_limit_exact_witness:
  "fst (request_run (\<lambda>s. s) None ''1.2.3.4'' (7 # replicate 599 7) \<lparr>li_keys = [], li_usage = []\<rparr>) =
     replicate 500 True @ replicate 100 False"
  using daily_limit_exact [of 7 "replicate 599 7" "\<lambda>s. s" None "''1.2.3.4''" "\<lparr>li_keys = [], li_usage = []\<rparr>" "''free''"]
  by (simp add: usage_of_def TIERS_def del: request_run.simps)

text \<open>
  A key created for an inherited name of the table of tiers, such as \<open>constructor\<close>, passes the validation of the
  tier and is then never limited: each check admits it, however often the key was used.\<close>

theorem inherited_tier_unlimited:
  assumes "tier \<in> set object_prototype" and "take 3 k = ''sk_''"
  shows "\<exists>info l'. createApiKey sha True now k tier owner l = Inr (info, l') \<and>
    (\<forall>usage t ip readable. \<exists>v. fst (checkRateLimit sha True readable t (Some k) ip (l'\<lparr>li_usage := usage\<rparr>)) = Some v \<and> rv_allowed v)"
proof -
  have "map_of TIERS tier = None" using assms(1) by (auto simp: object_prototype_def TIERS_def)
  with assms(1) have t: "tier_limit tier = Some None" by (simp add: tier_limit_def)
  with assms(2) show ?thesis
    by (auto simp: createApiKey_def Let_def checkRateLimit_def usage_of_def getApiKeyInfo_def)
qed

theorem inherited_tier_unlimited_witness:
  "\<exists>info l'. createApiKey (\<lambda>s. s) True 0 ''sk_1'' ''constructor'' None \<lparr>li_keys = [], li_usage = []\<rparr> = Inr (info, l') \<and>
    (\<forall>usage t ip readable. \<exists>v. fst (checkRateLimit (\<lambda>s. s) True readable t (Some ''sk_1'') ip (l'\<lparr>li_usage := usage\<rparr>)) = Some v \<and>
       rv_allowed v)"
  by (rule inherited_tier_unlimited) (simp_all add: object_prototype_def)

text \<open>
  The cache gives back what was stored until the time to live of the method is over and nothing after it; what
  changes state or depends on the caller is never stored.\<close>

theorem cache_roundtrip:
  assumes "map_of METHOD_TTL m = Some ttl" and "t \<le> now"
  shows "(fst (getCached sha True now chain m ps (setCached sha True t chain m ps r c)) =
      (if now < t + ttl * 1000 then Some r else None)) \<and>
    (\<forall>w \<in> set NEVER_CACHE. setCached sha up t chain w ps r c = c \<and> fst (getCached sha up now chain w ps c) = None)"
  using method_ttl_cacheable [OF assms(1)] assms(2)
  by (auto simp: setCached_def getCached_def redis_get_def redis_set_ex_def isCacheable_def)

theorem cache_roundtrip_witness:
  "fst (getCached (\<lambda>s. s) True 2999 ''eth'' ''eth_blockNumber'' (JArr [])
     (setCached (\<lambda>s. s) True 0 ''eth'' ''eth_blockNumber'' (JArr []) (JStr ''0x1'') \<lparr>ca_data = [], ca_hits = 0, ca_misses = 0\<rparr>)) =
   Some (JStr ''0x1'')"
  using cache_roundtrip [of "''eth_blockNumber''" 3 0 2999 "\<lambda>s. s" "''eth''" "JArr []" "JStr ''0x1''" "\<lparr>ca_data = [], ca_hits = 0, ca_misses = 0\<rparr>"]
  by (simp add: METHOD_TTL_def)

text \<open>
  A store to the cache can show up only under its own request: a look-up that finds something after the store and
  found nothing before it asked for the same chain up to aliases, the same method and parameters with the same hash, within the
  time to live.\<close>

theorem cache_serves_own:
  assumes "getChainConfig env chain \<noteq> None" and "getChainConfig env chain' \<noteq> None"
    and "fst (getCached sha True now chain m ps c) = None"
    and "fst (getCached sha True now chain m ps (setCached sha up t chain' m' ps' r' c)) = Some r"
  shows "r = r' \<and> normalized chain = normalized chain' \<and> m = m' \<and> hashParams sha ps = hashParams sha ps' \<and>
    (\<exists>ttl. map_of METHOD_TTL m = Some ttl \<and> now < t + ttl * 1000)"
proof -
  have m: "isCacheable m" using assms(4) by (auto simp: getCached_def split: if_splits)
  have m': "isCacheable m'" using assms(3,4) by (auto simp: setCached_def split: if_splits)
  from assms(3,4) m m' obtain ttl where ttl: "getTTL m' = Some ttl" "0 < ttl"
    and key: "getCacheKey sha chain m ps = getCacheKey sha chain' m' ps'" and "r = r'" "now < t + ttl * 1000"
    by (auto simp: getCached_def setCached_def redis_get_def redis_set_ex_def split: option.splits if_splits)
  moreover have "map_of METHOD_TTL m' = Some ttl" using ttl by (auto simp: getTTL_def split: option.splits if_splits)
  ultimately show ?thesis using cache_key_inj [OF key m m' assms(1,2)] by blast
qed

theorem cache_serves_own_witness:
  "normalized ''eth'' = normalized ''ethereum''"
  using cache_serves_own [of "\<lambda>_. None" "''eth''" "''ethereum''" "\<lambda>s. s" 1 "''eth_chainId''" "JArr []"
      "\<lparr>ca_data = [], ca_hits = 0, ca_misses = 0\<rparr>" True 0 "''eth_chainId''" "JArr []" "JStr ''0x1''" "JStr ''0x1''"]
  by (simp add: METHOD_TTL_def NEVER_CACHE_def getTTL_def isCacheable_def setCached_def getCached_def redis_get_def redis_set_ex_def
      getCacheKey_def normalized_def CHAIN_ALIASES_def getChainConfig_def PROVIDER_CONFIGS_def)

end
