(* ===== verification/Credit_Service.thy ===== *)
theory Credit_Service
  imports Rpc_Limits Market_Sources
begin

text \<open>
  Prepaid credit: \<^verbatim>\<open>billing/credit_service.mjs\<close> with \<^verbatim>\<open>billing/deduct_sql.mjs\<close>, the account controls of
  \<^verbatim>\<open>console_accounts/limits.mjs\<close>, the plan bucket of \<^verbatim>\<open>billing/legacy_sub_entitlement.mjs\<close> and the session keys
  of \<^verbatim>\<open>billing/x402_session_keys.js\<close>. Tables are records of association lists; each SQL statement is one
  step, a transaction is undone when it is refused. Amounts are exact rationals (NUMERIC columns);
  a NULL amount counts as 0, as the statements treat it. The usage metering of Pricing V2 is off.
  In messages a long dash is written as a hyphen and an apostrophe is left out.
\<close>

section \<open>Tables\<close>

record account =
  ac_wallet :: "string option"
  ac_tier :: string
  ac_daily :: "nat option"
  ac_credits :: rat
  ac_dodo :: rat
  ac_deposited :: rat
  ac_spent :: rat
  ac_status :: "string option"
  ac_hold :: bool
  ac_created :: int
  ac_lastUsed :: "int option"

text \<open>A row of \<open>plan_entitlements\<close> whose source is \<open>plan\<close>.\<close>

record plan_bucket =
  pb_total :: nat
  pb_used :: nat
  pb_end :: int

record agent_limits =
  ag_paused :: bool
  ag_scopes :: "string list option"
  ag_dailyCap :: "rat option"
  ag_monthlyCap :: "rat option"

record account_settings =
  as_monthlyCap :: "rat option"
  as_autoUse :: "bool option"
  as_timezone :: "string option"

record deposit_row =
  dp_key :: string
  dp_amount :: rat
  dp_from :: "string option"
  dp_tierBefore :: string
  dp_tierAfter :: string

text \<open>\<open>bi_sessions\<close>: the hashes that are not revoked, with the account and the payer. \<open>bi_links\<close>: the account of the
  console that a key belongs to.\<close>

record billing =
  bi_accounts :: "(string, account) jsmap"
  bi_usage :: "(string \<times> int, nat \<times> rat) jsmap"
  bi_deposits :: "(string, deposit_row) jsmap"
  bi_sessions :: "(string, string \<times> string) jsmap"
  bi_plans :: "(string, plan_bucket) jsmap"
  bi_links :: "(string, string) jsmap"
  bi_agents :: "(string, agent_limits) jsmap"
  bi_settings :: "(string, account_settings) jsmap"
  bi_counters :: "(string \<times> string \<times> string, rat) jsmap"

text \<open>The statements that can fail.\<close>

datatype billing_query = QResolve | QCount | QBucket | QDeduct | QMeter | QDeposit | QCredit

text \<open>\<open>ce_today\<close> is the date of the process, \<open>ce_dbDate\<close> that of the database; \<open>ce_period tz format\<close> names a period.\<close>

record charge_env =
  ce_sha :: "string \<Rightarrow> string"
  ce_pool :: bool
  ce_now :: int
  ce_today :: int
  ce_dbDate :: int
  ce_freeZero :: bool
  ce_bucket :: bool
  ce_console :: bool
  ce_period :: "string \<Rightarrow> string \<Rightarrow> string"
  ce_fault :: "billing_query \<Rightarrow> bool"

record denied =
  de_code :: string
  de_http :: nat
  de_message :: string
  de_terminal :: bool

record allowed =
  al_tier :: string
  al_cost :: rat
  al_balance :: "rat option"
  al_remaining :: "int option"
  al_limit :: "int option"
  al_source :: "string option"

type_synonym verdict = "denied + allowed"

section \<open>Identity\<close>

definition PRICE_PER_CALL_USDT :: rat where "PRICE_PER_CALL_USDT = 3 / 100000"

definition TIER_DAILY_LIMIT :: "(string, nat) jsmap" where
  "TIER_DAILY_LIMIT = [(''free'', 500), (''basic'', 10000), (''pro'', 100000), (''enterprise'', 1000000)]"

definition hex_lower :: "char \<Rightarrow> bool" where
  "hex_lower c \<longleftrightarrow> CHR ''0'' \<le> c \<and> c \<le> CHR ''9'' \<or> CHR ''a'' \<le> c \<and> c \<le> CHR ''f''"

definition is_wallet :: "string \<Rightarrow> bool" where
  "is_wallet s \<longleftrightarrow> take 2 s = ''0x'' \<and> length s = 42 \<and> list_all (\<lambda>c. hex_lower (lower c)) (drop 2 s)"

definition isX402SessionKey :: "string \<Rightarrow> bool" where
  "isX402SessionKey s \<longleftrightarrow> take 5 s = ''x402_'' \<and> length s = 69 \<and> list_all hex_lower (drop 5 s)"

definition isApiKey :: "string \<Rightarrow> bool" where
  "isApiKey s \<longleftrightarrow> take 3 s = ''sk_''"

definition resolveSessionKey :: "(string \<Rightarrow> string) \<Rightarrow> string \<Rightarrow> billing \<Rightarrow> (string \<times> string) option" where
  "resolveSessionKey sha k b = (if isX402SessionKey k then map_of (bi_sessions b) (sha k) else None)"

definition issueSessionKey :: "(string \<Rightarrow> string) \<Rightarrow> string \<Rightarrow> string \<Rightarrow> string \<Rightarrow> billing \<Rightarrow> billing" where
  "issueSessionKey sha k accountApiKey payer b =
     b\<lparr>bi_sessions := mset_key (sha k) (accountApiKey, map lower payer) (bi_sessions b)\<rparr>"

text \<open>The oldest account bound to a wallet.\<close>

definition wallet_account :: "string \<Rightarrow> billing \<Rightarrow> (string \<times> account) option" where
  "wallet_account w b =
     (case sort_key (\<lambda>p. ac_created (snd p)) (filter (\<lambda>p. map_option (map lower) (ac_wallet (snd p)) = Some (map lower w)) (bi_accounts b)) of
        [] \<Rightarrow> None | p # _ \<Rightarrow> Some p)"

definition lookup_account :: "string \<Rightarrow> billing \<Rightarrow> (string \<times> account) option" where
  "lookup_account k b = map_option (\<lambda>a. (k, a)) (map_of (bi_accounts b) k)"

definition resolveAccount :: "(string \<Rightarrow> string) \<Rightarrow> string option \<Rightarrow> string option \<Rightarrow> billing \<Rightarrow> (string \<times> account) option" where
  "resolveAccount sha apiKey wallet b =
     (case apiKey of
        Some k \<Rightarrow>
          if isX402SessionKey k then
            (case resolveSessionKey sha k b of None \<Rightarrow> None | Some (acct, payer) \<Rightarrow> lookup_account acct b)
          else if isApiKey k \<and> lookup_account k b \<noteq> None then lookup_account k b
          else (case wallet of Some w \<Rightarrow> if is_wallet w then wallet_account w b else None | None \<Rightarrow> None)
      | None \<Rightarrow> (case wallet of Some w \<Rightarrow> if is_wallet w then wallet_account w b else None | None \<Rightarrow> None))"

definition getDailyCount :: "string \<Rightarrow> int \<Rightarrow> billing \<Rightarrow> nat" where
  "getDailyCount k today b = (case map_of (bi_usage b) (k, today) of None \<Rightarrow> 0 | Some (n, _) \<Rightarrow> n)"

definition costFor :: "bool \<Rightarrow> account \<Rightarrow> rat option \<Rightarrow> rat" where
  "costFor freeZero a methodPrice = (if ac_tier a = ''free'' \<and> freeZero then 0 else coalesce methodPrice PRICE_PER_CALL_USDT)"

definition limit_of :: "account \<Rightarrow> nat" where
  "limit_of a =
     (case ac_daily a of Some n \<Rightarrow> if n = 0 then coalesce (map_of TIER_DAILY_LIMIT (ac_tier a)) 500 else n
      | None \<Rightarrow> coalesce (map_of TIER_DAILY_LIMIT (ac_tier a)) 500)"

definition deny_of :: "string \<Rightarrow> nat \<Rightarrow> string \<Rightarrow> denied" where
  "deny_of code http msg = \<lparr>de_code = code, de_http = http, de_message = msg, de_terminal = False\<rparr>"

definition no_pool :: denied where
  "no_pool = deny_of ''no_pool'' 503 ''Billing store unavailable - try again shortly''"

text \<open>The gates before the balance, shared by the preflight and the charge: account, status, payment hold, daily limit.\<close>

definition account_gates ::
  "charge_env \<Rightarrow> string option \<Rightarrow> string option \<Rightarrow> billing \<Rightarrow> denied + (string \<times> account)" where
  "account_gates ce apiKey wallet b =
     (case resolveAccount (ce_sha ce) apiKey wallet b of
        None \<Rightarrow> Inl (deny_of ''account_not_found'' 401 ''Unknown API key or wallet'')
      | Some (k, a) \<Rightarrow>
          if truthy (ac_status a) \<and> ac_status a \<noteq> Some ''active''
          then Inl (deny_of ''account_inactive'' 403 (''Account status: '' @ the (ac_status a)))
          else if ac_hold a then Inl (deny_of ''payment_hold'' 402 ''Account is on payment hold (refund/dispute shortfall) - contact support'')
          else if getDailyCount k (ce_today ce) b \<ge> limit_of a
          then Inl (deny_of ''daily_limit_exceeded'' 429 (''Daily request limit reached for tier '' @ ac_tier a @ '' ('' @ nat_to_string (limit_of a) @ ''/day)''))
          else Inr (k, a))"

text \<open>RPC and x402 calls cannot spend what came through Dodo.\<close>

definition spendable :: "string \<Rightarrow> account \<Rightarrow> rat" where
  "spendable product a = ac_credits a - (if product = ''intelligence'' then 0 else ac_dodo a)"

definition precheckCharge ::
  "charge_env \<Rightarrow> string option \<Rightarrow> string option \<Rightarrow> rat option \<Rightarrow> string \<Rightarrow> billing \<Rightarrow> string + denied + (string \<times> rat)" where
  "precheckCharge ce apiKey wallet methodPrice product b =
     (if \<not> ce_pool ce then Inr (Inl no_pool)
      else if ce_fault ce QResolve \<or> ce_fault ce QCount then Inl ''database error''
      else case account_gates ce apiKey wallet b of
        Inl d \<Rightarrow> Inr (Inl d)
      | Inr (k, a) \<Rightarrow>
          let cost = costFor (ce_freeZero ce) a methodPrice
          in if cost > 0 \<and> spendable product a < cost
             then Inr (Inl (deny_of ''insufficient_credits'' 402 ''Insufficient credits - deposit USDT to continue''))
             else Inr (Inr (ac_tier a, cost)))"

section \<open>The charge\<close>

definition put_account :: "string \<Rightarrow> account \<Rightarrow> billing \<Rightarrow> billing" where
  "put_account k a b = b\<lparr>bi_accounts := mset_key k a (bi_accounts b)\<rparr>"

text \<open>The conditional update of \<open>deductSql\<close>: what it sets, and the new balance or \<open>None\<close> when no row qualifies.\<close>

definition deducted :: "string \<Rightarrow> int \<Rightarrow> rat \<Rightarrow> account \<Rightarrow> account" where
  "deducted product now cost a =
     (if product = ''intelligence''
      then a\<lparr>ac_credits := ac_credits a - cost, ac_dodo := max 0 (ac_dodo a - cost), ac_spent := ac_spent a + cost, ac_lastUsed := Some now\<rparr>
      else a\<lparr>ac_credits := ac_credits a - cost, ac_spent := ac_spent a + cost, ac_lastUsed := Some now\<rparr>)"

definition deduct :: "string \<Rightarrow> int \<Rightarrow> rat \<Rightarrow> string \<Rightarrow> billing \<Rightarrow> (rat \<times> billing) option" where
  "deduct product now cost k b =
     (case map_of (bi_accounts b) k of
        None \<Rightarrow> None
      | Some a \<Rightarrow>
          if spendable product a \<ge> cost
          then Some (ac_credits a - cost, put_account k (deducted product now cost a) b) else None)"

definition touch_last_used :: "int \<Rightarrow> string \<Rightarrow> billing \<Rightarrow> billing" where
  "touch_last_used now k b =
     (case map_of (bi_accounts b) k of None \<Rightarrow> b | Some a \<Rightarrow> put_account k (a\<lparr>ac_lastUsed := Some now\<rparr>) b)"

definition consumePlanBucket :: "int \<Rightarrow> string \<Rightarrow> billing \<Rightarrow> nat option \<times> billing" where
  "consumePlanBucket now k b =
     (case map_of (bi_plans b) k of
        None \<Rightarrow> (None, b)
      | Some pb \<Rightarrow>
          if pb_end pb > now \<and> pb_total pb \<ge> pb_used pb + 1
          then (Some (pb_total pb - (pb_used pb + 1)), b\<lparr>bi_plans := mset_key k (pb\<lparr>pb_used := pb_used pb + 1\<rparr>) (bi_plans b)\<rparr>)
          else (None, b))"

definition returnPlanBucketCall :: "string \<Rightarrow> billing \<Rightarrow> billing" where
  "returnPlanBucketCall k b =
     (case map_of (bi_plans b) k of
        None \<Rightarrow> b
      | Some pb \<Rightarrow> if pb_used pb > 0 then b\<lparr>bi_plans := mset_key k (pb\<lparr>pb_used := pb_used pb - 1\<rparr>) (bi_plans b)\<rparr> else b)"

subsection \<open>Controls of the account\<close>

text \<open>The conditional upsert of a spend counter.\<close>

definition bump_counter :: "string \<times> string \<times> string \<Rightarrow> rat \<Rightarrow> rat \<Rightarrow> billing \<Rightarrow> billing option" where
  "bump_counter key cost cap b =
     (if cost \<le> cap then
        case map_of (bi_counters b) key of
          None \<Rightarrow> Some (b\<lparr>bi_counters := mset_key key cost (bi_counters b)\<rparr>)
        | Some spent \<Rightarrow> if spent + cost \<le> cap then Some (b\<lparr>bi_counters := mset_key key (spent + cost) (bi_counters b)\<rparr>) else None
      else None)"

text \<open>A counter that is checked only when there is a cost and a cap.\<close>

definition capped :: "rat option \<Rightarrow> string \<times> string \<times> string \<Rightarrow> rat \<Rightarrow> billing \<Rightarrow> billing option" where
  "capped cap key cost b = (if cost > 0 then case cap of None \<Rightarrow> Some b | Some c \<Rightarrow> bump_counter key cost c b else Some b)"

definition deny_terminal :: "string \<Rightarrow> nat \<Rightarrow> string \<Rightarrow> denied" where
  "deny_terminal code http msg = \<lparr>de_code = code, de_http = http, de_message = msg, de_terminal = True\<rparr>"

definition no_limits :: agent_limits where
  "no_limits = \<lparr>ag_paused = False, ag_scopes = None, ag_dailyCap = None, ag_monthlyCap = None\<rparr>"

text \<open>What the owner has set refuses, before anything is written.\<close>

definition agent_refusal :: "agent_limits \<Rightarrow> bool \<Rightarrow> bool \<Rightarrow> rat \<Rightarrow> string \<Rightarrow> denied option" where
  "agent_refusal ag linked autoUse cost product =
     (if ag_paused ag then Some (deny_terminal ''agent_paused'' 403 ''This key is paused by its owner - resume it in the console'')
      else if (\<exists>sc \<in> set_option (ag_scopes ag). product \<notin> set sc)
      then Some (deny_terminal ''scope_denied'' 403 ''This key is not allowed to use this product - change its scopes in the console'')
      else if cost > 0 \<and> linked \<and> \<not> autoUse
      then Some (deny_terminal ''credit_auto_use_off'' 402 ''Credit auto-use is off for this account - turn it on in console settings'') else None)"

text \<open>The three counters, in the order of their locks; \<open>acct\<close> is the account of the console with its cap.\<close>

definition spend_counters ::
  "charge_env \<Rightarrow> string \<Rightarrow> string \<Rightarrow> agent_limits \<Rightarrow> (string \<times> rat option) option \<Rightarrow> rat \<Rightarrow> billing \<Rightarrow> denied + billing" where
  "spend_counters ce k tz ag acct cost b =
     (case capped (ag_dailyCap ag) (''agent_day'', k, ce_period ce tz ''YYYY-MM-DD'') cost b of
        None \<Rightarrow> Inl (deny_terminal ''agent_daily_cap_reached'' 402 ''This key reached its daily spend cap - it resets at midnight in the accounts timezone'')
      | Some b1 \<Rightarrow>
     (case capped (ag_monthlyCap ag) (''agent_month'', k, ce_period ce tz ''YYYY-MM'') cost b1 of
        None \<Rightarrow> Inl (deny_terminal ''agent_monthly_cap_reached'' 402 ''This key reached its monthly spend cap - raise it in the console'')
      | Some b2 \<Rightarrow>
     (case acct of
        None \<Rightarrow> Inr b2
      | Some (i, cap) \<Rightarrow>
     (case capped cap (''account_month'', i, ce_period ce tz ''YYYY-MM'') cost b2 of
        None \<Rightarrow> Inl (deny_terminal ''account_monthly_cap_reached'' 402 ''This account reached its monthly spend cap - raise it in console settings'')
      | Some b3 \<Rightarrow> Inr b3))))"

text \<open>\<open>Inl\<close>: refused, and the transaction is rolled back.\<close>

definition deductWithAccountLimits :: "charge_env \<Rightarrow> string \<Rightarrow> rat \<Rightarrow> string \<Rightarrow> billing \<Rightarrow> (denied + rat option) \<times> billing" where
  "deductWithAccountLimits ce k cost product b =
     (if map_of (bi_accounts b) k = None
      then (Inl (deny_of ''account_not_found'' 401 ''Unknown API key or wallet''), b)
      else
        let acct = map_of (bi_links b) k;
            ag = coalesce (map_of (bi_agents b) k) no_limits;
            st = (case acct of None \<Rightarrow> None | Some i \<Rightarrow> map_of (bi_settings b) i);
            autoUse = (case st of None \<Rightarrow> True | Some x \<Rightarrow> coalesce (as_autoUse x) True);
            tz = (case st of None \<Rightarrow> ''UTC'' | Some x \<Rightarrow> coalesce (as_timezone x) ''UTC'');
            cap = (case st of None \<Rightarrow> None | Some x \<Rightarrow> as_monthlyCap x)
        in case agent_refusal ag (acct \<noteq> None) autoUse cost product of
             Some d \<Rightarrow> (Inl d, b)
           | None \<Rightarrow>
               (case spend_counters ce k tz ag (map_option (\<lambda>i. (i, cap)) acct) cost b of
                  Inl d \<Rightarrow> (Inl d, b)
                | Inr b1 \<Rightarrow>
                    if cost > 0 then
                      (case deduct product (ce_now ce) cost k b1 of
                         None \<Rightarrow> (Inl (deny_of ''insufficient_credits'' 402 ''Insufficient credits - deposit USDT to continue''), b)
                       | Some (bal, b2) \<Rightarrow> (Inr (Some bal), b2))
                    else (Inr None, touch_last_used (ce_now ce) k b1)))"

subsection \<open>Metering\<close>

definition meter :: "string \<Rightarrow> int \<Rightarrow> rat \<Rightarrow> billing \<Rightarrow> billing" where
  "meter k date cost b =
     (let (n, spent) = coalesce (map_of (bi_usage b) (k, date)) (0, 0)
      in b\<lparr>bi_usage := mset_key (k, date) (n + 1, spent + cost) (bi_usage b)\<rparr>)"

text \<open>The deduction: the cost that counts and the new balance. \<open>Inl e\<close>: a statement threw.\<close>

definition charge_account ::
  "charge_env \<Rightarrow> string \<Rightarrow> account \<Rightarrow> rat option \<Rightarrow> string \<Rightarrow> billing \<Rightarrow> (string + denied + (rat \<times> rat)) \<times> billing" where
  "charge_account ce k a methodPrice product b =
     (let cost0 = costFor (ce_freeZero ce) a methodPrice;
          useBucket = (product = ''intelligence'' \<and> cost0 > 0 \<and> ce_bucket ce)
      in if useBucket \<and> ce_fault ce QBucket then (Inl ''database error'', b)
         else let (drawn, b1) = (if useBucket then consumePlanBucket (ce_now ce) k b else (None, b));
                  cost = (if drawn \<noteq> None then 0 else cost0)
              in if ce_fault ce QDeduct then (Inl ''database error'', b1)
                 else if ce_console ce then
                   (case deductWithAccountLimits ce k cost product b1 of
                      (Inl d, b2) \<Rightarrow> (Inr (Inl d), if drawn \<noteq> None then returnPlanBucketCall k b2 else b2)
                    | (Inr bal, b2) \<Rightarrow> (Inr (Inr (cost, coalesce bal (ac_credits a))), b2))
                 else if cost > 0 then
                   (case deduct product (ce_now ce) cost k b1 of
                      None \<Rightarrow> (Inr (Inl (deny_of ''insufficient_credits'' 402 ''Insufficient credits - deposit USDT to continue'')), b1)
                    | Some (bal, b2) \<Rightarrow> (Inr (Inr (cost, bal)), b2))
                 else (Inr (Inr (cost, ac_credits a)), touch_last_used (ce_now ce) k b1))"

definition authorizeAndMeter ::
  "charge_env \<Rightarrow> string option \<Rightarrow> string option \<Rightarrow> rat option \<Rightarrow> string \<Rightarrow> billing \<Rightarrow> (string + verdict) \<times> billing" where
  "authorizeAndMeter ce apiKey wallet methodPrice product b =
     (if \<not> ce_pool ce then (Inr (Inl no_pool), b)
      else if ce_fault ce QResolve \<or> ce_fault ce QCount then (Inl ''database error'', b)
      else case account_gates ce apiKey wallet b of
        Inl d \<Rightarrow> (Inr (Inl d), b)
      | Inr (k, a) \<Rightarrow>
          (case charge_account ce k a methodPrice product b of
             (Inl e, b1) \<Rightarrow> (Inl e, b1)
           | (Inr (Inl d), b1) \<Rightarrow> (Inr (Inl d), b1)
           | (Inr (Inr (cost, bal)), b1) \<Rightarrow>
               if ce_fault ce QMeter then (Inl ''database error'', b1)
               else (Inr (Inr \<lparr>al_tier = ac_tier a, al_cost = cost, al_balance = Some bal,
                       al_remaining = Some (max 0 (int (limit_of a) - int (getDailyCount k (ce_today ce) b) - 1)),
                       al_limit = Some (int (limit_of a)), al_source = None\<rparr>),
                     meter k (ce_dbDate ce) cost b1)))"

section \<open>Deposits\<close>

record credited =
  cd_amount :: rat
  cd_balance :: rat
  cd_tier :: string
  cd_daily :: "nat option"
  cd_apiKey :: string

text \<open>The claim of the transaction: checks and the row of \<open>api_deposits\<close>. An empty hash is replaced by one made of the clock.\<close>

definition deposit_claim ::
  "charge_env \<Rightarrow> string option \<Rightarrow> string option \<Rightarrow> rat option \<Rightarrow> string option \<Rightarrow> string option \<Rightarrow> string option \<Rightarrow> billing \<Rightarrow>
   (string + string + string \<times> rat) \<times> billing" where
  "deposit_claim ce apiKey wallet amountUsdt txHash fromAddress tier b =
     (if \<not> ce_pool ce then (Inr (Inl ''no_pool''), b)
      else case amountUsdt of
        None \<Rightarrow> (Inr (Inl ''bad_amount''), b)
      | Some amount \<Rightarrow>
          if \<not> amount > 0 then (Inr (Inl ''bad_amount''), b)
          else if ce_fault ce QResolve then (Inl ''database error'', b)
          else case resolveAccount (ce_sha ce) apiKey wallet b of
            None \<Rightarrow> (Inr (Inl ''account_not_found''), b)
          | Some (k, a) \<Rightarrow>
              if truthy txHash \<and> map_of (bi_deposits b) (the txHash) \<noteq> None then (Inr (Inl ''tx_already_used''), b)
              else let hash = or_str txHash (''internal_'' @ int_to_string (ce_now ce)) in
                if ce_fault ce QDeposit \<or> map_of (bi_deposits b) hash \<noteq> None then (Inl ''duplicate key'', b)
                else (Inr (Inr (k, amount)), b\<lparr>bi_deposits := mset_key hash
                       \<lparr>dp_key = k, dp_amount = amount, dp_from = (if truthy fromAddress then fromAddress else or_null (ac_wallet a)),
                        dp_tierBefore = ac_tier a, dp_tierAfter = or_str tier (ac_tier a)\<rparr> (bi_deposits b)\<rparr>))"

text \<open>The update that credits the account. A daily limit of 0 is not applied.\<close>

definition deposit_apply ::
  "string \<Rightarrow> rat \<Rightarrow> string option \<Rightarrow> nat option \<Rightarrow> bool \<Rightarrow> billing \<Rightarrow> (string + credited) \<times> billing" where
  "deposit_apply k amount tier dailyLimit dodo b =
     (case map_of (bi_accounts b) k of
        None \<Rightarrow> (Inl ''Cannot read properties of undefined'', b)
      | Some a \<Rightarrow>
          let a' = a\<lparr>ac_credits := ac_credits a + amount, ac_deposited := ac_deposited a + amount,
                     ac_tier := coalesce (or_null tier) (ac_tier a),
                     ac_daily := (if dailyLimit = None \<or> dailyLimit = Some 0 then ac_daily a else dailyLimit),
                     ac_dodo := (if dodo then ac_dodo a + amount else ac_dodo a)\<rparr>
          in (Inr \<lparr>cd_amount = amount, cd_balance = ac_credits a', cd_tier = ac_tier a', cd_daily = ac_daily a', cd_apiKey = k\<rparr>,
              put_account k a' b))"

definition creditAccount ::
  "charge_env \<Rightarrow> string option \<Rightarrow> string option \<Rightarrow> rat option \<Rightarrow> string option \<Rightarrow> string option \<Rightarrow> string option \<Rightarrow> nat option \<Rightarrow>
   string option \<Rightarrow> billing \<Rightarrow> (string + string + credited) \<times> billing" where
  "creditAccount ce apiKey wallet amountUsdt txHash fromAddress tier dailyLimit fundingSource b =
     (case deposit_claim ce apiKey wallet amountUsdt txHash fromAddress tier b of
        (Inl e, b1) \<Rightarrow> (Inl e, b1)
      | (Inr (Inl code), b1) \<Rightarrow> (Inr (Inl code), b1)
      | (Inr (Inr (k, amount)), b1) \<Rightarrow>
          if ce_fault ce QCredit then (Inl ''database error'', b1)
          else case deposit_apply k amount tier dailyLimit (fundingSource = Some ''dodo'') b1 of
            (Inl e, b2) \<Rightarrow> (Inl e, b2)
          | (Inr c, b2) \<Rightarrow> (Inr (Inr c), b2))"

section \<open>What a charge does\<close>

lemma put_account_simps [simp]:
  "bi_accounts (put_account k a b) = mset_key k a (bi_accounts b)" "bi_usage (put_account k a b) = bi_usage b"
  "bi_deposits (put_account k a b) = bi_deposits b" "bi_plans (put_account k a b) = bi_plans b"
  by (simp_all add: put_account_def)

lemma resolve_found:
  assumes "resolveAccount sha apiKey wallet b = Some (k, a)" and "mwf (bi_accounts b)"
  shows "map_of (bi_accounts b) k = Some a"
proof -
  have l: "lookup_account x b = Some (k, a) \<Longrightarrow> ?thesis" for x by (auto simp: lookup_account_def)
  have "?thesis" if "wallet_account w b = Some (k, a)" for w
  proof -
    have "(k, a) \<in> set (filter (\<lambda>p. map_option (map lower) (ac_wallet (snd p)) = Some (map lower w)) (bi_accounts b))"
      using that unfolding wallet_account_def
      by (metis (no_types, lifting) list.case_eq_if list.set_sel(1) option.distinct(1) option.inject set_sort)
    with assms(2) show ?thesis by (simp add: map_of_eq_Some_iff)
  qed
  with l assms(1) show ?thesis by (auto simp: resolveAccount_def split: option.splits if_splits prod.splits)
qed

lemma gates_found:
  "account_gates ce apiKey wallet b = Inr (k, a) \<Longrightarrow> resolveAccount (ce_sha ce) apiKey wallet b = Some (k, a)"
  by (auto simp: account_gates_def split: option.splits if_splits)

lemma deduct_Some:
  "deduct product now cost k b = Some (bal, b') \<longleftrightarrow>
     (\<exists>a. map_of (bi_accounts b) k = Some a \<and> cost \<le> spendable product a \<and> bal = ac_credits a - cost \<and>
        b' = put_account k (deducted product now cost a) b)"
  by (auto simp: deduct_def split: option.splits if_splits)

text \<open>The account after a charge: what is deducted when there is a cost, and the time of use.\<close>

definition after_charge :: "string \<Rightarrow> int \<Rightarrow> rat \<Rightarrow> account \<Rightarrow> account" where
  "after_charge product now cost a = (if cost > 0 then deducted product now cost a else a\<lparr>ac_lastUsed := Some now\<rparr>)"

lemma after_charge_sel:
  "ac_credits (after_charge product now cost a) = ac_credits a - max 0 cost"
  "ac_spent (after_charge product now cost a) = ac_spent a + max 0 cost"
  "ac_deposited (after_charge product now cost a) = ac_deposited a"
  "product \<noteq> ''intelligence'' \<Longrightarrow> ac_dodo (after_charge product now cost a) = ac_dodo a"
  by (simp_all add: after_charge_def deducted_def)

lemma capped_frame:
  assumes "capped cap key cost b = Some b'"
  shows "\<exists>c. b' = b\<lparr>bi_counters := c\<rparr>"
proof -
  have "\<exists>c. x = x\<lparr>bi_counters := c\<rparr>" for x :: billing by (rule exI [of _ "bi_counters x"]) simp
  with assms show ?thesis by (auto simp: capped_def bump_counter_def split: if_splits option.splits)
qed

lemma spend_counters_frame:
  assumes "spend_counters ce k tz ag acct cost b = Inr b'"
  shows "\<exists>c. b' = b\<lparr>bi_counters := c\<rparr>"
  using assms unfolding spend_counters_def
  by (auto split: option.splits prod.splits dest!: capped_frame)

lemma mset_key_same: "map_of m k = Some v \<Longrightarrow> mset_key k v m = m"
  by (induction m) auto

lemma mset_key_restore: "map_of m k = Some v \<Longrightarrow> mset_key k v (mset_key k w m) = m"
  by (induction m) auto

lemma bucket_returned:
  assumes "consumePlanBucket now k b = (Some r, b')"
  shows "returnPlanBucketCall k b' = b" and "\<exists>p. b' = b\<lparr>bi_plans := p\<rparr>"
proof -
  from assms obtain pb where pb: "map_of (bi_plans b) k = Some pb"
    and b': "b' = b\<lparr>bi_plans := mset_key k (pb\<lparr>pb_used := pb_used pb + 1\<rparr>) (bi_plans b)\<rparr>"
    by (auto simp: consumePlanBucket_def split: option.splits if_splits)
  show "returnPlanBucketCall k b' = b" by (simp add: returnPlanBucketCall_def b' mset_key_restore [OF pb] mset_key_same [OF pb])
  show "\<exists>p. b' = b\<lparr>bi_plans := p\<rparr>" using b' by blast
qed

lemma limits_refuse: "deductWithAccountLimits ce k cost product b = (Inl d, b') \<Longrightarrow> b' = b"
  unfolding deductWithAccountLimits_def Let_def by (auto split: option.splits if_splits prod.splits sum.splits)

lemma limits_charge:
  assumes "deductWithAccountLimits ce k cost product b = (Inr bal, b')" and "map_of (bi_accounts b) k = Some a"
  shows "\<exists>c. b' = put_account k (after_charge product (ce_now ce) cost a) (b\<lparr>bi_counters := c\<rparr>)"
    and "cost > 0 \<Longrightarrow> cost \<le> spendable product a" and "coalesce bal (ac_credits a) = ac_credits a - max 0 cost"
proof -
  obtain tz ag acct b1 where sc: "spend_counters ce k tz ag acct cost b = Inr b1"
    and r: "(if cost > 0 then (case deduct product (ce_now ce) cost k b1 of
        None \<Rightarrow> (Inl (deny_of ''insufficient_credits'' 402 ''Insufficient credits - deposit USDT to continue''), b)
      | Some (bal, b2) \<Rightarrow> (Inr (Some bal), b2)) else (Inr None, touch_last_used (ce_now ce) k b1)) = (Inr bal, b')"
    using assms unfolding deductWithAccountLimits_def Let_def by (auto split: option.splits if_splits sum.splits)
  obtain c where c: "b1 = b\<lparr>bi_counters := c\<rparr>" using spend_counters_frame [OF sc] by blast
  have "b' = put_account k (after_charge product (ce_now ce) cost a) (b\<lparr>bi_counters := c\<rparr>) \<and>
    (cost > 0 \<longrightarrow> cost \<le> spendable product a) \<and> coalesce bal (ac_credits a) = ac_credits a - max 0 cost"
    using r c assms(2)
    by (auto simp: deduct_Some after_charge_def touch_last_used_def split: if_splits option.splits)
  then show "\<exists>c. b' = put_account k (after_charge product (ce_now ce) cost a) (b\<lparr>bi_counters := c\<rparr>)"
    "cost > 0 \<Longrightarrow> cost \<le> spendable product a" "coalesce bal (ac_credits a) = ac_credits a - max 0 cost" by blast+
qed

text \<open>A charge that is refused leaves no trace; one that goes through changes one account, and counters and the bucket.\<close>

lemma charge_refused:
  assumes "charge_account ce k a mp product b = (Inr (Inl d), b')"
  shows "b' = b"
proof -
  define ub where "ub = (product = ''intelligence'' \<and> costFor (ce_freeZero ce) a mp > 0 \<and> ce_bucket ce)"
  obtain dr b1 where d: "(if ub then consumePlanBucket (ce_now ce) k b else (None, b)) = (dr, b1)" by fastforce
  have none: "dr = None \<Longrightarrow> b1 = b"
    using d by (auto simp: consumePlanBucket_def split: if_splits option.splits)
  have some: "dr = Some r \<Longrightarrow> returnPlanBucketCall k b1 = b" for r
    using d bucket_returned(1) [of "ce_now ce" k b r b1] by (auto split: if_splits)
  show ?thesis using assms d none some
    by (cases dr) (auto simp: charge_account_def Let_def ub_def [symmetric] dest!: limits_refuse split: if_splits option.splits prod.splits sum.splits)
qed

lemma charge_done:
  assumes "charge_account ce k a mp product b = (Inr (Inr (cost, bal)), b')" and "map_of (bi_accounts b) k = Some a"
  shows "\<exists>c p. b' = put_account k (after_charge product (ce_now ce) cost a) (b\<lparr>bi_counters := c, bi_plans := p\<rparr>)"
    and "cost > 0 \<Longrightarrow> cost \<le> spendable product a" and "bal = ac_credits a - max 0 cost"
    and "cost = costFor (ce_freeZero ce) a mp \<or> cost = 0 \<and> product = ''intelligence''"
proof -
  define ub where "ub = (product = ''intelligence'' \<and> costFor (ce_freeZero ce) a mp > 0 \<and> ce_bucket ce)"
  obtain dr b1 where d: "(if ub then consumePlanBucket (ce_now ce) k b else (None, b)) = (dr, b1)" by fastforce
  have "\<exists>p. b1 = b\<lparr>bi_plans := p\<rparr>"
  proof (cases dr)
    case None
    with d have "b1 = b" by (auto simp: consumePlanBucket_def split: if_splits option.splits)
    then show ?thesis by (intro exI [of _ "bi_plans b"]) simp
  next
    case (Some r)
    with d show ?thesis using bucket_returned(2) [of "ce_now ce" k b r b1] by (auto split: if_splits)
  qed
  then obtain p where b1: "b1 = b\<lparr>bi_plans := p\<rparr>" by blast
  define co where "co = (if dr \<noteq> None then 0 else costFor (ce_freeZero ce) a mp)"
  have m: "map_of (bi_accounts b1) k = Some a" using assms(2) b1 by simp
  have "cost = co \<and> (cost > 0 \<longrightarrow> cost \<le> spendable product a) \<and> bal = ac_credits a - max 0 cost \<and>
    (\<exists>c p. b' = put_account k (after_charge product (ce_now ce) cost a) (b\<lparr>bi_counters := c, bi_plans := p\<rparr>))"
  proof (cases "ce_console ce")
    case True
    with assms(1) d obtain x where x: "deductWithAccountLimits ce k co product b1 = (Inr x, b')" "cost = co" "bal = coalesce x (ac_credits a)"
      by (auto simp: charge_account_def Let_def ub_def [symmetric] co_def split: if_splits prod.splits sum.splits)
    obtain c where "b' = put_account k (after_charge product (ce_now ce) co a) (b1\<lparr>bi_counters := c\<rparr>)"
      using limits_charge(1) [OF x(1) m] by blast
    moreover have "b1\<lparr>bi_counters := c\<rparr> = b\<lparr>bi_counters := c, bi_plans := p\<rparr>" using b1 by simp
    ultimately show ?thesis using limits_charge(2,3) [OF x(1) m] x by auto
  next
    case False
    have "b1 = b\<lparr>bi_counters := bi_counters b, bi_plans := p\<rparr>" using b1 by simp
    moreover from False assms(1) d m have "cost = co \<and> (cost > 0 \<longrightarrow> cost \<le> spendable product a) \<and> bal = ac_credits a - max 0 cost \<and>
      b' = put_account k (after_charge product (ce_now ce) cost a) b1"
      by (auto simp: charge_account_def Let_def ub_def [symmetric] co_def deduct_Some after_charge_def touch_last_used_def
          split: if_splits prod.splits option.splits)
    ultimately show ?thesis by blast
  qed
  moreover have "co = costFor (ce_freeZero ce) a mp \<or> co = 0 \<and> product = ''intelligence''"
    using d by (auto simp: co_def ub_def split: if_splits)
  ultimately show "\<exists>c p. b' = put_account k (after_charge product (ce_now ce) cost a) (b\<lparr>bi_counters := c, bi_plans := p\<rparr>)"
    "cost > 0 \<Longrightarrow> cost \<le> spendable product a" "bal = ac_credits a - max 0 cost"
    "cost = costFor (ce_freeZero ce) a mp \<or> cost = 0 \<and> product = ''intelligence''" by blast+
qed

lemma charge_threw:
  assumes "charge_account ce k a mp product b = (Inl e, b')"
  shows "bi_accounts b' = bi_accounts b"
proof -
  have "consumePlanBucket now k b = (r, b1) \<Longrightarrow> bi_accounts b1 = bi_accounts b" for now r b1
    by (auto simp: consumePlanBucket_def split: if_splits option.splits)
  with assms show ?thesis
    by (auto simp: charge_account_def Let_def split: if_splits prod.splits sum.splits option.splits)
qed

lemma meter_simps [simp]: "bi_accounts (meter k d c b) = bi_accounts b" "bi_deposits (meter k d c b) = bi_deposits b"
  by (simp_all add: meter_def split: prod.splits)

lemma getDailyCount_meter:
  "getDailyCount k' d' (meter k d c b) = (if (k', d') = (k, d) then getDailyCount k d b + 1 else getDailyCount k' d' b)"
  by (auto simp: getDailyCount_def meter_def coalesce_def split: prod.splits option.splits)

lemma getDailyCount_put [simp]: "getDailyCount k' d' (put_account k a b) = getDailyCount k' d' b"
  by (simp add: getDailyCount_def)

lemma getDailyCount_upd [simp]: "getDailyCount k' d' (b\<lparr>bi_counters := c, bi_plans := p\<rparr>) = getDailyCount k' d' b"
  by (simp add: getDailyCount_def)

section \<open>Invariant\<close>

definition acct_ok :: "account \<Rightarrow> bool" where
  "acct_ok a \<longleftrightarrow> 0 \<le> ac_dodo a \<and> ac_dodo a \<le> ac_credits a \<and> ac_credits a = ac_deposited a - ac_spent a"

definition billing_ok :: "billing \<Rightarrow> bool" where
  "billing_ok b \<longleftrightarrow> mwf (bi_accounts b) \<and> (\<forall>k a. map_of (bi_accounts b) k = Some a \<longrightarrow> acct_ok a)"

text \<open>Registration opens an account without money; charges and deposits follow in any order and with any failures.\<close>

inductive billing_reach :: "billing \<Rightarrow> bool" where
  start: "bi_accounts b = [] \<Longrightarrow> billing_reach b"
| opened: "billing_reach b \<Longrightarrow> map_of (bi_accounts b) k = None \<Longrightarrow> ac_credits a = 0 \<Longrightarrow> ac_dodo a = 0 \<Longrightarrow> ac_deposited a = 0 \<Longrightarrow>
    ac_spent a = 0 \<Longrightarrow> billing_reach (put_account k a b)"
| charge: "billing_reach b \<Longrightarrow> billing_reach (snd (authorizeAndMeter ce apiKey wallet mp product b))"
| deposit: "billing_reach b \<Longrightarrow>
    billing_reach (snd (creditAccount ce apiKey wallet amount txHash fromAddress tier dailyLimit fundingSource b))"

lemma billing_ok_put: "billing_ok b \<Longrightarrow> acct_ok a \<Longrightarrow> billing_ok (put_account k a b)"
  by (simp add: billing_ok_def)

lemma billing_ok_cong: "bi_accounts b' = bi_accounts b \<Longrightarrow> billing_ok b' = billing_ok b"
  by (simp add: billing_ok_def)

lemma after_charge_ok:
  assumes "acct_ok a" and "cost > 0 \<Longrightarrow> cost \<le> spendable product a"
  shows "acct_ok (after_charge product now cost a)"
  using assms by (auto simp: acct_ok_def after_charge_def deducted_def spendable_def split: if_splits)

lemma charge_keeps_ok:
  assumes "billing_ok b" and "authorizeAndMeter ce apiKey wallet mp product b = (r, b')"
  shows "billing_ok b'"
proof (cases "\<exists>k a. ce_pool ce \<and> \<not> ce_fault ce QResolve \<and> \<not> ce_fault ce QCount \<and> account_gates ce apiKey wallet b = Inr (k, a)")
  case True
  then obtain k a where g: "ce_pool ce" "\<not> ce_fault ce QResolve" "\<not> ce_fault ce QCount" "account_gates ce apiKey wallet b = Inr (k, a)" by blast
  have m: "map_of (bi_accounts b) k = Some a" using resolve_found [OF gates_found [OF g(4)]] assms(1) by (simp add: billing_ok_def)
  obtain o' b1 where c: "charge_account ce k a mp product b = (o', b1)" by fastforce
  have acc: "bi_accounts b' = bi_accounts b1" using assms(2) g c by (auto simp: authorizeAndMeter_def split: sum.splits if_splits prod.splits)
  have "billing_ok b1"
  proof (cases o')
    case (Inl e)
    with c charge_threw [of ce k a mp product b e b1] assms(1) billing_ok_cong show ?thesis by blast
  next
    case (Inr x)
    show ?thesis
    proof (cases x)
      case (Inl d)
      with c Inr charge_refused [of ce k a mp product b d b1] assms(1) show ?thesis by simp
    next
      fix y assume "x = Inr y"
      with c Inr obtain cost bal where d: "charge_account ce k a mp product b = (Inr (Inr (cost, bal)), b1)" by (cases y) auto
      have "acct_ok (after_charge product (ce_now ce) cost a)"
        using after_charge_ok [of a cost product "ce_now ce"] charge_done(2) [OF d m] assms(1) m by (auto simp: billing_ok_def)
      moreover have "billing_ok (b\<lparr>bi_counters := c, bi_plans := p\<rparr>)" for c p using assms(1) by (simp add: billing_ok_def)
      ultimately show ?thesis using charge_done(1) [OF d m] billing_ok_put by blast
    qed
  qed
  with acc billing_ok_cong show ?thesis by blast
next
  case False
  with assms show ?thesis by (auto simp: authorizeAndMeter_def split: if_splits sum.splits)
qed

lemma claim_frame:
  "deposit_claim ce apiKey wallet amount txHash fromAddress tier b = (r, b') \<Longrightarrow> bi_accounts b' = bi_accounts b"
  by (auto simp: deposit_claim_def Let_def split: if_splits option.splits prod.splits)

lemma claim_amount:
  "deposit_claim ce apiKey wallet amount txHash fromAddress tier b = (Inr (Inr (k, x)), b') \<Longrightarrow> amount = Some x \<and> 0 < x"
  by (auto simp: deposit_claim_def Let_def split: if_splits option.splits prod.splits)

lemma apply_keeps_ok:
  assumes "billing_ok b" "0 < amount" "deposit_apply k amount tier dailyLimit dodo b = (r, b')"
  shows "billing_ok b'"
proof (cases "map_of (bi_accounts b) k")
  case (Some a)
  with assms(1) have "acct_ok a" by (simp add: billing_ok_def)
  with assms Some show ?thesis by (auto simp: deposit_apply_def Let_def acct_ok_def intro!: billing_ok_put)
qed (use assms in \<open>simp add: deposit_apply_def\<close>)

lemma deposit_keeps_ok:
  assumes "billing_ok b" and "creditAccount ce apiKey wallet amount txHash fromAddress tier dailyLimit fundingSource b = (r, b')"
  shows "billing_ok b'"
proof -
  obtain o' b1 where c: "deposit_claim ce apiKey wallet amount txHash fromAddress tier b = (o', b1)" by fastforce
  have ok: "billing_ok b1" using billing_ok_cong [OF claim_frame [OF c]] assms(1) by simp
  show ?thesis using assms(2) c ok claim_amount [of ce apiKey wallet amount txHash fromAddress tier b]
    by (fastforce simp: creditAccount_def intro: apply_keeps_ok split: sum.splits prod.splits if_splits)
qed

lemma billing_reach_ok: "billing_reach b \<Longrightarrow> billing_ok b"
proof (induction rule: billing_reach.induct)
  case (charge b ce apiKey wallet mp product)
  then show ?case using charge_keeps_ok by (metis prod.collapse)
next
  case (deposit b ce apiKey wallet amount txHash fromAddress tier dailyLimit fundingSource)
  then show ?case using deposit_keeps_ok by (metis prod.collapse)
next
  case (opened b k a)
  then show ?case by (intro billing_ok_put) (simp_all add: acct_ok_def)
qed (simp add: billing_ok_def)

text \<open>The whole charge: refused, or granted.\<close>

lemma charge_denied:
  assumes "authorizeAndMeter ce apiKey wallet mp product b = (Inr (Inl d), b')"
  shows "b' = b"
  using assms charge_refused by (auto simp: authorizeAndMeter_def split: if_splits sum.splits prod.splits)

lemma charge_granted:
  assumes "authorizeAndMeter ce apiKey wallet mp product b = (Inr (Inr al), b')" and "mwf (bi_accounts b)"
  shows "\<exists>k a a'. resolveAccount (ce_sha ce) apiKey wallet b = Some (k, a) \<and> \<not> ac_hold a \<and>
    getDailyCount k (ce_today ce) b < limit_of a \<and> bi_accounts b' = mset_key k a' (bi_accounts b) \<and>
    ac_credits a' = ac_credits a - max 0 (al_cost al) \<and> ac_spent a' = ac_spent a + max 0 (al_cost al) \<and>
    (al_cost al > 0 \<longrightarrow> al_cost al \<le> spendable product a) \<and>
    (product \<noteq> ''intelligence'' \<longrightarrow> ac_dodo a' = ac_dodo a \<and> al_cost al = costFor (ce_freeZero ce) a mp) \<and>
    getDailyCount k (ce_dbDate ce) b' = getDailyCount k (ce_dbDate ce) b + 1"
proof -
  obtain k a where g: "account_gates ce apiKey wallet b = Inr (k, a)"
    using assms(1) by (auto simp: authorizeAndMeter_def split: if_splits sum.splits)
  note r = gates_found [OF g]
  note m = resolve_found [OF r assms(2)]
  obtain bal b1 where d: "charge_account ce k a mp product b = (Inr (Inr (al_cost al, bal)), b1)"
    and b': "b' = meter k (ce_dbDate ce) (al_cost al) b1"
    using assms(1) g by (auto simp: authorizeAndMeter_def split: if_splits sum.splits prod.splits)
  obtain cs ps where b1: "b1 = put_account k (after_charge product (ce_now ce) (al_cost al) a) (b\<lparr>bi_counters := cs, bi_plans := ps\<rparr>)"
    using charge_done(1) [OF d m] by blast
  let ?a' = "after_charge product (ce_now ce) (al_cost al) a"
  have "\<not> ac_hold a" "getDailyCount k (ce_today ce) b < limit_of a"
    using g by (auto simp: account_gates_def split: option.splits if_splits)
  moreover have "bi_accounts b' = mset_key k ?a' (bi_accounts b)" by (simp add: b' b1)
  moreover have "getDailyCount k (ce_dbDate ce) b' = getDailyCount k (ce_dbDate ce) b + 1" by (simp add: b' b1 getDailyCount_meter)
  ultimately show ?thesis using r charge_done(2,4) [OF d m] after_charge_sel [of product "ce_now ce" "al_cost al" a]
    by (auto intro!: exI [of _ k] exI [of _ a] exI [of _ ?a'])
qed

section \<open>Properties\<close>

text \<open>
  C8: the books of every account balance. Whatever charges, deposits and failures of the database follow one another,
  the balance of an account is what was deposited minus what was spent, it is never negative, and it always covers the part that
  came through Dodo, which RPC and x402 calls may not spend.\<close>

theorem credit_books_balance:
  assumes "billing_reach b" and "map_of (bi_accounts b) k = Some a"
  shows "ac_credits a = ac_deposited a - ac_spent a \<and> 0 \<le> ac_dodo a \<and> ac_dodo a \<le> ac_credits a"
proof -
  have "acct_ok a" using billing_reach_ok [OF assms(1)] assms(2) by (simp add: billing_ok_def)
  then show ?thesis by (simp add: acct_ok_def)
qed



text \<open>
  A deposit is credited at most once: after a transaction has been credited, every further attempt with its hash, for
  whichever account and amount, changes nothing; and the first one adds exactly the amount to one account.\<close>

theorem deposit_once:
  assumes "creditAccount ce apiKey wallet amount (Some txHash) fromAddress tier dailyLimit fundingSource b = (Inr (Inr c), b')"
    and "txHash \<noteq> []" and "mwf (bi_accounts b)"
  shows "(\<exists>a a'. map_of (bi_accounts b) (cd_apiKey c) = Some a \<and> amount = Some (cd_amount c) \<and>
      bi_accounts b' = mset_key (cd_apiKey c) a' (bi_accounts b) \<and> ac_credits a' = ac_credits a + cd_amount c) \<and>
    snd (creditAccount ce2 apiKey2 wallet2 amount2 (Some txHash) from2 tier2 daily2 source2 b') = b'"
proof -
  obtain k x b1 where cl: "deposit_claim ce apiKey wallet amount (Some txHash) fromAddress tier b = (Inr (Inr (k, x)), b1)"
    and ap: "deposit_apply k x tier dailyLimit (fundingSource = Some ''dodo'') b1 = (Inr c, b')"
    using assms(1) by (auto simp: creditAccount_def split: prod.splits sum.splits if_splits)
  have amt: "amount = Some x" using claim_amount [OF cl] by simp
  have b1: "bi_accounts b1 = bi_accounts b" "map_of (bi_deposits b1) txHash \<noteq> None"
    using claim_frame [OF cl] cl assms(2) by (auto simp: deposit_claim_def Let_def or_str_def split: if_splits option.splits prod.splits)
  from ap b1 obtain a where a: "map_of (bi_accounts b) k = Some a" and c: "cd_apiKey c = k" "cd_amount c = x"
    by (auto simp: deposit_apply_def Let_def split: option.splits)
  have "\<exists>a'. bi_accounts b' = mset_key k a' (bi_accounts b) \<and> ac_credits a' = ac_credits a + x"
    using ap a b1(1) by (auto simp: deposit_apply_def Let_def)
  moreover have "map_of (bi_deposits b') txHash \<noteq> None"
    using ap b1(2) by (auto simp: deposit_apply_def Let_def split: option.splits)
  then have "snd (deposit_claim ce2 apiKey2 wallet2 amount2 (Some txHash) from2 tier2 b') = b' \<and>
      (\<forall>y. fst (deposit_claim ce2 apiKey2 wallet2 amount2 (Some txHash) from2 tier2 b') \<noteq> Inr (Inr y))"
    using assms(2) by (auto simp: deposit_claim_def Let_def split: option.splits prod.splits)
  then have "snd (creditAccount ce2 apiKey2 wallet2 amount2 (Some txHash) from2 tier2 daily2 source2 b') = b'"
    by (auto simp: creditAccount_def split: prod.splits sum.splits)
  ultimately show ?thesis using a amt c by auto
qed

text \<open>
  A deposit can be lost. The row of the deposit and the credit are two statements without a transaction around them; when
  the second fails, the account has not received the money and a retry is refused as already used.\<close>

theorem deposit_lost:
  assumes "deposit_claim ce apiKey wallet amount (Some txHash) fromAddress tier b = (Inr (Inr (k, x)), b')"
    and "ce_fault ce QCredit" and "txHash \<noteq> []"
  shows "creditAccount ce apiKey wallet amount (Some txHash) fromAddress tier dailyLimit fundingSource b = (Inl ''database error'', b') \<and>
    bi_accounts b' = bi_accounts b \<and>
    creditAccount (ce\<lparr>ce_fault := (\<lambda>_. False)\<rparr>) apiKey wallet amount (Some txHash) fromAddress tier dailyLimit fundingSource b' =
      (Inr (Inl ''tx_already_used''), b')"
proof -
  have acc: "bi_accounts b' = bi_accounts b" and ses: "bi_sessions b' = bi_sessions b" and row: "map_of (bi_deposits b') txHash \<noteq> None"
    and ok: "ce_pool ce" "amount = Some x" "0 < x" "resolveAccount (ce_sha ce) apiKey wallet b \<noteq> None"
    using assms(1,3) by (auto simp: deposit_claim_def Let_def or_str_def split: if_splits option.splits prod.splits)
  have "resolveAccount (ce_sha ce) apiKey wallet b' = resolveAccount (ce_sha ce) apiKey wallet b"
    unfolding resolveAccount_def resolveSessionKey_def lookup_account_def wallet_account_def acc ses by (rule refl)
  then show ?thesis using assms acc row ok by (auto simp: creditAccount_def deposit_claim_def)
qed

section \<open>Witnesses\<close>

definition sample_account :: account where
  "sample_account = \<lparr>ac_wallet = None, ac_tier = ''basic'', ac_daily = None, ac_credits = 0, ac_dodo = 0, ac_deposited = 0, ac_spent = 0,
     ac_status = Some ''active'', ac_hold = False, ac_created = 0, ac_lastUsed = None\<rparr>"

definition sample_charge :: charge_env where
  "sample_charge = \<lparr>ce_sha = (\<lambda>s. s), ce_pool = True, ce_now = 5, ce_today = 0, ce_dbDate = 0, ce_freeZero = False, ce_bucket = False,
     ce_console = False, ce_period = (\<lambda>tz f. f), ce_fault = (\<lambda>_. False)\<rparr>"

definition empty_billing :: billing where
  "empty_billing = \<lparr>bi_accounts = [], bi_usage = [], bi_deposits = [], bi_sessions = [], bi_plans = [], bi_links = [], bi_agents = [],
     bi_settings = [], bi_counters = []\<rparr>"

definition sample_billing :: billing where
  "sample_billing = snd (creditAccount sample_charge (Some ''sk_1'') None (Some 2) (Some ''0xabc'') None None None None
     (put_account ''sk_1'' sample_account empty_billing))"

lemma billing_sample_reach: "billing_reach sample_billing"
  unfolding sample_billing_def
  by (intro billing_reach.deposit billing_reach.opened billing_reach.start) (simp_all add: empty_billing_def sample_account_def)

lemmas sample_defs = sample_account_def sample_charge_def empty_billing_def put_account_def resolveAccount_def lookup_account_def
  isX402SessionKey_def isApiKey_def deposit_claim_def deposit_apply_def creditAccount_def

lemma sample_billing_eq:
  "sample_billing = empty_billing\<lparr>bi_accounts := [(''sk_1'', sample_account\<lparr>ac_credits := 2, ac_deposited := 2\<rparr>)],
     bi_deposits := [(''0xabc'', \<lparr>dp_key = ''sk_1'', dp_amount = 2, dp_from = None, dp_tierBefore = ''basic'', dp_tierAfter = ''basic''\<rparr>)]\<rparr>"
  by (simp add: sample_billing_def sample_defs Let_def or_str_def or_null_def)

theorem credit_books_balance_witness:
  "ac_credits (sample_account\<lparr>ac_credits := 2, ac_deposited := 2\<rparr>) = 2 - 0"
  using credit_books_balance [OF billing_sample_reach, of "''sk_1''" "sample_account\<lparr>ac_credits := 2, ac_deposited := 2\<rparr>"]
  by (simp add: sample_billing_eq sample_account_def)

lemma sample_charged:
  "authorizeAndMeter sample_charge (Some ''sk_1'') None None ''rpc'' sample_billing =
     (Inr (Inr \<lparr>al_tier = ''basic'', al_cost = PRICE_PER_CALL_USDT, al_balance = Some (2 - PRICE_PER_CALL_USDT), al_remaining = Some 9999,
        al_limit = Some 10000, al_source = None\<rparr>),
      meter ''sk_1'' 0 PRICE_PER_CALL_USDT (put_account ''sk_1''
        (deducted ''rpc'' 5 PRICE_PER_CALL_USDT (sample_account\<lparr>ac_credits := 2, ac_deposited := 2\<rparr>)) sample_billing))"
  by (simp add: authorizeAndMeter_def account_gates_def sample_billing_eq sample_defs limit_of_def TIER_DAILY_LIMIT_def getDailyCount_def
      charge_account_def costFor_def PRICE_PER_CALL_USDT_def Let_def deduct_def spendable_def)



lemma sample_deposit:
  "creditAccount sample_charge (Some ''sk_1'') None (Some 3) (Some ''0xdef'') None None None None sample_billing =
     (Inr (Inr \<lparr>cd_amount = 3, cd_balance = 5, cd_tier = ''basic'', cd_daily = None, cd_apiKey = ''sk_1''\<rparr>),
      snd (creditAccount sample_charge (Some ''sk_1'') None (Some 3) (Some ''0xdef'') None None None None sample_billing))"
  by (simp add: sample_billing_eq sample_defs Let_def or_str_def or_null_def)

theorem deposit_once_witness:
  "let b' = snd (creditAccount sample_charge (Some ''sk_1'') None (Some 3) (Some ''0xdef'') None None None None sample_billing)
   in snd (creditAccount sample_charge (Some ''sk_1'') None (Some 9) (Some ''0xdef'') None None None None b') = b'"
  using deposit_once [OF sample_deposit] by (simp add: Let_def sample_billing_eq empty_billing_def)

theorem deposit_lost_witness:
  "fst (creditAccount (sample_charge\<lparr>ce_fault := (\<lambda>_. False)\<rparr>) (Some ''sk_1'') None (Some 3) (Some ''0xdef'') None None None None
     (snd (deposit_claim (sample_charge\<lparr>ce_fault := (\<lambda>q. q = QCredit)\<rparr>) (Some ''sk_1'') None (Some 3) (Some ''0xdef'') None None sample_billing))) =
   Inr (Inl ''tx_already_used'')"
  using deposit_lost [of "sample_charge\<lparr>ce_fault := (\<lambda>q. q = QCredit)\<rparr>" "Some ''sk_1''" None "Some 3" "''0xdef''" None None sample_billing
      "''sk_1''" 3 "snd (deposit_claim (sample_charge\<lparr>ce_fault := (\<lambda>q. q = QCredit)\<rparr>) (Some ''sk_1'') None (Some 3) (Some ''0xdef'') None None sample_billing)"
      None None]
  by (simp add: sample_billing_eq sample_defs Let_def or_str_def or_null_def)

end
