(* ===== verification/Capacity.thy ===== *)
theory Capacity
  imports Credit_Service
begin

text \<open>
  The capacity layer in front of the RPC gateway: \<^verbatim>\<open>capacity/capacity_enforcement.js\<close> with the flag reader
  \<^verbatim>\<open>lib/flags.js\<close>. A call is paid from prepaid credit and then, on the path \<open>new\<close>, from a signed
  authorization with a cap. One statement of SQL is one step; a transaction that throws leaves the
  tables as they were. Rows that another transaction has locked are skipped by the draw, so which
  ones are is an argument.
\<close>

section \<open>The flag\<close>

datatype capacity_path = Legacy | Dual | New

definition coerce :: "string option \<Rightarrow> capacity_path" where
  "coerce v = (let s = map lower (or_str v []) in if s = ''dual'' then Dual else if s = ''new'' then New else Legacy)"

definition FLAG_TTL_MS :: int where "FLAG_TTL_MS = 10000"

text \<open>\<open>row = None\<close>: the query failed; \<open>Some None\<close>: no row. The cache holds a value and when it was read.\<close>

definition getCapacityPath ::
  "int \<Rightarrow> string option option \<Rightarrow> (capacity_path \<times> int) option \<Rightarrow> capacity_path \<times> (capacity_path \<times> int) option" where
  "getCapacityPath now row cache =
     (case cache of
        Some (v, t) \<Rightarrow>
          if now - t < FLAG_TTL_MS then (v, cache)
          else (case row of None \<Rightarrow> (v, cache) | Some r \<Rightarrow> (coerce r, Some (coerce r, now)))
      | None \<Rightarrow> (case row of None \<Rightarrow> (Legacy, None) | Some r \<Rightarrow> (coerce r, Some (coerce r, now))))"

section \<open>Tables\<close>

record authorization =
  au_principal :: string
  au_state :: string
  au_currency :: string
  au_validAfter :: int
  au_validBefore :: int
  au_cap :: int
  au_consumed :: int
  au_funding :: string

record draw =
  dr_principal :: string
  dr_authorization :: string
  dr_funding :: string
  dr_account :: string
  dr_amount :: int
  dr_createdAt :: int

text \<open>\<open>cp_principals\<close>: external reference and identifier; \<open>cp_accounts\<close>: the capacity account in USDC of a principal;
  draws by idempotency key; settlements by draw, with the confirmations they need.\<close>

record parity =
  pa_evaluated :: nat
  pa_agreements :: nat
  pa_disagreements :: nat
  pa_byReason :: "(string, nat) jsmap"

record capacity =
  cp_billing :: billing
  cp_principals :: "(string \<times> string) list"
  cp_auths :: "(string, authorization) jsmap"
  cp_accounts :: "(string, string) jsmap"
  cp_draws :: "(string, draw) jsmap"
  cp_settlements :: "(string, nat) jsmap"
  cp_parity :: parity

record capacity_env =
  cx_charge :: charge_env
  cx_cost :: int
  cx_fault :: bool
  cx_locked :: "string \<Rightarrow> bool"
  cx_uuid :: string
  cx_confirmations :: nat

definition CAPACITY_CURRENCY :: string where "CAPACITY_CURRENCY = ''USDC''"

text \<open>\<open>Number(env)\<close>, \<open>None\<close> if it is no finite number.\<close>

definition callCostMinor :: "rat option \<Rightarrow> int" where
  "callCostMinor raw = (case raw of None \<Rightarrow> 30 | Some r \<Rightarrow> if r > 0 then \<lfloor>r\<rfloor> else 30)"

definition requiredConfirmations :: "rat option \<Rightarrow> int" where
  "requiredConfirmations raw = (case raw of None \<Rightarrow> 12 | Some r \<Rightarrow> if r > 0 then \<lfloor>r\<rfloor> else 12)"

section \<open>Entitlement and capacity\<close>

text \<open>The references that a request can be known by.\<close>

definition principal_candidates :: "(string \<Rightarrow> string) \<Rightarrow> string option \<Rightarrow> string option \<Rightarrow> billing \<Rightarrow> string list" where
  "principal_candidates sha apiKey wallet b =
     (if truthy wallet then [map lower (the wallet)] else []) @
     (case apiKey of
        None \<Rightarrow> []
      | Some k \<Rightarrow>
          if isX402SessionKey k
          then (case resolveSessionKey sha k b of None \<Rightarrow> [] | Some (acct, payer) \<Rightarrow> [payer, acct])
          else if k \<noteq> [] then [k] else [])"

text \<open>The query has a limit and no order: the first row of the table that matches.\<close>

definition resolvePrincipalId :: "(string \<Rightarrow> string) \<Rightarrow> string option \<Rightarrow> string option \<Rightarrow> capacity \<Rightarrow> string option" where
  "resolvePrincipalId sha apiKey wallet s =
     map_option snd (find (\<lambda>p. fst p \<in> set (principal_candidates sha apiKey wallet (cp_billing s))) (cp_principals s))"

definition in_window :: "int \<Rightarrow> authorization \<Rightarrow> bool" where
  "in_window now u \<longleftrightarrow> au_state u = ''active'' \<and> au_validAfter u \<le> now \<and> now \<le> au_validBefore u \<and> au_currency u = CAPACITY_CURRENCY"

definition auths_of :: "string \<Rightarrow> capacity \<Rightarrow> (string \<times> authorization) list" where
  "auths_of p s = filter (\<lambda>x. au_principal (snd x) = p) (cp_auths s)"

text \<open>\<open>None\<close>: entitled; otherwise the reason.\<close>

definition checkEntitlement :: "string \<Rightarrow> int \<Rightarrow> capacity \<Rightarrow> string option" where
  "checkEntitlement p now s =
     (let us = map snd (auths_of p s) in
      if filter (\<lambda>u. au_state u = ''active'') us = [] then
        (if filter (\<lambda>u. au_state u \<noteq> ''active'') us \<noteq> [] then Some ''authorization_revoked'' else Some ''no_authorization'')
      else if filter (in_window now) us = [] then Some ''authorization_expired'' else None)"

definition remaining :: "authorization \<Rightarrow> int" where
  "remaining u = au_cap u - au_consumed u"

definition availableMinor :: "string \<Rightarrow> int \<Rightarrow> capacity \<Rightarrow> int" where
  "availableMinor p now s = sum_list (map remaining (filter (in_window now) (map snd (auths_of p s))))"

definition checkCapacity :: "int \<Rightarrow> int \<Rightarrow> string option" where
  "checkCapacity available cost = (if available \<ge> cost then None else Some ''insufficient_capacity'')"

text \<open>\<open>None\<close>: allow. A missing principal has no authorization.\<close>

definition classifyCapacity :: "string option \<Rightarrow> int \<Rightarrow> int \<Rightarrow> capacity \<Rightarrow> string option" where
  "classifyCapacity p cost now s =
     (case p of
        None \<Rightarrow> Some ''no_authorization''
      | Some p \<Rightarrow>
          (case checkEntitlement p now s of Some r \<Rightarrow> Some r | None \<Rightarrow> checkCapacity (availableMinor p now s) cost))"

definition evaluateNewReadOnly :: "capacity_env \<Rightarrow> string option \<Rightarrow> string option \<Rightarrow> capacity \<Rightarrow> string + string option" where
  "evaluateNewReadOnly cx apiKey wallet s =
     (if cx_fault cx then Inl ''database error''
      else Inr (classifyCapacity (resolvePrincipalId (ce_sha (cx_charge cx)) apiKey wallet s) (cx_cost cx) (ce_now (cx_charge cx)) s))"

definition DENY_MSG :: "(string, string) jsmap" where
  "DENY_MSG =
     [(''no_authorization'', ''No active capacity authorization for this identity. Sign an EIP-3009 authorization to fund capacity.''),
      (''insufficient_capacity'', ''Capacity exhausted for this authorization. Sign a new authorization or increase the cap.''),
      (''authorization_expired'', ''Your capacity authorization is outside its validity window. Sign a new authorization.''),
      (''authorization_revoked'', ''Your capacity authorization has been revoked. This identity cannot draw capacity.'')]"

text \<open>Every reason has the status 402; the four above are all there are.\<close>

definition deny_reason :: "string \<Rightarrow> denied" where
  "deny_reason reason = deny_of reason 402 (coalesce (map_of DENY_MSG reason) [])"

section \<open>The draw\<close>

text \<open>\<open>None\<close>: the principal has no capacity account, and the insertion throws.\<close>

definition insertDraw :: "capacity_env \<Rightarrow> string \<Rightarrow> string \<Rightarrow> string \<Rightarrow> int \<Rightarrow> string \<Rightarrow> capacity \<Rightarrow> capacity option" where
  "insertDraw cx p authId funding amount idem s =
     (case map_of (cp_accounts s) p of
        None \<Rightarrow> None
      | Some acct \<Rightarrow>
          let d = \<lparr>dr_principal = p, dr_authorization = authId, dr_funding = funding, dr_account = acct, dr_amount = amount,
                   dr_createdAt = ce_now (cx_charge cx)\<rparr>
          in Some (s\<lparr>cp_draws := snd (insert_if_absent idem d (cp_draws s)),
                     cp_settlements := snd (insert_if_absent (''draw_'' @ idem) (cx_confirmations cx) (cp_settlements s))\<rparr>))"

text \<open>The row that the update takes: of those with enough left and not locked the one that expires first, by identifier if several.\<close>

definition pick_authorization :: "capacity_env \<Rightarrow> string \<Rightarrow> int \<Rightarrow> capacity \<Rightarrow> (string \<times> authorization) option" where
  "pick_authorization cx p cost s =
     (case sort_key (\<lambda>x. au_validBefore (snd x)) (sort_key fst
         (filter (\<lambda>x. in_window (ce_now (cx_charge cx)) (snd x) \<and> remaining (snd x) \<ge> cost \<and> \<not> cx_locked cx (fst x)) (auths_of p s))) of
        [] \<Rightarrow> None | x # _ \<Rightarrow> Some x)"

definition enforceNew ::
  "capacity_env \<Rightarrow> string option \<Rightarrow> string option \<Rightarrow> string option \<Rightarrow> capacity \<Rightarrow> (string + verdict) \<times> capacity" where
  "enforceNew cx apiKey wallet requestId s =
     (if cx_fault cx then (Inl ''database error'', s)
      else case resolvePrincipalId (ce_sha (cx_charge cx)) apiKey wallet s of
        None \<Rightarrow> (Inr (Inl (deny_reason ''no_authorization'')), s)
      | Some p \<Rightarrow>
          (case checkEntitlement p (ce_now (cx_charge cx)) s of
             Some r \<Rightarrow> (Inr (Inl (deny_reason r)), s)
           | None \<Rightarrow>
               (case pick_authorization cx p (cx_cost cx) s of
                  Some (i, u) \<Rightarrow>
                    let u' = u\<lparr>au_consumed := au_consumed u + cx_cost cx\<rparr>;
                        idem = or_str requestId (''auto_'' @ cx_uuid cx)
                    in (case insertDraw cx p i (au_funding u) (cx_cost cx) idem (s\<lparr>cp_auths := mset_key i u' (cp_auths s)\<rparr>) of
                          None \<Rightarrow> (Inl (''no capacity account for principal '' @ p), s)
                        | Some s' \<Rightarrow>
                            (Inr (Inr \<lparr>al_tier = ''capacity'', al_cost = of_int (cx_cost cx) / 1000000, al_balance = Some (of_int (remaining u')),
                               al_remaining = Some (remaining u'), al_limit = Some (au_cap u'), al_source = Some ''authorization''\<rparr>), s'))
                | None \<Rightarrow>
                    (Inr (Inl (deny_reason (coalesce (classifyCapacity (Some p) (cx_cost cx) (ce_now (cx_charge cx)) s) ''insufficient_capacity''))), s))))"

section \<open>Enforcement and preflight\<close>

text \<open>The prepaid charge, on the billing tables.\<close>

definition prepaid :: "capacity_env \<Rightarrow> string option \<Rightarrow> string option \<Rightarrow> string \<Rightarrow> capacity \<Rightarrow> (string + verdict) \<times> capacity" where
  "prepaid cx apiKey wallet product s =
     (case authorizeAndMeter (cx_charge cx) apiKey wallet None product (cp_billing s) of (r, b) \<Rightarrow> (r, s\<lparr>cp_billing := b\<rparr>))"

text \<open>What the two paths say, \<open>None\<close> for allow; the latencies are not kept here.\<close>

definition path_label :: "string \<Rightarrow> string option \<Rightarrow> string" where
  "path_label name d = name @ (case d of None \<Rightarrow> ''=allow'' | Some r \<Rightarrow> ''=deny'' @ (if r = [] then [] else '':'' @ r))"

definition record_parity :: "string option \<Rightarrow> string option \<Rightarrow> parity \<Rightarrow> parity" where
  "record_parity legacy neu p =
     (let p = p\<lparr>pa_evaluated := pa_evaluated p + 1\<rparr> in
      if (legacy = None) = (neu = None) then p\<lparr>pa_agreements := pa_agreements p + 1\<rparr>
      else let key = path_label ''legacy'' legacy @ ''|'' @ path_label ''new'' neu
           in p\<lparr>pa_disagreements := pa_disagreements p + 1,
                pa_byReason := mset_key key (coalesce (map_of (pa_byReason p) key) 0 + 1) (pa_byReason p)\<rparr>)"

definition enforceCapacity ::
  "capacity_env \<Rightarrow> capacity_path \<Rightarrow> string option \<Rightarrow> string option \<Rightarrow> string option \<Rightarrow> string \<Rightarrow> capacity \<Rightarrow> (string + verdict) \<times> capacity" where
  "enforceCapacity cx path apiKey wallet requestId product s =
     (case path of
        Legacy \<Rightarrow> prepaid cx apiKey wallet product s
      | New \<Rightarrow>
          (case prepaid cx apiKey wallet product s of
             (Inl e, s1) \<Rightarrow> (Inl e, s1)
           | (Inr (Inr al), s1) \<Rightarrow> (Inr (Inr al), s1)
           | (Inr (Inl d), s1) \<Rightarrow>
               if de_terminal d then (Inr (Inl d), s1)
               else (case enforceNew cx apiKey wallet requestId s1 of
                  (Inl e, s2) \<Rightarrow> (Inl e, s2)
                | (Inr (Inr al), s2) \<Rightarrow> (Inr (Inr al), s2)
                | (Inr (Inl d'), s2) \<Rightarrow>
                    (Inr (Inl (if truthy apiKey \<and> de_code d = ''insufficient_credits'' then d else d')), s2)))
      | Dual \<Rightarrow>
          (case prepaid cx apiKey wallet product s of
             (Inl e, s1) \<Rightarrow> (Inl e, s1)
           | (Inr v, s1) \<Rightarrow>
               let neu = (case evaluateNewReadOnly cx apiKey wallet s1 of Inl e \<Rightarrow> Some (''eval_error:'' @ e) | Inr d \<Rightarrow> d);
                   legacy = (case v of Inl d \<Rightarrow> Some (de_code d) | Inr _ \<Rightarrow> None)
               in (Inr v, s1\<lparr>cp_parity := record_parity legacy neu (cp_parity s1)\<rparr>)))"

definition precheckCapacity ::
  "capacity_env \<Rightarrow> capacity_path \<Rightarrow> string option \<Rightarrow> string option \<Rightarrow> string \<Rightarrow> capacity \<Rightarrow> string + denied option" where
  "precheckCapacity cx path apiKey wallet product s =
     (case precheckCharge (cx_charge cx) apiKey wallet None product (cp_billing s) of
        Inl e \<Rightarrow> Inl e
      | Inr (Inr ok) \<Rightarrow> Inr None
      | Inr (Inl d) \<Rightarrow>
          if path \<noteq> New then Inr (Some d)
          else (case evaluateNewReadOnly cx apiKey wallet s of
             Inl e \<Rightarrow> Inl e
           | Inr None \<Rightarrow> Inr None
           | Inr (Some reason) \<Rightarrow>
               if truthy apiKey \<and> de_code d = ''insufficient_credits'' then Inr (Some d) else Inr (Some (deny_reason reason))))"

section \<open>What enforcement does\<close>

lemma pick_found:
  assumes "pick_authorization cx p cost s = Some (i, u)"
  shows "(i, u) \<in> set (cp_auths s) \<and> au_principal u = p \<and> in_window (ce_now (cx_charge cx)) u \<and> cost \<le> remaining u"
proof -
  let ?l = "sort_key (\<lambda>x. au_validBefore (snd x)) (sort_key fst
    (filter (\<lambda>x. in_window (ce_now (cx_charge cx)) (snd x) \<and> remaining (snd x) \<ge> cost \<and> \<not> cx_locked cx (fst x)) (auths_of p s)))"
  have "(i, u) \<in> set ?l" using assms by (cases ?l) (auto simp: pick_authorization_def)
  then show ?thesis by (auto simp: auths_of_def)
qed

lemma enforceNew_unchanged:
  "enforceNew cx apiKey wallet requestId s = (Inr (Inl d), s') \<Longrightarrow> s' = s"
  "enforceNew cx apiKey wallet requestId s = (Inl e, s') \<Longrightarrow> s' = s"
  by (auto simp: enforceNew_def Let_def split: if_splits option.splits prod.splits)

lemma enforceNew_draws:
  assumes "enforceNew cx apiKey wallet requestId s = (Inr (Inr al), s')" and "mwf (cp_auths s)"
  shows "\<exists>p i u d. map_of (cp_auths s) i = Some u \<and> au_principal u = p \<and> in_window (ce_now (cx_charge cx)) u \<and> cx_cost cx \<le> remaining u \<and>
    resolvePrincipalId (ce_sha (cx_charge cx)) apiKey wallet s = Some p \<and>
    al_cost al = of_int (cx_cost cx) / 1000000 \<and> dr_authorization d = i \<and> dr_amount d = cx_cost cx \<and>
    cp_auths s' = mset_key i (u\<lparr>au_consumed := au_consumed u + cx_cost cx\<rparr>) (cp_auths s) \<and>
    cp_draws s' = snd (insert_if_absent (or_str requestId (''auto_'' @ cx_uuid cx)) d (cp_draws s)) \<and>
    cp_billing s' = cp_billing s \<and> cp_principals s' = cp_principals s"
proof -
  from assms(1) obtain p i u s1 where p: "resolvePrincipalId (ce_sha (cx_charge cx)) apiKey wallet s = Some p"
    and pick: "pick_authorization cx p (cx_cost cx) s = Some (i, u)" and al: "al_cost al = of_int (cx_cost cx) / 1000000"
    and ins: "insertDraw cx p i (au_funding u) (cx_cost cx) (or_str requestId (''auto_'' @ cx_uuid cx))
      (s\<lparr>cp_auths := mset_key i (u\<lparr>au_consumed := au_consumed u + cx_cost cx\<rparr>) (cp_auths s)\<rparr>) = Some s'"
    by (auto simp: enforceNew_def Let_def split: if_splits option.splits prod.splits)
  have "map_of (cp_auths s) i = Some u" using pick_found [OF pick] assms(2) by (simp add: map_of_eq_Some_iff)
  moreover obtain acct where acct: "map_of (cp_accounts s) p = Some acct"
    using ins by (auto simp: insertDraw_def split: option.splits)
  ultimately show ?thesis using p al pick_found [OF pick] ins
    by (intro exI [of _ p] exI [of _ i] exI [of _ u]
        exI [of _ "\<lparr>dr_principal = p, dr_authorization = i, dr_funding = au_funding u, dr_account = acct, dr_amount = cx_cost cx,
          dr_createdAt = ce_now (cx_charge cx)\<rparr>"]) (auto simp: insertDraw_def Let_def)
qed

lemma prepaid_frame: "prepaid cx apiKey wallet product s = (r, s') \<Longrightarrow> \<exists>b. s' = s\<lparr>cp_billing := b\<rparr>"
  by (auto simp: prepaid_def split: prod.splits)

text \<open>What the tables of the authorizations can look like after a call: as before, or with one draw.\<close>

lemma enforce_auths:
  assumes "enforceCapacity cx path apiKey wallet requestId product s = (r, s')" and "mwf (cp_auths s)"
  shows "cp_auths s' = cp_auths s \<and> cp_draws s' = cp_draws s \<or>
    (\<exists>i u d. map_of (cp_auths s) i = Some u \<and> cx_cost cx \<le> remaining u \<and> dr_authorization d = i \<and> dr_amount d = cx_cost cx \<and>
      cp_auths s' = mset_key i (u\<lparr>au_consumed := au_consumed u + cx_cost cx\<rparr>) (cp_auths s) \<and>
      cp_draws s' = snd (insert_if_absent (or_str requestId (''auto_'' @ cx_uuid cx)) d (cp_draws s)))"
proof -
  obtain r1 s1 where p: "prepaid cx apiKey wallet product s = (r1, s1)" by fastforce
  obtain b where s1: "s1 = s\<lparr>cp_billing := b\<rparr>" using prepaid_frame [OF p] by blast
  obtain r2 s2 where n: "enforceNew cx apiKey wallet requestId s1 = (r2, s2)" by fastforce
  have "cp_auths s' = cp_auths s \<and> cp_draws s' = cp_draws s \<or> s' = s2 \<and> (\<exists>al. r2 = Inr (Inr al))"
    using assms(1) p s1 n enforceNew_unchanged [of cx apiKey wallet requestId s1]
    by (cases path) (auto simp: enforceCapacity_def Let_def split: sum.splits prod.splits if_splits)
  then show ?thesis
  proof
    assume "s' = s2 \<and> (\<exists>al. r2 = Inr (Inr al))"
    then obtain al where "enforceNew cx apiKey wallet requestId s1 = (Inr (Inr al), s')" using n by blast
    with enforceNew_draws [OF this] assms(2) s1 show ?thesis by fastforce
  qed simp
qed

section \<open>Invariant\<close>

definition drawn :: "string \<Rightarrow> (string, draw) jsmap \<Rightarrow> int" where
  "drawn i ds = sum_list (map (\<lambda>x. dr_amount (snd x)) (filter (\<lambda>x. dr_authorization (snd x) = i) ds))"

definition auths_ok :: "capacity \<Rightarrow> bool" where
  "auths_ok s \<longleftrightarrow> mwf (cp_auths s) \<and> (\<forall>x \<in> set (cp_draws s). map_of (cp_auths s) (dr_authorization (snd x)) \<noteq> None) \<and>
     (\<forall>i u. map_of (cp_auths s) i = Some u \<longrightarrow> au_consumed u \<le> au_cap u \<and> au_consumed u = drawn i (cp_draws s))"

text \<open>Authorizations are signed and revoked, and calls are made under identifiers not used before.\<close>

inductive capacity_reach :: "capacity \<Rightarrow> bool" where
  start: "cp_auths s = [] \<Longrightarrow> cp_draws s = [] \<Longrightarrow> capacity_reach s"
| signed: "capacity_reach s \<Longrightarrow> map_of (cp_auths s) i = None \<Longrightarrow> au_consumed u = 0 \<Longrightarrow> 0 \<le> au_cap u \<Longrightarrow>
    capacity_reach (s\<lparr>cp_auths := mset_key i u (cp_auths s)\<rparr>)"
| revoked: "capacity_reach s \<Longrightarrow> map_of (cp_auths s) i = Some u \<Longrightarrow>
    capacity_reach (s\<lparr>cp_auths := mset_key i (u\<lparr>au_state := st\<rparr>) (cp_auths s)\<rparr>)"
| called: "capacity_reach s \<Longrightarrow> map_of (cp_draws s) (or_str requestId (''auto_'' @ cx_uuid cx)) = None \<Longrightarrow>
    capacity_reach (snd (enforceCapacity cx path apiKey wallet requestId product s))"

lemma drawn_fresh: "\<forall>x \<in> set ds. dr_authorization (snd x) \<noteq> i \<Longrightarrow> drawn i ds = 0"
  by (simp add: drawn_def filter_empty_conv)

lemma drawn_insert:
  "map_of ds k = None \<Longrightarrow> drawn i (snd (insert_if_absent k d ds)) = drawn i ds + (if dr_authorization d = i then dr_amount d else 0)"
  by (simp add: insert_if_absent_def mset_key_fresh drawn_def)

lemma auths_okD:
  "auths_ok s \<Longrightarrow> map_of (cp_auths s) i = Some u \<Longrightarrow> au_consumed u \<le> au_cap u \<and> au_consumed u = drawn i (cp_draws s)"
  unfolding auths_ok_def by blast

lemma capacity_reach_ok: "capacity_reach s \<Longrightarrow> auths_ok s"
proof (induction rule: capacity_reach.induct)
  case (start s)
  then show ?case by (simp add: auths_ok_def)
next
  case (signed s i u)
  then have "\<forall>x \<in> set (cp_draws s). dr_authorization (snd x) \<noteq> i" by (auto simp: auths_ok_def)
  then have "drawn i (cp_draws s) = 0" by (rule drawn_fresh)
  moreover have "map_of (mset_key i u (cp_auths s)) j = Some v \<Longrightarrow> j = i \<and> v = u \<or> map_of (cp_auths s) j = Some v" for j v
    by (simp del: map_of_eq_Some_iff split: if_splits)
  ultimately show ?case using signed by (simp add: auths_ok_def del: map_of_eq_Some_iff) metis
next
  case (revoked s i u st)
  moreover have "map_of (mset_key i (u\<lparr>au_state := st\<rparr>) (cp_auths s)) j = Some v \<Longrightarrow>
      (\<exists>w. map_of (cp_auths s) j = Some w \<and> au_consumed v = au_consumed w \<and> au_cap v = au_cap w)" for j v
    using revoked(2) by (auto simp del: map_of_eq_Some_iff split: if_splits)
  ultimately show ?case by (simp add: auths_ok_def del: map_of_eq_Some_iff) metis
next
  case (called s requestId cx path apiKey wallet product)
  obtain r s' where e: "enforceCapacity cx path apiKey wallet requestId product s = (r, s')" by fastforce
  have wf: "mwf (cp_auths s)" using called.IH by (simp add: auths_ok_def)
  from enforce_auths [OF e wf] have "auths_ok s'"
  proof
    assume "cp_auths s' = cp_auths s \<and> cp_draws s' = cp_draws s"
    with called.IH show ?thesis unfolding auths_ok_def by metis
  next
    assume "\<exists>i u d. map_of (cp_auths s) i = Some u \<and> cx_cost cx \<le> remaining u \<and> dr_authorization d = i \<and> dr_amount d = cx_cost cx \<and>
      cp_auths s' = mset_key i (u\<lparr>au_consumed := au_consumed u + cx_cost cx\<rparr>) (cp_auths s) \<and>
      cp_draws s' = snd (insert_if_absent (or_str requestId (''auto_'' @ cx_uuid cx)) d (cp_draws s))"
    then obtain i u d where x: "map_of (cp_auths s) i = Some u" "cx_cost cx \<le> remaining u" "dr_authorization d = i" "dr_amount d = cx_cost cx"
      "cp_auths s' = mset_key i (u\<lparr>au_consumed := au_consumed u + cx_cost cx\<rparr>) (cp_auths s)"
      "cp_draws s' = snd (insert_if_absent (or_str requestId (''auto_'' @ cx_uuid cx)) d (cp_draws s))" by blast
    have "set (cp_draws s') \<subseteq> insert (or_str requestId (''auto_'' @ cx_uuid cx), d) (set (cp_draws s))"
      using x(6) called.hyps(2) by (simp add: insert_if_absent_def mset_key_fresh)
    then have d: "\<forall>y \<in> set (cp_draws s'). map_of (cp_auths s') (dr_authorization (snd y)) \<noteq> None"
      using called.IH x(3) unfolding auths_ok_def x(5) map_of_mset by fastforce
    have e': "drawn j (cp_draws s') = drawn j (cp_draws s) + (if j = i then cx_cost cx else 0)" for j
      using drawn_insert [OF called.hyps(2), of j d] x(3,4,6) by simp
    have c: "au_consumed v \<le> au_cap v \<and> au_consumed v = drawn j (cp_draws s) + (if j = i then cx_cost cx else 0)"
      if "map_of (cp_auths s') j = Some v" for j v
    proof (cases "j = i")
      case True
      with that called.IH x(1,2,5) show ?thesis by (auto simp: auths_ok_def remaining_def simp del: map_of_eq_Some_iff)
    next
      case False
      with that x(5) have "map_of (cp_auths s) j = Some v" by (simp del: map_of_eq_Some_iff)
      from auths_okD [OF called.IH this] False show ?thesis by simp
    qed
    have "mwf (cp_auths s')" using wf x(5) by simp
    with d c show ?thesis unfolding auths_ok_def e' by blast
  qed
  with e show ?case by simp
qed

section \<open>Properties\<close>

text \<open>
  C10: an authorization is never overdrawn and every unit drawn has its record. Whatever calls are made on whichever path,
  with whichever rows locked, the amount consumed of an authorization stays within its cap and is the sum of the draws recorded
  against it, provided that request identifiers are not reused.\<close>

theorem capacity_never_overdrawn:
  assumes "capacity_reach s" and "map_of (cp_auths s) i = Some u"
  shows "au_consumed u \<le> au_cap u \<and> au_consumed u = drawn i (cp_draws s)"
  by (rule auths_okD [OF capacity_reach_ok [OF assms(1)] assms(2)])

text \<open>
  C11: on the path \<open>new\<close> exactly one layer pays. A granted call was paid either from prepaid credit, and then no authorization
  was touched, or by one draw of the call's cost from an active authorization in its window, and then the billing tables are as
  before; a refused call has changed nothing anywhere.\<close>

theorem capacity_waterfall:
  assumes "enforceCapacity cx New apiKey wallet requestId product s = (Inr v, s')"
    and "mwf (bi_accounts (cp_billing s))" and "mwf (cp_auths s)"
  shows "case v of
      Inl d \<Rightarrow> s' = s
    | Inr al \<Rightarrow>
        (authorizeAndMeter (cx_charge cx) apiKey wallet None product (cp_billing s) = (Inr (Inr al), cp_billing s') \<and>
         cp_auths s' = cp_auths s \<and> cp_draws s' = cp_draws s) \<or>
        (cp_billing s' = cp_billing s \<and> (\<exists>i u. map_of (cp_auths s) i = Some u \<and> in_window (ce_now (cx_charge cx)) u \<and>
           cx_cost cx \<le> remaining u \<and> cp_auths s' = mset_key i (u\<lparr>au_consumed := au_consumed u + cx_cost cx\<rparr>) (cp_auths s)))"
proof -
  obtain r1 b1 where a: "authorizeAndMeter (cx_charge cx) apiKey wallet None product (cp_billing s) = (r1, b1)" by fastforce
  then have p: "prepaid cx apiKey wallet product s = (r1, s\<lparr>cp_billing := b1\<rparr>)" by (simp add: prepaid_def)
  show ?thesis
  proof (cases r1)
    case (Inl e)
    with assms(1) p show ?thesis by (simp add: enforceCapacity_def)
  next
    case (Inr v1)
    show ?thesis
    proof (cases v1)
      case (Inl d)
      have same: "s\<lparr>cp_billing := b1\<rparr> = s"
        using charge_denied a Inr Inl by simp
      obtain r2 s2 where n: "enforceNew cx apiKey wallet requestId s = (r2, s2)" by fastforce
      show ?thesis
      proof (cases "de_terminal d \<or> (\<forall>al. r2 \<noteq> Inr (Inr al))")
        case True
        with assms(1) p Inr Inl same n enforceNew_unchanged [of cx apiKey wallet requestId s]
        show ?thesis by (auto simp: enforceCapacity_def split: sum.splits if_splits)
      next
        case False
        then obtain al where "r2 = Inr (Inr al)" by blast
        with False assms(1) p Inr Inl same n have "v = Inr al" "enforceNew cx apiKey wallet requestId s = (Inr (Inr al), s')"
          by (auto simp: enforceCapacity_def)
        with enforceNew_draws [OF this(2) assms(3)] show ?thesis by auto
      qed
    next
      fix al assume "v1 = Inr al"
      with assms(1) p Inr a show ?thesis by (auto simp: enforceCapacity_def)
    qed
  qed
qed

text \<open>
  The dual window changes nothing that is served. On the path \<open>dual\<close> a call has the verdict and the effect on money that
  it has on the path \<open>legacy\<close>, whatever the new evaluation says and whether or not it fails; only the parity record differs, and it
  counts every decision as an agreement or a disagreement.\<close>

theorem dual_serves_legacy:
  assumes "enforceCapacity cx Legacy apiKey wallet requestId product s = (r, s1)"
    and "enforceCapacity cx Dual apiKey wallet requestId product s = (r', s2)"
  shows "r' = r \<and> s2\<lparr>cp_parity := cp_parity s\<rparr> = s1 \<and>
    (pa_evaluated (cp_parity s) = pa_agreements (cp_parity s) + pa_disagreements (cp_parity s) \<longrightarrow>
     pa_evaluated (cp_parity s2) = pa_agreements (cp_parity s2) + pa_disagreements (cp_parity s2))"
proof -
  have p: "prepaid cx apiKey wallet product s = (r, s1)" using assms(1) by (simp add: enforceCapacity_def)
  obtain b where s1: "s1 = s\<lparr>cp_billing := b\<rparr>" using prepaid_frame [OF p] by blast
  show ?thesis using assms(2) p s1
    by (auto simp: enforceCapacity_def Let_def record_parity_def split: sum.splits if_splits)
qed

text \<open>
  The preflight and the draw can disagree. The preflight adds up what is left of all authorizations of a principal; the draw
  takes one that has enough left. A caller whose remainders suffice only together passes the preflight, is served by an upstream,
  and is then refused for insufficient capacity.\<close>

theorem preflight_sums_capacity:
  assumes "resolvePrincipalId (ce_sha (cx_charge cx)) apiKey wallet s = Some p" and "\<not> cx_fault cx"
    and "checkEntitlement p (ce_now (cx_charge cx)) s = None"
    and "\<forall>x \<in> set (auths_of p s). remaining (snd x) < cx_cost cx" and "cx_cost cx \<le> availableMinor p (ce_now (cx_charge cx)) s"
    and "precheckCharge (cx_charge cx) apiKey wallet None product (cp_billing s) = Inr (Inl d)"
  shows "precheckCapacity cx New apiKey wallet product s = Inr None \<and>
    enforceNew cx apiKey wallet requestId s = (Inr (Inl (deny_reason ''insufficient_capacity'')), s)"
proof -
  have "classifyCapacity (Some p) (cx_cost cx) (ce_now (cx_charge cx)) s = None"
    using assms(3,5) by (simp add: classifyCapacity_def checkCapacity_def)
  moreover have "filter (\<lambda>x. in_window (ce_now (cx_charge cx)) (snd x) \<and> remaining (snd x) \<ge> cx_cost cx \<and> \<not> cx_locked cx (fst x)) (auths_of p s) = []"
    using assms(4) by (auto simp: filter_empty_conv)
  ultimately show ?thesis using assms(1,2,3,6)
    by (simp add: precheckCapacity_def evaluateNewReadOnly_def enforceNew_def pick_authorization_def)
qed

section \<open>Witnesses\<close>

definition sample_auth :: authorization where
  "sample_auth = \<lparr>au_principal = ''p1'', au_state = ''active'', au_currency = ''USDC'', au_validAfter = 0, au_validBefore = 100, au_cap = 20,
     au_consumed = 0, au_funding = ''f1''\<rparr>"

definition sample_env :: capacity_env where
  "sample_env = \<lparr>cx_charge = sample_charge, cx_cost = 30, cx_fault = False, cx_locked = (\<lambda>_. False), cx_uuid = ''u'', cx_confirmations = 12\<rparr>"

definition no_capacity :: capacity where
  "no_capacity = \<lparr>cp_billing = empty_billing, cp_principals = [(''sk_1'', ''p1'')], cp_auths = [], cp_accounts = [(''p1'', ''acct1'')],
     cp_draws = [], cp_settlements = [], cp_parity = \<lparr>pa_evaluated = 0, pa_agreements = 0, pa_disagreements = 0, pa_byReason = []\<rparr>\<rparr>"

definition two_auths :: capacity where
  "two_auths = no_capacity\<lparr>cp_auths := [(''a1'', sample_auth), (''a2'', sample_auth)]\<rparr>"

lemmas capacity_sample = sample_auth_def sample_env_def no_capacity_def two_auths_def sample_charge_def empty_billing_def
  resolvePrincipalId_def principal_candidates_def isX402SessionKey_def truthy_def

theorem capacity_never_overdrawn_witness:
  "au_consumed sample_auth \<le> au_cap sample_auth"
proof -
  have "capacity_reach (no_capacity\<lparr>cp_auths := mset_key ''a1'' sample_auth (cp_auths no_capacity)\<rparr>)"
    by (rule capacity_reach.signed [OF capacity_reach.start]) (simp_all add: no_capacity_def sample_auth_def)
  from capacity_never_overdrawn [OF this, of "''a1''" sample_auth] show ?thesis by simp
qed

lemma sample_refused:
  "authorizeAndMeter sample_charge (Some ''sk_1'') None None ''rpc'' empty_billing =
     (Inr (Inl (deny_of ''account_not_found'' 401 ''Unknown API key or wallet'')), empty_billing)"
  by (simp add: authorizeAndMeter_def account_gates_def sample_charge_def resolveAccount_def isX402SessionKey_def lookup_account_def empty_billing_def)

lemma sample_drawn:
  "enforceCapacity (sample_env\<lparr>cx_cost := 15\<rparr>) New (Some ''sk_1'') None (Some ''r1'') ''rpc'' two_auths =
     (Inr (Inr \<lparr>al_tier = ''capacity'', al_cost = 15 / 1000000, al_balance = Some 5, al_remaining = Some 5, al_limit = Some 20,
        al_source = Some ''authorization''\<rparr>),
      snd (enforceCapacity (sample_env\<lparr>cx_cost := 15\<rparr>) New (Some ''sk_1'') None (Some ''r1'') ''rpc'' two_auths))"
  using sample_refused
  by (simp add: enforceCapacity_def prepaid_def capacity_sample deny_of_def enforceNew_def checkEntitlement_def auths_of_def
      in_window_def CAPACITY_CURRENCY_def pick_authorization_def remaining_def insertDraw_def Let_def)

theorem capacity_waterfall_witness:
  "cp_billing (snd (enforceCapacity (sample_env\<lparr>cx_cost := 15\<rparr>) New (Some ''sk_1'') None (Some ''r1'') ''rpc'' two_auths)) = empty_billing"
  using capacity_waterfall [OF sample_drawn] sample_refused
  by (auto simp: two_auths_def no_capacity_def empty_billing_def sample_env_def)

theorem dual_serves_legacy_witness:
  "fst (enforceCapacity sample_env Dual (Some ''sk_1'') None None ''rpc'' two_auths) =
   fst (enforceCapacity sample_env Legacy (Some ''sk_1'') None None ''rpc'' two_auths)"
  using dual_serves_legacy [OF prod.collapse [symmetric] prod.collapse [symmetric]] by blast

theorem preflight_sums_capacity_witness:
  "precheckCapacity sample_env New (Some ''sk_1'') None ''rpc'' two_auths = Inr None"
  using preflight_sums_capacity [of sample_env "Some ''sk_1''" None two_auths "''p1''" "''rpc''"
      "deny_of ''account_not_found'' 401 ''Unknown API key or wallet''"]
  by (simp add: capacity_sample checkEntitlement_def auths_of_def in_window_def CAPACITY_CURRENCY_def remaining_def availableMinor_def
      precheckCharge_def account_gates_def resolveAccount_def lookup_account_def)

end
