(* ===== verification/Rpc_Router.thy ===== *)
theory Rpc_Router
  imports Complex_Main Rpc_Limits
begin

text \<open>
  How the RPC gateway serves a call: \<^verbatim>\<open>workloads/rpc_gateway/load_balancer.js\<close> (the weighted choice of a provider),
  \<^verbatim>\<open>node_dispatcher.js\<close> (the nodes of the network) and \<^verbatim>\<open>router.js\<close> (nodes first, then the providers whose
  circuit is closed, then an emergency endpoint). Random numbers, upstream answers, the clock and
  the reachability of Redis and of the database are fields of \<open>route_env\<close>. Weights are real
  numbers and latencies rationals, where the code has floats. What the code starts without
  waiting for it (circuit, latency, counters, node statistics) is done at that point.
\<close>

section \<open>Load balancer\<close>

definition DEFAULT_LATENCY :: rat where "DEFAULT_LATENCY = 500"
definition MIN_WEIGHT :: int where "MIN_WEIGHT = 1"
definition MAX_WEIGHT :: int where "MAX_WEIGHT = 100"

text \<open>A provider with its latency.\<close>

type_synonym measured = "provider \<times> rat option"

definition calculateWeight :: "measured \<Rightarrow> int" where
  "calculateWeight p =
     (let latency = (if snd p = None \<or> snd p = Some 0 then DEFAULT_LATENCY else the (snd p));
          rateLimit = (if pv_rateLimit (fst p) = 0 then 100 else pv_rateLimit (fst p));
          priority = (if pv_priority (fst p) = 0 then 1 else pv_priority (fst p));
          latencyScore = 1 / sqrt (of_rat latency);
          rateLimitBonus = log 10 (real rateLimit + 1);
          priorityBonus = (10 - real (min priority 10)) / 10;
          weight = latencyScore * rateLimitBonus * (1 + priorityBonus)
      in max MIN_WEIGHT (min MAX_WEIGHT \<lfloor>weight + 1 / 2\<rfloor>))"

fun pick_weighted :: "real \<Rightarrow> int \<Rightarrow> measured list \<Rightarrow> measured option" where
  "pick_weighted rand cumulative [] = None"
| "pick_weighted rand cumulative (p # ps) =
     (if rand \<le> of_int (cumulative + calculateWeight p) then Some p else pick_weighted rand (cumulative + calculateWeight p) ps)"

text \<open>\<open>rnd\<close> is the result of \<open>Math.random()\<close>.\<close>

definition selectWeightedProvider :: "real \<Rightarrow> measured list \<Rightarrow> measured option" where
  "selectWeightedProvider rnd ps =
     (case ps of
        [] \<Rightarrow> None
      | [p] \<Rightarrow> Some p
      | _ \<Rightarrow>
          let totalWeight = sum_list (map calculateWeight ps)
          in if totalWeight = 0 then Some (hd ps)
             else case pick_weighted (rnd * of_int totalWeight) 0 ps of Some p \<Rightarrow> Some p | None \<Rightarrow> Some (last ps))"

definition getRequestCountKey :: "string \<Rightarrow> string \<Rightarrow> string" where
  "getRequestCountKey chain providerId = ''rpc:requests:'' @ normalized chain @ '':'' @ providerId"

definition incrementRequestCount :: "bool \<Rightarrow> int \<Rightarrow> string \<Rightarrow> string \<Rightarrow> nat redis \<Rightarrow> nat redis" where
  "incrementRequestCount up now chain providerId r =
     (if \<not> up then r
      else let key = getRequestCountKey chain providerId in redis_set_ex now key (coalesce (redis_get now key r) 0 + 1) 3600 r)"

definition getRequestCounts :: "bool \<Rightarrow> int \<Rightarrow> string \<Rightarrow> string list \<Rightarrow> nat redis \<Rightarrow> nat list" where
  "getRequestCounts up now chain providerIds r =
     (if \<not> up then map (\<lambda>_. 0) providerIds
      else map (\<lambda>i. coalesce (redis_get now (getRequestCountKey chain i) r) 0) providerIds)"

definition getWeightsForProviders :: "measured list \<Rightarrow> (string \<times> int \<times> rat option \<times> nat) list" where
  "getWeightsForProviders ps = map (\<lambda>p. (pv_id (fst p), calculateWeight p, snd p, pv_rateLimit (fst p))) ps"

lemma weight_bounds: "1 \<le> calculateWeight p" "calculateWeight p \<le> 100"
  by (simp_all add: calculateWeight_def MIN_WEIGHT_def MAX_WEIGHT_def Let_def)

lemma pick_member: "pick_weighted r c ps = Some p \<Longrightarrow> p \<in> set ps"
  by (induction r c ps rule: pick_weighted.induct) (auto split: if_splits)

lemma select_member: "selectWeightedProvider r ps = Some p \<Longrightarrow> p \<in> set ps"
  by (auto simp: selectWeightedProvider_def Let_def dest: pick_member split: list.splits option.splits if_splits)

lemma select_none: "selectWeightedProvider r ps = None \<longleftrightarrow> ps = []"
  by (auto simp: selectWeightedProvider_def Let_def split: list.splits option.splits if_splits)

section \<open>Nodes\<close>

text \<open>A row of \<open>registered_nodes\<close>, the columns the dispatcher reads or writes.\<close>

record node =
  nd_id :: string
  nd_endpoint :: "string option"
  nd_status :: string
  nd_heartbeat :: "int option"
  nd_type :: string
  nd_chains :: "int list option"
  nd_reputation :: "int option"
  nd_served :: "nat option"
  nd_failures :: nat
  nd_latency :: "rat option"
  nd_failedAt :: "int option"
  nd_reason :: "string option"
  nd_updatedAt :: int

definition HEARTBEAT_THRESHOLD_SECONDS :: int where "HEARTBEAT_THRESHOLD_SECONDS = 300"

definition public_endpoints :: "string list" where
  "public_endpoints = [''drpc.org'', ''ankr.com'', ''llamarpc.com'', ''alchemy.com'', ''infura.io'', ''satelink.network'', ''1rpc.io'']"

definition nulls_last :: "('a \<Rightarrow> 'k :: linorder option) \<Rightarrow> 'a list \<Rightarrow> 'a list" where
  "nulls_last f xs = sort_key (\<lambda>x. the (f x)) (filter (\<lambda>x. f x \<noteq> None) xs) @ filter (\<lambda>x. f x = None) xs"

text \<open>The query: the condition, the order (rows that tie keep their place in the table) and the limit.\<close>

definition node_query :: "int \<Rightarrow> string \<Rightarrow> node list \<Rightarrow> node list" where
  "node_query cutoff nodeType t =
     take 20 (nulls_last (\<lambda>n. map_option uminus (nd_reputation n)) (nulls_last nd_served
       (filter (\<lambda>n. nd_status n = ''active'' \<and> (\<exists>h \<in> set_option (nd_heartbeat n). h > cutoff) \<and> nd_type n = nodeType \<and>
          nd_failures n < 4 \<and> (\<exists>u \<in> set_option (nd_endpoint n). \<forall>d \<in> set public_endpoints. \<not> occurs_in d u)) t)))"

definition node_weight :: "node \<Rightarrow> int" where
  "node_weight n = (if nd_reputation n = None \<or> nd_reputation n = Some 0 then 1 else the (nd_reputation n))"

fun pick_node :: "real \<Rightarrow> node list \<Rightarrow> node option" where
  "pick_node rand [] = None"
| "pick_node rand (n # ns) = (if rand - of_int (node_weight n) \<le> 0 then Some n else pick_node (rand - of_int (node_weight n)) ns)"

text \<open>\<open>ok\<close>: the query succeeds.\<close>

definition selectNodeSimple :: "bool \<Rightarrow> int \<Rightarrow> real \<Rightarrow> int \<Rightarrow> string \<Rightarrow> string list \<Rightarrow> node list \<Rightarrow> node option" where
  "selectNodeSimple ok now rnd chainId nodeType excludeIds t =
     (if \<not> ok then None
      else let rows = node_query (now div 1000 - HEARTBEAT_THRESHOLD_SECONDS) nodeType t;
               eligible = filter (\<lambda>n. nd_id n \<notin> set excludeIds \<and> chainId \<in> set (coalesce (nd_chains n) [])) rows
           in if eligible = [] then None
              else let top5 = take 5 eligible; totalWeight = sum_list (map node_weight top5)
                   in case pick_node (rnd * of_int totalWeight) top5 of Some n \<Rightarrow> Some n | None \<Rightarrow> Some (hd top5))"

text \<open>What \<open>fetch\<close> gives: no answer and the message of the error, or a status and the body if it is JSON. With it the time
  it took.\<close>

datatype fetch_reply = NoAnswer string | Answer nat "json option"

record forward_result =
  fw_data :: "string + json"
  fw_latency :: nat

definition http_ok :: "nat \<Rightarrow> bool" where
  "http_ok status \<longleftrightarrow> 200 \<le> status \<and> status \<le> 299"

definition forwardToNode :: "(string \<Rightarrow> json \<Rightarrow> fetch_reply \<times> nat) \<Rightarrow> node \<Rightarrow> json \<Rightarrow> forward_result" where
  "forwardToNode fetch n rpcRequest =
     (case fetch (coalesce (nd_endpoint n) []) rpcRequest of
        (NoAnswer e, ms) \<Rightarrow> \<lparr>fw_data = Inl e, fw_latency = ms\<rparr>
      | (Answer status b, ms) \<Rightarrow>
          if \<not> http_ok status then \<lparr>fw_data = Inl (''Node returned HTTP '' @ nat_to_string status), fw_latency = ms\<rparr>
          else (case b of
            None \<Rightarrow> \<lparr>fw_data = Inl ''Unexpected token in JSON'', fw_latency = ms\<rparr>
          | Some d \<Rightarrow> \<lparr>fw_data = Inr d, fw_latency = ms\<rparr>))"

text \<open>A row of \<open>revenue_events_v2\<close> of the dispatcher.\<close>

record revenue_row =
  rw_opType :: string
  rw_nodeId :: "string option"
  rw_clientId :: string
  rw_amount :: rat
  rw_requestId :: string
  rw_createdAt :: int

definition update_node :: "string \<Rightarrow> (node \<Rightarrow> node) \<Rightarrow> node list \<Rightarrow> node list" where
  "update_node i f t = map (\<lambda>n. if nd_id n = i then f n else n) t"

definition recordNodeSuccess ::
  "bool \<Rightarrow> int \<Rightarrow> string \<Rightarrow> nat \<Rightarrow> string \<Rightarrow> string option \<Rightarrow> string option \<Rightarrow> rat option \<Rightarrow> node list \<times> revenue_row list \<Rightarrow>
   node list \<times> revenue_row list" where
  "recordNodeSuccess ok now nodeId latencyMs m apiKey requestId billedUsdt s =
     (if \<not> ok then s
      else let nowS = now div 1000; (t, rows) = s;
               rows = (case billedUsdt of
                  Some b \<Rightarrow> if b > 0 then rows @ [\<lparr>rw_opType = ''rpc_'' @ m, rw_nodeId = Some nodeId, rw_clientId = or_str apiKey ''public'',
                      rw_amount = b, rw_requestId = or_str requestId (nodeId @ ''-'' @ int_to_string nowS), rw_createdAt = nowS\<rparr>] else rows
                | None \<Rightarrow> rows)
           in (update_node nodeId (\<lambda>n. n\<lparr>nd_served := map_option Suc (nd_served n), nd_failures := 0,
                 nd_latency := Some (case nd_latency n of None \<Rightarrow> of_nat latencyMs | Some a \<Rightarrow> a * (4 / 5) + of_nat latencyMs * (1 / 5)),
                 nd_updatedAt := nowS\<rparr>) t, rows))"

definition recordNodeFailure :: "bool \<Rightarrow> int \<Rightarrow> string \<Rightarrow> string \<Rightarrow> node list \<Rightarrow> node list" where
  "recordNodeFailure ok now nodeId reason t =
     (if \<not> ok then t
      else update_node nodeId (\<lambda>n. n\<lparr>nd_failures := nd_failures n + 1, nd_failedAt := Some (now div 1000),
        nd_reason := Some (take 255 reason), nd_updatedAt := now div 1000\<rparr>) t)"

definition getOnlineNodeCount :: "bool \<Rightarrow> int \<Rightarrow> string \<Rightarrow> node list \<Rightarrow> nat" where
  "getOnlineNodeCount ok now nodeType t =
     (if \<not> ok then 0
      else length (filter (\<lambda>n. nd_status n = ''active'' \<and>
        (\<exists>h \<in> set_option (nd_heartbeat n). h > now div 1000 - HEARTBEAT_THRESHOLD_SECONDS) \<and> nd_type n = nodeType) t))"

lemma set_nulls_last [simp]: "set (nulls_last f xs) = set xs"
  by (auto simp: nulls_last_def)

lemma node_query_set:
  "n \<in> set (node_query cutoff ty t) \<Longrightarrow> n \<in> set t \<and> nd_status n = ''active'' \<and> (\<exists>h \<in> set_option (nd_heartbeat n). h > cutoff) \<and>
     nd_type n = ty \<and> nd_failures n < 4"
  unfolding node_query_def by (drule in_set_takeD) auto

lemma pick_node_member: "pick_node r ns = Some n \<Longrightarrow> n \<in> set ns"
  by (induction r ns rule: pick_node.induct) (auto split: if_splits)

lemma selectNode_member:
  assumes "selectNodeSimple ok now rnd chainId ty ex t = Some n"
  shows "n \<in> set (node_query (now div 1000 - HEARTBEAT_THRESHOLD_SECONDS) ty t) \<and> nd_id n \<notin> set ex \<and>
    chainId \<in> set (coalesce (nd_chains n) [])"
proof -
  let ?e = "filter (\<lambda>n. nd_id n \<notin> set ex \<and> chainId \<in> set (coalesce (nd_chains n) []))
      (node_query (now div 1000 - HEARTBEAT_THRESHOLD_SECONDS) ty t)"
  have "n \<in> set (take 5 ?e) \<or> ?e \<noteq> [] \<and> n = hd ?e"
    using assms by (auto simp: selectNodeSimple_def Let_def dest: pick_node_member split: if_splits option.splits)
  then have "n \<in> set ?e" using in_set_takeD [of n 5 ?e] list.set_sel(1) [of ?e] by blast
  then show ?thesis by simp
qed

section \<open>Router\<close>

text \<open>\<open>re_fetch i\<close> answers the call of the \<open>i\<close>-th provider tried, \<open>re_nodeFetch i\<close> that of the \<open>i\<close>-th node.
  \<open>re_slow\<close>: the check of the provider's circuit missed its deadline. \<open>re_mget\<close>: the latencies came in time.\<close>

record route_env =
  re_config :: environment
  re_now :: int
  re_up :: bool
  re_mget :: bool
  re_slow :: "string \<Rightarrow> bool"
  re_pool :: bool
  re_db :: bool
  re_rand :: "nat \<Rightarrow> real"
  re_nodeRand :: "nat \<Rightarrow> real"
  re_fetch :: "nat \<Rightarrow> string \<Rightarrow> json \<Rightarrow> fetch_reply \<times> nat"
  re_nodeFetch :: "nat \<Rightarrow> string \<Rightarrow> json \<Rightarrow> fetch_reply \<times> nat"

record route_state =
  rs_circuits :: "circuit redis"
  rs_latency :: "rat redis"
  rs_counts :: "nat redis"
  rs_nodes :: "node list"
  rs_revenue :: "revenue_row list"

record rpc_request =
  rq_method' :: string
  rq_params' :: "json option"
  rq_id' :: "json option"

record route_options =
  op_apiKey :: "string option"
  op_requestId :: "string option"
  op_billedUsdt :: "rat option"

definition getLatencyKey :: "string \<Rightarrow> string \<Rightarrow> string" where
  "getLatencyKey chain providerId = ''rpc:latency:'' @ normalized chain @ '':'' @ providerId"

definition getProviderLatencies :: "bool \<Rightarrow> int \<Rightarrow> string \<Rightarrow> provider list \<Rightarrow> rat redis \<Rightarrow> measured list" where
  "getProviderLatencies up now chain ps r =
     map (\<lambda>p. (p, if up then redis_get now (getLatencyKey chain (pv_id p)) r else None)) ps"

text \<open>\<open>EMA_ALPHA\<close> is 0.2; the value is written with \<open>toFixed(2)\<close>.\<close>

definition toFixed2 :: "rat \<Rightarrow> rat" where
  "toFixed2 x = of_int \<lfloor>x * 100 + 1 / 2\<rfloor> / 100"

definition updateLatency :: "bool \<Rightarrow> int \<Rightarrow> string \<Rightarrow> string \<Rightarrow> nat \<Rightarrow> rat redis \<Rightarrow> rat redis" where
  "updateLatency up now chain providerId newLatency r =
     (if \<not> up then r
      else let key = getLatencyKey chain providerId;
               ema = (case redis_get now key r of
                        Some old \<Rightarrow> 1 / 5 * of_nat newLatency + 4 / 5 * old
                      | None \<Rightarrow> of_nat newLatency)
           in redis_set_ex now key (toFixed2 ema) 3600 r)"

definition rpc_payload :: "rpc_request \<Rightarrow> json" where
  "rpc_payload q = JObj [(''jsonrpc'', JStr ''2.0''), (''method'', JStr (rq_method' q)),
     (''params'', the (or_json (rq_params' q) (Some (JArr [])))), (''id'', the (or_json (rq_id' q) (Some (JNum 1))))]"

text \<open>The outcome of one call: the message of the error or the result, and the latency.\<close>

definition executeRpcCall :: "(string \<Rightarrow> json \<Rightarrow> fetch_reply \<times> nat) \<Rightarrow> string \<Rightarrow> rpc_request \<Rightarrow> (string + json) \<times> nat" where
  "executeRpcCall fetch providerUrl q =
     (case fetch providerUrl (rpc_payload q) of
        (NoAnswer e, ms) \<Rightarrow> (Inl e, ms)
      | (Answer status b, ms) \<Rightarrow>
          if \<not> http_ok status then (Inl (''HTTP '' @ nat_to_string status), ms)
          else (case b of
            None \<Rightarrow> (Inl ''Unexpected token in JSON'', ms)
          | Some JNull \<Rightarrow> (Inl ''Cannot read properties of null'', ms)
          | Some r \<Rightarrow>
              (case or_json (jget ''error'' r) None of
                 Some e \<Rightarrow> (Inl (js_string (the (or_json (jget ''message'' e) (Some (JStr ''RPC error''))))), ms)
               | None \<Rightarrow> (Inr r, ms))))"

definition EMERGENCY_FALLBACKS :: "(string, string) jsmap" where
  "EMERGENCY_FALLBACKS = [(''polygon'', ''https://polygon.drpc.org''), (''ethereum'', ''https://eth.llamarpc.com''),
     (''arbitrum'', ''https://arb1.arbitrum.io/rpc''), (''base'', ''https://mainnet.base.org''),
     (''polygon-amoy'', ''https://rpc-amoy.polygon.technology'')]"

record served =
  sv_result :: json
  sv_provider :: string
  sv_latency :: nat
  sv_source :: "string option"

text \<open>A failed route: the error and the providers tried.\<close>

type_synonym route_result = "(string \<times> string list) + served"

subsection \<open>Phase 1: nodes\<close>

text \<open>\<open>n\<close> attempts are left; \<open>ex\<close> are the nodes that failed.\<close>

fun node_phase :: "route_env \<Rightarrow> int \<Rightarrow> rpc_request \<Rightarrow> route_options \<Rightarrow> nat \<Rightarrow> string list \<Rightarrow> route_state \<Rightarrow> served option \<times> route_state" where
  "node_phase E chainId q opts 0 ex s = (None, s)"
| "node_phase E chainId q opts (Suc n) ex s =
     (case selectNodeSimple (re_db E) (re_now E) (re_nodeRand E (length ex)) chainId ''rpc'' ex (rs_nodes s) of
        None \<Rightarrow> (None, s)
      | Some nd \<Rightarrow>
          let r = forwardToNode (re_nodeFetch E (length ex)) nd (rpc_payload q) in
          (case fw_data r of
             Inr d \<Rightarrow>
               let (t, rows) = recordNodeSuccess (re_db E) (re_now E) (nd_id nd) (fw_latency r) (rq_method' q) (op_apiKey opts)
                     (op_requestId opts) (op_billedUsdt opts) (rs_nodes s, rs_revenue s)
               in (Some \<lparr>sv_result = d, sv_provider = ''node:'' @ nd_id nd, sv_latency = fw_latency r, sv_source = Some ''network_node''\<rparr>,
                   s\<lparr>rs_nodes := t, rs_revenue := rows\<rparr>)
           | Inl e \<Rightarrow>
               node_phase E chainId q opts n (ex @ [nd_id nd])
                 (s\<lparr>rs_nodes := recordNodeFailure (re_db E) (re_now E) (nd_id nd) e (rs_nodes s)\<rparr>)))"

subsection \<open>Phase 2: providers\<close>

fun check_circuits :: "route_env \<Rightarrow> string \<Rightarrow> measured list \<Rightarrow> circuit redis \<Rightarrow> measured list \<times> circuit redis" where
  "check_circuits E chain [] r = ([], r)"
| "check_circuits E chain (p # ps) r =
     (let (isopen, r) = isOpen (re_up E) (re_now E) chain (pv_id (fst p)) r;
          (rest, r) = check_circuits E chain ps r
      in (if isopen \<and> \<not> re_slow E (pv_id (fst p)) then rest else p # rest, r))"

function try_providers ::
  "route_env \<Rightarrow> string \<Rightarrow> rpc_request \<Rightarrow> measured list \<Rightarrow> string list \<Rightarrow> route_state \<Rightarrow> (string list + served) \<times> route_state" where
  "try_providers E chain q ps attempted s =
     (case selectWeightedProvider (re_rand E (length attempted)) ps of
        None \<Rightarrow> (Inl attempted, s)
      | Some p \<Rightarrow>
          let i = pv_id (fst p) in
          case executeRpcCall (re_fetch E (length attempted)) (coalesce (pv_url (fst p)) []) q of
            (Inr r, ms) \<Rightarrow>
              (Inr \<lparr>sv_result = r, sv_provider = i, sv_latency = ms, sv_source = None\<rparr>,
               s\<lparr>rs_circuits := recordSuccess (re_up E) (re_now E) chain i (rs_circuits s),
                 rs_latency := updateLatency (re_up E) (re_now E) chain i ms (rs_latency s),
                 rs_counts := incrementRequestCount (re_up E) (re_now E) chain i (rs_counts s)\<rparr>)
          | (Inl e, ms) \<Rightarrow>
              try_providers E chain q (filter (\<lambda>p'. pv_id (fst p') \<noteq> i) ps) (attempted @ [i])
                (s\<lparr>rs_circuits := recordFailure (re_up E) (re_now E) chain i (rs_circuits s)\<rparr>))"
  by pat_completeness auto
termination
  by (relation "measure (\<lambda>(E, chain, q, ps, attempted, s). length ps)")
    (auto intro!: length_filter_less [OF select_member])

declare try_providers.simps [simp del]

definition available_providers :: "route_env \<Rightarrow> string \<Rightarrow> route_state \<Rightarrow> measured list \<times> route_state" where
  "available_providers E chain s =
     (let withLatency = getProviderLatencies (re_up E \<and> re_mget E) (re_now E) chain (getProviders (re_config E) chain) (rs_latency s);
          (av, r) = check_circuits E chain withLatency (rs_circuits s)
      in (if av = [] then [hd withLatency] else av, s\<lparr>rs_circuits := r\<rparr>))"

text \<open>The whole request; the emergency endpoint comes last.\<close>

definition routeRpcRequest :: "route_env \<Rightarrow> string \<Rightarrow> rpc_request \<Rightarrow> route_options \<Rightarrow> route_state \<Rightarrow> route_result \<times> route_state" where
  "routeRpcRequest E chain q opts s =
     (case getChainConfig (re_config E) chain of
        None \<Rightarrow> (Inl (''Unsupported chain: '' @ chain, []), s)
      | Some cfg \<Rightarrow>
          (case (if re_pool E then node_phase E (cc_chainId cfg) q opts 2 [] s else (None, s)) of
             (Some v, s) \<Rightarrow> (Inr v, s)
           | (None, s) \<Rightarrow>
               if getProviders (re_config E) chain = [] then (Inl (''No providers for chain: '' @ chain, []), s)
               else let (av, s) = available_providers E chain s in
                 (case try_providers E chain q av [] s of
                    (Inr v, s) \<Rightarrow> (Inr v, s)
                  | (Inl attempted, s) \<Rightarrow>
                      (case map_of EMERGENCY_FALLBACKS (normalized chain) of
                         None \<Rightarrow> (Inl (''All providers failed'', attempted), s)
                       | Some url \<Rightarrow>
                           (case executeRpcCall (re_fetch E (length attempted)) url q of
                              (Inr r, ms) \<Rightarrow> (Inr \<lparr>sv_result = r, sv_provider = ''emergency-fallback'', sv_latency = ms,
                                 sv_source = Some ''emergency_fallback''\<rparr>, s)
                            | (Inl e, ms) \<Rightarrow> (Inl (''All providers failed'', attempted @ [''emergency-fallback'']), s))))))"

record provider_stats =
  ps_id :: string
  ps_type :: string
  ps_latency :: "rat option"
  ps_weight :: int
  ps_requests :: nat
  ps_circuit :: "circuit_state \<times> nat \<times> int"

definition getRouterStats :: "environment \<Rightarrow> bool \<Rightarrow> int \<Rightarrow> string \<Rightarrow> route_state \<Rightarrow> provider_stats list" where
  "getRouterStats env up now chain s =
     (let ps = getProviders env chain;
          withLatency = getProviderLatencies up now chain ps (rs_latency s);
          weights = getWeightsForProviders withLatency;
          counts = getRequestCounts up now chain (map pv_id ps) (rs_counts s)
      in map (\<lambda>(p, n). let circuit = getCircuitStats up now chain (pv_id (fst p)) (rs_circuits s) in
           \<lparr>ps_id = pv_id (fst p), ps_type = pv_type (fst p), ps_latency = snd p,
            ps_weight = (case find (\<lambda>w. fst w = pv_id (fst p)) weights of None \<Rightarrow> 0 | Some w \<Rightarrow> fst (snd w)),
            ps_requests = n, ps_circuit = (cs_state circuit, cs_failures circuit, timeUntilReset circuit)\<rparr>)
         (zip withLatency counts))"

subsection \<open>The loop over the providers\<close>

lemma try_steps:
  "selectWeightedProvider (re_rand E (length attempted)) ps = None \<Longrightarrow> try_providers E chain q ps attempted s = (Inl attempted, s)"
  "selectWeightedProvider (re_rand E (length attempted)) ps = Some p \<Longrightarrow>
   executeRpcCall (re_fetch E (length attempted)) (coalesce (pv_url (fst p)) []) q = (Inr r, ms) \<Longrightarrow>
   try_providers E chain q ps attempted s = (Inr \<lparr>sv_result = r, sv_provider = pv_id (fst p), sv_latency = ms, sv_source = None\<rparr>,
     s\<lparr>rs_circuits := recordSuccess (re_up E) (re_now E) chain (pv_id (fst p)) (rs_circuits s),
       rs_latency := updateLatency (re_up E) (re_now E) chain (pv_id (fst p)) ms (rs_latency s),
       rs_counts := incrementRequestCount (re_up E) (re_now E) chain (pv_id (fst p)) (rs_counts s)\<rparr>)"
  "selectWeightedProvider (re_rand E (length attempted)) ps = Some p \<Longrightarrow>
   executeRpcCall (re_fetch E (length attempted)) (coalesce (pv_url (fst p)) []) q = (Inl e, ms) \<Longrightarrow>
   try_providers E chain q ps attempted s =
     try_providers E chain q (filter (\<lambda>p'. pv_id (fst p') \<noteq> pv_id (fst p)) ps) (attempted @ [pv_id (fst p)])
       (s\<lparr>rs_circuits := recordFailure (re_up E) (re_now E) chain (pv_id (fst p)) (rs_circuits s)\<rparr>)"
  by (simp_all add: try_providers.simps [of E chain q ps attempted s] Let_def)

lemma try_failed:
  assumes "try_providers E chain q ps attempted s = (Inl attempted', s')" and "distinct (map (\<lambda>p. pv_id (fst p)) ps)"
  shows "\<exists>l. attempted' = attempted @ l \<and> distinct l \<and> set l = (\<lambda>p. pv_id (fst p)) ` set ps \<and>
    s' = s\<lparr>rs_circuits := foldl (\<lambda>r i. recordFailure (re_up E) (re_now E) chain i r) (rs_circuits s) l\<rparr> \<and>
    (\<forall>p \<in> set ps. \<exists>n e ms. executeRpcCall (re_fetch E n) (coalesce (pv_url (fst p)) []) q = (Inl e, ms))"
  using assms
proof (induction E chain q ps attempted s arbitrary: attempted' s' rule: try_providers.induct)
  case (1 E chain q ps attempted s)
  show ?case
  proof (cases "selectWeightedProvider (re_rand E (length attempted)) ps")
    case None
    with "1.prems" show ?thesis by (auto simp: try_steps(1) select_none)
  next
    case (Some p)
    let ?i = "pv_id (fst p)" and ?ps = "filter (\<lambda>p'. pv_id (fst p') \<noteq> pv_id (fst p)) ps"
    obtain o' ms where "executeRpcCall (re_fetch E (length attempted)) (coalesce (pv_url (fst p)) []) q = (o', ms)" by fastforce
    with Some "1.prems"(1) obtain e where x: "executeRpcCall (re_fetch E (length attempted)) (coalesce (pv_url (fst p)) []) q = (Inl e, ms)"
      by (cases o') (auto simp: try_steps(2))
    let ?s = "s\<lparr>rs_circuits := recordFailure (re_up E) (re_now E) chain ?i (rs_circuits s)\<rparr>"
    have rec: "try_providers E chain q ?ps (attempted @ [?i]) ?s = (Inl attempted', s')"
      using "1.prems"(1) try_steps(3) [OF Some x] by simp
    have "distinct (map (\<lambda>p. pv_id (fst p)) ?ps)" using "1.prems"(2) by (rule distinct_map_filter)
    from "1.IH" [OF Some refl x [symmetric] refl rec this] obtain l where l: "attempted' = (attempted @ [?i]) @ l" "distinct l"
      "set l = (\<lambda>p. pv_id (fst p)) ` set ?ps"
      "s' = ?s\<lparr>rs_circuits := foldl (\<lambda>r i. recordFailure (re_up E) (re_now E) chain i r) (rs_circuits ?s) l\<rparr>"
      "\<forall>p \<in> set ?ps. \<exists>n e ms. executeRpcCall (re_fetch E n) (coalesce (pv_url (fst p)) []) q = (Inl e, ms)" by blast
    have mem: "p \<in> set ps" using Some by (rule select_member)
    have "p' = p" if "p' \<in> set ps" "pv_id (fst p') = ?i" for p'
      using "1.prems"(2) mem that by (auto simp: distinct_map dest: inj_onD)
    then have "\<exists>n e ms. executeRpcCall (re_fetch E n) (coalesce (pv_url (fst p')) []) q = (Inl e, ms)" if "p' \<in> set ps" for p'
    proof (cases "pv_id (fst p') = ?i")
      case False
      with that have "p' \<in> set ?ps" by simp
      with l(5) show ?thesis by blast
    qed (use x that in blast)
    moreover have "set (?i # l) = (\<lambda>p. pv_id (fst p)) ` set ps" using l(3) mem by auto
    moreover have "distinct (?i # l)" using l(2,3) by auto
    ultimately show ?thesis using l(1,4) by (intro exI [of _ "?i # l"]) simp
  qed
qed

lemma bex_subset_mono: "A \<subseteq> B \<Longrightarrow> \<exists>x \<in> A. P x \<Longrightarrow> \<exists>x \<in> B. P x"
  by blast

lemma try_served:
  assumes "try_providers E chain q ps attempted s = (Inr v, s')"
  shows "\<exists>p \<in> set ps. \<exists>n. sv_provider v = pv_id (fst p) \<and>
    executeRpcCall (re_fetch E n) (coalesce (pv_url (fst p)) []) q = (Inr (sv_result v), sv_latency v)"
  using assms
proof (induction E chain q ps attempted s arbitrary: v s' rule: try_providers.induct)
  case (1 E chain q ps attempted s)
  from "1.prems" obtain p where p: "selectWeightedProvider (re_rand E (length attempted)) ps = Some p"
    by (cases "selectWeightedProvider (re_rand E (length attempted)) ps") (auto simp: try_steps(1))
  obtain o' ms where x: "executeRpcCall (re_fetch E (length attempted)) (coalesce (pv_url (fst p)) []) q = (o', ms)" by fastforce
  show ?case
  proof (cases o')
    case (Inl e)
    have "try_providers E chain q (filter (\<lambda>p'. pv_id (fst p') \<noteq> pv_id (fst p)) ps) (attempted @ [pv_id (fst p)])
        (s\<lparr>rs_circuits := recordFailure (re_up E) (re_now E) chain (pv_id (fst p)) (rs_circuits s)\<rparr>) = (Inr v, s')"
      using "1.prems" try_steps(3) [OF p, of q e ms] x Inl by simp
    from "1.IH" [OF p refl x [symmetric] Inl this]
    show ?thesis by (rule bex_subset_mono [rotated]) (rule filter_is_subset)
  next
    case (Inr r)
    with "1.prems" p x select_member [OF p] show ?thesis
      by (auto simp: try_steps(2) intro!: bexI [of _ p] exI [of _ "length attempted"])
  qed
qed

subsection \<open>Circuits of different providers\<close>

lemma circuit_key_inj: "getCircuitKey chain i = getCircuitKey chain j \<longleftrightarrow> i = j"
  by (simp add: getCircuitKey_def)

lemma get_set_other:
  "i \<noteq> j \<Longrightarrow> getCircuitState up' now' chain j (setCircuitState up now chain i c r) = getCircuitState up' now' chain j r"
  by (simp add: getCircuitState_def setCircuitState_def redis_get_def redis_set_ex_def circuit_key_inj)

lemma isOpen_other:
  "i \<noteq> j \<Longrightarrow> getCircuitState up' now' chain j (snd (isOpen up now chain i r)) = getCircuitState up' now' chain j r"
  by (simp add: isOpen_def Let_def get_set_other split: circuit_state.splits)

lemma isOpen_state:
  "getCircuitState up now chain i r = getCircuitState up now chain i r' \<Longrightarrow> fst (isOpen up now chain i r) = fst (isOpen up now chain i r')"
  by (simp add: isOpen_def Let_def split: circuit_state.splits)

lemma check_circuits_facts:
  assumes "distinct (map (\<lambda>p. pv_id (fst p)) ps)"
  shows "set (fst (check_circuits E chain ps r)) =
      {p \<in> set ps. \<not> fst (isOpen (re_up E) (re_now E) chain (pv_id (fst p)) r) \<or> re_slow E (pv_id (fst p))} \<and>
    distinct (map (\<lambda>p. pv_id (fst p)) (fst (check_circuits E chain ps r)))"
  using assms
proof (induction ps arbitrary: r)
  case (Cons p ps)
  obtain pr lat where [simp]: "p = (pr, lat)" by (cases p)
  obtain b r1 where o: "isOpen (re_up E) (re_now E) chain (pv_id (fst p)) r = (b, r1)" by fastforce
  have other: "getCircuitState up now chain i r1 = getCircuitState up now chain i r" if "i \<noteq> pv_id (fst p)" for i up now
    using isOpen_other [of "pv_id (fst p)" i up now chain "re_up E" "re_now E" r] that o by simp
  have same: "fst (isOpen (re_up E) (re_now E) chain (pv_id (fst p')) r1) = fst (isOpen (re_up E) (re_now E) chain (pv_id (fst p')) r)"
    if "p' \<in> set ps" for p'
  proof (rule isOpen_state, rule other)
    have "pv_id (fst p') \<in> (\<lambda>p. pv_id (fst p)) ` set ps" using that by (rule imageI)
    moreover have "pv_id (fst p) \<notin> (\<lambda>p. pv_id (fst p)) ` set ps" using Cons.prems by simp
    ultimately show "pv_id (fst p') \<noteq> pv_id (fst p)" by metis
  qed
  obtain rest r2 where c: "check_circuits E chain ps r1 = (rest, r2)" by fastforce
  have IH: "set rest = {p \<in> set ps. \<not> fst (isOpen (re_up E) (re_now E) chain (pv_id (fst p)) r1) \<or> re_slow E (pv_id (fst p))}"
    "distinct (map (\<lambda>p. pv_id (fst p)) rest)"
    using Cons.IH [of r1] Cons.prems c by auto
  then have "pv_id (fst p) \<notin> (\<lambda>p. pv_id (fst p)) ` set rest" using Cons.prems by auto
  moreover have "set rest = {p \<in> set ps. \<not> fst (isOpen (re_up E) (re_now E) chain (pv_id (fst p)) r) \<or> re_slow E (pv_id (fst p))}"
    unfolding IH(1) using same by blast
  moreover have "fst (isOpen (re_up E) (re_now E) chain (pv_id (fst p)) r) = b" using o by simp
  ultimately show ?case using IH(2) o c by auto
qed simp

lemma providers_config: "getProviders env chain \<noteq> [] \<Longrightarrow> \<exists>cfg. getChainConfig env chain = Some cfg"
  by (cases "getChainConfig env chain") (simp_all add: getProviders_def)

definition measured_providers :: "route_env \<Rightarrow> string \<Rightarrow> route_state \<Rightarrow> measured list" where
  "measured_providers E chain s =
     getProviderLatencies (re_up E \<and> re_mget E) (re_now E) chain (getProviders (re_config E) chain) (rs_latency s)"

lemma measured_ids: "map (\<lambda>p. pv_id (fst p)) (measured_providers E chain s) = map pv_id (getProviders (re_config E) chain)"
  and measured_fst: "fst ` set (measured_providers E chain s) = set (getProviders (re_config E) chain)"
  by (auto simp: measured_providers_def getProviderLatencies_def image_def)

lemma available_facts:
  assumes "available_providers E chain s = (av, s1)" and "getProviders (re_config E) chain \<noteq> []"
  shows "set av \<subseteq> set (measured_providers E chain s)"
    and "distinct (map (\<lambda>p. pv_id (fst p)) av)"
    and "p \<in> set (measured_providers E chain s) \<Longrightarrow>
      \<not> fst (isOpen (re_up E) (re_now E) chain (pv_id (fst p)) (rs_circuits s)) \<Longrightarrow> p \<in> set av"
proof -
  have ne: "measured_providers E chain s \<noteq> []"
    using assms(2) by (simp add: measured_providers_def getProviderLatencies_def)
  have d: "distinct (map (\<lambda>p. pv_id (fst p)) (measured_providers E chain s))" by (simp add: measured_ids distinct_ids)
  obtain a r where c: "check_circuits E chain (measured_providers E chain s) (rs_circuits s) = (a, r)" by fastforce
  have av: "av = (if a = [] then [hd (measured_providers E chain s)] else a)"
    using assms(1) c by (simp add: available_providers_def measured_providers_def Let_def split: if_splits)
  note f = check_circuits_facts [OF d, of E chain "rs_circuits s", unfolded c fst_conv]
  show "set av \<subseteq> set (measured_providers E chain s)" using f ne av by auto
  show "distinct (map (\<lambda>p. pv_id (fst p)) av)" using f av by simp
  show "p \<in> set av" if "p \<in> set (measured_providers E chain s)"
    "\<not> fst (isOpen (re_up E) (re_now E) chain (pv_id (fst p)) (rs_circuits s))"
  proof -
    have "p \<in> set a" using that f by blast
    with av show ?thesis by auto
  qed
qed

lemma node_phase_frame:
  "node_phase E chainId q opts n ex s = (v, s') \<Longrightarrow> rs_circuits s' = rs_circuits s \<and> rs_latency s' = rs_latency s \<and> rs_counts s' = rs_counts s"
  by (induction n arbitrary: ex s) (fastforce simp: Let_def split: option.splits sum.splits prod.splits)+

subsection \<open>A call that every provider rejects\<close>

text \<open>Every upstream answers with status 200 and an \<open>error\<close>: it rejects the call as such.\<close>

definition rejected :: "route_env \<Rightarrow> rpc_request \<Rightarrow> bool" where
  "rejected E q \<longleftrightarrow> (\<forall>n url. \<exists>kvs e ms. re_fetch E n url (rpc_payload q) = (Answer 200 (Some (JObj kvs)), ms) \<and>
     jget ''error'' (JObj kvs) = Some e \<and> json_truthy e)"

lemma rejected_fails: "rejected E q \<Longrightarrow> \<exists>e ms. executeRpcCall (re_fetch E n) url q = (Inl e, ms)"
  unfolding rejected_def by (drule spec [of _ n], drule spec [of _ url]) (auto simp: executeRpcCall_def http_ok_def or_json_def)

lemma rejected_route:
  assumes "rejected E q" "\<not> re_pool E" "getProviders (re_config E) chain \<noteq> []" "available_providers E chain s = (av, s2)"
  shows "\<exists>att l. routeRpcRequest E chain q opts s =
      (Inl (''All providers failed'', att),
       s2\<lparr>rs_circuits := foldl (\<lambda>r i. recordFailure (re_up E) (re_now E) chain i r) (rs_circuits s2) l\<rparr>) \<and>
    distinct l \<and> set l = (\<lambda>p. pv_id (fst p)) ` set av"
proof -
  obtain cfg where cfg: "getChainConfig (re_config E) chain = Some cfg" using providers_config [OF assms(3)] by blast
  obtain o' s3 where t: "try_providers E chain q av [] s2 = (o', s3)" by fastforce
  obtain l where o: "o' = Inl l"
  proof (cases o')
    case (Inr v)
    with t obtain p :: measured and n where "executeRpcCall (re_fetch E n) (coalesce (pv_url (fst p)) []) q = (Inr (sv_result v), sv_latency v)"
      using try_served [of E chain q av "[]" s2 v s3] by blast
    with rejected_fails [OF assms(1), of n "coalesce (pv_url (fst p)) []"] show ?thesis by auto
  qed blast
  then obtain l' where l': "l = l'" "distinct l'" "set l' = (\<lambda>p. pv_id (fst p)) ` set av"
    "s3 = s2\<lparr>rs_circuits := foldl (\<lambda>r i. recordFailure (re_up E) (re_now E) chain i r) (rs_circuits s2) l'\<rparr>"
    using try_failed [of E chain q av "[]" s2 l s3] t available_facts(2) [OF assms(4,3)] by auto
  have "\<exists>att. routeRpcRequest E chain q opts s = (Inl (''All providers failed'', att), s3)"
  proof (cases "map_of EMERGENCY_FALLBACKS (normalized chain)")
    case None
    with cfg assms t o show ?thesis by (simp add: routeRpcRequest_def)
  next
    case (Some url)
    obtain e ms where "executeRpcCall (re_fetch E (length l)) url q = (Inl e, ms)" using rejected_fails [OF assms(1)] by blast
    with Some cfg assms t o show ?thesis by (simp add: routeRpcRequest_def)
  qed
  with l' show ?thesis by blast
qed

lemma failures_fold:
  assumes "distinct l"
  shows "getCircuitState True now chain i (foldl (\<lambda>r i. recordFailure True now chain i r) r l) =
    (if i \<in> set l then after_failure now (getCircuitState True now chain i r) else getCircuitState True now chain i r)"
  using assms
proof (induction l arbitrary: r)
  case (Cons j l)
  then show ?case using get_set [of now now chain j _ r]
    by (cases "i = j") (simp_all add: recordFailure_def get_set_other)
qed simp

text \<open>The circuit after \<open>k\<close> failures at the same time.\<close>

definition failed_circuit :: "int \<Rightarrow> nat \<Rightarrow> circuit" where
  "failed_circuit now k = \<lparr>ci_state = (if FAILURE_THRESHOLD \<le> k then Open else Closed), failures = k,
     lastFailure = (if k = 0 then 0 else now), lastTest = 0\<rparr>"

lemma failed_circuit_step: "k < FAILURE_THRESHOLD \<Longrightarrow> after_failure now (failed_circuit now k) = failed_circuit now (k + 1)"
  by (simp add: after_failure_def failed_circuit_def)

lemma check_closed:
  "\<forall>p \<in> set ps. ci_state (getCircuitState (re_up E) (re_now E) chain (pv_id (fst p)) r) = Closed \<Longrightarrow> check_circuits E chain ps r = (ps, r)"
  by (induction ps) (simp_all add: isOpen_def Let_def)

lemma rejected_step:
  assumes "rejected E q" "\<not> re_pool E" "re_up E" "k < FAILURE_THRESHOLD"
    and "\<forall>p \<in> set (getProviders (re_config E) chain). getCircuitState True (re_now E) chain (pv_id p) (rs_circuits s) = failed_circuit (re_now E) k"
  shows "\<forall>p \<in> set (getProviders (re_config E) chain).
    getCircuitState True (re_now E) chain (pv_id p) (rs_circuits (snd (routeRpcRequest E chain q opts s))) = failed_circuit (re_now E) (k + 1)"
proof
  fix p
  assume p: "p \<in> set (getProviders (re_config E) chain)"
  then have ne: "getProviders (re_config E) chain \<noteq> []" by auto
  have "\<forall>p \<in> fst ` set (measured_providers E chain s). ci_state (getCircuitState (re_up E) (re_now E) chain (pv_id p) (rs_circuits s)) = Closed"
    unfolding measured_fst using assms(3-5) by (simp add: failed_circuit_def)
  then have "check_circuits E chain (measured_providers E chain s) (rs_circuits s) = (measured_providers E chain s, rs_circuits s)"
    by (intro check_closed) blast
  moreover have "measured_providers E chain s \<noteq> []" using ne by (simp add: measured_providers_def getProviderLatencies_def)
  ultimately have "available_providers E chain s = (measured_providers E chain s, s)"
    by (simp add: available_providers_def Let_def flip: measured_providers_def)
  from rejected_route [OF assms(1,2) ne this, of opts] obtain l where l: "distinct l"
    "set l = (\<lambda>p. pv_id (fst p)) ` set (measured_providers E chain s)"
    "rs_circuits (snd (routeRpcRequest E chain q opts s)) = foldl (\<lambda>r i. recordFailure True (re_now E) chain i r) (rs_circuits s) l"
    using assms(3) by auto
  have "pv_id p \<in> pv_id ` fst ` set (measured_providers E chain s)" using p by (simp add: measured_fst)
  then have "pv_id p \<in> set l" using l(2) by (simp add: image_image)
  with l failures_fold [OF l(1)] assms(4,5) p
  show "getCircuitState True (re_now E) chain (pv_id p) (rs_circuits (snd (routeRpcRequest E chain q opts s))) = failed_circuit (re_now E) (k + 1)"
    by (simp add: failed_circuit_step)
qed

lemma rejected_steps:
  assumes "rejected E q" "\<not> re_pool E" "re_up E" "k \<le> FAILURE_THRESHOLD" "rs_circuits s = []"
  shows "\<forall>p \<in> set (getProviders (re_config E) chain).
    getCircuitState True (re_now E) chain (pv_id p) (rs_circuits (((\<lambda>s. snd (routeRpcRequest E chain q opts s)) ^^ k) s)) =
      failed_circuit (re_now E) k"
  using assms(4)
proof (induction k)
  case 0
  show ?case using assms(5)
    by (simp add: getCircuitState_def redis_get_def closed_circuit_def failed_circuit_def FAILURE_THRESHOLD_def)
next
  case (Suc k)
  then show ?case
    using rejected_step [OF assms(1-3), of k chain "((\<lambda>s. snd (routeRpcRequest E chain q opts s)) ^^ k) s" opts] by simp
qed

section \<open>Properties\<close>

text \<open>
  C32: an RPC call is served whenever it can be: on a supported chain, if one provider whose circuit is not open
  answers the call whenever it is asked, the request succeeds, whatever nodes are tried first and fail, whichever providers the
  random choice takes before, and with Redis there or not.\<close>

theorem route_serves_if_any:
  assumes "p \<in> set (getProviders (re_config E) chain)"
    and "\<not> fst (isOpen (re_up E) (re_now E) chain (pv_id p) (rs_circuits s))"
    and "\<forall>n. \<exists>r ms. executeRpcCall (re_fetch E n) (coalesce (pv_url p) []) q = (Inr r, ms)"
  shows "\<exists>v s'. routeRpcRequest E chain q opts s = (Inr v, s')"
proof -
  have ne: "getProviders (re_config E) chain \<noteq> []" using assms(1) by auto
  obtain cfg where cfg: "getChainConfig (re_config E) chain = Some cfg" using providers_config [OF ne] by blast
  obtain v s1 where n: "(if re_pool E then node_phase E (cc_chainId cfg) q opts 2 [] s else (None, s)) = (v, s1)" by fastforce
  show ?thesis
  proof (cases v)
    case (Some w)
    with cfg n show ?thesis by (simp add: routeRpcRequest_def)
  next
    case None
    have s1: "rs_circuits s1 = rs_circuits s" "rs_latency s1 = rs_latency s"
      using n node_phase_frame [of E "cc_chainId cfg" q opts 2 "[]" s v s1] by (auto split: if_splits)
    obtain av s2 where av: "available_providers E chain s1 = (av, s2)" by fastforce
    obtain lat where m: "(p, lat) \<in> set (measured_providers E chain s1)"
      using assms(1) measured_fst [of E chain s1] by force
    have "(p, lat) \<in> set av" using available_facts(3) [OF av ne m] assms(2) s1 by simp
    moreover obtain o' s3 where t: "try_providers E chain q av [] s2 = (o', s3)" by fastforce
    ultimately obtain w where "o' = Inr w"
    proof (cases o')
      case (Inl l)
      then obtain n e ms where "executeRpcCall (re_fetch E n) (coalesce (pv_url p) []) q = (Inl e, ms)"
        using try_failed [of E chain q av "[]" s2 l s3] t available_facts(2) [OF av ne] \<open>(p, lat) \<in> set av\<close> by force
      with assms(3) show ?thesis by (metis Inl_Inr_False prod.inject)
    qed blast
    with cfg n None ne av t show ?thesis by (simp add: routeRpcRequest_def)
  qed
qed

text \<open>
  Giving up is the last resort and ends after finitely many calls: when a supported chain with providers fails,
  every provider whose circuit is not open was called exactly once and failed, the emergency endpoint of the chain, if it has
  one, was called once after them, and no other provider than those of the chain was called.\<close>

theorem route_failure_exhaustive:
  assumes "routeRpcRequest E chain q opts s = (Inl (err, attempted), s')" and "getProviders (re_config E) chain \<noteq> []"
  shows "\<exists>tried. attempted = tried @ (if map_of EMERGENCY_FALLBACKS (normalized chain) = None then [] else [''emergency-fallback'']) \<and>
    distinct tried \<and> set tried \<subseteq> pv_id ` set (getProviders (re_config E) chain) \<and> length tried \<le> length (getProviders (re_config E) chain) \<and>
    (\<forall>p \<in> set (getProviders (re_config E) chain). \<not> fst (isOpen (re_up E) (re_now E) chain (pv_id p) (rs_circuits s)) \<longrightarrow>
      pv_id p \<in> set tried \<and> (\<exists>n e ms. executeRpcCall (re_fetch E n) (coalesce (pv_url p) []) q = (Inl e, ms)))"
proof -
  obtain cfg where cfg: "getChainConfig (re_config E) chain = Some cfg" using providers_config [OF assms(2)] by blast
  obtain v s1 where n: "(if re_pool E then node_phase E (cc_chainId cfg) q opts 2 [] s else (None, s)) = (v, s1)" by fastforce
  obtain av s2 where av: "available_providers E chain s1 = (av, s2)" by fastforce
  have v: "v = None" using assms cfg n by (cases v) (auto simp: routeRpcRequest_def)
  have s1: "rs_circuits s1 = rs_circuits s" "rs_latency s1 = rs_latency s"
    using n node_phase_frame [of E "cc_chainId cfg" q opts 2 "[]" s v s1] by (auto split: if_splits)
  obtain o' s3 where t: "try_providers E chain q av [] s2 = (o', s3)" by fastforce
  obtain tried where o: "o' = Inl tried" using assms cfg n v av t by (cases o') (auto simp: routeRpcRequest_def)
  have att: "attempted = tried @ (if map_of EMERGENCY_FALLBACKS (normalized chain) = None then [] else [''emergency-fallback''])"
    using assms cfg n v av t o by (auto simp: routeRpcRequest_def split: option.splits prod.splits sum.splits)
  have l: "distinct tried" "set tried = (\<lambda>p. pv_id (fst p)) ` set av"
    and fails: "\<forall>p \<in> set av. \<exists>n e ms. executeRpcCall (re_fetch E n) (coalesce (pv_url (fst p)) []) q = (Inl e, ms)"
    using try_failed [of E chain q av "[]" s2 tried s3] t o available_facts(2) [OF av assms(2)] by auto
  have sub: "set tried \<subseteq> pv_id ` set (getProviders (re_config E) chain)"
  proof -
    have "set tried \<subseteq> (\<lambda>p. pv_id (fst p)) ` set (measured_providers E chain s1)"
      unfolding l(2) by (rule image_mono [OF available_facts(1) [OF av assms(2)]])
    also have "\<dots> = pv_id ` fst ` set (measured_providers E chain s1)" by (simp only: image_image)
    finally show ?thesis by (simp only: measured_fst)
  qed
  have len: "length tried \<le> length (getProviders (re_config E) chain)"
    using card_mono [OF _ sub] l(1) card_image_le [of "set (getProviders (re_config E) chain)" pv_id]
      card_length [of "getProviders (re_config E) chain"] by (simp add: distinct_card)
  have each: "pv_id p \<in> set tried \<and> (\<exists>n e ms. executeRpcCall (re_fetch E n) (coalesce (pv_url p) []) q = (Inl e, ms))"
    if "p \<in> set (getProviders (re_config E) chain)" "\<not> fst (isOpen (re_up E) (re_now E) chain (pv_id p) (rs_circuits s))" for p
  proof -
    have "p \<in> fst ` set (measured_providers E chain s1)" using that(1) by (simp only: measured_fst)
    then obtain lat where m: "(p, lat) \<in> set (measured_providers E chain s1)" by force
    have "(p, lat) \<in> set av" using available_facts(3) [OF av assms(2) m] that(2) s1 by simp
    with l(2) fails show ?thesis by (metis fst_conv imageI)
  qed
  show ?thesis by (rule exI [of _ tried]) (use att l(1) sub len each in simp)
qed

text \<open>Inputs for the witnesses: Base with no configuration, every upstream answering \<open>b\<close> with status 200.\<close>

definition sample_route :: "json \<Rightarrow> route_env" where
  "sample_route b = \<lparr>re_config = (\<lambda>_. None), re_now = 1000, re_up = True, re_mget = True, re_slow = (\<lambda>_. False), re_pool = False,
     re_db = True, re_rand = (\<lambda>_. 0), re_nodeRand = (\<lambda>_. 0), re_fetch = (\<lambda>_ _ _. (Answer 200 (Some b), 40)),
     re_nodeFetch = (\<lambda>_ _ _. (Answer 200 (Some b), 40))\<rparr>"

definition no_state :: route_state where
  "no_state = \<lparr>rs_circuits = [], rs_latency = [], rs_counts = [], rs_nodes = [], rs_revenue = []\<rparr>"

definition sample_call :: rpc_request where
  "sample_call = \<lparr>rq_method' = ''eth_call'', rq_params' = None, rq_id' = None\<rparr>"

definition no_options :: route_options where
  "no_options = \<lparr>op_apiKey = None, op_requestId = None, op_billedUsdt = None\<rparr>"

definition revert :: json where
  "revert = JObj [(''error'', JObj [(''message'', JStr ''execution reverted'')])]"

lemma sample_answers:
  "executeRpcCall (re_fetch (sample_route revert) n) url sample_call = (Inl ''execution reverted'', 40)"
  "executeRpcCall (re_fetch (sample_route (JObj [(''result'', JStr ''0x1'')])) n) url sample_call = (Inr (JObj [(''result'', JStr ''0x1'')]), 40)"
  by (simp_all add: executeRpcCall_def sample_route_def http_ok_def revert_def or_json_def)

lemma sample_closed: "\<not> fst (isOpen up now chain i (rs_circuits no_state))"
  by (simp add: isOpen_def no_state_def getCircuitState_def redis_get_def closed_circuit_def coalesce_def Let_def)

lemma sample_providers: "getProviders (re_config (sample_route b)) ''base'' \<noteq> []"
  by (simp add: sample_route_def getProviders_def getChainConfig_def normalized_def CHAIN_ALIASES_def PROVIDER_CONFIGS_def base_def
      or_url_def ankr_url_def ANKR_VALID_def truthy_def coalesce_def)

theorem route_serves_if_any_witness:
  "\<exists>v s'. routeRpcRequest (sample_route (JObj [(''result'', JStr ''0x1'')])) ''base'' sample_call no_options no_state = (Inr v, s')"
  by (rule route_serves_if_any [OF list.set_sel(1) [OF sample_providers] sample_closed]) (simp add: sample_answers)

lemma sample_rejected: "rejected (sample_route revert) sample_call"
  by (simp add: rejected_def sample_route_def revert_def)

theorem route_failure_exhaustive_witness:
  "\<exists>att s'. routeRpcRequest (sample_route revert) ''base'' sample_call no_options no_state = (Inl (''All providers failed'', att), s') \<and>
     length att \<le> length (getProviders (\<lambda>_. None) ''base'') + 1"
proof -
  have np: "\<not> re_pool (sample_route revert)" by (simp add: sample_route_def)
  obtain av s2 where "available_providers (sample_route revert) ''base'' no_state = (av, s2)" by fastforce
  from rejected_route [OF sample_rejected np sample_providers this, of no_options] obtain att s'
    where r: "routeRpcRequest (sample_route revert) ''base'' sample_call no_options no_state = (Inl (''All providers failed'', att), s')" by blast
  have "length att \<le> length (getProviders (re_config (sample_route revert)) ''base'') + 1"
    using route_failure_exhaustive [OF r sample_providers] by (elim exE conjE) (simp split: if_splits)
  with r show ?thesis by (auto simp: sample_route_def)
qed

text \<open>
  One client's bad calls take a chain's providers away from everyone. The providers reject a call as such, with
  status 200 and a JSON-RPC error (a reverted \<open>eth_call\<close>, an unknown method); the router counts that as a failure of each
  provider, and after five such calls every provider of the chain is skipped.\<close>

theorem rejected_calls_open_circuits:
  assumes "rejected E q" and "\<not> re_pool E" and "re_up E" and "rs_circuits s = []" and "p \<in> set (getProviders (re_config E) chain)"
  shows "fst (isOpen True (re_now E) chain (pv_id p) (rs_circuits (((\<lambda>s. snd (routeRpcRequest E chain q opts s)) ^^ 5) s)))"
  using rejected_steps [OF assms(1-3) order_refl assms(4), of chain opts] assms(5)
  by (simp add: isOpen_def Let_def failed_circuit_def FAILURE_THRESHOLD_def RESET_TIMEOUT_MS_def)

theorem rejected_calls_open_circuits_witness:
  "fst (isOpen True (re_now (sample_route revert)) ''base'' (pv_id (hd (getProviders (re_config (sample_route revert)) ''base'')))
     (rs_circuits (((\<lambda>s. snd (routeRpcRequest (sample_route revert) ''base'' sample_call no_options s)) ^^ 5) no_state)))"
  by (rule rejected_calls_open_circuits [OF sample_rejected _ _ _ list.set_sel(1) [OF sample_providers]])
    (simp_all add: sample_route_def no_state_def)

text \<open>
  Above a tenth of a second the latency of a provider does not matter: for every provider of the table whose measured
  latency is 100 ms or more, or which has none, the weight is the least one, 1, so that the weighted choice among such providers
  is a uniform one.\<close>

theorem weights_flat:
  assumes "getChainConfig env chain = Some c" and "p \<in> set (cc_providers c)" and "lat = None \<or> (\<exists>x \<ge> 100. lat = Some x)"
  shows "calculateWeight (p, lat) = MIN_WEIGHT"
proof -
  have rl: "pv_rateLimit p \<le> 300" using assms(1,2)
    by (auto simp: getChainConfig_def PROVIDER_CONFIGS_def chain_defs Let_def split: if_splits)
  define latency where "latency = (if lat = None \<or> lat = Some 0 then DEFAULT_LATENCY else the lat)"
  have "100 \<le> latency" using assms(3) by (auto simp: latency_def DEFAULT_LATENCY_def)
  then have "of_rat 100 \<le> (of_rat latency :: real)" by (simp only: of_rat_less_eq)
  then have sq: "10 \<le> sqrt (of_rat latency)" by (intro real_le_rsqrt) simp
  define n where "n = (if pv_rateLimit p = 0 then 100 else pv_rateLimit p)"
  have n: "0 < n" "n \<le> 300" using rl by (simp_all add: n_def)
  have "2 * log 10 (real n + 1) = log 10 ((real n + 1) ^ 2)" using n by (simp add: log_nat_power)
  also have "\<dots> \<le> log 10 (10 ^ 5)"
  proof (rule log_mono)
    have "(real n + 1) ^ 2 \<le> 301 ^ 2" using n by (intro power_mono) simp_all
    then show "(real n + 1) ^ 2 \<le> 10 ^ 5" by simp
  qed (use n in simp_all)
  also have "\<dots> = 5" by (subst log_nat_power) simp_all
  finally have lg: "log 10 (real n + 1) \<le> 5 / 2" by simp
  have lg0: "0 \<le> log 10 (real n + 1)" using n by simp
  define b where "b = 1 + (10 - real (min (if pv_priority p = 0 then 1 else pv_priority p) 10)) / 10"
  have b: "0 \<le> b" "b \<le> 19 / 10" by (auto simp: b_def min_def)
  have "1 / sqrt (of_rat latency) * log 10 (real n + 1) * b \<le> 1 / 10 * (5 / 2) * (19 / 10)"
  proof (intro mult_mono)
    show "1 / sqrt (of_rat latency) \<le> 1 / 10" using sq by (intro frac_le) simp_all
  qed (use lg lg0 b sq in \<open>simp_all add: field_simps\<close>)
  then have "1 / sqrt (of_rat latency) * log 10 (real n + 1) * b + 1 / 2 < 1" by linarith
  then have "\<lfloor>1 / sqrt (of_rat latency) * log 10 (real n + 1) * b + 1 / 2\<rfloor> \<le> 0" by linarith
  then show ?thesis
    unfolding calculateWeight_def Let_def fst_conv snd_conv latency_def [symmetric] n_def [symmetric] b_def [symmetric]
    by (simp add: MIN_WEIGHT_def MAX_WEIGHT_def)
qed

theorem weights_flat_witness:
  "calculateWeight (hd (cc_providers (base (\<lambda>_. None))), Some 250) = MIN_WEIGHT"
  by (rule weights_flat [of "\<lambda>_. None" "''base''" "base (\<lambda>_. None)"])
    (simp_all add: getChainConfig_def normalized_def CHAIN_ALIASES_def PROVIDER_CONFIGS_def base_def coalesce_def)

end
