(* ===== verification/Rpc_Gateway.thy ===== *)
theory Rpc_Gateway
  imports Capacity Rpc_Router
begin

text \<open>
  The public RPC endpoint \<^verbatim>\<open>POST /rpc/:chain\<close>: \<^verbatim>\<open>workloads/rpc_gateway/rpc_gateway.js\<close> with the prepaid gate
  \<^verbatim>\<open>middleware/credit_gate.js\<close> in front of it and the revenue rows of \<^verbatim>\<open>rpc_billing.js\<close>. It composes the rate
  limiter, the cache, the router and the capacity layer. A request is authorized, served and then
  charged. Between the preflight and the charge other requests may change the billing tables: what they
  do to them is an argument. Response headers and the prose of the payment instructions are left out.
\<close>

section \<open>Revenue rows\<close>

record revenue_event =
  ev_opType :: string
  ev_client :: string
  ev_amount :: rat
  ev_requestId :: string
  ev_createdAt :: int
  ev_chain :: "string option"
  ev_method :: "string option"
  ev_source :: "string option"
  ev_isTest :: bool

record revenue =
  rv_events :: "revenue_event list"
  rv_dedup :: "unit redis"
  rv_requests :: "(int, nat) jsmap"
  rv_revenue :: "(int, rat) jsmap"

definition FOUNDER_WALLETS :: "string list" where
  "FOUNDER_WALLETS = [''0x5cbda3a1c0f1b28fecea1d919785321e88f9fa97'', ''0x966e1ae22996545015b1414b35234b10719d7ad4'',
     ''0x175727a8486a7eb3ac4bcf2a1a89fd2d58ca0dfd'', ''0x55691946766f4666c786ea8ee2bea176ecc3a841'']"

definition isFounderWallet :: "string option \<Rightarrow> bool" where
  "isFounderWallet address = (case address of None \<Rightarrow> False | Some a \<Rightarrow> map lower a \<in> set FOUNDER_WALLETS)"

text \<open>\<open>ok\<close>: the query succeeds.\<close>

definition isFounderApiKey :: "bool \<Rightarrow> string option \<Rightarrow> billing \<Rightarrow> bool" where
  "isFounderApiKey ok apiKey b =
     (if \<not> truthy apiKey \<or> apiKey = Some ''public'' \<or> apiKey = Some ''anonymous'' then True
      else ok \<and> (case map_of (bi_accounts b) (the apiKey) of None \<Rightarrow> False | Some a \<Rightarrow> isFounderWallet (ac_wallet a)))"

text \<open>\<open>s.split(k).join(r)\<close> for a nonempty \<open>k\<close>.\<close>

function replace_all :: "string \<Rightarrow> string \<Rightarrow> string \<Rightarrow> string" where
  "replace_all k r [] = []"
| "replace_all k r (c # s) =
     (if k \<noteq> [] \<and> take (length k) (c # s) = k then r @ replace_all k r (drop (length k) (c # s)) else c # replace_all k r s)"
  by pat_completeness auto
termination by (relation "measure (\<lambda>(k, r, s). length s)") auto

declare replace_all.simps(2) [simp del]

text \<open>Why nothing was recorded, or the row. \<open>up\<close>: Redis answers; \<open>db\<close>: the insertion succeeds.\<close>

datatype recorded = NoDeduction | Duplicate | NotInserted | Recorded revenue_event

definition clean_request_id :: "(string \<Rightarrow> string) \<Rightarrow> string option \<Rightarrow> string \<Rightarrow> string" where
  "clean_request_id sha apiKey requestId =
     (if truthy apiKey then replace_all (the apiKey) (keyRef sha (the apiKey)) requestId else requestId)"

definition recordRpcRevenue ::
  "(string \<Rightarrow> string) \<Rightarrow> bool \<Rightarrow> bool \<Rightarrow> int \<Rightarrow> string \<Rightarrow> string \<Rightarrow> string option \<Rightarrow> string \<Rightarrow> string \<Rightarrow> rat \<Rightarrow> billing \<Rightarrow> revenue \<Rightarrow>
   recorded \<times> revenue" where
  "recordRpcRevenue sha up db now chain m apiKey source rawRequestId amountUsdt b v =
     (let requestId = clean_request_id sha apiKey rawRequestId; today = getDateKey now; key = ''billing:dedup:'' @ requestId in
      if amountUsdt \<le> 0 then (NoDeduction, v)
      else if up \<and> requestId \<noteq> [] \<and> redis_get now key (rv_dedup v) \<noteq> None then (Duplicate, v)
      else
        let v = (if up then
                   v\<lparr>rv_dedup := (if requestId \<noteq> [] then redis_set_ex now key () 60 (rv_dedup v) else rv_dedup v),
                     rv_requests := mset_key today (coalesce (map_of (rv_requests v) today) 0 + 1) (rv_requests v),
                     rv_revenue := mset_key today (coalesce (map_of (rv_revenue v) today) 0 + amountUsdt) (rv_revenue v)\<rparr>
                 else v);
            e = \<lparr>ev_opType = ''rpc_call'', ev_client = or_str apiKey ''public'', ev_amount = amountUsdt,
                 ev_requestId = (if requestId = [] then int_to_string now else requestId), ev_createdAt = now div 1000,
                 ev_chain = or_null (Some chain), ev_method = or_null (Some m), ev_source = or_null (Some source),
                 ev_isTest = isFounderApiKey db apiKey b\<rparr>
        in if db then (Recorded e, v\<lparr>rv_events := rv_events v @ [e]\<rparr>) else (NotInserted, v))"

section \<open>The prepaid gate\<close>

text \<open>A row of \<open>credit_balances\<close>, with the address as it was stored.\<close>

record credit_row =
  cb_wallet :: string
  cb_balance :: rat
  cb_spent :: rat

record gate_state =
  ga_rows :: "credit_row list"
  ga_pricing :: "((string, rat) jsmap \<times> int) option"

text \<open>\<open>ge_prices\<close>: the active rows of the price table, \<open>None\<close> if the query fails; \<open>ge_account\<close>, \<open>ge_update\<close>, \<open>ge_balance\<close>: the
  others succeed.\<close>

record gate_env =
  ge_canonical :: bool
  ge_now :: int
  ge_prices :: "(string, rat) jsmap option"
  ge_account :: bool
  ge_update :: bool
  ge_balance :: bool

datatype gate_outcome = Next "(rat \<times> string) option" | Stop nat string

definition DEFAULT_COST_USDT :: rat where "DEFAULT_COST_USDT = 3 / 100000"

definition getPricing :: "gate_env \<Rightarrow> gate_state \<Rightarrow> (string, rat) jsmap \<times> gate_state" where
  "getPricing ge g =
     (case ga_pricing g of
        Some (p, till) \<Rightarrow>
          if ge_now ge < till then (p, g)
          else (case ge_prices ge of None \<Rightarrow> ([], g) | Some q \<Rightarrow> (q, g\<lparr>ga_pricing := Some (q, ge_now ge + 300000)\<rparr>))
      | None \<Rightarrow> (case ge_prices ge of None \<Rightarrow> ([], g) | Some q \<Rightarrow> (q, g\<lparr>ga_pricing := Some (q, ge_now ge + 300000)\<rparr>)))"

text \<open>\<open>None\<close>: the name is a member that every object inherits, and what the lookup gives is no number.\<close>

definition getCost :: "gate_env \<Rightarrow> string \<Rightarrow> gate_state \<Rightarrow> rat option \<times> gate_state" where
  "getCost ge m g =
     (let (p, g) = getPricing ge g in
      (case map_of p m of Some c \<Rightarrow> Some c | None \<Rightarrow> if m \<in> set object_prototype then None else Some DEFAULT_COST_USDT, g))"

definition pays :: "rat \<Rightarrow> string \<Rightarrow> credit_row \<Rightarrow> bool" where
  "pays cost wallet r \<longleftrightarrow> map lower (cb_wallet r) = wallet \<and> cb_balance r \<ge> cost"

definition credit_update :: "rat \<Rightarrow> string \<Rightarrow> credit_row list \<Rightarrow> credit_row list" where
  "credit_update cost wallet rows =
     map (\<lambda>r. if pays cost wallet r then r\<lparr>cb_balance := cb_balance r - cost, cb_spent := cb_spent r + cost\<rparr> else r) rows"

text \<open>The method that the gate prices: \<open>req.body?.method || 'eth_call'\<close>.\<close>

definition gate_method :: "json option \<Rightarrow> string" where
  "gate_method payload =
     (case payload of None \<Rightarrow> ''eth_call'' | Some j \<Rightarrow> (case or_json (jget ''method'' j) None of None \<Rightarrow> ''eth_call'' | Some m \<Rightarrow> js_string m))"

text \<open>\<open>Next (Some (cost, wallet))\<close>: deducted. A statement that fails, or one given a price that is no number, lets the request through.\<close>

definition creditGate ::
  "gate_env \<Rightarrow> string option \<Rightarrow> string option \<Rightarrow> json option \<Rightarrow> billing \<Rightarrow> gate_state \<Rightarrow> gate_outcome \<times> gate_state" where
  "creditGate ge apiKey rawWallet payload b g =
     (if ge_canonical ge then (Next None, g)
      else if \<not> truthy rawWallet \<and> \<not> truthy apiKey then (Next None, g)
      else if \<not> truthy apiKey then (Stop 401 ''wallet_header_insufficient'', g)
      else if \<not> ge_account ge then (Next None, g)
      else
        (case map_of (bi_accounts b) (the apiKey) of
           None \<Rightarrow> (Stop 401 ''api_key_not_wallet_bound'', g)
         | Some a \<Rightarrow>
             if \<not> truthy (ac_wallet a) then (Stop 401 ''api_key_not_wallet_bound'', g)
             else let wallet = map lower (the (ac_wallet a)); (cost, g) = getCost ge (gate_method payload) g in
               (case cost of
                  None \<Rightarrow> (Next None, g)
                | Some c \<Rightarrow>
                    if \<not> ge_update ge then (Next None, g)
                    else if \<exists>r \<in> set (ga_rows g). pays c wallet r
                    then (Next (Some (c, wallet)), g\<lparr>ga_rows := credit_update c wallet (ga_rows g)\<rparr>)
                    else if ge_balance ge then (Stop 402 ''Insufficient credits'', g) else (Next None, g))))"

section \<open>The endpoint\<close>

text \<open>\<open>gq_settled\<close> and \<open>gq_payer\<close>: what the x402 middleware has verified. \<open>gq_body\<close>: the parsed body.\<close>

record gateway_request =
  gq_chain :: string
  gq_apiKey :: "string option"
  gq_wallet :: "string option"
  gq_forwardedFor :: "string option"
  gq_realIp :: "string option"
  gq_remote :: "string option"
  gq_settled :: bool
  gq_payer :: "string option"
  gq_body :: "json option"

text \<open>\<open>gs_denials\<close>: the rows of \<open>x402_key_denials\<close>: account, code, balance.\<close>

record gateway =
  gs_gate :: gate_state
  gs_capacity :: capacity
  gs_limiter :: limiter
  gs_cache :: rpc_cache
  gs_route :: route_state
  gs_revenue :: revenue
  gs_denials :: "(string \<times> string \<times> rat) list"

text \<open>\<open>gw_pre\<close> and \<open>gw_post\<close> are the database as the preflight and the charge find it, each with the path the flag then has;
  \<open>gw_meanwhile\<close> is what others do to the tables in between.\<close>

record gateway_env =
  gw_sha :: "string \<Rightarrow> string"
  gw_gate :: gate_env
  gw_anonymous :: bool
  gw_pre :: capacity_env
  gw_prePath :: capacity_path
  gw_meanwhile :: "capacity \<Rightarrow> capacity"
  gw_post :: capacity_env
  gw_postPath :: capacity_path
  gw_now :: int
  gw_up :: bool
  gw_readable :: bool
  gw_rateTimeout :: bool
  gw_cacheTimeout :: bool
  gw_db :: bool
  gw_route :: route_env
  gw_uuid :: string

text \<open>The replies. \<open>DenialBody id verdict payment upgrade\<close> has the deposit block and the steps if the flags say so.\<close>

datatype reply_body =
    ErrorBody string
  | BatchBody
  | InvalidBody json
  | PaymentBody
  | DenialBody json denied bool bool
  | RateLimitBody
  | DataBody json
  | UpstreamBody string bool

record reply =
  rp_status :: nat
  rp_body :: reply_body

definition reply_of :: "nat \<Rightarrow> reply_body \<Rightarrow> reply" where
  "reply_of st b = \<lparr>rp_status = st, rp_body = b\<rparr>"

definition getClientIp :: "gateway_request \<Rightarrow> string" where
  "getClientIp q =
     or_str (map_option (\<lambda>h. trim (takeWhile (\<lambda>c. c \<noteq> CHR '','') h)) (gq_forwardedFor q))
       (or_str (gq_realIp q) (or_str (gq_remote q) ''unknown''))"

definition SUPPORTED_CHAINS :: "environment \<Rightarrow> string list" where
  "SUPPORTED_CHAINS env = getSupportedChains env @ map fst CHAIN_ALIASES"

definition walletForBilling :: "gateway_request \<Rightarrow> string option" where
  "walletForBilling q = (if gq_settled q then or_null (gq_payer q) else None)"

definition metered :: "gateway_env \<Rightarrow> gateway_request \<Rightarrow> bool" where
  "metered w q \<longleftrightarrow> ge_canonical (gw_gate w) \<and> (truthy (gq_apiKey q) \<or> walletForBilling q \<noteq> None)"

definition request_id :: "gateway_env \<Rightarrow> string" where
  "request_id w = ''rpc_'' @ gw_uuid w"

definition body_id :: "json option \<Rightarrow> json" where
  "body_id payload = (case payload of None \<Rightarrow> JNull | Some j \<Rightarrow> coalesce (jget ''id'' j) JNull)"

subsection \<open>Checks of the request\<close>

definition body_refused :: "json option \<Rightarrow> reply option" where
  "body_refused payload =
     (case payload of
        Some (JArr xs) \<Rightarrow> Some (reply_of 400 BatchBody)
      | Some j \<Rightarrow>
          (case or_json (jget ''method'' j) None of
             None \<Rightarrow> Some (reply_of 400 (InvalidBody (body_id payload)))
           | Some m \<Rightarrow>
               if jget ''jsonrpc'' j \<noteq> Some (JStr ''2.0'') then Some (reply_of 400 (InvalidBody (body_id payload)))
               else (case m of JStr t \<Rightarrow> None | _ \<Rightarrow> Some (reply_of 400 (ErrorBody ''Invalid JSON-RPC method''))))
      | None \<Rightarrow> Some (reply_of 400 (InvalidBody JNull)))"

definition request_refused :: "gateway_env \<Rightarrow> gateway_request \<Rightarrow> reply option" where
  "request_refused w q =
     (if truthy (gq_wallet q) \<and> \<not> truthy (gq_apiKey q) \<and> \<not> gq_settled q
      then Some (reply_of 401 (ErrorBody ''wallet_header_insufficient''))
      else if \<not> truthy (gq_apiKey q) \<and> \<not> gq_settled q \<and> \<not> gw_anonymous w then Some (reply_of 402 PaymentBody)
      else if gq_chain q \<notin> set (SUPPORTED_CHAINS (re_config (gw_route w)))
      then Some (reply_of 400 (ErrorBody (''Unsupported chain: '' @ gq_chain q)))
      else body_refused (gq_body q))"

subsection \<open>Billing\<close>

definition recordSessionKeyDenial :: "(string \<Rightarrow> string) \<Rightarrow> string option \<Rightarrow> string \<Rightarrow> gateway \<Rightarrow> gateway" where
  "recordSessionKeyDenial sha apiKey code s =
     (case apiKey of
        None \<Rightarrow> s
      | Some k \<Rightarrow>
          (case resolveSessionKey sha k (cp_billing (gs_capacity s)) of
             None \<Rightarrow> s
           | Some (acct, payer) \<Rightarrow>
               (case map_of (bi_accounts (cp_billing (gs_capacity s))) acct of
                  None \<Rightarrow> s
                | Some a \<Rightarrow> s\<lparr>gs_denials := gs_denials s @ [(acct, take 64 (or_str (Some code) ''unknown''), ac_credits a)]\<rparr>)))"

definition sendBillingDenial :: "gateway_env \<Rightarrow> gateway_request \<Rightarrow> denied \<Rightarrow> gateway \<Rightarrow> reply \<times> gateway" where
  "sendBillingDenial w q d s =
     (let s' = (if de_http d = 402 \<or> de_code d = ''account_not_found''
                then recordSessionKeyDenial (gw_sha w) (gq_apiKey q) (de_code d) s else s);
          pay = (\<not> de_terminal d \<and> (de_http d = 402 \<or> de_code d = ''daily_limit_exceeded''))
      in (if de_code d = ''account_not_found'' then reply_of 402 PaymentBody
          else reply_of (if de_http d = 0 then 402 else de_http d)
                 (DenialBody (body_id (gq_body q)) d pay (pay \<and> de_code d = ''daily_limit_exceeded'')), s'))"

text \<open>The message has a dash that is written as a hyphen here.\<close>

definition capacity_check_failed :: denied where
  "capacity_check_failed = deny_of ''capacity_check_failed'' 503 ''Capacity check unavailable - try again shortly''"

text \<open>\<open>Inl\<close>: refused, the reply is sent; \<open>Inr\<close>: the amount billed.\<close>

definition chargeServedCall :: "gateway_env \<Rightarrow> gateway_request \<Rightarrow> gateway \<Rightarrow> (reply + rat) \<times> gateway" where
  "chargeServedCall w q s =
     (if \<not> metered w q then (Inr 0, s)
      else
        let (r, c) = enforceCapacity (gw_post w) (gw_postPath w) (gq_apiKey q) (walletForBilling q) (Some (request_id w)) ''rpc''
                       (gw_meanwhile w (gs_capacity s));
            s = s\<lparr>gs_capacity := c\<rparr>
        in case (case r of Inl e \<Rightarrow> Inl capacity_check_failed | Inr v \<Rightarrow> v) of
             Inl d \<Rightarrow> (case sendBillingDenial w q d s of (rep, s) \<Rightarrow> (Inl rep, s))
           | Inr al \<Rightarrow> (Inr (if al_cost al > 0 then al_cost al else 0), s))"

text \<open>Admission before any upstream work: the preflight, or the limiter. \<open>None\<close>: admitted.\<close>

definition preflight :: "gateway_env \<Rightarrow> gateway_request \<Rightarrow> gateway \<Rightarrow> reply option \<times> gateway" where
  "preflight w q s =
     (case precheckCapacity (gw_pre w) (gw_prePath w) (gq_apiKey q) (walletForBilling q) ''rpc'' (gs_capacity s) of
        Inr None \<Rightarrow> (None, s)
      | Inr (Some d) \<Rightarrow> (case sendBillingDenial w q d s of (rep, s) \<Rightarrow> (Some rep, s))
      | Inl e \<Rightarrow> (case sendBillingDenial w q capacity_check_failed s of (rep, s) \<Rightarrow> (Some rep, s)))"

text \<open>A check that is late or fails lets the request through.\<close>

definition rate_gate :: "gateway_env \<Rightarrow> gateway_request \<Rightarrow> gateway \<Rightarrow> reply option \<times> gateway" where
  "rate_gate w q s =
     (let (allowed, l) =
        (if gq_settled q then (True, gs_limiter s)
         else case checkRateLimit (gw_sha w) (gw_up w) (gw_readable w) (gw_now w) (gq_apiKey q) (getClientIp q) (gs_limiter s) of
           (None, l) \<Rightarrow> (True, l)
         | (Some v, l) \<Rightarrow> (gw_rateTimeout w \<or> rv_allowed v, l))
      in if \<not> allowed then (Some (reply_of 429 RateLimitBody), s\<lparr>gs_limiter := l\<rparr>)
         else (None, s\<lparr>gs_limiter := incrementUsage (gw_sha w) (gw_up w) (gw_now w) (gq_apiKey q) (getClientIp q) l\<rparr>))"

subsection \<open>Serving\<close>

definition record_revenue :: "gateway_env \<Rightarrow> gateway_request \<Rightarrow> string \<Rightarrow> string \<Rightarrow> rat \<Rightarrow> gateway \<Rightarrow> gateway" where
  "record_revenue w q m source billed s =
     s\<lparr>gs_revenue := snd (recordRpcRevenue (gw_sha w) (gw_up w) (gw_db w) (gw_now w) (gq_chain q) m (gq_apiKey q) source
         (request_id w) billed (cp_billing (gs_capacity s)) (gs_revenue s))\<rparr>"

text \<open>\<open>{ ...v, id }\<close>: the own properties of the value, with the caller's identifier.\<close>

definition spread :: "json \<Rightarrow> (string \<times> json) list" where
  "spread v =
     (case v of
        JObj kvs \<Rightarrow> kvs
      | JArr xs \<Rightarrow> map (\<lambda>(i, x). (nat_to_string i, x)) (enumerate 0 xs)
      | JStr t \<Rightarrow> map (\<lambda>(i, c). (nat_to_string i, JStr [c])) (enumerate 0 t)
      | _ \<Rightarrow> [])"

definition with_id :: "json \<Rightarrow> json \<Rightarrow> json" where
  "with_id v i = JObj (mset_key ''id'' i (spread v))"

definition serve_cached :: "gateway_env \<Rightarrow> gateway_request \<Rightarrow> string \<Rightarrow> json \<Rightarrow> gateway \<Rightarrow> reply \<times> gateway" where
  "serve_cached w q m v s =
     (case chargeServedCall w q s of
        (Inl rep, s) \<Rightarrow> (rep, s)
      | (Inr billed, s) \<Rightarrow>
          (reply_of 200 (DataBody (with_id v (body_id (gq_body q)))), record_revenue w q m ''edge_cache'' billed s))"

definition serve_upstream :: "gateway_env \<Rightarrow> gateway_request \<Rightarrow> json \<Rightarrow> string \<Rightarrow> json \<Rightarrow> gateway \<Rightarrow> reply \<times> gateway" where
  "serve_upstream w q payload m ps s =
     (case routeRpcRequest (gw_route w) (gq_chain q) \<lparr>rq_method' = m, rq_params' = Some ps, rq_id' = jget ''id'' payload\<rparr>
         \<lparr>op_apiKey = gq_apiKey q, op_requestId = Some (request_id w), op_billedUsdt = Some 0\<rparr> (gs_route s) of
        (Inl (e, tried), rt) \<Rightarrow> (reply_of 502 (UpstreamBody e False), s\<lparr>gs_route := rt\<rparr>)
      | (Inr sv, rt) \<Rightarrow>
          (case chargeServedCall w q (s\<lparr>gs_route := rt\<rparr>) of
             (Inl rep, s) \<Rightarrow> (rep, s)
           | (Inr billed, s) \<Rightarrow>
               (reply_of 200 (DataBody (sv_result sv)),
                record_revenue w q m (or_str (Some (sv_provider sv)) ''external_provider'') billed
                  (s\<lparr>gs_cache := setCached (gw_sha w) (gw_up w) (gw_now w) (gq_chain q) m ps (sv_result sv) (gs_cache s)\<rparr>))))"

definition serve :: "gateway_env \<Rightarrow> gateway_request \<Rightarrow> json \<Rightarrow> gateway \<Rightarrow> reply \<times> gateway" where
  "serve w q payload s =
     (let m = js_string (coalesce (jget ''method'' payload) JNull);
          ps = the (or_json (jget ''params'' payload) (Some (JArr [])));
          (c, ca) = getCached (gw_sha w) (gw_up w) (gw_now w) (gq_chain q) m ps (gs_cache s);
          s = s\<lparr>gs_cache := ca\<rparr>
      in case (if gw_cacheTimeout w then None else c) of
           Some v \<Rightarrow> if json_truthy v then serve_cached w q m v s else serve_upstream w q payload m ps s
         | None \<Rightarrow> serve_upstream w q payload m ps s)"

text \<open>The whole handler behind its gate.\<close>

definition handle_rpc :: "gateway_env \<Rightarrow> gateway_request \<Rightarrow> gateway \<Rightarrow> reply \<times> gateway" where
  "handle_rpc w q s =
     (case request_refused w q of
        Some rep \<Rightarrow> (rep, s)
      | None \<Rightarrow>
          (case (if metered w q then preflight w q s else rate_gate w q s) of
             (Some rep, s) \<Rightarrow> (rep, s)
           | (None, s) \<Rightarrow> serve w q (coalesce (gq_body q) JNull) s))"

definition post_chain :: "gateway_env \<Rightarrow> gateway_request \<Rightarrow> gateway \<Rightarrow> reply \<times> gateway" where
  "post_chain w q s =
     (case creditGate (gw_gate w) (gq_apiKey q) (gq_wallet q) (gq_body q) (cp_billing (gs_capacity s)) (gs_gate s) of
        (Stop st e, g) \<Rightarrow> (reply_of st (ErrorBody e), s\<lparr>gs_gate := g\<rparr>)
      | (Next d, g) \<Rightarrow> handle_rpc w q (s\<lparr>gs_gate := g\<rparr>))"

subsection \<open>Keys and usage\<close>

text \<open>\<open>adminKey\<close> is the header, \<open>configured\<close> the variable \<open>ADMIN_API_KEY\<close>; either may be undefined. \<open>fresh\<close> is the random key.\<close>

definition post_keys ::
  "(string \<Rightarrow> string) \<Rightarrow> bool \<Rightarrow> int \<Rightarrow> string option \<Rightarrow> string option \<Rightarrow> string \<Rightarrow> string option \<Rightarrow> string option \<Rightarrow> limiter \<Rightarrow>
   (nat \<times> string + key_info) \<times> limiter" where
  "post_keys sha up now configured adminKey fresh tier owner l =
     (if adminKey \<noteq> configured then (Inl (403, ''Admin access required''), l)
      else if \<not> truthy tier then (Inl (400, ''Tier required''), l)
      else case createApiKey sha up now fresh (the tier) owner l of
        Inl e \<Rightarrow> (Inl (400, e), l)
      | Inr (info, l) \<Rightarrow> (Inr info, l))"

definition get_usage ::
  "(string \<Rightarrow> string) \<Rightarrow> bool \<Rightarrow> int \<Rightarrow> string option \<Rightarrow> limiter \<Rightarrow> (nat \<times> string + usage_stats) \<times> limiter" where
  "get_usage sha up now apiKey l =
     (if \<not> truthy apiKey then (Inl (400, ''API key required''), l)
      else case getUsageStats sha up now (the apiKey) l of
        (None, l) \<Rightarrow> (Inl (404, ''Invalid API key''), l)
      | (Some st, l) \<Rightarrow> (Inr st, l))"

record chain_row =
  cr_chain :: string
  cr_chainId :: int
  cr_name :: string
  cr_providers :: nat
  cr_price :: rat
  cr_aliases :: "string list"

definition get_chains :: "environment \<Rightarrow> chain_row list" where
  "get_chains env =
     map (\<lambda>(key, cfg). \<lparr>cr_chain = key, cr_chainId = cc_chainId cfg, cr_name = cc_name cfg, cr_providers = length (cc_providers cfg),
            cr_price = PRICE_PER_CALL_USDT, cr_aliases = map fst (filter (\<lambda>a. snd a = key) CHAIN_ALIASES)\<rparr>) (PROVIDER_CONFIGS env)"

text \<open>\<open>None\<close>: 404. Otherwise the chain, its identifier or null, its name and the number of providers.\<close>

definition get_chain :: "environment \<Rightarrow> string \<Rightarrow> (string \<times> int option \<times> string \<times> nat) option" where
  "get_chain env chain =
     (if chain \<notin> set (SUPPORTED_CHAINS env) then None
      else let n = normalized chain in
        Some (case getChainConfig env n of
            None \<Rightarrow> (n, None, n, 0)
          | Some c \<Rightarrow> (n, if cc_chainId c = 0 then None else Some (cc_chainId c), or_str (Some (cc_name c)) n, length (cc_providers c))))"

end
