(* ===== verification/Gateway_Billing.thy ===== *)
theory Gateway_Billing
  imports Rpc_Gateway
begin

text \<open>
  What the RPC endpoint does with money, over the model of \<^verbatim>\<open>Rpc_Gateway\<close>: a caller gets data only when the
  charge was granted and is charged only when it gets data, up to one failure of the database; what the
  revenue table says is what was collected; and where the older prepaid gate departs from this.
\<close>

section \<open>What enforcement changes\<close>

lemma charge_no_throw:
  assumes "\<forall>q. \<not> ce_fault ce q" and "authorizeAndMeter ce apiKey wallet mp product b = (Inl e, b')"
  shows False
  using assms by (auto simp: authorizeAndMeter_def charge_account_def Let_def split: if_splits sum.splits prod.splits option.splits)

lemma prepaid_denied: "prepaid cx apiKey wallet product s = (Inr (Inl d), s') \<Longrightarrow> s' = s"
  by (auto simp: prepaid_def dest!: charge_denied split: prod.splits)

lemma prepaid_no_throw:
  assumes "\<forall>q. \<not> ce_fault (cx_charge cx) q"
  shows "prepaid cx apiKey wallet product s \<noteq> (Inl e, s')"
  using charge_no_throw [OF assms] by (auto simp: prepaid_def split: prod.splits)

text \<open>A call that is not granted leaves the tables alone, but for the parity record.\<close>

definition same_money :: "capacity \<Rightarrow> capacity \<Rightarrow> bool" where
  "same_money c c' \<longleftrightarrow> c'\<lparr>cp_parity := cp_parity c\<rparr> = c"

lemma same_money_refl [simp]: "same_money c c"
  by (simp add: same_money_def)

lemma enforce_denied:
  assumes "enforceCapacity cx path apiKey wallet rid product s = (Inr (Inl d), s')"
  shows "same_money s s'"
proof -
  obtain r1 s1 where p: "prepaid cx apiKey wallet product s = (r1, s1)" by fastforce
  have "r1 = Inr (Inl d1) \<Longrightarrow> s1 = s" for d1 using p by (auto dest: prepaid_denied)
  with p assms show ?thesis
    by (cases path) (auto simp: enforceCapacity_def Let_def same_money_def dest: enforceNew_unchanged split: sum.splits prod.splits if_splits)
qed

lemma enforce_threw:
  assumes "enforceCapacity cx path apiKey wallet rid product s = (Inl e, s')" and "\<forall>q. \<not> ce_fault (cx_charge cx) q"
  shows "s' = s"
proof -
  obtain r1 s1 where p: "prepaid cx apiKey wallet product s = (r1, s1)" by fastforce
  have "r1 \<noteq> Inl e'" for e' using p prepaid_no_throw [OF assms(2)] by auto
  moreover have "r1 = Inr (Inl d1) \<Longrightarrow> s1 = s" for d1 using p by (auto dest: prepaid_denied)
  ultimately show ?thesis using p assms(1)
    by (cases path) (auto simp: enforceCapacity_def Let_def dest: enforceNew_unchanged split: sum.splits prod.splits if_splits)
qed

lemma enforce_not_granted:
  assumes "enforceCapacity cx path apiKey wallet rid product s = (r, s')" and "\<forall>q. \<not> ce_fault (cx_charge cx) q"
    and "\<forall>al. r \<noteq> Inr (Inr al)"
  shows "same_money s s'"
proof (cases r)
  case (Inl e)
  with enforce_threw assms(1,2) show ?thesis by fastforce
next
  case (Inr v)
  with assms(1,3) enforce_denied show ?thesis by (cases v) auto
qed

text \<open>What has been collected: spent by the accounts, and drawn from the authorizations in units of a millionth.\<close>

definition collected :: "capacity \<Rightarrow> rat" where
  "collected c = sum_list (map (\<lambda>x. ac_spent (snd x)) (bi_accounts (cp_billing c))) +
     sum_list (map (\<lambda>x. of_int (au_consumed (snd x)) / 1000000) (cp_auths c))"

lemma sum_update:
  "mwf m \<Longrightarrow> map_of m k = Some u \<Longrightarrow>
   sum_list (map (\<lambda>x. f (snd x)) (mset_key k v m)) = sum_list (map (\<lambda>x. f (snd x)) m) - f u + (f v :: rat)"
proof (induction m)
  case (Cons x m)
  then show ?case by (cases x) (auto simp: algebra_simps)
qed simp

lemma same_money_tables:
  "same_money c c' \<Longrightarrow> cp_billing c' = cp_billing c \<and> cp_auths c' = cp_auths c \<and> cp_draws c' = cp_draws c"
  unfolding same_money_def by (metis capacity.select_convs capacity.surjective capacity.update_convs(7))

lemma same_money_collected: "same_money c c' \<Longrightarrow> collected c' = collected c"
  by (auto simp: collected_def dest: same_money_tables)

definition capacity_wf :: "capacity \<Rightarrow> bool" where
  "capacity_wf c \<longleftrightarrow> mwf (bi_accounts (cp_billing c)) \<and> mwf (cp_auths c)"

lemma granted_source:
  assumes "enforceCapacity cx path apiKey wallet rid product s = (Inr (Inr al), s')"
  shows "(\<exists>b. authorizeAndMeter (cx_charge cx) apiKey wallet None product (cp_billing s) = (Inr (Inr al), b) \<and> cp_billing s' = b \<and>
      cp_auths s' = cp_auths s) \<or> enforceNew cx apiKey wallet rid s = (Inr (Inr al), s')"
proof -
  obtain r1 b1 where a: "authorizeAndMeter (cx_charge cx) apiKey wallet None product (cp_billing s) = (r1, b1)" by fastforce
  show ?thesis
  proof (cases "\<exists>d. r1 = Inr (Inl d)")
    case True
    then obtain d where d: "r1 = Inr (Inl d)" by blast
    with a have "b1 = cp_billing s" by (auto dest: charge_denied)
    with a d assms show ?thesis
      by (cases path) (auto simp: enforceCapacity_def prepaid_def Let_def split: sum.splits prod.splits if_splits)
  next
    case False
    with a assms show ?thesis
      by (cases path) (auto simp: enforceCapacity_def prepaid_def Let_def split: sum.splits)
  qed
qed

section \<open>Charging as an interface\<close>

text \<open>What the endpoint relies on, whichever layer pays: a refusal moves no money and a grant moves exactly its cost.\<close>

locale charging =
  fixes charge :: "'s \<Rightarrow> (string + verdict) \<times> 's"
    and money :: "'s \<Rightarrow> rat"
    and ok :: "'s \<Rightarrow> bool"
  assumes denied: "ok s \<Longrightarrow> charge s = (Inr (Inl d), s') \<Longrightarrow> money s' = money s \<and> ok s'"
    and granted: "ok s \<Longrightarrow> charge s = (Inr (Inr al), s') \<Longrightarrow> money s' = money s + max 0 (al_cost al) \<and> ok s'"
begin

lemma settles:
  assumes "ok s" and "charge s = (Inr v, s')"
  shows "money s' = money s + (case v of Inl d \<Rightarrow> 0 | Inr al \<Rightarrow> max 0 (al_cost al)) \<and> ok s'"
proof (cases v)
  case (Inl d)
  with assms denied [of s d s'] show ?thesis by simp
next
  case (Inr al)
  with assms granted [of s al s'] show ?thesis by simp
qed

lemma never_refunds: "ok s \<Longrightarrow> charge s = (Inr v, s') \<Longrightarrow> money s \<le> money s'"
  using settles [of s v s'] by (cases v) simp_all

end

definition spent_total :: "billing \<Rightarrow> rat" where
  "spent_total b = sum_list (map (\<lambda>x. ac_spent (snd x)) (bi_accounts b))"

interpretation prepaid_charge: charging "authorizeAndMeter ce apiKey wallet mp product" spent_total "\<lambda>b. mwf (bi_accounts b)"
  for ce apiKey wallet mp product
proof
  show "spent_total b' = spent_total b + max 0 (al_cost al) \<and> mwf (bi_accounts b')"
    if wf: "mwf (bi_accounts b)" and g: "authorizeAndMeter ce apiKey wallet mp product b = (Inr (Inr al), b')" for b b' al
  proof -
    from charge_granted [OF g wf] obtain k a a' where x: "resolveAccount (ce_sha ce) apiKey wallet b = Some (k, a)"
      "bi_accounts b' = mset_key k a' (bi_accounts b)" "ac_spent a' = ac_spent a + max 0 (al_cost al)" by blast
    with sum_update [OF wf resolve_found [OF x(1) wf], of ac_spent a'] wf show ?thesis by (simp add: spent_total_def)
  qed
qed (auto dest: charge_denied)

lemma collected_split: "collected c = spent_total (cp_billing c) + sum_list (map (\<lambda>x. of_int (au_consumed (snd x)) / 1000000) (cp_auths c))"
  by (simp add: collected_def spent_total_def)

lemma draw_collected:
  assumes "enforceNew cx apiKey wallet rid s = (Inr (Inr al), s')" and "capacity_wf s" and "0 \<le> cx_cost cx"
  shows "collected s' = collected s + max 0 (al_cost al) \<and> capacity_wf s'"
proof -
  have wf: "mwf (cp_auths s)" using assms(2) by (simp add: capacity_wf_def)
  from enforceNew_draws [OF assms(1) wf] obtain i u where x: "map_of (cp_auths s) i = Some u" "al_cost al = of_int (cx_cost cx) / 1000000"
    "cp_auths s' = mset_key i (u\<lparr>au_consumed := au_consumed u + cx_cost cx\<rparr>) (cp_auths s)" "cp_billing s' = cp_billing s" by blast
  show ?thesis using sum_update [OF wf x(1), of "\<lambda>u. of_int (au_consumed u) / 1000000"] x assms(2,3)
    by (simp add: collected_def capacity_wf_def add_divide_distrib)
qed

interpretation capacity_charge: charging "enforceCapacity cx path apiKey wallet rid product" collected "\<lambda>s. capacity_wf s \<and> 0 \<le> cx_cost cx"
  for cx path apiKey wallet rid product
proof
  show "collected s' = collected s + max 0 (al_cost al) \<and> capacity_wf s' \<and> 0 \<le> cx_cost cx"
    if ok: "capacity_wf s \<and> 0 \<le> cx_cost cx" and g: "enforceCapacity cx path apiKey wallet rid product s = (Inr (Inr al), s')" for s s' al
    using granted_source [OF g]
  proof
    assume "enforceNew cx apiKey wallet rid s = (Inr (Inr al), s')"
    with ok show ?thesis using draw_collected by blast
  next
    assume "\<exists>b. authorizeAndMeter (cx_charge cx) apiKey wallet None product (cp_billing s) = (Inr (Inr al), b) \<and> cp_billing s' = b \<and>
      cp_auths s' = cp_auths s"
    then show ?thesis using ok prepaid_charge.granted by (auto simp: collected_split capacity_wf_def)
  qed
  show "collected s' = collected s \<and> capacity_wf s' \<and> 0 \<le> cx_cost cx"
    if "capacity_wf s \<and> 0 \<le> cx_cost cx" and "enforceCapacity cx path apiKey wallet rid product s = (Inr (Inl d), s')" for s s' d
  proof -
    note same = enforce_denied [OF that(2)]
    show ?thesis using that(1) same_money_collected [OF same] same_money_tables [OF same] by (simp add: capacity_wf_def)
  qed
qed

section \<open>The charge of a served call\<close>

lemma denial_frame: "sendBillingDenial w q d s = (rep, s') \<Longrightarrow> \<exists>n. s' = s\<lparr>gs_denials := n\<rparr>"
  by (cases s) (auto simp: sendBillingDenial_def recordSessionKeyDenial_def Let_def split: if_splits option.splits prod.splits)

lemma denial_no_data: "sendBillingDenial w q d s = (rep, s') \<Longrightarrow> rp_body rep \<noteq> DataBody j"
  by (auto simp: sendBillingDenial_def Let_def reply_of_def split: if_splits)

lemma charge_stopped:
  assumes "chargeServedCall w q s = (Inl rep, s')"
  shows "rp_body rep \<noteq> DataBody j" and "gs_revenue s' = gs_revenue s" and "gs_route s' = gs_route s" and "gs_gate s' = gs_gate s"
    and "\<forall>f. \<not> ce_fault (cx_charge (gw_post w)) f \<Longrightarrow> same_money (gw_meanwhile w (gs_capacity s)) (gs_capacity s')"
proof -
  obtain r c where e: "enforceCapacity (gw_post w) (gw_postPath w) (gq_apiKey q) (walletForBilling q) (Some (request_id w)) ''rpc''
    (gw_meanwhile w (gs_capacity s)) = (r, c)" by fastforce
  from assms e obtain d where d: "sendBillingDenial w q d (s\<lparr>gs_capacity := c\<rparr>) = (rep, s')" "\<forall>al. r \<noteq> Inr (Inr al)"
    by (auto simp: chargeServedCall_def Let_def split: if_splits sum.splits prod.splits)
  obtain n where s': "s' = s\<lparr>gs_capacity := c, gs_denials := n\<rparr>" using denial_frame [OF d(1)] by auto
  show "rp_body rep \<noteq> DataBody j" by (rule denial_no_data [OF d(1)])
  show "gs_revenue s' = gs_revenue s" "gs_route s' = gs_route s" "gs_gate s' = gs_gate s" by (simp_all add: s')
  show "same_money (gw_meanwhile w (gs_capacity s)) (gs_capacity s')" if "\<forall>f. \<not> ce_fault (cx_charge (gw_post w)) f"
    using enforce_not_granted [OF e that d(2)] by (simp add: s')
qed

lemma positive_part: "(if c > 0 then c else 0) = max 0 (c :: rat)"
  by (simp add: max_def)

lemma charge_passed:
  assumes "chargeServedCall w q s = (Inr billed, s')"
  shows "if metered w q then s' = s\<lparr>gs_capacity := gs_capacity s'\<rparr> \<and> (\<exists>al. billed = max 0 (al_cost al) \<and>
      enforceCapacity (gw_post w) (gw_postPath w) (gq_apiKey q) (walletForBilling q) (Some (request_id w)) ''rpc''
        (gw_meanwhile w (gs_capacity s)) = (Inr (Inr al), gs_capacity s'))
    else billed = 0 \<and> s' = s"
  using assms unfolding chargeServedCall_def positive_part
  by (auto simp: Let_def split: if_splits sum.splits prod.splits)

section \<open>Routing records no revenue\<close>

lemma node_success_free:
  "snd (recordNodeSuccess ok now i ms m k rid (Some 0) (t, rows)) = rows"
  by (simp add: recordNodeSuccess_def Let_def split: prod.split)

lemma node_phase_free:
  "node_phase E c q opts n ex s = (r, s') \<Longrightarrow> op_billedUsdt opts = Some 0 \<Longrightarrow> rs_revenue s' = rs_revenue s"
proof (induction n arbitrary: ex s)
  case (Suc n)
  show ?case
  proof (cases "selectNodeSimple (re_db E) (re_now E) (re_nodeRand E (length ex)) c ''rpc'' ex (rs_nodes s)")
    case None
    with Suc.prems show ?thesis by simp
  next
    case (Some nd)
    show ?thesis
    proof (cases "fw_data (forwardToNode (re_nodeFetch E (length ex)) nd (rpc_payload q))")
      case (Inl e)
      with Some Suc.prems(1) Suc.IH [OF _ Suc.prems(2)] show ?thesis by fastforce
    next
      case (Inr d)
      obtain t rows where x: "recordNodeSuccess (re_db E) (re_now E) (nd_id nd)
          (fw_latency (forwardToNode (re_nodeFetch E (length ex)) nd (rpc_payload q))) (rq_method' q) (op_apiKey opts)
          (op_requestId opts) (Some 0) (rs_nodes s, rs_revenue s) = (t, rows)" by fastforce
      have "rows = rs_revenue s" using node_success_free x by (metis snd_conv)
      with x Inr Some Suc.prems show ?thesis by auto
    qed
  qed
qed simp

lemma try_free: "try_providers E chain q ps att s = (r, s') \<Longrightarrow> rs_revenue s' = rs_revenue s"
proof (induction E chain q ps att s arbitrary: r s' rule: try_providers.induct)
  case (1 E chain q ps att s)
  show ?case
  proof (cases "selectWeightedProvider (re_rand E (length att)) ps")
    case None
    with "1.prems" show ?thesis by (simp add: try_steps(1))
  next
    case (Some p)
    obtain o' ms where x: "executeRpcCall (re_fetch E (length att)) (coalesce (pv_url (fst p)) []) q = (o', ms)" by fastforce
    show ?thesis
    proof (cases o')
      case (Inr v)
      with Some x "1.prems" show ?thesis by (auto simp: try_steps(2))
    next
      case (Inl e)
      from "1.IH" [OF Some refl x [symmetric] Inl] "1.prems" try_steps(3) [OF Some] x Inl show ?thesis by auto
    qed
  qed
qed

lemma route_free:
  assumes "routeRpcRequest E chain q opts s = (r, s')" and "op_billedUsdt opts = Some 0"
  shows "rs_revenue s' = rs_revenue s"
proof -
  have np: "node_phase E c q opts n ex s = (v, s1) \<Longrightarrow> rs_revenue s1 = rs_revenue s" for c n ex v s1
    using node_phase_free assms(2) by blast
  have av: "available_providers E chain s1 = (a, s2) \<Longrightarrow> rs_revenue s2 = rs_revenue s1" for s1 a s2
    by (auto simp: available_providers_def Let_def split: prod.splits)
  show ?thesis using assms(1)
    by (auto simp: routeRpcRequest_def dest!: np av try_free split: option.splits prod.splits if_splits sum.splits)
qed

section \<open>The three ends of a request\<close>

text \<open>The state in which the charge runs, if it does, has the money of the state before.\<close>

definition before_charge :: "gateway \<Rightarrow> gateway \<Rightarrow> bool" where
  "before_charge s s1 \<longleftrightarrow> gs_capacity s1 = gs_capacity s \<and> gs_revenue s1 = gs_revenue s \<and>
     rs_revenue (gs_route s1) = rs_revenue (gs_route s)"

lemma before_charge_refl [simp]: "before_charge s s"
  by (simp add: before_charge_def)

lemma before_charge_trans: "before_charge s s1 \<Longrightarrow> before_charge s1 s2 \<Longrightarrow> before_charge s s2"
  by (simp add: before_charge_def)

inductive request_end :: "gateway_env \<Rightarrow> gateway_request \<Rightarrow> gateway \<Rightarrow> reply \<Rightarrow> gateway \<Rightarrow> bool" for w q where
  refused: "before_charge s s' \<Longrightarrow> (\<And>j. rp_body rep \<noteq> DataBody j) \<Longrightarrow> request_end w q s rep s'"
| stopped: "before_charge s s1 \<Longrightarrow> chargeServedCall w q s1 = (Inl rep, s') \<Longrightarrow> request_end w q s rep s'"
| served: "before_charge s s1 \<Longrightarrow> chargeServedCall w q s1 = (Inr billed, s2) \<Longrightarrow>
    request_end w q s (reply_of 200 (DataBody j)) (record_revenue w q m src billed (s2\<lparr>gs_cache := ca\<rparr>))"

inductive_cases request_endE: "request_end w q s rep s'"

lemma request_end_before: "before_charge s s1 \<Longrightarrow> request_end w q s1 rep s' \<Longrightarrow> request_end w q s rep s'"
  by (erule request_endE) (auto intro: request_end.intros before_charge_trans)

lemma serve_cached_end:
  assumes "serve_cached w q m v s = (rep, s')"
  shows "request_end w q s rep s'"
proof -
  obtain o' s1 where c: "chargeServedCall w q s = (o', s1)" by fastforce
  show ?thesis
  proof (cases o')
    case (Inl rp)
    with c assms show ?thesis by (auto simp: serve_cached_def intro: request_end.stopped [OF before_charge_refl])
  next
    case (Inr billed)
    with c have "chargeServedCall w q s = (Inr billed, s1)" by simp
    from request_end.served [OF before_charge_refl this, of "with_id v (body_id (gq_body q))" m "''edge_cache''" "gs_cache s1"] Inr c assms
    show ?thesis by (simp add: serve_cached_def)
  qed
qed

lemma serve_upstream_end:
  assumes "serve_upstream w q payload m ps s = (rep, s')"
  shows "request_end w q s rep s'"
proof -
  obtain r rt where r: "routeRpcRequest (gw_route w) (gq_chain q) \<lparr>rq_method' = m, rq_params' = Some ps, rq_id' = jget ''id'' payload\<rparr>
         \<lparr>op_apiKey = gq_apiKey q, op_requestId = Some (request_id w), op_billedUsdt = Some 0\<rparr> (gs_route s) = (r, rt)" by fastforce
  have b: "before_charge s (s\<lparr>gs_route := rt\<rparr>)" using route_free [OF r] by (simp add: before_charge_def)
  show ?thesis
  proof (cases r)
    case (Inl e)
    with r assms show ?thesis
      by (auto simp: serve_upstream_def reply_of_def intro!: request_end.refused b split: prod.splits)
  next
    case (Inr sv)
    obtain o' s1 where c: "chargeServedCall w q (s\<lparr>gs_route := rt\<rparr>) = (o', s1)" by fastforce
    show ?thesis
    proof (cases o')
      case (Inl rp)
      with r c \<open>r = Inr sv\<close> assms have "chargeServedCall w q (s\<lparr>gs_route := rt\<rparr>) = (Inl rep, s')" by (simp add: serve_upstream_def)
      with b show ?thesis by (rule request_end.stopped)
    next
      case (Inr billed)
      with r c \<open>r = Inr sv\<close> assms request_end.served [OF b, of w q billed s1] show ?thesis by (auto simp: serve_upstream_def)
    qed
  qed
qed

lemma serve_end:
  assumes "serve w q payload s = (rep, s')"
  shows "request_end w q s rep s'"
proof -
  define m where "m = js_string (coalesce (jget ''method'' payload) JNull)"
  define ps where "ps = the (or_json (jget ''params'' payload) (Some (JArr [])))"
  obtain c ca where g: "getCached (gw_sha w) (gw_up w) (gw_now w) (gq_chain q) m ps (gs_cache s) = (c, ca)" by fastforce
  have "(\<exists>v. serve_cached w q m v (s\<lparr>gs_cache := ca\<rparr>) = (rep, s')) \<or> serve_upstream w q payload m ps (s\<lparr>gs_cache := ca\<rparr>) = (rep, s')"
    using assms g by (auto simp: serve_def Let_def m_def [symmetric] ps_def [symmetric] split: option.splits if_splits)
  then have "request_end w q (s\<lparr>gs_cache := ca\<rparr>) rep s'" by (auto intro: serve_cached_end serve_upstream_end)
  then show ?thesis by (rule request_end_before [rotated]) (simp add: before_charge_def)
qed

lemma preflight_frame: "preflight w q s = (r, s') \<Longrightarrow> before_charge s s'"
  by (auto simp: preflight_def before_charge_def dest!: denial_frame split: sum.splits option.splits prod.splits)

lemma preflight_no_data: "preflight w q s = (Some rep, s') \<Longrightarrow> rp_body rep \<noteq> DataBody j"
  by (auto simp: preflight_def dest: denial_no_data split: sum.splits option.splits prod.splits)

lemma rate_gate_frame: "rate_gate w q s = (r, s') \<Longrightarrow> before_charge s s'"
  by (auto simp: rate_gate_def before_charge_def Let_def split: if_splits prod.splits)

lemma rate_gate_no_data: "rate_gate w q s = (Some rep, s') \<Longrightarrow> rp_body rep \<noteq> DataBody j"
  by (auto simp: rate_gate_def Let_def reply_of_def split: if_splits prod.splits)

lemma refused_no_data: "request_refused w q = Some rep \<Longrightarrow> rp_body rep \<noteq> DataBody j"
  by (auto simp: request_refused_def body_refused_def reply_of_def split: if_splits option.splits json.splits)

lemma handle_end:
  assumes "handle_rpc w q s = (rep, s')"
  shows "request_end w q s rep s'"
proof (cases "request_refused w q")
  case (Some rp)
  with assms show ?thesis by (auto simp: handle_rpc_def intro!: request_end.refused dest: refused_no_data)
next
  case None
  obtain r s1 where a: "(if metered w q then preflight w q s else rate_gate w q s) = (r, s1)" by fastforce
  then have b: "before_charge s s1" by (auto intro: preflight_frame rate_gate_frame split: if_splits)
  show ?thesis
  proof (cases r)
    case (Some rp)
    with a None assms have "rp = rep" "s1 = s'" by (simp_all add: handle_rpc_def)
    with a Some b show ?thesis
      by (auto intro!: request_end.refused dest: preflight_no_data rate_gate_no_data split: if_splits)
  next
    case None
    with a \<open>request_refused w q = None\<close> assms have "serve w q (coalesce (gq_body q) JNull) s1 = (rep, s')" by (simp add: handle_rpc_def)
    from request_end_before [OF b serve_end [OF this]] show ?thesis .
  qed
qed

lemma post_end:
  assumes "post_chain w q s = (rep, s')"
  shows "request_end w q s rep s'"
proof -
  obtain o' g where c: "creditGate (gw_gate w) (gq_apiKey q) (gq_wallet q) (gq_body q) (cp_billing (gs_capacity s)) (gs_gate s) = (o', g)"
    by fastforce
  have b: "before_charge s (s\<lparr>gs_gate := g\<rparr>)" by (simp add: before_charge_def)
  show ?thesis
  proof (cases o')
    case (Stop st e)
    with c assms b show ?thesis by (auto simp: post_chain_def reply_of_def intro!: request_end.refused)
  next
    case (Next d)
    with c assms have "handle_rpc w q (s\<lparr>gs_gate := g\<rparr>) = (rep, s')" by (simp add: post_chain_def)
    from request_end_before [OF b handle_end [OF this]] show ?thesis .
  qed
qed

section \<open>Revenue and collection\<close>

definition booked :: "gateway \<Rightarrow> rat" where
  "booked s = sum_list (map ev_amount (rv_events (gs_revenue s))) + sum_list (map rw_amount (rs_revenue (gs_route s)))"

text \<open>A request on its own, with a database that answers; and one whose identifier was not used in the last minute.\<close>

definition quiet :: "gateway_env \<Rightarrow> bool" where
  "quiet w \<longleftrightarrow> gw_meanwhile w = (\<lambda>c. c) \<and> (\<forall>f. \<not> ce_fault (cx_charge (gw_post w)) f) \<and> 0 \<le> cx_cost (gw_post w) \<and> gw_db w"

definition fresh_request :: "gateway_env \<Rightarrow> gateway_request \<Rightarrow> gateway \<Rightarrow> bool" where
  "fresh_request w q s \<longleftrightarrow>
     redis_get (gw_now w) (''billing:dedup:'' @ clean_request_id (gw_sha w) (gq_apiKey q) (request_id w)) (rv_dedup (gs_revenue s)) = None"

lemma recorded_amount:
  assumes "redis_get now (''billing:dedup:'' @ clean_request_id sha k rid) (rv_dedup v) = None"
  shows "sum_list (map ev_amount (rv_events (snd (recordRpcRevenue sha up True now chain m k src rid amount b v)))) =
    sum_list (map ev_amount (rv_events v)) + max 0 amount"
  using assms by (simp add: recordRpcRevenue_def Let_def)

lemma request_books:
  assumes "request_end w q s rep s'" and "quiet w" and "fresh_request w q s" and "capacity_wf (gs_capacity s)"
  shows "booked s' - booked s = collected (gs_capacity s') - collected (gs_capacity s) \<and> capacity_wf (gs_capacity s')"
  using assms(1)
proof (cases rule: request_end.cases)
  case refused
  with assms(4) show ?thesis by (simp add: before_charge_def booked_def)
next
  case (stopped s1)
  have "same_money (gs_capacity s) (gs_capacity s')"
    using charge_stopped(5) [OF stopped(2)] stopped(1) assms(2) by (simp add: quiet_def before_charge_def)
  with stopped(1) charge_stopped(2,3) [OF stopped(2)] assms(4) same_money_collected [OF this] same_money_tables [OF this]
  show ?thesis by (simp add: before_charge_def booked_def capacity_wf_def)
next
  case (served s1 billed s2 j m src ca)
  have fresh: "redis_get (gw_now w) (''billing:dedup:'' @ clean_request_id (gw_sha w) (gq_apiKey q) (request_id w)) (rv_dedup (gs_revenue s)) = None"
    using assms(3) by (simp add: fresh_request_def)
  have rev: "gs_revenue s2 = gs_revenue s" "gs_route s2 = gs_route s1"
    using charge_passed [OF served(4)] served(3) by (auto simp: before_charge_def split: if_splits) (metis gateway.surjective gateway.update_convs(2) gateway.select_convs(5,6))+
  have "booked s' - booked s = max 0 billed"
    using recorded_amount [OF fresh] rev served(2,3) assms(2) by (simp add: booked_def record_revenue_def before_charge_def quiet_def)
  moreover have "collected (gs_capacity s2) = collected (gs_capacity s) + max 0 billed \<and> capacity_wf (gs_capacity s2)"
  proof (cases "metered w q")
    case True
    with charge_passed [OF served(4)] served(3) assms(2) obtain al where "billed = max 0 (al_cost al)"
      "enforceCapacity (gw_post w) (gw_postPath w) (gq_apiKey q) (walletForBilling q) (Some (request_id w)) ''rpc'' (gs_capacity s) =
        (Inr (Inr al), gs_capacity s2)" by (auto simp: before_charge_def quiet_def)
    with capacity_charge.granted [OF _ this(2)] assms(2,4) show ?thesis by (simp add: quiet_def)
  next
    case False
    with charge_passed [OF served(4)] served(3) assms(4) show ?thesis by (simp add: before_charge_def)
  qed
  ultimately show ?thesis using served(2) by (simp add: record_revenue_def)
qed

inductive gateway_run :: "gateway \<Rightarrow> gateway \<Rightarrow> bool" for s where
  none: "gateway_run s s"
| request: "gateway_run s s1 \<Longrightarrow> quiet w \<Longrightarrow> fresh_request w q s1 \<Longrightarrow> gateway_run s (snd (post_chain w q s1))"

lemma run_books:
  "gateway_run s s' \<Longrightarrow> capacity_wf (gs_capacity s) \<Longrightarrow>
   booked s' - booked s = collected (gs_capacity s') - collected (gs_capacity s) \<and> capacity_wf (gs_capacity s')"
proof (induction rule: gateway_run.induct)
  case (request s1 w q)
  obtain rep s2 where p: "post_chain w q s1 = (rep, s2)" by fastforce
  from request_books [OF post_end [OF p]] request p show ?case by simp
qed simp

section \<open>Properties\<close>




text \<open>
  One failure breaks the rule. When the statement that counts the call fails after the deduction has gone through, the
  charge is reported as failed, the caller gets a 503 and no data, and its account has paid.\<close>

theorem metering_failure_charges:
  assumes "metered w q" and "gw_postPath w = Legacy" and "gw_meanwhile w = (\<lambda>c. c)" and "ce_pool (cx_charge (gw_post w))"
    and "\<forall>f. ce_fault (cx_charge (gw_post w)) f \<longleftrightarrow> f = QMeter" and "\<not> ce_console (cx_charge (gw_post w))"
    and "account_gates (cx_charge (gw_post w)) (gq_apiKey q) (walletForBilling q) (cp_billing (gs_capacity s)) = Inr (k, a)"
    and "costFor (ce_freeZero (cx_charge (gw_post w))) a None = cost" and "0 < cost" and "cost \<le> spendable ''rpc'' a"
    and "mwf (bi_accounts (cp_billing (gs_capacity s)))"
  shows "\<exists>rep s' a'. chargeServedCall w q s = (Inl rep, s') \<and> rp_status rep = 503 \<and>
    map_of (bi_accounts (cp_billing (gs_capacity s'))) k = Some a' \<and> ac_spent a' = ac_spent a + cost"
proof -
  let ?b = "cp_billing (gs_capacity s)" and ?ce = "cx_charge (gw_post w)"
  let ?a' = "deducted ''rpc'' (ce_now ?ce) cost a"
  have m: "map_of (bi_accounts ?b) k = Some a" by (rule resolve_found [OF gates_found [OF assms(7)] assms(11)])
  have "charge_account ?ce k a None ''rpc'' ?b = (Inr (Inr (cost, ac_credits a - cost)), put_account k ?a' ?b)"
    using assms(5,6,8-10) m by (simp add: charge_account_def Let_def deduct_def)
  then have "authorizeAndMeter ?ce (gq_apiKey q) (walletForBilling q) None ''rpc'' ?b = (Inl ''database error'', put_account k ?a' ?b)"
    using assms(4,5,7) by (simp add: authorizeAndMeter_def)
  then have "enforceCapacity (gw_post w) Legacy (gq_apiKey q) (walletForBilling q) (Some (request_id w)) ''rpc'' (gs_capacity s) =
      (Inl ''database error'', (gs_capacity s)\<lparr>cp_billing := put_account k ?a' ?b\<rparr>)"
    by (simp add: enforceCapacity_def prepaid_def)
  then have "chargeServedCall w q s = (case sendBillingDenial w q capacity_check_failed
      (s\<lparr>gs_capacity := (gs_capacity s)\<lparr>cp_billing := put_account k ?a' ?b\<rparr>\<rparr>) of (rep, s') \<Rightarrow> (Inl rep, s'))"
    using assms(1-3) by (simp add: chargeServedCall_def)
  then show ?thesis
    by (simp add: sendBillingDenial_def capacity_check_failed_def deny_of_def reply_of_def deducted_def)
qed

text \<open>
  The older gate charges for nothing. With the canonical billing off, a request that the handler then refuses as
  malformed, as a batch or for an unknown chain has already been paid for from the balance of the wallet.\<close>

theorem legacy_gate_charges_refused:
  assumes "\<not> ge_canonical (gw_gate w)" and "ge_account (gw_gate w)" and "ge_update (gw_gate w)" and "gq_apiKey q = Some k" and "k \<noteq> []"
    and "map_of (bi_accounts (cp_billing (gs_capacity s))) k = Some a" and "ac_wallet a = Some wa" and "wa \<noteq> []"
    and "getCost (gw_gate w) (gate_method (gq_body q)) (gs_gate s) = (Some c, g)" and "r \<in> set (ga_rows g)" and "pays c (map lower wa) r"
    and "request_refused w q = Some rep"
  shows "post_chain w q s = (rep, s\<lparr>gs_gate := g\<lparr>ga_rows := credit_update c (map lower wa) (ga_rows g)\<rparr>\<rparr>)"
proof -
  have "creditGate (gw_gate w) (Some k) (gq_wallet q) (gq_body q) (cp_billing (gs_capacity s)) (gs_gate s) =
      (Next (Some (c, map lower wa)), g\<lparr>ga_rows := credit_update c (map lower wa) (ga_rows g)\<rparr>)"
    using assms(1-3,5-11) by (auto simp: creditGate_def truthy_def Let_def)
  with assms(4,12) show ?thesis by (simp add: post_chain_def handle_rpc_def)
qed

section \<open>Witnesses\<close>

definition sample_gateway_env :: gateway_env where
  "sample_gateway_env = \<lparr>gw_sha = (\<lambda>s. s),
     gw_gate = \<lparr>ge_canonical = True, ge_now = 0, ge_prices = Some [], ge_account = True, ge_update = True, ge_balance = True\<rparr>, gw_anonymous = True,
     gw_pre = sample_env, gw_prePath = Legacy, gw_meanwhile = (\<lambda>c. c), gw_post = sample_env, gw_postPath = Legacy, gw_now = 1000,
     gw_up = True, gw_readable = True, gw_rateTimeout = False, gw_cacheTimeout = False, gw_db = True,
     gw_route = sample_route (JObj []), gw_uuid = ''u1''\<rparr>"

definition sample_payload :: json where
  "sample_payload = JObj [(''jsonrpc'', JStr ''2.0''), (''method'', JStr ''eth_chainId''), (''id'', JNum 7)]"

definition sample_gateway_request :: gateway_request where
  "sample_gateway_request = \<lparr>gq_chain = ''base'', gq_apiKey = Some ''sk_1'', gq_wallet = None, gq_forwardedFor = None, gq_realIp = None,
     gq_remote = None, gq_settled = False, gq_payer = None, gq_body = Some sample_payload\<rparr>"

definition sample_gateway :: gateway where
  "sample_gateway = \<lparr>gs_gate = \<lparr>ga_rows = [\<lparr>cb_wallet = ''0xab'', cb_balance = 1, cb_spent = 0\<rparr>], ga_pricing = None\<rparr>,
     gs_capacity = no_capacity\<lparr>cp_billing := sample_billing\<rparr>, gs_limiter = \<lparr>li_keys = [], li_usage = []\<rparr>,
     gs_cache = \<lparr>ca_data = [(''rpc:cache:base:eth_chainId:empty'', (JObj [(''result'', JStr ''0x2105''), (''id'', JNum 1)], 5000))],
       ca_hits = 0, ca_misses = 0\<rparr>,
     gs_route = no_state, gs_revenue = \<lparr>rv_events = [], rv_dedup = [], rv_requests = [], rv_revenue = []\<rparr>, gs_denials = []\<rparr>"

lemmas gateway_sample = sample_gateway_env_def sample_payload_def sample_gateway_request_def sample_gateway_def

lemma sample_metered: "metered sample_gateway_env sample_gateway_request"
  by (simp add: metered_def gateway_sample truthy_def)

lemma sample_accepted: "request_refused sample_gateway_env sample_gateway_request = None"
  by (simp add: request_refused_def body_refused_def gateway_sample truthy_def SUPPORTED_CHAINS_def getSupportedChains_def
      PROVIDER_CONFIGS_def or_json_def)

lemma sample_preflight: "preflight sample_gateway_env sample_gateway_request s = (None, s)"
  if "gs_capacity s = gs_capacity sample_gateway"
  using that
  by (simp add: preflight_def precheckCapacity_def gateway_sample sample_env_def no_capacity_def precheckCharge_def account_gates_def
      sample_billing_eq sample_defs limit_of_def TIER_DAILY_LIMIT_def getDailyCount_def costFor_def PRICE_PER_CALL_USDT_def spendable_def
      walletForBilling_def Let_def truthy_def)

lemma sample_enforced:
  "\<exists>al c. enforceCapacity sample_env Legacy (Some ''sk_1'') None rid ''rpc'' (no_capacity\<lparr>cp_billing := sample_billing\<rparr>) = (Inr (Inr al), c) \<and>
     al_cost al = PRICE_PER_CALL_USDT"
  using sample_charged by (simp add: enforceCapacity_def prepaid_def sample_env_def)

lemma sample_charge_call:
  assumes "gs_capacity s = gs_capacity sample_gateway"
  shows "\<exists>s'. chargeServedCall sample_gateway_env sample_gateway_request s = (Inr PRICE_PER_CALL_USDT, s')"
proof -
  obtain al c where e: "enforceCapacity sample_env Legacy (Some ''sk_1'') None (Some (request_id sample_gateway_env)) ''rpc''
      (no_capacity\<lparr>cp_billing := sample_billing\<rparr>) = (Inr (Inr al), c)" "al_cost al = PRICE_PER_CALL_USDT" using sample_enforced by blast
  have "chargeServedCall sample_gateway_env sample_gateway_request s = (Inr (if al_cost al > 0 then al_cost al else 0), s\<lparr>gs_capacity := c\<rparr>)"
    unfolding chargeServedCall_def using assms e(1) sample_metered
    by (simp add: sample_gateway_env_def sample_gateway_request_def sample_gateway_def walletForBilling_def)
  with e(2) show ?thesis by (simp add: PRICE_PER_CALL_USDT_def)
qed

lemma sample_cached:
  "getCached (\<lambda>s. s) True 1000 ''base'' ''eth_chainId'' (JArr []) (gs_cache sample_gateway) =
     (Some (JObj [(''result'', JStr ''0x2105''), (''id'', JNum 1)]), (gs_cache sample_gateway)\<lparr>ca_hits := 1\<rparr>)"
  by (simp add: sample_gateway_def getCached_def isCacheable_def NEVER_CACHE_def METHOD_TTL_def getCacheKey_def normalized_def
      CHAIN_ALIASES_def hashParams_def redis_get_def)

lemma sample_served:
  "fst (post_chain sample_gateway_env sample_gateway_request sample_gateway) =
     reply_of 200 (DataBody (JObj [(''result'', JStr ''0x2105''), (''id'', JNum 7)]))"
proof -
  let ?s = "sample_gateway\<lparr>gs_cache := (gs_cache sample_gateway)\<lparr>ca_hits := 1\<rparr>\<rparr>"
  obtain s' where "chargeServedCall sample_gateway_env sample_gateway_request ?s = (Inr PRICE_PER_CALL_USDT, s')"
    using sample_charge_call [of ?s] by auto
  then have "fst (serve_cached sample_gateway_env sample_gateway_request ''eth_chainId'' (JObj [(''result'', JStr ''0x2105''), (''id'', JNum 1)]) ?s) =
      reply_of 200 (DataBody (JObj [(''result'', JStr ''0x2105''), (''id'', JNum 7)]))"
    by (simp add: serve_cached_def with_id_def spread_def body_id_def sample_gateway_request_def sample_payload_def)
  moreover have "serve sample_gateway_env sample_gateway_request sample_payload sample_gateway =
      serve_cached sample_gateway_env sample_gateway_request ''eth_chainId'' (JObj [(''result'', JStr ''0x2105''), (''id'', JNum 1)]) ?s"
    using sample_cached
    by (simp add: serve_def sample_payload_def or_json_def Let_def) (simp add: sample_gateway_env_def sample_gateway_request_def)
  moreover have "handle_rpc sample_gateway_env sample_gateway_request sample_gateway =
      serve sample_gateway_env sample_gateway_request sample_payload sample_gateway"
    using sample_accepted sample_metered sample_preflight [OF refl] by (simp add: handle_rpc_def) (simp add: sample_gateway_request_def)
  moreover have "post_chain sample_gateway_env sample_gateway_request sample_gateway =
      handle_rpc sample_gateway_env sample_gateway_request sample_gateway"
    by (simp add: post_chain_def creditGate_def) (simp add: sample_gateway_env_def)
  ultimately show ?thesis by simp
qed


lemma sample_chain_refused:
  "post_chain sample_gateway_env (sample_gateway_request\<lparr>gq_chain := ''nope''\<rparr>) sample_gateway =
     (reply_of 400 (ErrorBody ''Unsupported chain: nope''), sample_gateway)"
  by (simp add: post_chain_def creditGate_def handle_rpc_def request_refused_def gateway_sample truthy_def SUPPORTED_CHAINS_def
      getSupportedChains_def PROVIDER_CONFIGS_def CHAIN_ALIASES_def)


lemma sample_quiet: "quiet sample_gateway_env"
  by (simp add: quiet_def sample_gateway_env_def sample_env_def sample_charge_def)

lemma sample_fresh: "fresh_request sample_gateway_env sample_gateway_request sample_gateway"
  by (simp add: fresh_request_def sample_gateway_def redis_get_def)

lemma gateway_sample_run: "gateway_run sample_gateway (snd (post_chain sample_gateway_env sample_gateway_request sample_gateway))"
  by (rule gateway_run.request [OF gateway_run.none sample_quiet sample_fresh])


theorem metering_failure_charges_witness:
  "\<exists>rep s' a'. chargeServedCall (sample_gateway_env\<lparr>gw_post := sample_env\<lparr>cx_charge := sample_charge\<lparr>ce_fault := (\<lambda>f. f = QMeter)\<rparr>\<rparr>\<rparr>)
       sample_gateway_request sample_gateway = (Inl rep, s') \<and> rp_status rep = 503 \<and>
     map_of (bi_accounts (cp_billing (gs_capacity s'))) ''sk_1'' = Some a' \<and> ac_spent a' = 0 + PRICE_PER_CALL_USDT"
  using metering_failure_charges [of "sample_gateway_env\<lparr>gw_post := sample_env\<lparr>cx_charge := sample_charge\<lparr>ce_fault := (\<lambda>f. f = QMeter)\<rparr>\<rparr>\<rparr>"
      sample_gateway_request sample_gateway "''sk_1''" "sample_account\<lparr>ac_credits := 2, ac_deposited := 2\<rparr>" PRICE_PER_CALL_USDT]
  by (simp add: gateway_sample metered_def truthy_def no_capacity_def sample_billing_eq sample_defs walletForBilling_def account_gates_def
      limit_of_def TIER_DAILY_LIMIT_def getDailyCount_def costFor_def PRICE_PER_CALL_USDT_def spendable_def sample_env_def)

definition old_gateway_env :: gateway_env where
  "old_gateway_env = sample_gateway_env\<lparr>gw_gate :=
     \<lparr>ge_canonical = False, ge_now = 0, ge_prices = Some [], ge_account = True, ge_update = True, ge_balance = True\<rparr>\<rparr>"

definition old_gateway :: gateway where
  "old_gateway = sample_gateway\<lparr>gs_capacity := no_capacity\<lparr>cp_billing :=
     put_account ''sk_1'' (sample_account\<lparr>ac_wallet := Some ''0xab''\<rparr>) empty_billing\<rparr>\<rparr>"

theorem legacy_gate_charges_refused_witness:
  "map cb_balance (ga_rows (gs_gate (snd (post_chain old_gateway_env (sample_gateway_request\<lparr>gq_body := Some (JArr [])\<rparr>) old_gateway)))) =
   [1 - DEFAULT_COST_USDT]"
proof -
  let ?g = "\<lparr>ga_rows = [\<lparr>cb_wallet = ''0xab'', cb_balance = 1, cb_spent = 0\<rparr>], ga_pricing = Some ([], 300000)\<rparr>"
  have c: "getCost (gw_gate old_gateway_env) (gate_method (gq_body (sample_gateway_request\<lparr>gq_body := Some (JArr [])\<rparr>))) (gs_gate old_gateway) =
      (Some DEFAULT_COST_USDT, ?g)"
    by (simp add: old_gateway_env_def old_gateway_def gateway_sample getCost_def getPricing_def gate_method_def or_json_def object_prototype_def)
  have p: "pays DEFAULT_COST_USDT (map lower ''0xab'') \<lparr>cb_wallet = ''0xab'', cb_balance = 1, cb_spent = 0\<rparr>"
    by (simp add: pays_def DEFAULT_COST_USDT_def)
  have r: "request_refused old_gateway_env (sample_gateway_request\<lparr>gq_body := Some (JArr [])\<rparr>) = Some (reply_of 400 BatchBody)"
    by (simp add: request_refused_def body_refused_def old_gateway_env_def gateway_sample truthy_def SUPPORTED_CHAINS_def
        getSupportedChains_def PROVIDER_CONFIGS_def)
  have "post_chain old_gateway_env (sample_gateway_request\<lparr>gq_body := Some (JArr [])\<rparr>) old_gateway =
      (reply_of 400 BatchBody, old_gateway\<lparr>gs_gate := ?g\<lparr>ga_rows := credit_update DEFAULT_COST_USDT (map lower ''0xab'') (ga_rows ?g)\<rparr>\<rparr>)"
    by (rule legacy_gate_charges_refused [where k = "''sk_1''" and a = "sample_account\<lparr>ac_wallet := Some ''0xab''\<rparr>", OF _ _ _ _ _ _ _ _ c _ p r])
      (simp_all add: old_gateway_env_def old_gateway_def sample_gateway_request_def no_capacity_def put_account_def empty_billing_def)
  with p show ?thesis by (simp add: credit_update_def)
qed

end
