(* ===== verification/Gateway_Types.thy ===== *)
theory Gateway_Types
  imports Gateway_Billing
begin

text \<open>
  The tables and maps behind the RPC endpoint are keyed: a key occurs once. Every operation keeps this, on every branch and with
  every failure, so that the look-ups of the model are those of a table with a primary key.
\<close>

section \<open>Billing tables\<close>

definition billing_keyed :: "billing \<Rightarrow> bool" where
  "billing_keyed b \<longleftrightarrow> mwf (bi_accounts b) \<and> mwf (bi_usage b) \<and> mwf (bi_plans b) \<and> mwf (bi_counters b)"

lemma keyed_put [simp]: "billing_keyed b \<Longrightarrow> billing_keyed (put_account k a b)"
  by (simp add: billing_keyed_def put_account_def)

lemma keyed_meter [simp]: "billing_keyed b \<Longrightarrow> billing_keyed (meter k d c b)"
  by (simp add: billing_keyed_def meter_def split: prod.split)

lemma keyed_consume: "billing_keyed b \<Longrightarrow> consumePlanBucket now k b = (r, b') \<Longrightarrow> billing_keyed b'"
  by (auto simp: billing_keyed_def consumePlanBucket_def split: option.splits if_splits)

lemma keyed_return: "billing_keyed b \<Longrightarrow> billing_keyed (returnPlanBucketCall k b)"
  by (auto simp: billing_keyed_def returnPlanBucketCall_def split: option.splits)

lemma keyed_touch: "billing_keyed b \<Longrightarrow> billing_keyed (touch_last_used now k b)"
  by (simp add: touch_last_used_def split: option.split)

lemma keyed_deduct: "billing_keyed b \<Longrightarrow> deduct product now cost k b = Some (bal, b') \<Longrightarrow> billing_keyed b'"
  by (auto simp: deduct_def split: option.splits if_splits)

lemma keyed_capped: "billing_keyed b \<Longrightarrow> capped cap key cost b = Some b' \<Longrightarrow> billing_keyed b'"
  by (auto simp: capped_def bump_counter_def billing_keyed_def split: option.splits if_splits)

lemma keyed_counters: "billing_keyed b \<Longrightarrow> spend_counters ce k tz ag acct cost b = Inr b' \<Longrightarrow> billing_keyed b'"
  by (auto simp: spend_counters_def split: option.splits prod.splits) (metis keyed_capped)+

lemma keyed_limits:
  assumes "billing_keyed b" and "deductWithAccountLimits ce k cost product b = (r, b')"
  shows "billing_keyed b'"
proof -
  have "billing_keyed b1 \<Longrightarrow> billing_keyed b2" if "deduct product now c k b1 = Some (bal, b2)" for b1 b2 c now bal
    using that keyed_deduct by blast
  with assms show ?thesis
    by (auto simp: deductWithAccountLimits_def Let_def intro!: keyed_touch dest!: keyed_counters [OF assms(1)]
        split: if_splits option.splits sum.splits prod.splits)
qed

lemma keyed_charge_account:
  assumes "billing_keyed b" and "charge_account ce k a mp product b = (r, b')"
  shows "billing_keyed b'"
proof -
  define ub where "ub = (product = ''intelligence'' \<and> costFor (ce_freeZero ce) a mp > 0 \<and> ce_bucket ce)"
  obtain dr b1 where d: "(if ub then consumePlanBucket (ce_now ce) k b else (None, b)) = (dr, b1)" by fastforce
  have b1: "billing_keyed b1" using d assms(1) by (auto dest: keyed_consume split: if_splits)
  show ?thesis using assms d b1
    by (auto simp: charge_account_def Let_def ub_def [symmetric] intro: keyed_touch keyed_return
        dest: keyed_limits [OF b1] keyed_deduct [OF b1] split: if_splits option.splits prod.splits sum.splits)
qed

lemma keyed_authorize:
  assumes "billing_keyed b" and "authorizeAndMeter ce apiKey wallet mp product b = (r, b')"
  shows "billing_keyed b'"
  using assms by (auto simp: authorizeAndMeter_def dest: keyed_charge_account split: if_splits sum.splits prod.splits)

section \<open>Capacity tables\<close>

definition capacity_keyed :: "capacity \<Rightarrow> bool" where
  "capacity_keyed c \<longleftrightarrow> billing_keyed (cp_billing c) \<and> mwf (cp_auths c) \<and> mwf (cp_draws c) \<and> mwf (cp_settlements c)"

lemma keyed_insert_if_absent [simp]: "mwf m \<Longrightarrow> mwf (snd (insert_if_absent k v m))"
  by (simp add: insert_if_absent_def split: option.split)

lemma keyed_draw: "capacity_keyed s \<Longrightarrow> insertDraw cx p i f amount idem s = Some s' \<Longrightarrow> capacity_keyed s'"
  by (auto simp: insertDraw_def capacity_keyed_def Let_def split: option.splits)

lemma keyed_enforceNew:
  assumes "capacity_keyed s" and "enforceNew cx apiKey wallet rid s = (r, s')"
  shows "capacity_keyed s'"
proof -
  have "capacity_keyed (s\<lparr>cp_auths := mset_key i u (cp_auths s)\<rparr>)" for i u using assms(1) by (simp add: capacity_keyed_def)
  note d = keyed_draw [OF this]
  show ?thesis using assms by (auto simp: enforceNew_def Let_def dest: d split: if_splits option.splits prod.splits)
qed

lemma keyed_prepaid: "capacity_keyed s \<Longrightarrow> prepaid cx apiKey wallet product s = (r, s') \<Longrightarrow> capacity_keyed s'"
  by (auto simp: prepaid_def capacity_keyed_def dest: keyed_authorize split: prod.splits)

lemma keyed_parity [simp]: "capacity_keyed (s\<lparr>cp_parity := p\<rparr>) = capacity_keyed s"
  by (simp add: capacity_keyed_def)

lemma keyed_enforce:
  assumes "capacity_keyed s" and "enforceCapacity cx path apiKey wallet rid product s = (r, s')"
  shows "capacity_keyed s'"
proof -
  obtain r1 s1 where p: "prepaid cx apiKey wallet product s = (r1, s1)" by fastforce
  have k: "capacity_keyed s1" by (rule keyed_prepaid [OF assms(1) p])
  show ?thesis using assms(2) p k
    by (cases path) (auto simp: enforceCapacity_def Let_def dest: keyed_enforceNew [OF k] split: sum.splits prod.splits if_splits)
qed

section \<open>The state of the endpoint\<close>

definition gateway_keyed :: "gateway \<Rightarrow> bool" where
  "gateway_keyed s \<longleftrightarrow> capacity_keyed (gs_capacity s) \<and> mwf (li_keys (gs_limiter s)) \<and> mwf (li_usage (gs_limiter s)) \<and>
     mwf (ca_data (gs_cache s)) \<and> mwf (rv_dedup (gs_revenue s)) \<and> mwf (rv_requests (gs_revenue s)) \<and> mwf (rv_revenue (gs_revenue s))"

lemma keyed_expiring [simp]: "mwf r \<Longrightarrow> mwf (redis_set_ex now k v ttl r)"
  by (simp add: redis_set_ex_def)

lemma keyed_usage_of:
  assumes "usage_of sha up now k ip l = (x, l')" and "mwf (li_keys l)" and "mwf (li_usage l)"
  shows "mwf (li_keys l') \<and> mwf (li_usage l')"
  using assms by (auto simp: usage_of_def getApiKeyInfo_def split: option.splits if_splits prod.splits)

lemma keyed_rate_gate:
  assumes "gateway_keyed s" and "rate_gate w q s = (r, s')"
  shows "gateway_keyed s'"
proof -
  define keyed where "keyed l \<longleftrightarrow> mwf (li_keys l) \<and> mwf (li_usage l)" for l :: limiter
  have c: "keyed l'" if "keyed l" "checkRateLimit sha up rd now k ip l = (v, l')" for sha up rd now k ip l v l'
    using that keyed_usage_of unfolding keyed_def
    by (auto simp: checkRateLimit_def Let_def split: prod.splits option.splits if_splits)
  have i: "keyed (incrementUsage sha up now k ip l)" if "keyed l" for sha up now k ip l
    using that keyed_usage_of unfolding keyed_def
    by (auto simp: incrementUsage_def Let_def split: prod.splits if_splits)
  have g: "gateway_keyed (s\<lparr>gs_limiter := l\<rparr>)" if "keyed l" for l
    using assms(1) that by (simp add: gateway_keyed_def keyed_def)
  have k: "keyed (gs_limiter s)" using assms(1) by (simp add: gateway_keyed_def keyed_def)
  show ?thesis using assms(2)
    by (auto simp: rate_gate_def Let_def intro!: g i intro: k dest: c [OF k] split: if_splits prod.splits option.splits)
qed

lemma keyed_denial: "gateway_keyed s \<Longrightarrow> sendBillingDenial w q d s = (rep, s') \<Longrightarrow> gateway_keyed s'"
  by (auto simp: gateway_keyed_def dest: denial_frame)

lemma keyed_preflight: "gateway_keyed s \<Longrightarrow> preflight w q s = (r, s') \<Longrightarrow> gateway_keyed s'"
  by (auto simp: preflight_def dest: keyed_denial split: sum.splits option.splits prod.splits)

lemma keyed_charge:
  assumes "gateway_keyed s" and "chargeServedCall w q s = (r, s')" and "\<And>c. capacity_keyed c \<Longrightarrow> capacity_keyed (gw_meanwhile w c)"
  shows "gateway_keyed s'"
proof -
  obtain x c where e: "enforceCapacity (gw_post w) (gw_postPath w) (gq_apiKey q) (walletForBilling q) (Some (request_id w)) ''rpc''
      (gw_meanwhile w (gs_capacity s)) = (x, c)" by fastforce
  have "capacity_keyed c" using keyed_enforce [OF _ e] assms(1,3) by (simp add: gateway_keyed_def)
  then have "gateway_keyed (s\<lparr>gs_capacity := c\<rparr>)" using assms(1) by (simp add: gateway_keyed_def)
  with e assms(1,2) keyed_denial show ?thesis
    by (auto simp: chargeServedCall_def Let_def split: if_splits sum.splits prod.splits)
qed

lemma keyed_record: "gateway_keyed s \<Longrightarrow> gateway_keyed (record_revenue w q m src billed s)"
  by (simp add: gateway_keyed_def record_revenue_def recordRpcRevenue_def Let_def)

lemma keyed_cache [simp]: "mwf (ca_data c) \<Longrightarrow> mwf (ca_data (setCached sha up now chain m ps r c))"
  by (simp add: setCached_def split: option.split)

lemma keyed_serve_cached:
  assumes "gateway_keyed s" and "serve_cached w q m v s = (rep, s')" and "\<And>c. capacity_keyed c \<Longrightarrow> capacity_keyed (gw_meanwhile w c)"
  shows "gateway_keyed s'"
proof -
  obtain o' s1 where c: "chargeServedCall w q s = (o', s1)" by fastforce
  have "gateway_keyed s1" by (rule keyed_charge [OF assms(1) c assms(3)])
  with c assms(2) show ?thesis by (auto simp: serve_cached_def intro: keyed_record split: sum.splits)
qed

lemma keyed_serve_upstream:
  assumes "gateway_keyed s" and "serve_upstream w q payload m ps s = (rep, s')"
    and "\<And>c. capacity_keyed c \<Longrightarrow> capacity_keyed (gw_meanwhile w c)"
  shows "gateway_keyed s'"
proof -
  obtain r rt where r: "routeRpcRequest (gw_route w) (gq_chain q) \<lparr>rq_method' = m, rq_params' = Some ps, rq_id' = jget ''id'' payload\<rparr>
         \<lparr>op_apiKey = gq_apiKey q, op_requestId = Some (request_id w), op_billedUsdt = Some 0\<rparr> (gs_route s) = (r, rt)" by fastforce
  have b: "gateway_keyed (s\<lparr>gs_route := rt\<rparr>)" using assms(1) by (simp add: gateway_keyed_def)
  obtain o' s1 where c: "chargeServedCall w q (s\<lparr>gs_route := rt\<rparr>) = (o', s1)" by fastforce
  have k: "gateway_keyed s1" by (rule keyed_charge [OF b c assms(3)])
  then have "gateway_keyed (s1\<lparr>gs_cache := setCached sha up now chain m ps v (gs_cache s1)\<rparr>)" for sha up now chain v
    by (simp add: gateway_keyed_def)
  with r c b k assms(2) show ?thesis
    by (auto simp: serve_upstream_def intro: keyed_record split: sum.splits prod.splits)
qed

lemma keyed_serve:
  assumes "gateway_keyed s" and "serve w q payload s = (rep, s')" and "\<And>c. capacity_keyed c \<Longrightarrow> capacity_keyed (gw_meanwhile w c)"
  shows "gateway_keyed s'"
proof -
  define m where "m = js_string (coalesce (jget ''method'' payload) JNull)"
  define ps where "ps = the (or_json (jget ''params'' payload) (Some (JArr [])))"
  obtain c ca where g: "getCached (gw_sha w) (gw_up w) (gw_now w) (gq_chain q) m ps (gs_cache s) = (c, ca)" by fastforce
  then have "ca_data ca = ca_data (gs_cache s)" by (auto simp: getCached_def split: if_splits option.splits)
  with assms(1) have k: "gateway_keyed (s\<lparr>gs_cache := ca\<rparr>)" by (simp add: gateway_keyed_def)
  have "(\<exists>v. serve_cached w q m v (s\<lparr>gs_cache := ca\<rparr>) = (rep, s')) \<or> serve_upstream w q payload m ps (s\<lparr>gs_cache := ca\<rparr>) = (rep, s')"
    using assms(2) g by (auto simp: serve_def Let_def m_def [symmetric] ps_def [symmetric] split: option.splits if_splits)
  with keyed_serve_cached [OF k _ assms(3)] keyed_serve_upstream [OF k _ assms(3)] show ?thesis by blast
qed

section \<open>Property\<close>



end
