(* ===== verification/Deposit_Listener.thy ===== *)
theory Deposit_Listener
  imports Credit_Service
begin

text \<open>
  How deposits on the chain become credit: \<^verbatim>\<open>billing/deposit_validation.mjs\<close> and the watcher
  \<^verbatim>\<open>services/deposit_listener.js\<close>. The watcher scans the confirmed blocks in chunks from a cursor and hands
  each event to the credit service. The confirmed part of the chain does not change; it is a list of
  events. Which queries to the provider and to the database succeed are arguments of a poll.
\<close>

section \<open>Validation\<close>

definition MIN_CONFIRMATIONS :: int where "MIN_CONFIRMATIONS = 25"

definition KEY_PREFIXES :: "string list" where
  "KEY_PREFIXES = [''sk_free'', ''sk_basic'', ''sk_pro'', ''sk_ent'', ''sk_live'']"

definition extractApiKey :: "string option \<Rightarrow> string option \<Rightarrow> string" where
  "extractApiKey fromHeader fromBody = trim (or_str fromHeader (or_str fromBody []))"

definition isValidKeyFormat :: "string \<Rightarrow> bool" where
  "isValidKeyFormat key = list_ex (\<lambda>p. take (length p) key = p) KEY_PREFIXES"

text \<open>\<open>None\<close>: the sender owns the wallet.\<close>

definition checkDepositOwnership :: "string option \<Rightarrow> string option \<Rightarrow> string option" where
  "checkDepositOwnership fromAddress walletAddress =
     (if trim (coalesce walletAddress []) = [] then Some ''wallet_not_registered''
      else if trim (coalesce fromAddress []) = [] then Some ''sender_unknown''
      else if map lower (the fromAddress) \<noteq> map lower (the walletAddress) then Some ''wallet_mismatch'' else None)"

definition confirmationCount :: "int \<Rightarrow> int \<Rightarrow> int" where
  "confirmationCount currentBlock receiptBlock = currentBlock - receiptBlock + 1"

definition hasEnoughConfirmations :: "int option \<Rightarrow> int option \<Rightarrow> int \<Rightarrow> bool" where
  "hasEnoughConfirmations currentBlock receiptBlock n =
     (case (currentBlock, receiptBlock) of (Some c, Some r) \<Rightarrow> confirmationCount c r \<ge> n | _ \<Rightarrow> False)"

section \<open>State of the watcher\<close>

text \<open>An event \<open>Deposited(from, amount)\<close>; the amount is in units of a millionth.\<close>

record deposit_event =
  dv_from :: string
  dv_amount :: nat
  dv_tx :: string
  dv_block :: int

text \<open>\<open>dl_cursor\<close>: the row of \<open>deposit_scan_cursor\<close>; \<open>dl_ready\<close>: that table exists; \<open>dl_seen\<close>: the table \<open>credit_deposits\<close>.\<close>

record seen_row =
  sn_wallet :: string
  sn_amount :: rat
  sn_block :: int

record listener =
  dl_lastScanned :: int
  dl_ready :: bool
  dl_cursor :: "int option"
  dl_seen :: "(string, seen_row) jsmap"
  dl_billing :: billing

record listener_opts =
  lo_confirmations :: int
  lo_logChunk :: int
  lo_maxBlocksPerPoll :: int
  lo_initialLookback :: int

text \<open>\<open>le_query s\<close>: the provider answers for the chunk that starts at \<open>s\<close>; \<open>le_written\<close>: the cursor is stored; \<open>le_lookup\<close>,
  \<open>le_insert\<close>: the statements on \<open>credit_deposits\<close> succeed for a transaction.\<close>

record listener_env =
  le_opts :: listener_opts
  le_head :: "int option"
  le_cursorRead :: bool
  le_highWater :: bool
  le_query :: "int \<Rightarrow> bool"
  le_written :: "int \<Rightarrow> bool"
  le_lookup :: "string \<Rightarrow> bool"
  le_insert :: "string \<Rightarrow> bool"
  le_charge :: charge_env
  le_minDeposit :: rat

text \<open>The constructor raises a window that could not keep up with the chain, two seconds a block.\<close>

definition catchUpFloor :: "nat \<Rightarrow> int" where
  "catchUpFloor pollIntervalMs = \<lceil>2 * (of_nat pollIntervalMs / 2000 :: rat)\<rceil>"

definition clamp_opts :: "nat \<Rightarrow> listener_opts \<Rightarrow> listener_opts" where
  "clamp_opts pollIntervalMs opts =
     (if lo_maxBlocksPerPoll opts < catchUpFloor pollIntervalMs
      then opts\<lparr>lo_maxBlocksPerPoll := catchUpFloor pollIntervalMs\<rparr> else opts)"

section \<open>One event\<close>

definition USDT_UNIT :: rat where "USDT_UNIT = 1000000"

definition creditCanonical :: "listener_env \<Rightarrow> string \<Rightarrow> rat \<Rightarrow> string \<Rightarrow> billing \<Rightarrow> billing" where
  "creditCanonical le wallet amountUsdt txHash b =
     (let ce = le_charge le in
      if \<not> ce_pool ce \<or> ce_fault ce QResolve then b
      else case resolveAccount (ce_sha ce) None (Some wallet) b of
        None \<Rightarrow> b
      | Some (k, a) \<Rightarrow>
          let up = (ac_tier a = ''free'' \<and> amountUsdt \<ge> le_minDeposit le)
          in snd (creditAccount ce None (Some wallet) (Some amountUsdt) (Some txHash) (Some wallet)
               (if up then Some ''basic'' else None) (if up then map_of TIER_DAILY_LIMIT ''basic'' else None) None b))"

text \<open>Every failure is caught and logged; the result says whether a deposit was recorded.\<close>

definition handleDeposit :: "listener_env \<Rightarrow> deposit_event \<Rightarrow> listener \<Rightarrow> bool \<times> listener" where
  "handleDeposit le e l =
     (let wallet = map lower (dv_from e); amountUsdt = of_nat (dv_amount e) / USDT_UNIT; tx = dv_tx e in
      if \<not> le_lookup le tx then (False, l)
      else if map_of (dl_seen l) tx \<noteq> None then (False, l)
      else if \<not> le_insert le tx then (False, l)
      else (True, l\<lparr>dl_seen := mset_key tx \<lparr>sn_wallet = wallet, sn_amount = amountUsdt, sn_block = dv_block e\<rparr> (dl_seen l),
                    dl_billing := creditCanonical le wallet amountUsdt tx (dl_billing l)\<rparr>))"

definition handle_all :: "listener_env \<Rightarrow> deposit_event list \<Rightarrow> listener \<Rightarrow> listener" where
  "handle_all le es l = foldl (\<lambda>l e. snd (handleDeposit le e l)) l es"

section \<open>A poll\<close>

definition dbCursor :: "listener \<Rightarrow> int" where
  "dbCursor l = foldl max 0 (map (\<lambda>x. sn_block (snd x)) (dl_seen l))"

text \<open>\<open>None\<close>: the query for the high-water mark threw.\<close>

definition scanCursor :: "listener_env \<Rightarrow> listener \<Rightarrow> int option" where
  "scanCursor le l =
     (case (if le_cursorRead le then dl_cursor l else None) of
        Some c \<Rightarrow> if c > 0 then Some c else if le_highWater le then Some (dbCursor l) else None
      | None \<Rightarrow> if le_highWater le then Some (dbCursor l) else None)"

definition advanceCursor :: "listener_env \<Rightarrow> int \<Rightarrow> listener \<Rightarrow> listener" where
  "advanceCursor le block l =
     (let l = l\<lparr>dl_lastScanned := max (dl_lastScanned l) block\<rparr> in
      if \<not> dl_ready l \<or> \<not> le_written le block then l
      else l\<lparr>dl_cursor := Some (case dl_cursor l of None \<Rightarrow> block | Some c \<Rightarrow> max c block)\<rparr>)"

definition queryFilter :: "deposit_event list \<Rightarrow> int \<Rightarrow> int \<Rightarrow> deposit_event list" where
  "queryFilter ch s e = filter (\<lambda>ev. s \<le> dv_block ev \<and> dv_block ev \<le> e) ch"

text \<open>One chunk that the provider answered for: its events, then the cursor.\<close>

definition scan_chunk :: "listener_env \<Rightarrow> deposit_event list \<Rightarrow> int \<Rightarrow> int \<Rightarrow> listener \<Rightarrow> listener" where
  "scan_chunk le ch scanTo start l =
     (let e = min (start + lo_logChunk (le_opts le) - 1) scanTo
      in advanceCursor le e (handle_all le (queryFilter ch start e) l))"

text \<open>The loop over the chunks; \<open>False\<close>: the provider failed and the poll is given up. It need not end.\<close>

partial_function (option) scan_chunks ::
  "listener_env \<Rightarrow> deposit_event list \<Rightarrow> int \<Rightarrow> int \<Rightarrow> listener \<Rightarrow> (bool \<times> listener) option" where
  "scan_chunks le ch start scanTo l =
     (if start > scanTo then Some (True, l)
      else if \<not> le_query le start then Some (False, l)
      else scan_chunks le ch (start + lo_logChunk (le_opts le)) scanTo (scan_chunk le ch scanTo start l))"

text \<open>The window of a poll: from, to; \<open>None\<close>: nothing to do.\<close>

definition poll_window :: "listener_env \<Rightarrow> int \<Rightarrow> listener \<Rightarrow> (int \<times> int) option" where
  "poll_window le head l =
     (let o1 = le_opts le; toBlock = head - lo_confirmations o1 in
      if toBlock \<le> 0 then None
      else case scanCursor le l of
        None \<Rightarrow> None
      | Some sc \<Rightarrow>
          let cursor = max sc (dl_lastScanned l);
              fromBlock = (if cursor > 0 then cursor + 1 else max (toBlock - lo_initialLookback o1) 0)
          in if fromBlock > toBlock then None else Some (fromBlock, min toBlock (fromBlock + lo_maxBlocksPerPoll o1 - 1)))"

definition pollOnce :: "listener_env \<Rightarrow> deposit_event list \<Rightarrow> listener \<Rightarrow> (bool \<times> listener) option" where
  "pollOnce le ch l =
     (case le_head le of
        None \<Rightarrow> Some (False, l)
      | Some head \<Rightarrow>
          if head - lo_confirmations (le_opts le) > 0 \<and> scanCursor le l = None then Some (False, l)
          else (case poll_window le head l of None \<Rightarrow> Some (True, l) | Some (a, b) \<Rightarrow> scan_chunks le ch a b l))"

text \<open>A restart forgets what is in memory.\<close>

definition restart_listener :: "bool \<Rightarrow> listener \<Rightarrow> listener" where
  "restart_listener ready l = l\<lparr>dl_lastScanned := 0, dl_ready := ready\<rparr>"

section \<open>The events of a chunk\<close>

definition handles :: "listener_env \<Rightarrow> bool" where
  "handles le \<longleftrightarrow> (\<forall>tx. le_lookup le tx \<and> le_insert le tx)"

lemma handle_frame:
  "dl_lastScanned (snd (handleDeposit le e l)) = dl_lastScanned l" "dl_cursor (snd (handleDeposit le e l)) = dl_cursor l"
  "dl_ready (snd (handleDeposit le e l)) = dl_ready l"
  by (simp_all add: handleDeposit_def Let_def)

lemma handle_all_frame [simp]:
  "dl_lastScanned (handle_all le es l) = dl_lastScanned l" "dl_cursor (handle_all le es l) = dl_cursor l"
  "dl_ready (handle_all le es l) = dl_ready l"
  by (induction es arbitrary: l) (simp_all add: handle_all_def handle_frame)

lemma handle_keeps: "map_of (dl_seen l) t \<noteq> None \<Longrightarrow> map_of (dl_seen (snd (handleDeposit le e l))) t \<noteq> None"
  by (simp add: handleDeposit_def Let_def)

lemma handle_records: "handles le \<Longrightarrow> map_of (dl_seen (snd (handleDeposit le e l))) (dv_tx e) \<noteq> None"
  by (simp add: handleDeposit_def Let_def handles_def)

lemma handle_all_keeps: "map_of (dl_seen l) t \<noteq> None \<Longrightarrow> map_of (dl_seen (handle_all le es l)) t \<noteq> None"
  unfolding handle_all_def by (induction es arbitrary: l) (simp_all add: handle_keeps del: not_None_eq)

lemma handle_all_records:
  assumes "handles le" and "e \<in> set es"
  shows "map_of (dl_seen (handle_all le es l)) (dv_tx e) \<noteq> None"
  using assms(2)
proof (induction es arbitrary: l)
  case (Cons x es)
  have "handle_all le (x # es) l = handle_all le es (snd (handleDeposit le x l))" by (simp add: handle_all_def)
  with Cons handle_all_keeps [OF handle_records [OF assms(1), of x l], of le es] show ?case by (cases "e = x") auto
qed simp

lemma handle_seen: "map_of (dl_seen l) (dv_tx e) \<noteq> None \<Longrightarrow> snd (handleDeposit le e l) = l"
  by (auto simp: handleDeposit_def Let_def)

lemma handle_all_seen: "\<forall>e \<in> set es. map_of (dl_seen l) (dv_tx e) \<noteq> None \<Longrightarrow> handle_all le es l = l"
  unfolding handle_all_def by (induction es) (simp_all add: handle_seen del: not_None_eq)

section \<open>The cursor\<close>

definition reached :: "listener \<Rightarrow> int" where
  "reached l = max (dl_lastScanned l) (coalesce (dl_cursor l) 0)"

lemma advance_frame [simp]: "dl_seen (advanceCursor le b l) = dl_seen l" "dl_billing (advanceCursor le b l) = dl_billing l"
  by (simp_all add: advanceCursor_def Let_def)

lemma advance_reached:
  "reached (advanceCursor le b l) \<le> max (reached l) b" "b \<le> reached (advanceCursor le b l)"
  "dl_cursor l \<noteq> None \<Longrightarrow> reached l \<le> reached (advanceCursor le b l)"
  by (auto simp: advanceCursor_def reached_def Let_def coalesce_def split: option.splits)

lemma reached_handle_all [simp]: "reached (handle_all le es l) = reached l"
  by (simp add: reached_def)

definition covered :: "deposit_event list \<Rightarrow> int \<Rightarrow> listener \<Rightarrow> bool" where
  "covered ch b l \<longleftrightarrow> (\<forall>e \<in> set ch. b < dv_block e \<and> dv_block e \<le> reached l \<longrightarrow> map_of (dl_seen l) (dv_tx e) \<noteq> None)"

lemma chunk_covers:
  assumes "handles le" and "covered ch b l" and "start \<le> reached l + 1"
  shows "covered ch b (scan_chunk le ch scanTo start l)"
proof -
  define e where "e = min (start + lo_logChunk (le_opts le) - 1) scanTo"
  let ?es = "queryFilter ch start e"
  have "map_of (dl_seen (handle_all le ?es l)) (dv_tx ev) \<noteq> None"
    if ev: "ev \<in> set ch" "b < dv_block ev" "dv_block ev \<le> reached (advanceCursor le e (handle_all le ?es l))" for ev
  proof -
    have "dv_block ev \<le> max (reached l) e" using ev(3) advance_reached(1) [of le e "handle_all le ?es l"] by simp
    then have "dv_block ev \<le> reached l \<or> ev \<in> set ?es" using ev(1) assms(3) by (auto simp: queryFilter_def)
    then show ?thesis
    proof
      assume "dv_block ev \<le> reached l"
      then have "map_of (dl_seen l) (dv_tx ev) \<noteq> None" using assms(2) ev unfolding covered_def by blast
      then show ?thesis by (rule handle_all_keeps)
    qed (rule handle_all_records [OF assms(1)])
  qed
  then show ?thesis unfolding covered_def scan_chunk_def Let_def e_def [symmetric] advance_frame(1) by blast
qed

lemma chunk_cursor:
  assumes "dl_cursor l = Some c" and "0 < c"
  shows "\<exists>d. dl_cursor (scan_chunk le ch scanTo start l) = Some d \<and> 0 < d"
  using assms by (auto simp: scan_chunk_def advanceCursor_def Let_def)

lemma chunk_reached:
  "reached (scan_chunk le ch scanTo start l) \<le> max (reached l) scanTo"
  "min (start + lo_logChunk (le_opts le) - 1) scanTo \<le> reached (scan_chunk le ch scanTo start l)"
  "dl_cursor l \<noteq> None \<Longrightarrow> reached l \<le> reached (scan_chunk le ch scanTo start l)"
proof -
  define e where "e = min (start + lo_logChunk (le_opts le) - 1) scanTo"
  note a = advance_reached [where le = le and b = e and l = "handle_all le (queryFilter ch start e) l"]
  have "e \<le> scanTo" by (simp add: e_def)
  with a(1) show "reached (scan_chunk le ch scanTo start l) \<le> max (reached l) scanTo"
    by (simp add: scan_chunk_def Let_def e_def [symmetric])
  show "min (start + lo_logChunk (le_opts le) - 1) scanTo \<le> reached (scan_chunk le ch scanTo start l)"
    using a(2) by (simp add: scan_chunk_def Let_def e_def [symmetric])
  show "reached l \<le> reached (scan_chunk le ch scanTo start l)" if "dl_cursor l \<noteq> None"
    using a(3) that by (simp add: scan_chunk_def Let_def e_def [symmetric])
qed

section \<open>The loop\<close>

lemma scan_induct [consumes 1, case_names stop chunk]:
  assumes "scan_chunks le ch start scanTo l = Some res"
    and stop: "\<And>start l. scanTo < start \<or> \<not> le_query le start \<Longrightarrow> P start l (scanTo < start, l)"
    and chunk: "\<And>start l res. start \<le> scanTo \<Longrightarrow> le_query le start \<Longrightarrow>
      P (start + lo_logChunk (le_opts le)) (scan_chunk le ch scanTo start l) res \<Longrightarrow> P start l res"
  shows "P start l res"
proof -
  have "le' = le \<longrightarrow> ch' = ch \<longrightarrow> to = scanTo \<longrightarrow> P st l' r" if "scan_chunks le' ch' st to l' = Some r" for le' ch' st to l' r
  proof (rule scan_chunks.raw_induct [OF _ that], intro impI)
    fix scan le' ch' st to l' r
    assume ih: "\<And>le' ch' st to l' r. scan le' ch' st to l' = Some r \<Longrightarrow> le' = le \<longrightarrow> ch' = ch \<longrightarrow> to = scanTo \<longrightarrow> P st l' r"
      and eq: "(if to < st then Some (True, l') else if \<not> le_query le' st then Some (False, l')
        else scan le' ch' (st + lo_logChunk (le_opts le')) to (scan_chunk le' ch' to st l')) = Some r"
      and same: "le' = le" "ch' = ch" "to = scanTo"
    show "P st l' r"
    proof (cases "scanTo < st \<or> \<not> le_query le st")
      case True
      with eq same have "r = (scanTo < st, l')" by (auto split: if_splits)
      with stop [OF True] show ?thesis by simp
    next
      case False
      with eq same have "scan le ch (st + lo_logChunk (le_opts le)) scanTo (scan_chunk le ch scanTo st l') = Some r" by simp
      from ih [OF this] have "P (st + lo_logChunk (le_opts le)) (scan_chunk le ch scanTo st l') r" by blast
      from chunk [OF _ _ this] False show ?thesis by simp
    qed
  qed
  with assms(1) show ?thesis by blast
qed

lemma scan_covers:
  assumes "scan_chunks le ch start scanTo l = Some res" and "handles le"
    and "covered ch b l" and "start \<le> scanTo \<Longrightarrow> start \<le> reached l + 1" and "dl_cursor l = Some c" and "0 < c"
  shows "covered ch b (snd res) \<and> (\<exists>d. dl_cursor (snd res) = Some d \<and> 0 < d)"
  using assms(1,3-)
proof (induction arbitrary: c rule: scan_induct)
  case (chunk start l res)
  have "start + lo_logChunk (le_opts le) \<le> reached (scan_chunk le ch scanTo start l) + 1" if "start + lo_logChunk (le_opts le) \<le> scanTo"
    using chunk_reached(2) [of start le scanTo ch l] that by simp
  moreover obtain d where "dl_cursor (scan_chunk le ch scanTo start l) = Some d" "0 < d"
    using chunk_cursor [OF chunk.prems(3,4)] by blast
  ultimately show ?case using chunk.IH chunk_covers [OF assms(2) chunk.prems(1)] chunk.prems(2) chunk.hyps(1) by blast
qed simp

text \<open>The loop ends when a chunk is not empty, and otherwise never unless the provider fails.\<close>

lemma scan_ends:
  assumes "1 \<le> lo_logChunk (le_opts le)"
  shows "\<exists>res. scan_chunks le ch start scanTo l = Some res"
proof (induction "nat (scanTo + 1 - start)" arbitrary: start l rule: less_induct)
  case less
  show ?case
  proof (cases "start > scanTo \<or> \<not> le_query le start")
    case True
    then show ?thesis by (auto simp: scan_chunks.simps [of le ch start])
  next
    case False
    then have "nat (scanTo + 1 - (start + lo_logChunk (le_opts le))) < nat (scanTo + 1 - start)" using assms by linarith
    from less [OF this] False show ?thesis by (simp add: scan_chunks.simps [of le ch start])
  qed
qed

lemma scan_stuck:
  assumes "scan_chunks le ch start scanTo l = Some res" and "lo_logChunk (le_opts le) \<le> 0" and "\<forall>s. le_query le s"
  shows "scanTo < start"
  using assms(1) by (induction rule: scan_induct) (use assms(2,3) in auto)

lemma scan_reaches:
  assumes "scan_chunks le ch start scanTo l = Some res" and "\<forall>s. le_query le s" and "dl_cursor l \<noteq> None"
  shows "(start \<le> scanTo \<longrightarrow> scanTo \<le> reached (snd res)) \<and> reached l \<le> reached (snd res) \<and> dl_cursor (snd res) \<noteq> None \<and> fst res"
  using assms(1,3)
proof (induction rule: scan_induct)
  case (chunk start l res)
  have c: "dl_cursor (scan_chunk le ch scanTo start l) \<noteq> None"
    using chunk.prems by (simp add: scan_chunk_def advanceCursor_def Let_def)
  from chunk.IH [OF c] chunk_reached(2,3) [where start = start and le = le and scanTo = scanTo and ch = ch and l = l] chunk.prems show ?case by (auto simp: min_def split: if_splits)
qed (use assms(2) in auto)

section \<open>Polls and restarts\<close>

text \<open>With a cursor row that is read, a poll resumes right behind what was reached.\<close>

lemma window_resumes:
  assumes "poll_window le head l = Some (a, b)" and "le_cursorRead le" and "dl_cursor l = Some c" and "0 < c"
  shows "a = reached l + 1 \<and> b = min (head - lo_confirmations (le_opts le)) (reached l + lo_maxBlocksPerPoll (le_opts le)) \<and>
    reached l < head - lo_confirmations (le_opts le)"
  using assms by (auto simp: poll_window_def scanCursor_def reached_def Let_def max_def split: if_splits)

text \<open>A watcher over the confirmed chain \<open>ch\<close> that began behind block \<open>b\<close>: polls with any failures of the provider and of the
  cursor's own writes, and restarts.\<close>

inductive listening :: "deposit_event list \<Rightarrow> int \<Rightarrow> listener \<Rightarrow> bool" for ch b where
  begun: "reached l \<le> b \<Longrightarrow> dl_cursor l = Some c \<Longrightarrow> 0 < c \<Longrightarrow> listening ch b l"
| polled: "listening ch b l \<Longrightarrow> handles le \<Longrightarrow> le_cursorRead le \<Longrightarrow> pollOnce le ch l = Some (r, l') \<Longrightarrow> listening ch b l'"
| restarted: "listening ch b l \<Longrightarrow> listening ch b (restart_listener ready l)"

lemma poll_covers:
  assumes "pollOnce le ch l = Some (r, l')" and "handles le" and "le_cursorRead le" and "covered ch b l"
    and c: "dl_cursor l = Some c" "0 < c"
  shows "covered ch b l' \<and> (\<exists>d. dl_cursor l' = Some d \<and> 0 < d)"
proof -
  have "l' = l \<or> (\<exists>head f t. poll_window le head l = Some (f, t) \<and> scan_chunks le ch f t l = Some (r, l'))"
    using assms(1) by (auto simp: pollOnce_def split: option.splits if_splits prod.splits)
  then show ?thesis
  proof
    assume "\<exists>head f t. poll_window le head l = Some (f, t) \<and> scan_chunks le ch f t l = Some (r, l')"
    then obtain head f t where w: "poll_window le head l = Some (f, t)" and s: "scan_chunks le ch f t l = Some (r, l')" by blast
    from window_resumes [OF w assms(3) c] have "f \<le> reached l + 1" by simp
    from scan_covers [OF s assms(2,4) this c] show ?thesis by simp
  qed (use assms(4) c in simp)
qed

lemma listening_covers: "listening ch b l \<Longrightarrow> covered ch b l \<and> (\<exists>c. dl_cursor l = Some c \<and> 0 < c)"
proof (induction rule: listening.induct)
  case (begun l c)
  then show ?case by (auto simp: covered_def)
next
  case (polled l le r l')
  from polled.IH obtain c where "covered ch b l" "dl_cursor l = Some c" "0 < c" by blast
  from poll_covers [OF polled.hyps(4,2,3) this] show ?case .
next
  case (restarted l ready)
  then show ?case by (auto simp: restart_listener_def covered_def reached_def)
qed

section \<open>The credit of an event\<close>

definition lifted :: "bool \<Rightarrow> rat \<Rightarrow> account \<Rightarrow> account" where
  "lifted up amount a =
     (let a = a\<lparr>ac_credits := ac_credits a + amount, ac_deposited := ac_deposited a + amount\<rparr>
      in if up then a\<lparr>ac_tier := ''basic'', ac_daily := Some 10000\<rparr> else a)"

lemma lifted_accounts:
  assumes "ce_pool (le_charge le)" and "\<forall>q. \<not> ce_fault (le_charge le) q" and "map_of (bi_deposits b) tx = None" and "tx \<noteq> []"
    and "0 < amount" and "resolveAccount (ce_sha (le_charge le)) None (Some w) b = Some (k, a)" and "map_of (bi_accounts b) k = Some a"
  shows "bi_accounts (creditCanonical le w amount tx b) =
    mset_key k (lifted (ac_tier a = ''free'' \<and> amount \<ge> le_minDeposit le) amount a) (bi_accounts b)"
proof (cases "ac_tier a = ''free'' \<and> amount \<ge> le_minDeposit le")
  case True
  have "map_of TIER_DAILY_LIMIT ''basic'' = Some 10000" by (simp add: TIER_DAILY_LIMIT_def)
  with True assms show ?thesis
    by (simp add: creditCanonical_def creditAccount_def deposit_claim_def deposit_apply_def put_account_def lifted_def
        or_str_def or_null_def truthy_def Let_def)
next
  case False
  with assms show ?thesis
    by (auto simp: creditCanonical_def creditAccount_def deposit_claim_def deposit_apply_def put_account_def lifted_def
        or_str_def or_null_def truthy_def Let_def)
qed

section \<open>Properties\<close>


text \<open>
  One failed statement skips a deposit for good. The failure is caught per event and the cursor moves on: after a poll in
  which the look-up of a transaction failed, its block lies behind the cursor, nothing was recorded or credited, and no later
  poll asks for that block again.\<close>

theorem failed_lookup_skips_deposit:
  assumes "le_head le = Some head" and "le_cursorRead le" and "\<forall>s. le_query le s" and "dl_cursor l = Some c" and "0 < c"
    and "\<not> le_lookup le (dv_tx e)" and "poll_window le head l = Some (f, t)" and "f \<le> dv_block e" and "dv_block e \<le> t"
    and "1 \<le> lo_logChunk (le_opts le)" and "le_cursorRead le'"
  shows "\<exists>l'. pollOnce le [e] l = Some (True, l') \<and> dl_seen l' = dl_seen l \<and> dl_billing l' = dl_billing l \<and>
    (\<forall>head' f' t'. poll_window le' head' l' = Some (f', t') \<longrightarrow> dv_block e < f')"
proof -
  obtain r l' where s: "scan_chunks le [e] f t l = Some (r, l')" using scan_ends [OF assms(10)] by (metis surj_pair)
  have c: "dl_cursor l \<noteq> None" using assms(4) by simp
  have "f \<le> t" using assms(8,9) by simp
  with scan_reaches [OF s assms(3) c] have reach: "t \<le> reached l'" and r by auto
  have h: "snd (handleDeposit le e l1) = l1" for l1 using assms(6) by (simp add: handleDeposit_def Let_def)
  have same: "dl_seen l' = dl_seen l \<and> dl_billing l' = dl_billing l" and row: "\<exists>d. dl_cursor l' = Some d \<and> 0 < d"
  proof -
    have q: "handle_all le (queryFilter [e] a b) l1 = l1" for a b l1 by (simp add: handle_all_def queryFilter_def h)
    have "dl_seen (snd res) = dl_seen l1 \<and> dl_billing (snd res) = dl_billing l1 \<and>
        ((\<exists>d. dl_cursor l1 = Some d \<and> 0 < d) \<longrightarrow> (\<exists>d. dl_cursor (snd res) = Some d \<and> 0 < d))"
      if "scan_chunks le [e] st t l1 = Some res" for st l1 res
      using that
    proof (induction rule: scan_induct)
      case (chunk start l1 res)
      then show ?case using chunk_cursor [of l1 _ le "[e]" t start] by (auto simp: scan_chunk_def Let_def q)
    qed simp
    from this [OF s] assms(4,5) show "dl_seen l' = dl_seen l \<and> dl_billing l' = dl_billing l" "\<exists>d. dl_cursor l' = Some d \<and> 0 < d" by auto
  qed
  obtain d where d: "dl_cursor l' = Some d" "0 < d" using row by blast
  have "dv_block e < f'" if "poll_window le' head' l' = Some (f', t')" for head' f' t'
    using window_resumes [OF that assms(11) d] reach assms(9) by simp
  moreover have "pollOnce le [e] l = Some (True, l')"
    using assms(1,2,4,5,7) s \<open>r\<close> by (simp add: pollOnce_def scanCursor_def)
  ultimately show ?thesis using same by blast
qed


text \<open>
  An event becomes exactly its amount of credit. An event whose transaction is new, from a wallet with an account, adds its
  amount to the balance of the oldest account of that wallet and to nothing else; a free account is lifted to the tier
  \<open>basic\<close> if the amount is the minimum or more; handling the event again, with whatever failures, changes nothing.\<close>

theorem event_credited_once:
  assumes "handles le" and "ce_pool (le_charge le)" and "\<forall>q. \<not> ce_fault (le_charge le) q" and "mwf (bi_accounts (dl_billing l))"
    and "map_of (dl_seen l) (dv_tx e) = None" and "map_of (bi_deposits (dl_billing l)) (dv_tx e) = None" and "dv_tx e \<noteq> []"
    and "0 < dv_amount e" and "resolveAccount (ce_sha (le_charge le)) None (Some (map lower (dv_from e))) (dl_billing l) = Some (k, a)"
  shows "\<exists>l' a'. handleDeposit le e l = (True, l') \<and> bi_accounts (dl_billing l') = mset_key k a' (bi_accounts (dl_billing l)) \<and>
    ac_credits a' = ac_credits a + of_nat (dv_amount e) / USDT_UNIT \<and>
    ac_tier a' = (if ac_tier a = ''free'' \<and> of_nat (dv_amount e) / USDT_UNIT \<ge> le_minDeposit le then ''basic'' else ac_tier a) \<and>
    snd (handleDeposit le' e l') = l'"
proof -
  have m: "map_of (bi_accounts (dl_billing l)) k = Some a" by (rule resolve_found [OF assms(9,4)])
  have pos: "0 < of_nat (dv_amount e) / USDT_UNIT" using assms(8) by (simp add: USDT_UNIT_def)
  from lifted_accounts [OF assms(2,3,6,7) pos assms(9) m] show ?thesis using assms(1,5)
    by (intro exI conjI) (auto simp: handleDeposit_def handles_def Let_def lifted_def)
qed

text \<open>
  C37: a poll ends exactly when its chunks are not empty. With a window to scan and a provider that answers, the loop over the chunks
  returns if the configured chunk is at least one block; with a chunk of zero or fewer it never does.\<close>

theorem poll_ends_iff:
  assumes "le_head le = Some head" and "poll_window le head l = Some (f, t)" and "f \<le> t" and "\<forall>s. le_query le s"
    and "scanCursor le l \<noteq> None"
  shows "(\<exists>res. pollOnce le ch l = Some res) \<longleftrightarrow> 1 \<le> lo_logChunk (le_opts le)"
proof -
  have p: "pollOnce le ch l = scan_chunks le ch f t l" using assms(1,2,5) by (auto simp: pollOnce_def)
  show ?thesis
  proof
    assume "\<exists>res. pollOnce le ch l = Some res"
    then obtain res where "scan_chunks le ch f t l = Some res" using p by auto
    from scan_stuck [OF this _ assms(4)] assms(3) show "1 \<le> lo_logChunk (le_opts le)" by linarith
  next
    assume "1 \<le> lo_logChunk (le_opts le)"
    from scan_ends [OF this] p show "\<exists>res. pollOnce le ch l = Some res" by simp
  qed
qed

section \<open>Witnesses\<close>

definition sample_opts :: listener_opts where
  "sample_opts = \<lparr>lo_confirmations = 25, lo_logChunk = 50, lo_maxBlocksPerPoll = 1000, lo_initialLookback = 10000\<rparr>"

definition sample_poll :: listener_env where
  "sample_poll = \<lparr>le_opts = sample_opts, le_head = Some 200, le_cursorRead = True, le_highWater = True, le_query = (\<lambda>_. True),
     le_written = (\<lambda>_. True), le_lookup = (\<lambda>_. True), le_insert = (\<lambda>_. True), le_charge = sample_charge, le_minDeposit = 1 / 2\<rparr>"

definition sample_wallet :: string where
  "sample_wallet = ''0x'' @ replicate 40 (CHR ''a'')"

definition sample_event :: deposit_event where
  "sample_event = \<lparr>dv_from = sample_wallet, dv_amount = 2000000, dv_tx = ''0xt'', dv_block = 120\<rparr>"

definition sample_listener :: listener where
  "sample_listener = \<lparr>dl_lastScanned = 0, dl_ready = True, dl_cursor = Some 100, dl_seen = [],
     dl_billing = empty_billing\<lparr>bi_accounts := [(''sk_1'', sample_account\<lparr>ac_wallet := Some sample_wallet, ac_tier := ''free''\<rparr>)]\<rparr>\<rparr>"

lemma sample_window: "poll_window sample_poll 200 sample_listener = Some (101, 175)"
  by (simp add: poll_window_def scanCursor_def sample_poll_def sample_opts_def sample_listener_def)

lemma sample_handles: "handles sample_poll"
  by (simp add: handles_def sample_poll_def)

lemma sample_polled: "\<exists>l. pollOnce sample_poll ch sample_listener = Some (True, l) \<and> 175 \<le> reached l"
proof -
  have "1 \<le> lo_logChunk (le_opts sample_poll)" by (simp add: sample_poll_def sample_opts_def)
  from scan_ends [OF this] obtain r l where s: "scan_chunks sample_poll ch 101 175 sample_listener = Some (r, l)" by (metis surj_pair)
  have "\<forall>s. le_query sample_poll s" "dl_cursor sample_listener \<noteq> None" by (simp_all add: sample_poll_def sample_listener_def)
  with scan_reaches [OF s this] have "r" "175 \<le> reached l" by simp_all
  moreover have "pollOnce sample_poll ch sample_listener = Some (r, l)"
    using s sample_window by (simp add: pollOnce_def scanCursor_def sample_poll_def sample_listener_def)
  ultimately show ?thesis by auto
qed


theorem failed_lookup_skips_deposit_witness:
  "\<exists>l'. pollOnce (sample_poll\<lparr>le_lookup := (\<lambda>_. False)\<rparr>) [sample_event] sample_listener = Some (True, l') \<and> dl_seen l' = [] \<and>
     dl_billing l' = dl_billing sample_listener"
proof -
  have "poll_window (sample_poll\<lparr>le_lookup := (\<lambda>_. False)\<rparr>) 200 sample_listener = Some (101, 175)"
    by (simp add: poll_window_def scanCursor_def sample_poll_def sample_opts_def sample_listener_def)
  then have "\<exists>l'. pollOnce (sample_poll\<lparr>le_lookup := (\<lambda>_. False)\<rparr>) [sample_event] sample_listener = Some (True, l') \<and>
      dl_seen l' = dl_seen sample_listener \<and> dl_billing l' = dl_billing sample_listener \<and>
      (\<forall>head' f' t'. poll_window sample_poll head' l' = Some (f', t') \<longrightarrow> dv_block sample_event < f')"
    by (intro failed_lookup_skips_deposit [where head = 200 and f = 101 and t = 175 and c = 100])
      (simp_all add: sample_poll_def sample_opts_def sample_listener_def sample_event_def)
  then show ?thesis by (auto simp: sample_listener_def)
qed

definition idle_listener :: listener where
  "idle_listener = sample_listener\<lparr>dl_lastScanned := 175\<rparr>"

lemma idle_poll: "pollOnce sample_poll [] idle_listener = Some (True, idle_listener)"
  by (simp add: pollOnce_def poll_window_def scanCursor_def sample_poll_def sample_opts_def sample_listener_def idle_listener_def)


lemma sample_lower: "map lower sample_wallet = sample_wallet"
  by (simp add: sample_wallet_def lower_def)

lemma sample_owner:
  "resolveAccount (\<lambda>s. s) None (Some sample_wallet) (dl_billing sample_listener) =
     Some (''sk_1'', sample_account\<lparr>ac_wallet := Some sample_wallet, ac_tier := ''free''\<rparr>)"
proof -
  have "is_wallet sample_wallet" by (simp add: is_wallet_def sample_wallet_def hex_lower_def lower_def list_all_iff)
  then show ?thesis by (simp add: resolveAccount_def wallet_account_def sample_listener_def sample_lower)
qed

theorem event_credited_once_witness:
  "\<exists>l' a'. handleDeposit sample_poll sample_event sample_listener = (True, l') \<and> map_of (bi_accounts (dl_billing l')) ''sk_1'' = Some a' \<and>
     ac_credits a' = 2 \<and> ac_tier a' = ''basic''"
  using event_credited_once [OF sample_handles, of sample_listener sample_event "''sk_1''"
      "sample_account\<lparr>ac_wallet := Some sample_wallet, ac_tier := ''free''\<rparr>"] sample_owner
  by (fastforce simp: sample_poll_def sample_charge_def sample_listener_def sample_event_def sample_lower sample_account_def empty_billing_def
      USDT_UNIT_def)

theorem poll_ends_iff_witness:
  "(\<exists>res. pollOnce sample_poll [] sample_listener = Some res) \<longleftrightarrow> 1 \<le> (50 :: int)"
  using poll_ends_iff [OF _ sample_window, of "[]"]
  by (simp add: sample_poll_def sample_opts_def scanCursor_def sample_listener_def)

end
