(* ===== verification/Single_Use.thy ===== *)
theory Single_Use
  imports Sat_Prelude
begin

text \<open>
  The contract of everything that counts once: a challenge, a transaction hash, a payment. A claim
  that is accepted spends the token, nothing that happens later brings it back, and a spent token is
  refused.
\<close>

locale single_use =
  fixes claim :: "'s \<Rightarrow> 's option"
    and later :: "'s \<Rightarrow> 's \<Rightarrow> bool"
    and spent :: "'s \<Rightarrow> bool"
  assumes claim_spends: "claim s = Some t \<Longrightarrow> spent t"
    and spent_stays: "later s t \<Longrightarrow> spent s \<Longrightarrow> spent t"
    and spent_refused: "spent s \<Longrightarrow> claim s = None"
begin

lemma spent_ever: "later\<^sup>*\<^sup>* s t \<Longrightarrow> spent s \<Longrightarrow> spent t"
  by (induction rule: rtranclp_induct) (blast intro: spent_stays)+

lemma claim_once: "claim s = Some t \<Longrightarrow> later\<^sup>*\<^sup>* t u \<Longrightarrow> claim u = None"
  by (rule spent_refused) (rule spent_ever, assumption, rule claim_spends)

lemma refused_ever: "spent s \<Longrightarrow> later\<^sup>*\<^sup>* s t \<Longrightarrow> claim t = None"
  by (rule spent_refused) (rule spent_ever)

end

end
