(* ===== verification/Api_Keys.thy ===== *)
theory Api_Keys
  imports Deposit_Listener Single_Use "HOL-Library.Code_Target_Nat"
begin

text \<open>
  How a wallet is bound to an API key and how a key claims a deposit: \<^verbatim>\<open>billing/wallet_challenge.mjs\<close>
  and the routes of \<^verbatim>\<open>billing/api_keys_route.mjs\<close> that change state. A handler's transaction is one
  step; a failure rolls it back. \<open>getAddress\<close> and \<open>verifyMessage\<close> of ethers are arguments (\<open>None\<close>: they
  throw), and so are the random nonce and key, the two clocks and the view of the chain.
\<close>

section \<open>Formats\<close>

definition is_hex :: "char \<Rightarrow> bool" where
  "is_hex c \<longleftrightarrow> is_digit c \<or> (CHR ''a'' \<le> c \<and> c \<le> CHR ''f'') \<or> (CHR ''A'' \<le> c \<and> c \<le> CHR ''F'')"

definition hex0x :: "nat \<Rightarrow> string \<Rightarrow> bool" where
  "hex0x n s \<longleftrightarrow> take 2 s = ''0x'' \<and> length s = n + 2 \<and> list_all is_hex (drop 2 s)"

definition normalizeWalletAddress :: "(string \<Rightarrow> string option) \<Rightarrow> string option \<Rightarrow> string option" where
  "normalizeWalletAddress getAddress raw =
     (case raw of None \<Rightarrow> None
      | Some r \<Rightarrow> if \<not> hex0x 40 (trim r) then None else map_option (map lower) (getAddress (trim r)))"

definition isValidSignature :: "string option \<Rightarrow> bool" where
  "isValidSignature sig = (case sig of None \<Rightarrow> False | Some s \<Rightarrow> hex0x 130 (trim s))"

definition isValidNonce :: "string option \<Rightarrow> bool" where
  "isValidNonce nonce = (case nonce of None \<Rightarrow> False | Some n \<Rightarrow> length (trim n) = 32 \<and> list_all is_hex (trim n))"

definition CHALLENGE_TTL_MS :: int where "CHALLENGE_TTL_MS = 10 * 60 * 1000"

definition MAX_PENDING_CHALLENGES :: nat where "MAX_PENDING_CHALLENGES = 3"

text \<open>\<open>Date.prototype.toISOString\<close>, for the years 0 to 9999.\<close>

definition civil :: "int \<Rightarrow> int \<times> int \<times> int" where
  "civil days =
     (let z = days + 719468; era = z div 146097; doe = z mod 146097;
          yoe = (doe - doe div 1460 + doe div 36524 - doe div 146096) div 365;
          doy = doe - (365 * yoe + yoe div 4 - yoe div 100);
          mp = (5 * doy + 2) div 153; d = doy - (153 * mp + 2) div 5 + 1; m = (if mp < 10 then mp + 3 else mp - 9)
      in (yoe + era * 400 + (if m \<le> 2 then 1 else 0), m, d))"

definition pad :: "nat \<Rightarrow> int \<Rightarrow> string" where
  "pad n i = (let s = int_to_string i in replicate (n - length s) (CHR ''0'') @ s)"

definition isoString :: "int \<Rightarrow> string" where
  "isoString ms =
     (case civil (ms div 86400000) of (y, m, d) \<Rightarrow>
      let r = ms mod 86400000 in
      pad 4 y @ ''-'' @ pad 2 m @ ''-'' @ pad 2 d @ ''T'' @ pad 2 (r div 3600000) @ '':'' @ pad 2 (r div 60000 mod 60) @ '':'' @
      pad 2 (r div 1000 mod 60) @ ''.'' @ pad 3 (r mod 1000) @ ''Z'')"

lemma isoString_sample: "isoString 1700000000123 = ''2023-11-14T22:13:20.123Z''"
  by code_simp

section \<open>Challenges\<close>

definition nl :: string where "nl = [CHR 10]"

definition buildWalletBindingMessage :: "string \<Rightarrow> string \<Rightarrow> string \<Rightarrow> string \<Rightarrow> string \<Rightarrow> string" where
  "buildWalletBindingMessage checksumAddress nonce issuedAt expiresAt host =
     host @ '' wants you to bind your wallet to a Satelink API key:'' @ nl @
     checksumAddress @ nl @ nl @
     ''Signing confirms you control this wallet and authorizes associating it with a Satelink API key for usage tracking and credit deposits. It does not authorize any transaction or move funds.'' @
     nl @ nl @ ''URI: https://'' @ host @ ''/api/keys'' @ nl @ ''Version: 1'' @ nl @ ''Chain ID: 137'' @ nl @
     ''Nonce: '' @ nonce @ nl @ ''Issued At: '' @ issuedAt @ nl @ ''Expiration Time: '' @ expiresAt"

record challenge_row =
  ch_wallet :: string
  ch_message :: string
  ch_expires :: int
  ch_consumed :: "int option"
  ch_created :: int

record keys_state =
  ky_challenges :: "(string, challenge_row) jsmap"
  ky_billing :: billing
  ky_emails :: "(string, string \<times> bool) jsmap"

definition cleanupExpiredChallenges :: "int \<Rightarrow> keys_state \<Rightarrow> keys_state" where
  "cleanupExpiredChallenges dbNow s = s \<lparr> ky_challenges := filter (\<lambda>(n, r). \<not> ch_expires r < dbNow) (ky_challenges s) \<rparr>"

definition pendingChallenges :: "int \<Rightarrow> string \<Rightarrow> (string, challenge_row) jsmap \<Rightarrow> (string, challenge_row) jsmap" where
  "pendingChallenges dbNow wallet m =
     filter (\<lambda>(n, r). ch_wallet r = wallet \<and> ch_consumed r = None \<and> ch_expires r > dbNow) m"

text \<open>The two clocks of a request, the host's and the database's at the start of the transaction.\<close>

record clocks =
  cl_date :: int
  cl_db :: int

text \<open>The nonce, the message and the expiry; \<open>Inl\<close>: an exception, with the expired rows already deleted.\<close>

definition issueWalletChallenge ::
  "(string \<Rightarrow> string option) \<Rightarrow> clocks \<Rightarrow> string \<Rightarrow> string option \<Rightarrow> string \<Rightarrow> keys_state \<Rightarrow>
   (string + string \<times> string \<times> int) \<times> keys_state" where
  "issueWalletChallenge getAddress cl nonce walletAddress host s0 =
     (case normalizeWalletAddress getAddress walletAddress of
        None \<Rightarrow> (Inl ''invalid_wallet_address'', s0)
      | Some wallet \<Rightarrow>
          let s = cleanupExpiredChallenges (cl_db cl) s0;
              pending = pendingChallenges (cl_db cl) wallet (ky_challenges s) in
          if length pending \<ge> MAX_PENDING_CHALLENGES
          then (case last (sort_key (\<lambda>(n, r). ch_created r) pending) of (n, r) \<Rightarrow> (Inr (n, ch_message r, ch_expires r), s))
          else case getAddress wallet of
                 None \<Rightarrow> (Inl ''invalid address'', s)
               | Some addr \<Rightarrow>
                   let expires = cl_date cl + CHALLENGE_TTL_MS;
                       message = buildWalletBindingMessage addr nonce (isoString (cl_date cl)) (isoString expires) host in
                   if map_of (ky_challenges s) nonce \<noteq> None then (Inl ''duplicate key'', s)
                   else (Inr (nonce, message, expires),
                         s \<lparr> ky_challenges := mset_key nonce
                                \<lparr> ch_wallet = wallet, ch_message = message, ch_expires = expires, ch_consumed = None,
                                  ch_created = cl_db cl \<rparr> (ky_challenges s) \<rparr>))"

text \<open>\<open>POST /challenge\<close>: the nonce and the message, or the error.\<close>

definition postChallenge ::
  "(string \<Rightarrow> string option) \<Rightarrow> clocks \<Rightarrow> string \<Rightarrow> string option \<Rightarrow> string option \<Rightarrow> string option \<Rightarrow> keys_state \<Rightarrow>
   (nat \<times> string) \<times> keys_state" where
  "postChallenge getAddress cl nonce walletAddress address hostHeader s =
     (case normalizeWalletAddress getAddress (if truthy walletAddress then walletAddress else address) of
        None \<Rightarrow> ((400, ''invalid_wallet_address''), s)
      | Some w \<Rightarrow>
          (case issueWalletChallenge getAddress cl nonce (Some w) (or_str hostHeader ''rpc.satelink.network'') s of
             (Inl _, t) \<Rightarrow> ((500, ''challenge_unavailable''), t)
           | (Inr (n, message, expires), t) \<Rightarrow> ((200, message), t)))"

text \<open>The signer that ethers recovers, in lower case; an exception and an empty signer are no signer.\<close>

definition signerOf :: "(string \<Rightarrow> string \<Rightarrow> string option) \<Rightarrow> string \<Rightarrow> string \<Rightarrow> string option" where
  "signerOf verifyMessage message sig = or_null (map_option (map lower) (verifyMessage message (trim sig)))"

definition verifyAndConsumeWalletChallenge ::
  "(string \<Rightarrow> string option) \<Rightarrow> (string \<Rightarrow> string \<Rightarrow> string option) \<Rightarrow> clocks \<Rightarrow> string option \<Rightarrow> string option \<Rightarrow> string option \<Rightarrow>
   keys_state \<Rightarrow> ((nat \<times> string) + string) \<times> keys_state" where
  "verifyAndConsumeWalletChallenge getAddress verifyMessage cl walletAddress nonce sig s =
     (case normalizeWalletAddress getAddress walletAddress of
        None \<Rightarrow> (Inl (400, ''invalid_wallet_address''), s)
      | Some wallet \<Rightarrow>
          if \<not> isValidNonce nonce \<or> \<not> isValidSignature sig then (Inl (400, ''invalid_request''), s)
          else let n = trim (the nonce) in
            case map_of (ky_challenges s) n of
              None \<Rightarrow> (Inl (401, ''challenge_invalid''), s)
            | Some r \<Rightarrow>
                if ch_wallet r \<noteq> wallet then (Inl (401, ''challenge_invalid''), s)
                else if ch_consumed r \<noteq> None then (Inl (401, ''challenge_invalid''), s)
                else if ch_expires r \<le> cl_date cl then (Inl (401, ''challenge_expired''), s)
                else if signerOf verifyMessage (ch_message r) (the sig) \<noteq> Some wallet
                then (Inl (401, ''signature_invalid''), s)
                else if \<not> ch_expires r > cl_db cl then (Inl (401, ''challenge_invalid''), s)
                else (Inr wallet,
                      s \<lparr> ky_challenges := mset_key n (r \<lparr> ch_consumed := Some (cl_db cl) \<rparr>) (ky_challenges s) \<rparr>))"

section \<open>Keys\<close>

definition is_email :: "string \<Rightarrow> bool" where
  "is_email e \<longleftrightarrow>
     (let local = takeWhile (\<lambda>c. c \<noteq> CHR ''@'') e; domain = drop 1 (dropWhile (\<lambda>c. c \<noteq> CHR ''@'') e) in
      CHR ''@'' \<in> set e \<and> local \<noteq> [] \<and> CHR ''@'' \<notin> set domain \<and> list_all (\<lambda>c. \<not> is_space c) e \<and>
      CHR ''.'' \<in> set (butlast (drop 1 domain)))"

definition normaliseEmail :: "string option \<Rightarrow> string option" where
  "normaliseEmail raw =
     (case raw of None \<Rightarrow> None
      | Some r \<Rightarrow> let email = map lower (trim r) in
                  if length email < 3 \<or> length email > 254 then None else if is_email email then Some email else None)"

text \<open>The row of a new key, whose name \<open>generateApiKey\<close> draws.\<close>

definition new_account :: "string \<Rightarrow> nat \<Rightarrow> string option \<Rightarrow> int \<Rightarrow> account" where
  "new_account tier daily wallet now =
     \<lparr> ac_wallet = wallet, ac_tier = tier, ac_daily = Some daily, ac_credits = 0, ac_dodo = 0, ac_deposited = 0, ac_spent = 0,
       ac_status = Some ''active'', ac_hold = False, ac_created = now, ac_lastUsed = None \<rparr>"

definition createApiKeyWithCredits ::
  "string \<Rightarrow> clocks \<Rightarrow> string \<Rightarrow> string option \<Rightarrow> string option \<Rightarrow> bool \<Rightarrow> keys_state \<Rightarrow> string + keys_state" where
  "createApiKeyWithCredits apiKey cl tier walletAddress email consent s =
     (case map_of TIER_DAILY_LIMIT tier of
        None \<Rightarrow> Inl (''Invalid tier: '' @ tier)
      | Some daily \<Rightarrow>
          if map_of (bi_accounts (ky_billing s)) apiKey \<noteq> None then Inl ''duplicate key''
          else let wallet = (if truthy walletAddress then map_option (\<lambda>w. map lower (trim w)) walletAddress else None) in
            Inr (s \<lparr> ky_billing := put_account apiKey (new_account tier daily wallet (cl_db cl)) (ky_billing s),
                     ky_emails := (if truthy email then mset_key apiKey (the email, consent) (ky_emails s) else ky_emails s) \<rparr>))"

text \<open>Some key has this wallet.\<close>

definition wallet_taken :: "string \<Rightarrow> billing \<Rightarrow> bool" where
  "wallet_taken w b \<longleftrightarrow> list_ex (\<lambda>(k, a). case ac_wallet a of None \<Rightarrow> False | Some x \<Rightarrow> map lower x = w) (bi_accounts b)"

record key_request =
  kq_tier :: "string option"
  kq_wallet :: "string option"
  kq_signature :: "string option"
  kq_nonce :: "string option"
  kq_email :: "string option"
  kq_consent :: bool

text \<open>\<open>POST /\<close>. The transaction of the wallet and the key; on any refusal the tables are as before.\<close>

definition bind_new_wallet ::
  "(string \<Rightarrow> string option) \<Rightarrow> (string \<Rightarrow> string \<Rightarrow> string option) \<Rightarrow> clocks \<Rightarrow> key_request \<Rightarrow> string option \<Rightarrow> keys_state \<Rightarrow>
   (nat \<times> string) + keys_state" where
  "bind_new_wallet getAddress verifyMessage cl q validated s =
     (if \<not> truthy (kq_wallet q) then Inr s
      else case verifyAndConsumeWalletChallenge getAddress verifyMessage cl validated (kq_nonce q) (kq_signature q) s of
             (Inl e, _) \<Rightarrow> Inl e
           | (Inr w, s1) \<Rightarrow> if wallet_taken (the validated) (ky_billing s1) then Inl (409, ''wallet_already_registered'') else Inr s1)"

definition postKey ::
  "(string \<Rightarrow> string option) \<Rightarrow> (string \<Rightarrow> string \<Rightarrow> string option) \<Rightarrow> clocks \<Rightarrow> string \<Rightarrow> key_request \<Rightarrow> keys_state \<Rightarrow>
   (nat \<times> string) \<times> keys_state" where
  "postKey getAddress verifyMessage cl apiKey q s =
     (let tier = coalesce (kq_tier q) ''free''; email = normaliseEmail (kq_email q);
          hasWallet = truthy (kq_wallet q);
          validated = (if hasWallet then normalizeWalletAddress getAddress (kq_wallet q) else None) in
      if map_of TIER_DAILY_LIMIT tier = None then ((400, ''Invalid tier''), s)
      else if tier \<noteq> ''free'' then ((400, ''Only free tier available''), s)
      else if truthy (kq_email q) \<and> email = None then ((400, ''Invalid email format''), s)
      else if hasWallet \<and> validated = None then ((400, ''invalid_wallet_address''), s)
      else if hasWallet \<and> (\<not> truthy (kq_signature q) \<or> \<not> truthy (kq_nonce q)) then ((400, ''wallet_signature_required''), s)
      else case bind_new_wallet getAddress verifyMessage cl q validated s of
             Inl e \<Rightarrow> (e, s)
           | Inr s1 \<Rightarrow>
               (case createApiKeyWithCredits apiKey cl tier validated (if truthy (kq_email q) then email else None) (kq_consent q) s1 of
                  Inl _ \<Rightarrow> ((500, ''Failed to create API key''), s)
                | Inr s2 \<Rightarrow> ((200, apiKey), s2)))"

text \<open>\<open>POST /bind\<close>.\<close>

definition bindWallet ::
  "(string \<Rightarrow> string option) \<Rightarrow> (string \<Rightarrow> string \<Rightarrow> string option) \<Rightarrow> clocks \<Rightarrow> string \<Rightarrow> string option \<Rightarrow> string option \<Rightarrow>
   string option \<Rightarrow> keys_state \<Rightarrow> (nat \<times> string) \<times> keys_state" where
  "bindWallet getAddress verifyMessage cl key walletAddress sig nonce s =
     (if \<not> isValidKeyFormat key then ((400, ''Invalid API key format''), s)
      else case normalizeWalletAddress getAddress walletAddress of
             None \<Rightarrow> ((400, ''invalid_wallet_address''), s)
           | Some w \<Rightarrow>
               if \<not> truthy sig \<or> \<not> truthy nonce then ((400, ''wallet_signature_required''), s)
               else case verifyAndConsumeWalletChallenge getAddress verifyMessage cl (Some w) nonce sig s of
                      (Inl e, _) \<Rightarrow> (e, s)
                    | (Inr _, s1) \<Rightarrow>
                        (case map_of (bi_accounts (ky_billing s1)) key of
                           None \<Rightarrow> ((404, ''API key not found''), s)
                         | Some a \<Rightarrow>
                             if truthy (ac_wallet a) then ((409, ''key_already_has_wallet''), s)
                             else if wallet_taken w (ky_billing s1) then ((409, ''wallet_already_registered''), s)
                             else ((200, w), s1 \<lparr> ky_billing := put_account key (a \<lparr> ac_wallet := Some w \<rparr>) (ky_billing s1) \<rparr>)))"

text \<open>\<open>POST /email\<close>.\<close>

definition postEmail :: "string \<Rightarrow> string option \<Rightarrow> bool \<Rightarrow> keys_state \<Rightarrow> (nat \<times> string) \<times> keys_state" where
  "postEmail key email consent s =
     (if \<not> isValidKeyFormat key then ((400, ''Invalid API key format''), s)
      else case normaliseEmail email of
             None \<Rightarrow> ((400, ''Invalid email format''), s)
           | Some e \<Rightarrow> if map_of (bi_accounts (ky_billing s)) key = None then ((404, ''API key not found''), s)
                       else ((200, ''ok''), s \<lparr> ky_emails := mset_key key (e, consent) (ky_emails s) \<rparr>))"

section \<open>Claiming a deposit\<close>

text \<open>\<open>lg_transfer\<close>: what \<open>parseLog\<close> decodes, or \<open>None\<close> when it fails. The amount is in millionths.\<close>

record transfer_log =
  lg_address :: string
  lg_topic :: "string option"
  lg_transfer :: "(string \<times> string \<times> nat) option"

record receipt =
  rc_status :: "nat option"
  rc_block :: "int option"
  rc_logs :: "transfer_log list"

text \<open>\<open>cv_receipt\<close>: \<open>None\<close> when the call throws, \<open>Some None\<close> when there is no receipt. \<open>cv_block\<close>: the head, or a failure.\<close>

record chain_view =
  cv_receipt :: "string \<Rightarrow> receipt option option"
  cv_block :: "int option"

definition USDT_POLYGON :: string where "USDT_POLYGON = ''0xc2132D05D31c914a87C6611C10748AEb04B58e8F''"

definition TRANSFER_TOPIC :: string where
  "TRANSFER_TOPIC = ''0xddf252ad1be2c89b69c2b068fc378daa952ba7f163c4a11628f55a4df523b3ef''"

fun depositIn :: "string \<Rightarrow> transfer_log list \<Rightarrow> string \<times> rat" where
  "depositIn treasury [] = ([], 0)"
| "depositIn treasury (l # ls) =
     (if map lower (lg_address l) = map lower USDT_POLYGON \<and> lg_topic l = Some TRANSFER_TOPIC then
        (case lg_transfer l of
           Some (from, to, v) \<Rightarrow> if map lower to = map lower treasury then (from, of_nat v / USDT_UNIT) else depositIn treasury ls
         | None \<Rightarrow> depositIn treasury ls)
      else depositIn treasury ls)"

definition TIER_PRICES :: "(string \<times> rat) list" where
  "TIER_PRICES = [(''basic'', 9), (''pro'', 49), (''enterprise'', 199)]"

definition tier_price :: "string \<Rightarrow> rat" where "tier_price t = the (map_of TIER_PRICES t)"

definition tier_with_limit :: "string \<Rightarrow> string \<times> nat option" where
  "tier_with_limit t = (t, map_of TIER_DAILY_LIMIT t)"

text \<open>\<open>None\<close>: below the minimum.\<close>

definition tierFor :: "rat \<Rightarrow> string option \<Rightarrow> rat \<Rightarrow> account \<Rightarrow> (string \<times> nat option) option" where
  "tierFor minDeposit tier amount a =
     (if tier = Some ''enterprise'' \<and> amount \<ge> tier_price ''enterprise'' then Some (tier_with_limit ''enterprise'')
      else if tier = Some ''pro'' \<and> amount \<ge> tier_price ''pro'' then Some (tier_with_limit ''pro'')
      else if tier = Some ''basic'' \<and> amount \<ge> tier_price ''basic'' then Some (tier_with_limit ''basic'')
      else if amount \<ge> tier_price ''enterprise'' then Some (tier_with_limit ''enterprise'')
      else if amount \<ge> tier_price ''pro'' then Some (tier_with_limit ''pro'')
      else if amount \<ge> tier_price ''basic'' then Some (tier_with_limit ''basic'')
      else if amount \<ge> minDeposit then (if ac_tier a = ''free'' then Some (tier_with_limit ''basic'') else Some (ac_tier a, ac_daily a))
      else None)"

text \<open>The transaction that records the deposit and credits the key; the flag of test data is left out.\<close>

definition creditDeposit ::
  "string \<Rightarrow> string \<Rightarrow> rat \<Rightarrow> string \<Rightarrow> string \<times> nat option \<Rightarrow> account \<Rightarrow> keys_state \<Rightarrow> (nat \<times> string) \<times> keys_state" where
  "creditDeposit key tx amount from nt a s =
     (let b = ky_billing s in
      if map_of (bi_deposits b) tx \<noteq> None then ((400, ''tx_already_used''), s)
      else let d = \<lparr> dp_key = key, dp_amount = amount, dp_from = Some from, dp_tierBefore = ac_tier a, dp_tierAfter = fst nt \<rparr>;
               a' = a \<lparr> ac_credits := ac_credits a + amount, ac_deposited := ac_deposited a + amount,
                        ac_tier := fst nt, ac_daily := snd nt \<rparr>
           in ((200, fst nt),
               s \<lparr> ky_billing := put_account key a' (b \<lparr> bi_deposits := mset_key tx d (bi_deposits b) \<rparr>) \<rparr>))"

definition valid_tx :: "string option \<Rightarrow> bool" where
  "valid_tx tx = (case tx of None \<Rightarrow> False | Some t \<Rightarrow> take 2 t = ''0x'' \<and> length t = 66)"

text \<open>\<open>POST /deposit\<close>. \<open>lookup\<close>: the query for the transaction succeeds; a failed one counts as no row.\<close>

definition postDeposit ::
  "chain_view \<Rightarrow> string \<Rightarrow> rat \<Rightarrow> bool \<Rightarrow> string \<Rightarrow> string option \<Rightarrow> string option \<Rightarrow> keys_state \<Rightarrow> (nat \<times> string) \<times> keys_state" where
  "postDeposit cv treasury minDeposit lookup key txHash tier s =
     (if \<not> isValidKeyFormat key then ((400, ''Invalid API key format''), s)
      else if \<not> valid_tx txHash then ((400, ''tx_hash required''), s)
      else case map_of (bi_accounts (ky_billing s)) key of
             None \<Rightarrow> ((404, ''API key not found''), s)
           | Some a \<Rightarrow>
               let tx = the txHash in
               if lookup \<and> map_of (bi_deposits (ky_billing s)) tx \<noteq> None then ((400, ''tx_already_used''), s)
               else case cv_receipt cv tx of
                      None \<Rightarrow> ((400, ''tx_not_found''), s)
                    | Some None \<Rightarrow> ((400, ''tx_failed''), s)
                    | Some (Some rc) \<Rightarrow>
                        if rc_status rc \<noteq> Some 1 then ((400, ''tx_failed''), s)
                        else if cv_block cv = None then ((503, ''confirmation_check_failed''), s)
                        else if \<not> hasEnoughConfirmations (cv_block cv) (rc_block rc) MIN_CONFIRMATIONS
                        then ((400, ''insufficient_confirmations''), s)
                        else case depositIn treasury (rc_logs rc) of (from, amount) \<Rightarrow>
                          if amount = 0 then ((400, ''no_usdt_received''), s)
                          else case checkDepositOwnership (Some from) (ac_wallet a) of
                                 Some code \<Rightarrow> ((403, code), s)
                               | None \<Rightarrow>
                                   (case tierFor minDeposit tier amount a of
                                      None \<Rightarrow> ((400, ''insufficient_deposit''), s)
                                    | Some nt \<Rightarrow> creditDeposit key tx amount from nt a s))"

section \<open>Operations\<close>

datatype key_op =
    OChallenge clocks string "string option" "string option" "string option"
  | OCreate clocks string key_request
  | OBind clocks string "string option" "string option" "string option"
  | OEmail string "string option" bool
  | ODeposit chain_view bool string "string option" "string option"

fun perform ::
  "(string \<Rightarrow> string option) \<Rightarrow> (string \<Rightarrow> string \<Rightarrow> string option) \<Rightarrow> string \<Rightarrow> rat \<Rightarrow> key_op \<Rightarrow> keys_state \<Rightarrow>
   (nat \<times> string) \<times> keys_state" where
  "perform ga vm treasury md (OChallenge cl n w a h) s = postChallenge ga cl n w a h s"
| "perform ga vm treasury md (OCreate cl k q) s = postKey ga vm cl k q s"
| "perform ga vm treasury md (OBind cl k w sig n) s = bindWallet ga vm cl k w sig n s"
| "perform ga vm treasury md (OEmail k e c) s = postEmail k e c s"
| "perform ga vm treasury md (ODeposit cv lk k tx t) s = postDeposit cv treasury md lk k tx t s"

definition perform_all ::
  "(string \<Rightarrow> string option) \<Rightarrow> (string \<Rightarrow> string \<Rightarrow> string option) \<Rightarrow> string \<Rightarrow> rat \<Rightarrow> key_op list \<Rightarrow> keys_state \<Rightarrow> keys_state" where
  "perform_all ga vm treasury md ops s = foldl (\<lambda>s op. snd (perform ga vm treasury md op s)) s ops"

section \<open>Challenges in the tables\<close>

lemma lower_lower [simp]: "lower (lower c) = lower c"
proof (cases "CHR ''A'' \<le> c \<and> c \<le> CHR ''Z''")
  case True
  then have "(of_char c :: nat) \<le> 90" "65 \<le> (of_char c :: nat)" by (auto simp: less_eq_char_def)
  moreover have "lower c = char_of ((of_char c :: nat) + 32)" using True by (simp add: lower_def)
  ultimately have "(of_char (lower c) :: nat) = of_char c + 32" by (simp add: take_bit_eq_mod)
  with \<open>65 \<le> (of_char c :: nat)\<close> have "\<not> lower c \<le> CHR ''Z''" by (simp add: less_eq_char_def)
  then show ?thesis by (simp add: lower_def [of "lower c"])
next
  case False
  then have "lower c = c" unfolding lower_def by (rule if_not_P)
  then show ?thesis by simp
qed

lemma map_lower_lower [simp]: "map lower (map lower s) = map lower s"
  by simp

definition names_challenge :: "(string \<Rightarrow> string option) \<Rightarrow> string \<Rightarrow> string \<Rightarrow> string \<Rightarrow> bool" where
  "names_challenge ga wallet n message \<longleftrightarrow>
     (\<exists>addr issued expires host. ga wallet = Some addr \<and> message = buildWalletBindingMessage addr n issued expires host)"

definition challenges_ok :: "(string \<Rightarrow> string option) \<Rightarrow> keys_state \<Rightarrow> bool" where
  "challenges_ok ga s \<longleftrightarrow> mwf (ky_challenges s) \<and>
     (\<forall>n r. map_of (ky_challenges s) n = Some r \<longrightarrow> names_challenge ga (ch_wallet r) n (ch_message r))"

lemma mwf_filter: "mwf m \<Longrightarrow> mwf (filter P m)"
  by (induction m) (auto simp: image_iff)

lemma map_of_filter_wf: "mwf m \<Longrightarrow> map_of (filter P m) k = Some v \<Longrightarrow> map_of m k = Some v"
  by (simp add: mwf_filter map_of_eq_Some_iff)

lemma issue_cases:
  assumes "issueWalletChallenge ga cl n w h s = (r, t)" and "mwf (ky_challenges s)"
  shows "ky_billing t = ky_billing s \<and> mwf (ky_challenges t) \<and>
    (\<forall>k x. map_of (ky_challenges t) k = Some x \<longrightarrow> map_of (ky_challenges s) k = Some x \<or>
       (k = n \<and> ch_consumed x = None \<and> names_challenge ga (ch_wallet x) n (ch_message x)))"
proof (cases "normalizeWalletAddress ga w")
  case None
  with assms show ?thesis by (auto simp: issueWalletChallenge_def)
next
  case (Some wallet)
  define u where "u = cleanupExpiredChallenges (cl_db cl) s"
  have u: "ky_billing u = ky_billing s" "mwf (ky_challenges u)"
    "\<And>k x. map_of (ky_challenges u) k = Some x \<Longrightarrow> map_of (ky_challenges s) k = Some x"
    using assms(2) map_of_filter_wf by (auto simp: u_def cleanupExpiredChallenges_def mwf_filter simp del: map_of_eq_Some_iff)
  note eq = assms(1) [unfolded issueWalletChallenge_def Some option.case Let_def, folded u_def]
  have "t = u \<or> (\<exists>x. t = u \<lparr> ky_challenges := mset_key n x (ky_challenges u) \<rparr> \<and> ch_consumed x = None \<and>
      names_challenge ga (ch_wallet x) n (ch_message x))"
  proof (cases "MAX_PENDING_CHALLENGES \<le> length (pendingChallenges (cl_db cl) wallet (ky_challenges u))")
    case True
    from eq [unfolded if_P [OF True]] show ?thesis by (auto split: prod.splits)
  next
    case False
    note eq1 = eq [unfolded if_not_P [OF False]]
    show ?thesis
    proof (cases "ga wallet = None \<or> map_of (ky_challenges u) n \<noteq> None")
      case True
      with eq1 show ?thesis by (auto split: option.splits if_splits)
    next
      case False
      then obtain addr where addr: "ga wallet = Some addr" "map_of (ky_challenges u) n = None" by auto
      let ?x = "\<lparr> ch_wallet = wallet, ch_message = buildWalletBindingMessage addr n (isoString (cl_date cl))
          (isoString (cl_date cl + CHALLENGE_TTL_MS)) h, ch_expires = cl_date cl + CHALLENGE_TTL_MS, ch_consumed = None, ch_created = cl_db cl \<rparr>"
      have "t = u \<lparr> ky_challenges := mset_key n ?x (ky_challenges u) \<rparr>" using eq1 addr by simp
      moreover have "names_challenge ga (ch_wallet ?x) n (ch_message ?x)" using addr(1) unfolding names_challenge_def by auto
      ultimately show ?thesis by (intro disjI2 exI [of _ ?x]) simp
    qed
  qed
  then show ?thesis using u by (auto simp del: map_of_eq_Some_iff split: if_splits)
qed

lemma verify_cases:
  assumes "verifyAndConsumeWalletChallenge ga vm cl w n sig s = (Inr x, t)"
  obtains r where "normalizeWalletAddress ga w = Some x" "isValidNonce n" "isValidSignature sig"
    "map_of (ky_challenges s) (trim (the n)) = Some r" "ch_wallet r = x" "ch_consumed r = None" "ch_expires r > cl_date cl"
    "ch_expires r > cl_db cl" "signerOf vm (ch_message r) (the sig) = Some x"
    "t = s \<lparr> ky_challenges := mset_key (trim (the n)) (r \<lparr> ch_consumed := Some (cl_db cl) \<rparr>) (ky_challenges s) \<rparr>"
  using assms by (auto simp: verifyAndConsumeWalletChallenge_def Let_def split: option.splits if_splits)

section \<open>The invariant of the keys\<close>

text \<open>The operation carried a signature, by the wallet, of a challenge for the wallet and the operation's nonce.\<close>

definition signed_for :: "(string \<Rightarrow> string option) \<Rightarrow> (string \<Rightarrow> string \<Rightarrow> string option) \<Rightarrow> string \<Rightarrow> string option \<Rightarrow> string option \<Rightarrow> bool" where
  "signed_for ga vm w n sig \<longleftrightarrow>
     (\<exists>message. names_challenge ga w (trim (the n)) message \<and> signerOf vm message (the sig) = Some w)"

fun proves :: "(string \<Rightarrow> string option) \<Rightarrow> (string \<Rightarrow> string \<Rightarrow> string option) \<Rightarrow> string \<Rightarrow> key_op \<Rightarrow> bool" where
  "proves ga vm w (OCreate cl k q) = signed_for ga vm w (kq_nonce q) (kq_signature q)"
| "proves ga vm w (OBind cl k a sig n) = signed_for ga vm w n sig"
| "proves ga vm w _ = False"

definition keys_inv ::
  "(string \<Rightarrow> string option) \<Rightarrow> (string \<Rightarrow> string \<Rightarrow> string option) \<Rightarrow> key_op list \<Rightarrow> keys_state \<Rightarrow> bool" where
  "keys_inv ga vm ops s \<longleftrightarrow> challenges_ok ga s \<and> mwf (bi_accounts (ky_billing s)) \<and>
     (\<forall>k a w. map_of (bi_accounts (ky_billing s)) k = Some a \<and> ac_wallet a = Some w \<longrightarrow>
        map lower w = w \<and> w \<noteq> [] \<and> (\<exists>op \<in> set ops. proves ga vm w op)) \<and>
     (\<forall>k a k' a' w. map_of (bi_accounts (ky_billing s)) k = Some a \<and> map_of (bi_accounts (ky_billing s)) k' = Some a' \<and>
        ac_wallet a = Some w \<and> ac_wallet a' = Some w \<longrightarrow> k = k')"

lemma wallet_taken_iff:
  assumes "mwf (bi_accounts b)"
  shows "wallet_taken w b \<longleftrightarrow> (\<exists>k a x. map_of (bi_accounts b) k = Some a \<and> ac_wallet a = Some x \<and> map lower x = w)"
proof
  assume "wallet_taken w b"
  then obtain k a where ka: "(k, a) \<in> set (bi_accounts b)"
    and w: "case ac_wallet a of None \<Rightarrow> False | Some x \<Rightarrow> map lower x = w"
    unfolding wallet_taken_def list_ex_iff by auto
  from w obtain x where "ac_wallet a = Some x" "map lower x = w" by (auto split: option.splits)
  with ka assms show "\<exists>k a x. map_of (bi_accounts b) k = Some a \<and> ac_wallet a = Some x \<and> map lower x = w" by auto
next
  assume "\<exists>k a x. map_of (bi_accounts b) k = Some a \<and> ac_wallet a = Some x \<and> map lower x = w"
  then obtain k a x where "map_of (bi_accounts b) k = Some a" and x: "ac_wallet a = Some x" "map lower x = w" by blast
  then have "(k, a) \<in> set (bi_accounts b)" by (simp add: map_of_SomeD)
  moreover have "case ac_wallet a of None \<Rightarrow> False | Some x \<Rightarrow> map lower x = w" using x by simp
  ultimately show "wallet_taken w b" unfolding wallet_taken_def list_ex_iff by blast
qed

text \<open>Operations that only touch challenges, or an account without its wallet.\<close>

lemma keys_inv_challenges:
  assumes inv: "keys_inv ga vm ops s" and t: "ky_billing t = ky_billing s" "challenges_ok ga t" and sub: "set ops \<subseteq> set ops'"
  shows "keys_inv ga vm ops' t"
proof -
  have "\<exists>op \<in> set ops'. proves ga vm w op" if "\<exists>op \<in> set ops. proves ga vm w op" for w using that sub by blast
  with inv t(2) show ?thesis unfolding keys_inv_def t(1) by blast
qed

lemma keys_inv_account:
  assumes inv: "keys_inv ga vm ops s" and t: "challenges_ok ga t"
    and acc: "bi_accounts (ky_billing t) = mset_key k a (bi_accounts (ky_billing s))"
    and w: "\<And>w. ac_wallet a = Some w \<Longrightarrow> (\<exists>b. map_of (bi_accounts (ky_billing s)) k = Some b \<and> ac_wallet b = Some w) \<or>
        (\<not> wallet_taken w (ky_billing s) \<and> map lower w = w \<and> w \<noteq> [] \<and> (\<exists>op \<in> set ops'. proves ga vm w op))"
    and sub: "set ops \<subseteq> set ops'"
  shows "keys_inv ga vm ops' t"
proof -
  let ?m = "bi_accounts (ky_billing s)"
  from inv have wf: "mwf ?m"
    and ok: "\<And>j b x. map_of ?m j = Some b \<Longrightarrow> ac_wallet b = Some x \<Longrightarrow> map lower x = x \<and> x \<noteq> [] \<and> (\<exists>op \<in> set ops. proves ga vm x op)"
    and uniq: "\<And>j b j' b' x. map_of ?m j = Some b \<Longrightarrow> map_of ?m j' = Some b' \<Longrightarrow> ac_wallet b = Some x \<Longrightarrow> ac_wallet b' = Some x \<Longrightarrow> j = j'"
    unfolding keys_inv_def by blast+
  note taken = wallet_taken_iff [OF wf]
  have one: "map lower x = x \<and> x \<noteq> [] \<and> (\<exists>op \<in> set ops'. proves ga vm x op)"
    if "map_of (mset_key k a ?m) j = Some b" "ac_wallet b = Some x" for j b x
    using that w ok sub by (cases "j = k") (auto simp del: map_of_eq_Some_iff, blast+)
  have other: "j = k" if j: "map_of ?m j = Some b" "ac_wallet b = Some x" and a: "ac_wallet a = Some x" for j b x
  proof -
    from ok [OF j] have "wallet_taken x (ky_billing s)" using taken j by blast
    with w [OF a] uniq [OF j(1) _ j(2)] show "j = k" by blast
  qed
  have two: "j = j'"
    if "map_of (mset_key k a ?m) j = Some b" "map_of (mset_key k a ?m) j' = Some b'" "ac_wallet b = Some x" "ac_wallet b' = Some x"
    for j b j' b' x
    using that other uniq by (auto simp del: map_of_eq_Some_iff split: if_splits)
  show ?thesis unfolding keys_inv_def acc using t wf one two by (blast intro: mwf_mset)
qed

section \<open>Every operation\<close>

lemma challenges_ok_issue:
  assumes "challenges_ok ga s" and "issueWalletChallenge ga cl n w h s = (r, t)"
  shows "challenges_ok ga t \<and> ky_billing t = ky_billing s"
  using issue_cases [OF assms(2)] assms(1) unfolding challenges_ok_def by blast

lemma challenges_ok_verify:
  assumes ok: "challenges_ok ga s" and v: "verifyAndConsumeWalletChallenge ga vm cl w n sig s = (Inr x, t)"
  shows "challenges_ok ga t \<and> ky_billing t = ky_billing s \<and> signed_for ga vm x n sig"
  using v
proof (cases rule: verify_cases)
  case (1 r)
  from ok 1(4,5) have r: "names_challenge ga x (trim (the n)) (ch_message r)" unfolding challenges_ok_def by blast
  with 1(9) have "signed_for ga vm x n sig" unfolding signed_for_def by blast
  moreover have "challenges_ok ga t"
    unfolding challenges_ok_def
  proof (intro conjI allI impI)
    show "mwf (ky_challenges t)" using ok 1(10) by (simp add: challenges_ok_def)
    fix k y assume "map_of (ky_challenges t) k = Some y"
    then have "(k = trim (the n) \<and> y = r \<lparr> ch_consumed := Some (cl_db cl) \<rparr>) \<or> map_of (ky_challenges s) k = Some y"
      unfolding 1(10) by (simp split: if_splits)
    then show "names_challenge ga (ch_wallet y) k (ch_message y)"
      using r ok 1(5) unfolding challenges_ok_def by auto
  qed
  ultimately show ?thesis using 1(10) by simp
qed

lemma normal_lower:
  assumes "normalizeWalletAddress ga w = Some x"
  shows "map lower x = x"
  using assms by (auto simp: normalizeWalletAddress_def simp del: map_map split: option.splits if_splits)

text \<open>What the code relies on: the checksummed form of an address is that address.\<close>

definition checksum_only :: "(string \<Rightarrow> string option) \<Rightarrow> bool" where
  "checksum_only ga \<longleftrightarrow> (\<forall>a b. ga a = Some b \<longrightarrow> map lower b = map lower a)"

lemma lower_code: "(of_char c :: nat) \<le> of_char (lower c)"
proof (cases "CHR ''A'' \<le> c \<and> c \<le> CHR ''Z''")
  case True
  then have "(of_char c :: nat) \<le> 90" by (auto simp: less_eq_char_def)
  with True show ?thesis by (simp add: lower_def take_bit_eq_mod)
next
  case False
  then have "lower c = c" unfolding lower_def by (rule if_not_P)
  then show ?thesis by simp
qed

lemma hex_not_space: "is_hex c \<Longrightarrow> \<not> is_space (lower c)"
proof -
  assume "is_hex c"
  then have "48 \<le> (of_char c :: nat)" by (auto simp: is_hex_def is_digit_def less_eq_char_def)
  then have "48 \<le> (of_char (lower c) :: nat)" using lower_code [of c] by linarith
  then show ?thesis by (auto simp: is_space_def)
qed

lemma trim_id: "list_all (\<lambda>c. \<not> is_space c) s \<Longrightarrow> trim s = s"
proof -
  have id: "list_all (\<lambda>c. \<not> P c) xs \<Longrightarrow> dropWhile P xs = xs" for P :: "char \<Rightarrow> bool" and xs by (cases xs) auto
  assume s: "list_all (\<lambda>c. \<not> is_space c) s"
  then have "list_all (\<lambda>c. \<not> is_space c) (rev s)" by simp
  with s show ?thesis by (simp add: trim_def id)
qed

lemma hex0x_lower_trim:
  assumes "hex0x n s"
  shows "trim (map lower s) = map lower s"
proof (rule trim_id)
  have "s = ''0x'' @ drop 2 s" using assms append_take_drop_id [of 2 s] by (simp add: hex0x_def)
  moreover have "list_all (\<lambda>c. \<not> is_space c) (map lower (drop 2 s))"
    using assms by (auto simp: hex0x_def list_all_iff hex_not_space)
  moreover have "list_all (\<lambda>c. \<not> is_space c) (map lower ''0x'')" by (simp add: is_space_def lower_def)
  ultimately show "list_all (\<lambda>c. \<not> is_space c) (map lower s)" by (metis list_all_append map_append)
qed

lemma normal_facts:
  assumes "checksum_only ga" and "normalizeWalletAddress ga w = Some x"
  shows "trim x = x \<and> x \<noteq> [] \<and> map lower x = x"
proof -
  from assms obtain raw b where w: "hex0x 40 (trim raw)" "ga (trim raw) = Some b" "x = map lower b"
    by (auto simp: normalizeWalletAddress_def split: option.splits if_splits)
  with assms(1) have x: "x = map lower (trim raw)" unfolding checksum_only_def by metis
  have "trim raw \<noteq> []" using w(1) by (auto simp: hex0x_def)
  with x hex0x_lower_trim [OF w(1)] show ?thesis by simp
qed

lemma normal_again:
  assumes "checksum_only ga" and "normalizeWalletAddress ga w = Some x" and "normalizeWalletAddress ga (Some x) = Some y"
  shows "y = x"
proof -
  note x = normal_facts [OF assms(1,2)]
  from assms(3) obtain b where "ga (trim x) = Some b" "y = map lower b"
    by (auto simp: normalizeWalletAddress_def split: if_splits)
  with assms(1) have "y = map lower (trim x)" unfolding checksum_only_def by metis
  then show ?thesis using x by simp
qed

lemma postKey_ok:
  assumes "postKey ga vm cl k q s = (r, t)" and "t \<noteq> s" and cs: "checksum_only ga"
  obtains (anonymous) "map_of (bi_accounts (ky_billing s)) k = None" "ky_challenges t = ky_challenges s"
      "bi_accounts (ky_billing t) = mset_key k (new_account ''free'' 500 None (cl_db cl)) (bi_accounts (ky_billing s))"
  | (wallet) x s1 where "normalizeWalletAddress ga (kq_wallet q) = Some x"
      "verifyAndConsumeWalletChallenge ga vm cl (Some x) (kq_nonce q) (kq_signature q) s = (Inr x, s1)"
      "\<not> wallet_taken x (ky_billing s1)" "map_of (bi_accounts (ky_billing s1)) k = None" "ky_challenges t = ky_challenges s1"
      "bi_accounts (ky_billing t) = mset_key k (new_account ''free'' 500 (Some x) (cl_db cl)) (bi_accounts (ky_billing s1))"
proof -
  define validated where "validated = (if truthy (kq_wallet q) then normalizeWalletAddress ga (kq_wallet q) else None)"
  define email where "email = (if truthy (kq_email q) then normaliseEmail (kq_email q) else None)"
  from assms(1,2) obtain s1 where b: "bind_new_wallet ga vm cl q validated s = Inr s1"
    and v: "truthy (kq_wallet q) \<Longrightarrow> validated \<noteq> None"
    and c: "createApiKeyWithCredits k cl ''free'' validated email (kq_consent q) s1 = Inr t"
    by (auto simp: postKey_def Let_def validated_def email_def split: if_splits sum.splits)
  from c have cr: "map_of (bi_accounts (ky_billing s1)) k = None" "ky_challenges t = ky_challenges s1"
    "bi_accounts (ky_billing t) = mset_key k (new_account ''free'' 500 (if truthy validated then map_option (\<lambda>w. map lower (trim w)) validated else None) (cl_db cl))
       (bi_accounts (ky_billing s1))"
    by (auto simp: createApiKeyWithCredits_def TIER_DAILY_LIMIT_def put_account_def Let_def split: if_splits)
  show thesis
  proof (cases "truthy (kq_wallet q)")
    case False
    with b have "s1 = s" by (simp add: bind_new_wallet_def)
    with False cr anonymous show thesis by (simp add: validated_def)
  next
    case True
    with v obtain x where x: "validated = Some x" by auto
    with True b obtain y where y: "verifyAndConsumeWalletChallenge ga vm cl (Some x) (kq_nonce q) (kq_signature q) s = (Inr y, s1)"
      and nt: "\<not> wallet_taken x (ky_billing s1)"
      by (auto simp: bind_new_wallet_def split: sum.splits prod.splits if_splits)
    from True x have nx: "normalizeWalletAddress ga (kq_wallet q) = Some x" by (simp add: validated_def)
    from y have "normalizeWalletAddress ga (Some x) = Some y" by (rule verify_cases)
    with normal_again [OF cs nx] have "y = x" by simp
    moreover have "(if truthy validated then map_option (\<lambda>w. map lower (trim w)) validated else None) = Some x"
      using normal_facts [OF cs nx] x by simp
    ultimately show thesis using wallet [OF nx _ nt] y cr by simp
  qed
qed

lemma bindWallet_ok:
  assumes "bindWallet ga vm cl k w sig n s = (r, t)" and "t \<noteq> s" and cs: "checksum_only ga"
  obtains x s1 a where "verifyAndConsumeWalletChallenge ga vm cl (Some x) n sig s = (Inr x, s1)" "trim x = x \<and> x \<noteq> [] \<and> map lower x = x"
      "map_of (bi_accounts (ky_billing s1)) k = Some a" "\<not> wallet_taken x (ky_billing s1)" "ky_challenges t = ky_challenges s1"
      "bi_accounts (ky_billing t) = mset_key k (a \<lparr> ac_wallet := Some x \<rparr>) (bi_accounts (ky_billing s1))"
proof -
  from assms(1,2) obtain x y s1 a where x: "normalizeWalletAddress ga w = Some x"
    and y: "verifyAndConsumeWalletChallenge ga vm cl (Some x) n sig s = (Inr y, s1)"
    and a: "map_of (bi_accounts (ky_billing s1)) k = Some a" "\<not> wallet_taken x (ky_billing s1)"
    and t: "t = s1 \<lparr> ky_billing := put_account k (a \<lparr> ac_wallet := Some x \<rparr>) (ky_billing s1) \<rparr>"
    by (auto simp: bindWallet_def split: if_splits option.splits sum.splits prod.splits)
  from y have "normalizeWalletAddress ga (Some x) = Some y" by (rule verify_cases)
  with normal_again [OF cs x] have "y = x" by simp
  with that [of x s1 a] y a t normal_facts [OF cs x] show thesis by (simp add: put_account_def)
qed

lemma postDeposit_cases:
  assumes "postDeposit cv treasury md lk key txo tier s = (r, t)"
  obtains (refused) "t = s" "fst r \<noteq> 200"
  | (credited) a tx rc sender amount nt where "map_of (bi_accounts (ky_billing s)) key = Some a" "txo = Some tx" "valid_tx txo"
      "isValidKeyFormat key"
      "map_of (bi_deposits (ky_billing s)) tx = None" "cv_receipt cv tx = Some (Some rc)" "rc_status rc = Some 1"
      "hasEnoughConfirmations (cv_block cv) (rc_block rc) MIN_CONFIRMATIONS"
      "depositIn treasury (rc_logs rc) = (sender, amount)" "amount \<noteq> 0" "checkDepositOwnership (Some sender) (ac_wallet a) = None"
      "tierFor md tier amount a = Some nt" "r = (200, fst nt)"
      "t = s \<lparr> ky_billing := put_account key (a \<lparr> ac_credits := ac_credits a + amount, ac_deposited := ac_deposited a + amount,
                        ac_tier := fst nt, ac_daily := snd nt \<rparr>)
            ((ky_billing s) \<lparr> bi_deposits := mset_key tx \<lparr> dp_key = key, dp_amount = amount, dp_from = Some sender,
                dp_tierBefore = ac_tier a, dp_tierAfter = fst nt \<rparr> (bi_deposits (ky_billing s)) \<rparr>) \<rparr>"
proof (cases "fst r = 200")
  case False
  have "t = s" using assms False
    by (auto simp: postDeposit_def creditDeposit_def Let_def split: if_splits option.splits prod.splits)
  with False refused show thesis by blast
next
  case True
  have key: "isValidKeyFormat key" by (rule ccontr) (use assms True in \<open>auto simp: postDeposit_def\<close>)
  have tx: "valid_tx txo" by (rule ccontr) (use assms True key in \<open>auto simp: postDeposit_def\<close>)
  then obtain tx where t: "txo = Some tx" by (auto simp: valid_tx_def split: option.splits)
  obtain a where a: "map_of (bi_accounts (ky_billing s)) key = Some a"
    using assms True key tx by (cases "map_of (bi_accounts (ky_billing s)) key") (auto simp: postDeposit_def)
  note eq = assms [unfolded postDeposit_def if_not_P [OF iffD2 [OF not_not key]] if_not_P [OF iffD2 [OF not_not tx [unfolded t]]] a option.case Let_def t option.sel]
  have fresh: "\<not> (lk \<and> map_of (bi_deposits (ky_billing s)) tx \<noteq> None)" by (rule notI) (use eq True in auto)
  note eq1 = eq [unfolded if_not_P [OF fresh]]
  obtain rc where rc: "cv_receipt cv tx = Some (Some rc)" using eq1 True by (auto split: option.splits)
  note eq2 = eq1 [unfolded rc option.case]
  have st: "rc_status rc = Some 1" by (rule ccontr) (use eq2 True in auto)
  have bl: "cv_block cv \<noteq> None" by (rule notI) (use eq2 True st in auto)
  have cf: "hasEnoughConfirmations (cv_block cv) (rc_block rc) MIN_CONFIRMATIONS" by (rule ccontr) (use eq2 True st bl in auto)
  obtain sender amount where d: "depositIn treasury (rc_logs rc) = (sender, amount)" by force
  note eq3 = eq2 [unfolded if_not_P [OF iffD2 [OF not_not st]] if_not_P [OF bl] if_not_P [OF iffD2 [OF not_not cf]] d prod.case]
  have am: "amount \<noteq> 0" by (rule notI) (use eq3 True in auto)
  note eq4 = eq3 [unfolded if_not_P [OF am]]
  have ow: "checkDepositOwnership (Some sender) (ac_wallet a) = None"
    using eq4 True by (cases "checkDepositOwnership (Some sender) (ac_wallet a)") auto
  note eq5 = eq4 [unfolded ow option.case]
  obtain nt where nt: "tierFor md tier amount a = Some nt" using eq5 True by (cases "tierFor md tier amount a") auto
  note eq6 = eq5 [unfolded nt option.case creditDeposit_def Let_def]
  have dep: "map_of (bi_deposits (ky_billing s)) tx = None" by (rule ccontr) (use eq6 True in auto)
  from eq6 dep show thesis by (intro credited [OF a t tx key dep rc st cf d am ow nt]) simp_all
qed

lemma keys_inv_perform:
  assumes cs: "checksum_only ga" and inv: "keys_inv ga vm ops s"
  shows "keys_inv ga vm (ops @ [op]) (snd (perform ga vm treasury md op s))"
proof -
  from inv have ch: "challenges_ok ga s" by (simp add: keys_inv_def)
  have same: "keys_inv ga vm (ops @ [op]) s" by (rule keys_inv_challenges [OF inv refl ch]) auto
  show ?thesis
  proof (cases op)
    case (OChallenge cl n w a h)
    define t where "t = snd (perform ga vm treasury md op s)"
    have "ky_billing t = ky_billing s \<and> challenges_ok ga t"
      using ch by (auto simp: t_def OChallenge postChallenge_def split: option.splits prod.splits sum.splits dest: challenges_ok_issue)
    then show ?thesis unfolding t_def by (intro keys_inv_challenges [OF inv]) auto
  next
    case (OCreate cl k q)
    obtain r t where rt: "postKey ga vm cl k q s = (r, t)" by (cases "postKey ga vm cl k q s")
    show ?thesis
    proof (cases "t = s")
      case True
      with same OCreate rt show ?thesis by simp
    next
      case False
      from rt False cs show ?thesis
      proof (cases rule: postKey_ok)
        case anonymous
        have "keys_inv ga vm (ops @ [op]) t"
          by (rule keys_inv_account [OF inv _ anonymous(3)]) (use ch anonymous(2) in \<open>auto simp: challenges_ok_def new_account_def\<close>)
        with OCreate rt show ?thesis by simp
      next
        case (wallet x s1)
        note v = challenges_ok_verify [OF ch wallet(2)]
        have inv1: "keys_inv ga vm ops s1" by (rule keys_inv_challenges [OF inv]) (use v in auto)
        have "keys_inv ga vm (ops @ [op]) t"
        proof (rule keys_inv_account [OF inv1 _ wallet(6)])
          show "challenges_ok ga t" using v wallet(5) by (simp add: challenges_ok_def)
          fix w assume "ac_wallet (new_account ''free'' 500 (Some x) (cl_db cl)) = Some w"
          then have "w = x" by (simp add: new_account_def)
          with wallet(3) normal_facts [OF cs wallet(1)] v OCreate
          show "(\<exists>b. map_of (bi_accounts (ky_billing s1)) k = Some b \<and> ac_wallet b = Some w) \<or>
            (\<not> wallet_taken w (ky_billing s1) \<and> map lower w = w \<and> w \<noteq> [] \<and> (\<exists>op' \<in> set (ops @ [op]). proves ga vm w op'))" by auto
        qed auto
        with OCreate rt show ?thesis by simp
      qed
    qed
  next
    case (OBind cl k w sig n)
    obtain r t where rt: "bindWallet ga vm cl k w sig n s = (r, t)" by (cases "bindWallet ga vm cl k w sig n s")
    show ?thesis
    proof (cases "t = s")
      case True
      with same OBind rt show ?thesis by simp
    next
      case False
      from rt False cs show ?thesis
      proof (cases rule: bindWallet_ok)
        case (1 x s1 a)
        note v = challenges_ok_verify [OF ch 1(1)]
        have inv1: "keys_inv ga vm ops s1" by (rule keys_inv_challenges [OF inv]) (use v in auto)
        have "keys_inv ga vm (ops @ [op]) t"
        proof (rule keys_inv_account [OF inv1 _ 1(6)])
          show "challenges_ok ga t" using v 1(5) by (simp add: challenges_ok_def)
          fix y assume "ac_wallet (a \<lparr> ac_wallet := Some x \<rparr>) = Some y"
          with 1(2,4) v OBind
          show "(\<exists>b. map_of (bi_accounts (ky_billing s1)) k = Some b \<and> ac_wallet b = Some y) \<or>
            (\<not> wallet_taken y (ky_billing s1) \<and> map lower y = y \<and> y \<noteq> [] \<and> (\<exists>op' \<in> set (ops @ [op]). proves ga vm y op'))" by auto
        qed auto
        with OBind rt show ?thesis by simp
      qed
    qed
  next
    case (OEmail k e c)
    define t where "t = snd (perform ga vm treasury md op s)"
    have "ky_billing t = ky_billing s \<and> challenges_ok ga t"
      using ch by (auto simp: t_def OEmail postEmail_def challenges_ok_def split: option.splits)
    then show ?thesis unfolding t_def by (intro keys_inv_challenges [OF inv]) auto
  next
    case (ODeposit cv lk k txo tier)
    obtain r t where rt: "postDeposit cv treasury md lk k txo tier s = (r, t)" by (cases "postDeposit cv treasury md lk k txo tier s")
    then show ?thesis
    proof (cases rule: postDeposit_cases)
      case refused
      with same ODeposit rt show ?thesis by simp
    next
      case (credited a tx rc sender amount nt)
      have "keys_inv ga vm (ops @ [op]) t"
        by (rule keys_inv_account [OF inv, where k = k and a = "a \<lparr> ac_credits := ac_credits a + amount,
              ac_deposited := ac_deposited a + amount, ac_tier := fst nt, ac_daily := snd nt \<rparr>"])
          (use credited ch in \<open>auto simp: challenges_ok_def put_account_def\<close>)
      with ODeposit rt show ?thesis by simp
    qed
  qed
qed

definition empty_keys :: keys_state where
  "empty_keys = \<lparr> ky_challenges = [], ky_billing =
     \<lparr> bi_accounts = [], bi_usage = [], bi_deposits = [], bi_sessions = [], bi_plans = [], bi_links = [], bi_agents = [],
       bi_settings = [], bi_counters = [] \<rparr>, ky_emails = [] \<rparr>"

lemma keys_inv_run:
  assumes "checksum_only ga"
  shows "keys_inv ga vm ops (perform_all ga vm treasury md ops empty_keys)"
proof (induction ops rule: rev_induct)
  case Nil
  show ?case by (simp add: perform_all_def keys_inv_def challenges_ok_def empty_keys_def)
next
  case (snoc op ops)
  have "perform_all ga vm treasury md (ops @ [op]) empty_keys =
      snd (perform ga vm treasury md op (perform_all ga vm treasury md ops empty_keys))" by (simp add: perform_all_def)
  with keys_inv_perform [OF assms snoc.IH, of op treasury md] show ?case by simp
qed

section \<open>A consumed challenge\<close>

fun issues :: "key_op \<Rightarrow> string option" where
  "issues (OChallenge cl n w a h) = Some n"
| "issues _ = None"

text \<open>Used up: consumed, or deleted.\<close>

definition used_up :: "string \<Rightarrow> keys_state \<Rightarrow> bool" where
  "used_up n s \<longleftrightarrow> (\<forall>r. map_of (ky_challenges s) n = Some r \<longrightarrow> ch_consumed r \<noteq> None)"

lemma used_up_verify:
  assumes "used_up n s" and "verifyAndConsumeWalletChallenge ga vm cl w m sig s = (Inr x, t)"
  shows "used_up n t \<and> trim (the m) \<noteq> n"
  using assms(2)
proof (cases rule: verify_cases)
  case (1 r)
  with assms(1) have "trim (the m) \<noteq> n" unfolding used_up_def by auto
  with assms(1) 1(10) show ?thesis by (auto simp: used_up_def simp del: map_of_eq_Some_iff)
qed

lemma used_up_perform:
  assumes cs: "checksum_only ga" and ok: "mwf (ky_challenges s)" and u: "used_up n s" and op: "issues op \<noteq> Some n"
  shows "used_up n (snd (perform ga vm treasury md op s))"
proof (cases op)
  case (OChallenge cl m w a h)
  with op have "n \<noteq> m" by simp
  show ?thesis
  proof (cases "normalizeWalletAddress ga (if truthy w then w else a)")
    case None
    with u OChallenge show ?thesis by (simp add: postChallenge_def)
  next
    case (Some x)
    obtain r t where i: "issueWalletChallenge ga cl m (Some x) (or_str h ''rpc.satelink.network'') s = (r, t)"
      by (cases "issueWalletChallenge ga cl m (Some x) (or_str h ''rpc.satelink.network'') s")
    have "used_up n t" using issue_cases [OF i ok] u \<open>n \<noteq> m\<close> unfolding used_up_def by blast
    then show ?thesis using OChallenge Some i by (auto simp: postChallenge_def split: sum.splits prod.splits)
  qed
next
  case (OCreate cl k q)
  obtain r t where rt: "postKey ga vm cl k q s = (r, t)" by (cases "postKey ga vm cl k q s")
  show ?thesis
  proof (cases "t = s")
    case False
    from rt False cs have "used_up n t"
    proof (cases rule: postKey_ok)
      case anonymous
      with u show ?thesis by (simp add: used_up_def)
    next
      case (wallet x s1)
      with used_up_verify [OF u wallet(2)] show ?thesis by (simp add: used_up_def)
    qed
    with OCreate rt show ?thesis by simp
  qed (use u OCreate rt in simp)
next
  case (OBind cl k w sig m)
  obtain r t where rt: "bindWallet ga vm cl k w sig m s = (r, t)" by (cases "bindWallet ga vm cl k w sig m s")
  show ?thesis
  proof (cases "t = s")
    case False
    from rt False cs have "used_up n t"
    proof (cases rule: bindWallet_ok)
      case (1 x s1 a)
      with used_up_verify [OF u 1(1)] show ?thesis by (simp add: used_up_def)
    qed
    with OBind rt show ?thesis by simp
  qed (use u OBind rt in simp)
next
  case (OEmail k e c)
  with u show ?thesis by (auto simp: postEmail_def used_up_def simp del: map_of_eq_Some_iff split: option.splits)
next
  case (ODeposit cv lk k txo tier)
  obtain r t where rt: "postDeposit cv treasury md lk k txo tier s = (r, t)" by (cases "postDeposit cv treasury md lk k txo tier s")
  then show ?thesis by (cases rule: postDeposit_cases) (use u ODeposit rt in \<open>auto simp: used_up_def\<close>)
qed

lemma mwf_perform:
  assumes cs: "checksum_only ga" and ok: "mwf (ky_challenges s)"
  shows "mwf (ky_challenges (snd (perform ga vm treasury md op s)))"
proof -
  have v: "mwf (ky_challenges t)" if "verifyAndConsumeWalletChallenge ga vm cl w m sig s = (Inr x, t)" for cl w m sig x t
    using that by (cases rule: verify_cases) (use ok in simp)
  show ?thesis
  proof (cases op)
    case (OChallenge cl m w a h)
    have "mwf (ky_challenges t)" if "issueWalletChallenge ga cl m x y s = (r, t)" for x y r t using issue_cases [OF that ok] by blast
    then show ?thesis using OChallenge ok by (auto simp: postChallenge_def split: option.splits sum.splits prod.splits)
  next
    case (OCreate cl k q)
    obtain r t where rt: "postKey ga vm cl k q s = (r, t)" by (cases "postKey ga vm cl k q s")
    show ?thesis
    proof (cases "t = s")
      case False
      from rt False cs have "mwf (ky_challenges t)" by (cases rule: postKey_ok) (use ok v in auto)
      with OCreate rt show ?thesis by simp
    qed (use ok OCreate rt in simp)
  next
    case (OBind cl k w sig m)
    obtain r t where rt: "bindWallet ga vm cl k w sig m s = (r, t)" by (cases "bindWallet ga vm cl k w sig m s")
    show ?thesis
    proof (cases "t = s")
      case False
      from rt False cs have "mwf (ky_challenges t)" by (cases rule: bindWallet_ok) (use v in auto)
      with OBind rt show ?thesis by simp
    qed (use ok OBind rt in simp)
  next
    case (OEmail k e c)
    with ok show ?thesis by (auto simp: postEmail_def split: option.splits)
  next
    case (ODeposit cv lk k txo tier)
    obtain r t where rt: "postDeposit cv treasury md lk k txo tier s = (r, t)" by (cases "postDeposit cv treasury md lk k txo tier s")
    then show ?thesis by (cases rule: postDeposit_cases) (use ok ODeposit rt in auto)
  qed
qed

section \<open>What counts once\<close>

text \<open>The later operations: any of the routes, except one that draws the nonce \<open>n\<close> again.\<close>

definition key_step ::
  "(string \<Rightarrow> string option) \<Rightarrow> (string \<Rightarrow> string \<Rightarrow> string option) \<Rightarrow> string \<Rightarrow> rat \<Rightarrow> string option \<Rightarrow> keys_state \<Rightarrow> keys_state \<Rightarrow> bool" where
  "key_step ga vm treasury md n s t \<longleftrightarrow>
     checksum_only ga \<and> (\<exists>op. (n = None \<or> issues op \<noteq> n) \<and> t = snd (perform ga vm treasury md op s))"

lemma key_steps_run:
  assumes "checksum_only ga" and "\<forall>op \<in> set ops. n = None \<or> issues op \<noteq> n"
  shows "(key_step ga vm treasury md n)\<^sup>*\<^sup>* s (perform_all ga vm treasury md ops s)"
  using assms(2)
proof (induction ops arbitrary: s)
  case (Cons op ops)
  have "key_step ga vm treasury md n s (snd (perform ga vm treasury md op s))"
    using assms(1) Cons.prems unfolding key_step_def by auto
  with Cons show ?case by (auto simp: perform_all_def intro: converse_rtranclp_into_rtranclp)
qed (simp add: perform_all_def)

definition accept_challenge ::
  "(string \<Rightarrow> string option) \<Rightarrow> (string \<Rightarrow> string \<Rightarrow> string option) \<Rightarrow> string \<Rightarrow> clocks \<times> string option \<times> string option \<Rightarrow>
   keys_state \<Rightarrow> keys_state option" where
  "accept_challenge ga vm n q s =
     (case q of (cl, w, sig) \<Rightarrow>
      case verifyAndConsumeWalletChallenge ga vm cl w (Some n) sig s of
        (Inr _, t) \<Rightarrow> if mwf (ky_challenges s) then Some t else None | (Inl _, _) \<Rightarrow> None)"

interpretation challenge_token: single_use
  "accept_challenge ga vm n q" "key_step ga vm treasury md (Some (trim n))" "\<lambda>s. mwf (ky_challenges s) \<and> used_up (trim n) s"
  for ga vm n q treasury md
proof
  fix s t
  show "accept_challenge ga vm n q s = Some t \<Longrightarrow> mwf (ky_challenges t) \<and> used_up (trim n) t"
    by (auto simp: accept_challenge_def used_up_def split: prod.splits sum.splits if_splits elim!: verify_cases)
  show "key_step ga vm treasury md (Some (trim n)) s t \<Longrightarrow> mwf (ky_challenges s) \<and> used_up (trim n) s \<Longrightarrow>
      mwf (ky_challenges t) \<and> used_up (trim n) t"
    using mwf_perform used_up_perform unfolding key_step_def by blast
  show "mwf (ky_challenges s) \<and> used_up (trim n) s \<Longrightarrow> accept_challenge ga vm n q s = None"
    using used_up_verify [of "trim n" s ga vm _ _ "Some n"]
    by (auto simp: accept_challenge_def split: prod.splits sum.splits)
qed

lemma verify_billing: "verifyAndConsumeWalletChallenge ga vm cl w n sig s = (Inr x, t) \<Longrightarrow> ky_billing t = ky_billing s"
  by (erule verify_cases) simp

lemma bind_billing: "bind_new_wallet ga vm cl q v s = Inr s1 \<Longrightarrow> ky_billing s1 = ky_billing s"
  by (auto simp: bind_new_wallet_def split: if_splits sum.splits prod.splits dest: verify_billing)

lemma create_deposits:
  "createApiKeyWithCredits k cl tier v em c s = Inr t \<Longrightarrow> bi_deposits (ky_billing t) = bi_deposits (ky_billing s)"
  by (auto simp: createApiKeyWithCredits_def put_account_def Let_def split: option.splits if_splits)

lemma refuse: "(\<not> b \<Longrightarrow> P (snd y)) \<Longrightarrow> P s \<Longrightarrow> P (snd (if b then (e, s) else y))"
  by simp

lemma deposits_postKey: "bi_deposits (ky_billing (snd (postKey ga vm cl k q s))) = bi_deposits (ky_billing s)"
  unfolding postKey_def Let_def
  by (intro refuse [where P = "\<lambda>t. bi_deposits (ky_billing t) = bi_deposits (ky_billing s)"] refl)
    (simp split: sum.split add: bind_billing create_deposits)

lemma deposits_bindWallet: "bi_deposits (ky_billing (snd (bindWallet ga vm cl k w sig n s))) = bi_deposits (ky_billing s)"
  by (auto simp: bindWallet_def put_account_def split: option.splits sum.splits prod.splits dest: verify_billing)

lemma deposits_stay:
  assumes "map_of (bi_deposits (ky_billing s)) tx \<noteq> None"
  shows "map_of (bi_deposits (ky_billing (snd (perform ga vm treasury md op s)))) tx \<noteq> None"
proof (cases op)
  case (OChallenge cl n w a h)
  have "issueWalletChallenge ga cl n x y s = (r, t) \<Longrightarrow> ky_billing t = ky_billing s" for x y r t
    by (auto simp: issueWalletChallenge_def cleanupExpiredChallenges_def Let_def split: option.splits if_splits prod.splits)
  then show ?thesis using assms OChallenge by (auto simp: postChallenge_def split: option.splits sum.splits prod.splits)
next
  case (OCreate cl k q)
  then show ?thesis using assms by (simp add: deposits_postKey)
next
  case (OBind cl k w sig n)
  then show ?thesis using assms by (simp add: deposits_bindWallet)
next
  case (OEmail k e c)
  then show ?thesis using assms by (auto simp: postEmail_def split: option.splits)
next
  case (ODeposit cv lk k txo tier)
  obtain r t where rt: "postDeposit cv treasury md lk k txo tier s = (r, t)" by (cases "postDeposit cv treasury md lk k txo tier s")
  then show ?thesis by (cases rule: postDeposit_cases) (use assms ODeposit rt in \<open>simp_all add: put_account_def\<close>)
qed

definition accept_deposit ::
  "string \<Rightarrow> rat \<Rightarrow> string \<Rightarrow> chain_view \<times> bool \<times> string \<times> string option \<Rightarrow> keys_state \<Rightarrow> keys_state option" where
  "accept_deposit treasury md tx q s =
     (case q of (cv, lk, key, tier) \<Rightarrow>
      case postDeposit cv treasury md lk key (Some tx) tier s of ((code, _), t) \<Rightarrow> if code = 200 then Some t else None)"

interpretation deposit_token: single_use
  "accept_deposit treasury md tx q" "key_step ga vm treasury md None" "\<lambda>s. map_of (bi_deposits (ky_billing s)) tx \<noteq> None"
  for treasury md tx q ga vm
proof
  fix s t
  obtain cv lk key tier where q: "q = (cv, lk, key, tier)" by (cases q)
  obtain code x u where p: "postDeposit cv treasury md lk key (Some tx) tier s = ((code, x), u)"
    by (cases "postDeposit cv treasury md lk key (Some tx) tier s") auto
  show "accept_deposit treasury md tx q s = Some t \<Longrightarrow> map_of (bi_deposits (ky_billing t)) tx \<noteq> None"
    using p by (cases rule: postDeposit_cases) (use p in \<open>auto simp: accept_deposit_def q put_account_def split: if_splits\<close>)
  show "key_step ga vm treasury md None s t \<Longrightarrow> map_of (bi_deposits (ky_billing s)) tx \<noteq> None \<Longrightarrow>
      map_of (bi_deposits (ky_billing t)) tx \<noteq> None"
    using deposits_stay [of s tx] unfolding key_step_def by blast
  show "map_of (bi_deposits (ky_billing s)) tx \<noteq> None \<Longrightarrow> accept_deposit treasury md tx q s = None"
    using p by (cases rule: postDeposit_cases) (use p in \<open>auto simp: accept_deposit_def q split: if_splits\<close>)
qed

section \<open>Properties\<close>


text \<open>
  C35: a challenge that proved a wallet proves nothing again: whatever the routes do later, as long as
  the random generator does not draw its nonce a second time, a verification that names it fails.\<close>

theorem challenge_single_use:
  assumes "checksum_only ga" and "mwf (ky_challenges s)"
    and "verifyAndConsumeWalletChallenge ga vm cl w n sig s = (Inr x, t)"
    and "\<forall>op \<in> set ops. issues op \<noteq> Some (trim (the n))"
    and "trim (the n') = trim (the n)"
  shows "\<exists>e. verifyAndConsumeWalletChallenge ga vm cl' w' n' sig' (perform_all ga vm treasury md ops t) =
     (Inl e, perform_all ga vm treasury md ops t)"
proof (cases n')
  case None
  then show ?thesis
    by (auto simp: verifyAndConsumeWalletChallenge_def isValidNonce_def split: option.splits)
next
  case (Some m')
  let ?u = "perform_all ga vm treasury md ops t"
  from assms(3) obtain m where m: "n = Some m" by (rule verify_cases) (auto simp: isValidNonce_def split: option.splits)
  have "accept_challenge ga vm m (cl, w, sig) s = Some t" using assms(2,3) m by (simp add: accept_challenge_def)
  from challenge_token.claim_spends [OF this] have t: "mwf (ky_challenges t) \<and> used_up (trim m') t" using assms(5) m Some by simp
  have run: "(key_step ga vm treasury md (Some (trim m')))\<^sup>*\<^sup>* t ?u"
    by (rule key_steps_run [OF assms(1)]) (use assms(4,5) m Some in simp)
  from challenge_token.spent_ever [OF run t] challenge_token.refused_ever [OF t run, of "(cl', w', sig')"]
  have none: "accept_challenge ga vm m' (cl', w', sig') ?u = None" and wf: "mwf (ky_challenges ?u)" by simp_all
  obtain r v where rv: "verifyAndConsumeWalletChallenge ga vm cl' w' (Some m') sig' ?u = (r, v)"
    by (cases "verifyAndConsumeWalletChallenge ga vm cl' w' (Some m') sig' ?u")
  with none wf obtain e where "r = Inl e" by (cases r) (simp_all add: accept_challenge_def)
  moreover from this rv have "v = ?u" by (auto simp: verifyAndConsumeWalletChallenge_def Let_def split: option.splits if_splits)
  ultimately show ?thesis using rv Some by blast
qed

lemma ownership_None:
  "checkDepositOwnership (Some sender) w = None \<Longrightarrow> \<exists>x. w = Some x \<and> map lower sender = map lower x"
  by (auto simp: checkDepositOwnership_def coalesce_def trim_def split: if_splits option.splits)

text \<open>
  C16: a claim that succeeds credits exactly the first transfer to the treasury in a confirmed receipt,
  to a key whose wallet sent it, touches no other key, and whatever the routes do later, the same
  transaction hash is refused for every key.\<close>

theorem deposit_credits_sender:
  assumes "postDeposit cv treasury md lk key (Some tx) tier s = ((200, x), t)" and "checksum_only ga"
  shows "\<exists>a b rc sender amount w. map_of (bi_accounts (ky_billing s)) key = Some a \<and> map_of (bi_accounts (ky_billing t)) key = Some b \<and>
     cv_receipt cv tx = Some (Some rc) \<and> depositIn treasury (rc_logs rc) = (sender, amount) \<and>
     hasEnoughConfirmations (cv_block cv) (rc_block rc) MIN_CONFIRMATIONS \<and>
     ac_wallet a = Some w \<and> map lower sender = map lower w \<and> ac_credits b = ac_credits a + amount \<and>
     (\<forall>k. k \<noteq> key \<longrightarrow> map_of (bi_accounts (ky_billing t)) k = map_of (bi_accounts (ky_billing s)) k) \<and>
     (\<forall>ops cv' lk' key' tier'.
        fst (fst (postDeposit cv' treasury md lk' key' (Some tx) tier' (perform_all ga vm treasury md ops t))) \<noteq> 200)"
  using assms(1)
proof (cases rule: postDeposit_cases)
  case refused
  then show ?thesis by simp
next
  case (credited a tx' rc sender amount nt)
  from ownership_None [OF credited(11)] obtain w where w: "ac_wallet a = Some w" "map lower sender = map lower w" by blast
  have rec: "map_of (bi_deposits (ky_billing t)) tx \<noteq> None" using credited(2,14) by (simp add: put_account_def)
  have again: "fst (fst (postDeposit cv' treasury md lk' key' (Some tx) tier' (perform_all ga vm treasury md ops t))) \<noteq> 200"
    for ops cv' lk' key' tier'
  proof -
    have "(key_step ga vm treasury md None)\<^sup>*\<^sup>* t (perform_all ga vm treasury md ops t)"
      by (rule key_steps_run [OF assms(2)]) simp
    from deposit_token.refused_ever [OF rec this, of "(cv', lk', key', tier')"]
    show ?thesis by (auto simp: accept_deposit_def split: prod.splits if_splits)
  qed
  let ?b = "a \<lparr> ac_credits := ac_credits a + amount, ac_deposited := ac_deposited a + amount, ac_tier := fst nt, ac_daily := snd nt \<rparr>"
  have acc: "bi_accounts (ky_billing t) = mset_key key ?b (bi_accounts (ky_billing s))" by (simp add: credited(14) put_account_def)
  have "map_of (bi_accounts (ky_billing t)) key = Some ?b" by (simp add: acc)
  moreover have "\<forall>k. k \<noteq> key \<longrightarrow> map_of (bi_accounts (ky_billing t)) k = map_of (bi_accounts (ky_billing s)) k" by (simp add: acc)
  ultimately show ?thesis
    using credited(1,2,6,8,9) w again
    by (intro exI [of _ a] exI [of _ ?b] exI [of _ rc] exI [of _ sender] exI [of _ amount] exI [of _ w]) simp
qed

lemma tierFor_None: "tierFor md tier amount a = None \<longleftrightarrow> tierFor md tier amount b = None"
  by (simp add: tierFor_def)

text \<open>
  C39: where the chain answers for a transaction hash in either case, as hexadecimal data may be written,
  the same hash with another letter in upper case is a second transaction to the tables: the claim
  succeeds again and the deposit is credited twice.\<close>

theorem deposit_case_variant:
  assumes "postDeposit cv treasury md lk key (Some h) tier s = ((200, x), t)"
    and "map lower h' = map lower h" and "h' \<noteq> h" and "take 2 h' = ''0x''"
    and "\<And>g. map lower g = map lower h \<Longrightarrow> cv_receipt cv g = cv_receipt cv h"
    and "map_of (bi_deposits (ky_billing s)) h' = None"
  shows "\<exists>y u a b amount. postDeposit cv treasury md lk key (Some h') tier t = ((200, y), u) \<and>
     map_of (bi_accounts (ky_billing s)) key = Some a \<and> map_of (bi_accounts (ky_billing u)) key = Some b \<and> amount \<noteq> 0 \<and>
     ac_credits b = ac_credits a + 2 * amount"
  using assms(1)
proof (cases rule: postDeposit_cases)
  case refused
  then show ?thesis by simp
next
  case (credited a tx rc sender amount nt)
  have tx: "tx = h" using credited(2) by simp
  have rcpt: "cv_receipt cv h' = Some (Some rc)" using assms(5) [OF assms(2)] credited(6) tx by simp
  have "length h' = length h" using assms(2) by (metis length_map)
  with credited(3) assms(4) have v: "valid_tx (Some h')" by (simp add: valid_tx_def)
  let ?b = "a \<lparr> ac_credits := ac_credits a + amount, ac_deposited := ac_deposited a + amount, ac_tier := fst nt, ac_daily := snd nt \<rparr>"
  have acc: "map_of (bi_accounts (ky_billing t)) key = Some ?b" by (simp add: credited(14) put_account_def)
  have dep: "map_of (bi_deposits (ky_billing t)) h' = None" using assms(3,6) by (simp add: credited(14) put_account_def tx)
  from credited(12) tierFor_None [of md tier amount a ?b] obtain nt' where nt': "tierFor md tier amount ?b = Some nt'" by auto
  obtain cb where bl: "cv_block cv = Some cb" using credited(8) by (auto simp: hasEnoughConfirmations_def split: option.splits)
  have "postDeposit cv treasury md lk key (Some h') tier t = creditDeposit key h' amount sender nt' ?b t"
    using credited(4,7-11) v acc dep rcpt nt' bl by (simp add: postDeposit_def del: map_of_eq_None_iff)
  also have "\<dots> = ((200, fst nt'), snd (creditDeposit key h' amount sender nt' ?b t))" using dep by (simp add: creditDeposit_def Let_def)
  finally have p: "postDeposit cv treasury md lk key (Some h') tier t = ((200, fst nt'), snd (creditDeposit key h' amount sender nt' ?b t))" .
  have u: "\<exists>b. map_of (bi_accounts (ky_billing (snd (creditDeposit key h' amount sender nt' ?b t)))) key = Some b \<and>
      ac_credits b = ac_credits a + 2 * amount"
    using dep by (simp add: creditDeposit_def put_account_def Let_def)
  from p u credited(1,10) show ?thesis by blast
qed

text \<open>
  A claim without a tier that is worth the basic plan but not the next one puts the key on the basic
  plan and its daily limit, also when the key was on a higher one.\<close>

theorem small_deposit_downgrades:
  assumes "postDeposit cv treasury md lk key (Some tx) None s = ((200, x), t)"
    and "map_of (bi_accounts (ky_billing s)) key = Some a" and "ac_tier a = ''enterprise''"
    and "cv_receipt cv tx = Some (Some rc)" and "9 \<le> snd (depositIn treasury (rc_logs rc))" and "snd (depositIn treasury (rc_logs rc)) < 49"
  shows "\<exists>b. map_of (bi_accounts (ky_billing t)) key = Some b \<and> ac_tier b = ''basic'' \<and> ac_daily b = Some 10000"
  using assms(1)
proof (cases rule: postDeposit_cases)
  case refused
  then show ?thesis by simp
next
  case (credited a' tx' rc' sender amount nt)
  from credited(2,6,9) assms(4-6) have am: "9 \<le> amount" "amount < 49" by auto
  have "nt = (''basic'', Some 10000)"
    using credited(12) am by (auto simp: tierFor_def tier_price_def TIER_PRICES_def tier_with_limit_def TIER_DAILY_LIMIT_def split: if_splits)
  then show ?thesis by (simp add: credited(14) put_account_def)
qed

section \<open>Concrete requests\<close>

definition claim_wallet :: string where "claim_wallet = ''0x'' @ replicate 40 (CHR ''a'')"

definition sample_nonce :: string where "sample_nonce = replicate 32 (CHR ''b'')"

definition sample_sig :: string where "sample_sig = ''0x'' @ replicate 130 (CHR ''1'')"

definition sample_keys :: keys_state where
  "sample_keys = perform_all Some (\<lambda>_ _. Some claim_wallet) ''0xt'' (1 / 2)
     [OChallenge \<lparr> cl_date = 1000, cl_db = 1000 \<rparr> sample_nonce (Some claim_wallet) None None,
      OCreate \<lparr> cl_date = 2000, cl_db = 2000 \<rparr> ''sk_free_1''
        \<lparr> kq_tier = None, kq_wallet = Some claim_wallet, kq_signature = Some sample_sig, kq_nonce = Some sample_nonce,
          kq_email = None, kq_consent = False \<rparr>] empty_keys"

lemma sample_keys_wallet: "map_option ac_wallet (map_of (bi_accounts (ky_billing sample_keys)) ''sk_free_1'') = Some (Some claim_wallet)"
  by code_simp

lemma checksum_id: "checksum_only Some"
  by (simp add: checksum_only_def)


definition challenged :: keys_state where
  "challenged = snd (postChallenge Some \<lparr> cl_date = 1000, cl_db = 1000 \<rparr> sample_nonce (Some claim_wallet) None None empty_keys)"

abbreviation sample_verify :: "keys_state \<Rightarrow> ((nat \<times> string) + string) \<times> keys_state" where
  "sample_verify \<equiv> verifyAndConsumeWalletChallenge Some (\<lambda>_ _. Some claim_wallet) \<lparr> cl_date = 2000, cl_db = 2000 \<rparr>
     (Some claim_wallet) (Some sample_nonce) (Some sample_sig)"

lemma challenged_ok: "fst (sample_verify challenged) = Inr claim_wallet \<and> mwf (ky_challenges challenged)"
  by code_simp

theorem challenge_single_use_witness:
  "fst (sample_verify challenged) = Inr claim_wallet \<and>
   (\<exists>e. sample_verify (snd (sample_verify challenged)) = (Inl e, snd (sample_verify challenged)))"
proof -
  have v: "sample_verify challenged = (Inr claim_wallet, snd (sample_verify challenged))" using challenged_ok by (metis prod.collapse)
  have "\<exists>e. sample_verify (perform_all Some (\<lambda>_ _. Some claim_wallet) [] 0 [] (snd (sample_verify challenged))) =
      (Inl e, perform_all Some (\<lambda>_ _. Some claim_wallet) [] 0 [] (snd (sample_verify challenged)))"
    by (rule challenge_single_use [OF checksum_id _ v]) (use challenged_ok in simp_all)
  then show ?thesis using challenged_ok by (simp add: perform_all_def)
qed

definition sample_receipt :: receipt where
  "sample_receipt = \<lparr> rc_status = Some 1, rc_block = Some 100, rc_logs =
     [\<lparr> lg_address = USDT_POLYGON, lg_topic = Some TRANSFER_TOPIC, lg_transfer = Some (claim_wallet, ''0xT'', 10000000) \<rparr>] \<rparr>"

definition sample_chain :: chain_view where
  "sample_chain = \<lparr> cv_receipt = (\<lambda>h. Some (Some sample_receipt)), cv_block = Some 200 \<rparr>"

definition sample_hash :: string where "sample_hash = ''0x'' @ replicate 64 (CHR ''c'')"

definition sample_hash2 :: string where "sample_hash2 = ''0x'' @ CHR ''C'' # replicate 63 (CHR ''c'')"

abbreviation sample_claim :: "string \<Rightarrow> keys_state \<Rightarrow> (nat \<times> string) \<times> keys_state" where
  "sample_claim h \<equiv> postDeposit sample_chain ''0xt'' (1 / 2) True ''sk_free_1'' (Some h) None"

lemma sample_claim_ok: "fst (sample_claim sample_hash sample_keys) = (200, ''basic'')"
  by code_simp

lemma sample_claim_eq: "sample_claim sample_hash sample_keys = ((200, ''basic''), snd (sample_claim sample_hash sample_keys))"
  using sample_claim_ok by (metis prod.collapse)

theorem deposit_credits_sender_witness:
  "fst (fst (sample_claim sample_hash (snd (sample_claim sample_hash sample_keys)))) \<noteq> 200"
  using deposit_credits_sender [OF sample_claim_eq checksum_id, of "\<lambda>_ _. None"]
  by (metis (no_types, lifting) foldl_Nil perform_all_def)

lemma sample_hashes: "map lower sample_hash2 = map lower sample_hash \<and> sample_hash2 \<noteq> sample_hash \<and> take 2 sample_hash2 = ''0x'' \<and>
   map_of (bi_deposits (ky_billing sample_keys)) sample_hash2 = None"
  by code_simp

theorem deposit_case_variant_witness:
  "\<exists>y. fst (sample_claim sample_hash2 (snd (sample_claim sample_hash sample_keys))) = (200, y)"
  using deposit_case_variant [OF sample_claim_eq, of sample_hash2] sample_hashes by (fastforce simp: sample_chain_def)

definition enterprise_keys :: keys_state where
  "enterprise_keys = sample_keys \<lparr> ky_billing := put_account ''sk_free_1''
     (new_account ''enterprise'' 1000000 (Some claim_wallet) 0) (ky_billing sample_keys) \<rparr>"

lemma enterprise_claim: "fst (sample_claim sample_hash enterprise_keys) = (200, ''basic'')"
  by code_simp

theorem small_deposit_downgrades_witness:
  "\<exists>b. map_of (bi_accounts (ky_billing (snd (sample_claim sample_hash enterprise_keys)))) ''sk_free_1'' = Some b \<and> ac_tier b = ''basic''"
proof -
  have p: "sample_claim sample_hash enterprise_keys = ((200, ''basic''), snd (sample_claim sample_hash enterprise_keys))"
    using enterprise_claim by (metis prod.collapse)
  have "snd (depositIn ''0xt'' (rc_logs sample_receipt)) = 10" by code_simp
  then show ?thesis
    using small_deposit_downgrades [OF p, of "new_account ''enterprise'' 1000000 (Some claim_wallet) 0" sample_receipt]
    by (auto simp: enterprise_keys_def put_account_def new_account_def sample_chain_def simp del: map_of_eq_Some_iff)
qed

end
