(* ===== verification/Pricing_Catalog.thy ===== *)
theory Pricing_Catalog
  imports Market_Sources
begin

text \<open>
  The plan catalog of Pricing V2 and what reads it: \<^verbatim>\<open>pricing_v2/catalog.mjs\<close>, the worst-case
  economics of \<^verbatim>\<open>economics.mjs\<close>, the guard of the test checkout, and \<^verbatim>\<open>checkout.mjs\<close>. The catalog
  is a record of the fields of its JSON file that some code reads; labels that are only copied
  to the page (names, limits, copy) are left out. Prices are exact rationals.
\<close>

section \<open>The catalog\<close>

datatype dodo_mode = Test | Live

text \<open>A product id of a mode: the property may be absent, null or a string.\<close>

datatype dodo_ref = Undef | Null | Prod string

record dodo_ids =
  di_test :: dodo_ref
  di_live :: dodo_ref

fun dodo_at :: "dodo_ids \<Rightarrow> dodo_mode \<Rightarrow> dodo_ref" where
  "dodo_at d Test = di_test d"
| "dodo_at d Live = di_live d"

record plan_intro =
  in_amount :: rat
  in_days :: int

record plan_item =
  pl_id :: string
  pl_kind :: string
  pl_price :: rat
  pl_interval :: "string option"
  pl_base :: "string option"
  pl_entitlement :: "string option"
  pl_intro :: "plan_intro option"
  pl_session :: int
  pl_weekly :: int
  pl_dodo :: dodo_ids
  pl_inr :: "rat option"

record pack_item =
  pk_id :: string
  pk_price :: rat
  pk_grant :: int
  pk_bonus :: "int option"
  pk_dodo :: dodo_ids
  pk_inr :: "rat option"

record dodo_fees =
  fe_base_pct :: rat
  fe_base_fixed :: rat
  fe_international_pct :: rat
  fe_subscription_pct :: rat
  fe_india_pct :: rat
  fe_india_fixed :: rat
  fe_refund_fixed :: rat
  fe_dispute_fixed :: rat

record catalog =
  ct_version :: string
  ct_unit_usd :: rat
  ct_request_uu :: int
  ct_session_hours :: int
  ct_thresholds :: "rat list"
  ct_plans :: "plan_item list"
  ct_packs :: "pack_item list"
  ct_fees :: dodo_fees
  ct_cost_per_uu :: rat
  ct_weeks_month :: rat
  ct_weeks_year :: "rat option"

section \<open>Validation\<close>

text \<open>The loop over the ids of the plans and packs, with the set of the ids seen.\<close>

fun idErrors :: "string list \<Rightarrow> (string \<times> rat) list \<Rightarrow> string list" where
  "idErrors ids [] = []"
| "idErrors ids ((i, price) # ps) =
     (if i = [] \<or> i \<in> set ids then [''duplicate or missing id: '' @ i] else []) @
     (if price \<ge> 0 then [] else [i @ '': price_usd'']) @
     idErrors (i # ids) ps"

definition planErrors :: "plan_item \<Rightarrow> string list" where
  "planErrors p =
     (if pl_session p > 0 \<and> pl_weekly p \<ge> pl_session p then [] else [pl_id p @ '': allowance session/weekly'']) @
     (case pl_intro p of None \<Rightarrow> []
      | Some i \<Rightarrow> if in_amount i > 0 \<and> in_days i > 0 then [] else [pl_id p @ '': intro'']) @
     (case pl_inr p of None \<Rightarrow> []
      | Some q \<Rightarrow> if of_int \<lfloor>q\<rfloor> = q then [] else [pl_id p @ '': inr_price must be whole rupees or null''])"

definition packErrors :: "pack_item \<Rightarrow> string list" where
  "packErrors k =
     (if pk_grant k > 0 then [] else [pk_id k @ '': grant_uu'']) @
     (case pk_bonus k of None \<Rightarrow> []
      | Some b \<Rightarrow> if b \<ge> 0 then [] else [pk_id k @ '': bonus_uu must be a whole number >= 0''])"

definition validateCatalog :: "catalog \<Rightarrow> string list" where
  "validateCatalog c =
     (if ct_unit_usd c > 0 then [] else [''unit.usd_list_value must be > 0'']) @
     idErrors [] (map (\<lambda>p. (pl_id p, pl_price p)) (ct_plans c) @ map (\<lambda>k. (pk_id k, pk_price k)) (ct_packs c)) @
     concat (map planErrors (ct_plans c)) @
     concat (map packErrors (ct_packs c))"

definition loadCatalog :: "catalog \<Rightarrow> string list + catalog" where
  "loadCatalog c = (let errs = validateCatalog c in if errs \<noteq> [] then Inl errs else Inr c)"

section \<open>Lookups\<close>

definition getPlan :: "string \<Rightarrow> catalog \<Rightarrow> plan_item option" where
  "getPlan i c = find (\<lambda>p. pl_id p = i) (ct_plans c)"

definition getPack :: "string \<Rightarrow> catalog \<Rightarrow> pack_item option" where
  "getPack i c = find (\<lambda>k. pk_id k = i) (ct_packs c)"

definition bonusUu :: "pack_item \<Rightarrow> int" where
  "bonusUu k = coalesce (pk_bonus k) 0"

definition packTotalUu :: "pack_item \<Rightarrow> int" where
  "packTotalUu k = pk_grant k + bonusUu k"

definition entitlementPlan :: "string \<Rightarrow> catalog \<Rightarrow> plan_item option" where
  "entitlementPlan i c =
     (case getPlan i c of None \<Rightarrow> None
      | Some p \<Rightarrow> if truthy (pl_entitlement p) then getPlan (the (pl_entitlement p)) c else Some p)"

definition dodoProductId :: "dodo_ids \<Rightarrow> dodo_mode \<Rightarrow> string option" where
  "dodoProductId d m = (case dodo_at d m of Prod s \<Rightarrow> or_null (Some s) | _ \<Rightarrow> None)"

datatype cat_item = PlanItem plan_item | PackItem pack_item

text \<open>\<open>productId\<close> is a string or null, compared with the property by \<open>===\<close>: null equals null.\<close>

definition same_ref :: "dodo_ref \<Rightarrow> string option \<Rightarrow> bool" where
  "same_ref r productId = (case r of Undef \<Rightarrow> False | Null \<Rightarrow> productId = None | Prod s \<Rightarrow> productId = Some s)"

definition itemForDodoProduct :: "string option \<Rightarrow> dodo_mode \<Rightarrow> catalog \<Rightarrow> cat_item option" where
  "itemForDodoProduct productId m c =
     (case find (\<lambda>p. same_ref (dodo_at (pl_dodo p) m) productId) (ct_plans c) of
        Some p \<Rightarrow> Some (PlanItem p)
      | None \<Rightarrow> map_option PackItem (find (\<lambda>k. same_ref (dodo_at (pk_dodo k) m) productId) (ct_packs c)))"

section \<open>Economics\<close>

definition r2 :: "rat \<Rightarrow> rat" where
  "r2 x = of_int (math_round (x * 100)) / 100"

definition feeWorst :: "rat \<Rightarrow> bool \<Rightarrow> dodo_fees \<Rightarrow> rat" where
  "feeWorst priceUsd subscription fees =
     (if priceUsd \<le> 0 then 0
      else let pct = fe_base_pct fees + fe_international_pct fees + (if subscription then fe_subscription_pct fees else 0)
           in priceUsd * (pct / 100) + fe_base_fixed fees)"

definition feeIndiaDomestic :: "rat \<Rightarrow> bool \<Rightarrow> dodo_fees \<Rightarrow> rat" where
  "feeIndiaDomestic priceUsd subscription fees =
     (if priceUsd \<le> 0 then 0
      else let pct = fe_india_pct fees + (if subscription then fe_subscription_pct fees else 0)
           in priceUsd * (pct / 100) + fe_india_fixed fees)"

text \<open>The units one cycle can consume; \<open>None\<close> where the code reads a property of undefined and throws.\<close>

definition cycleUuPlan :: "plan_item \<Rightarrow> catalog \<Rightarrow> rat option" where
  "cycleUuPlan p c =
     (case (if truthy (pl_entitlement p) then getPlan (the (pl_entitlement p)) c else Some p) of
        None \<Rightarrow> None
      | Some ent \<Rightarrow>
          Some (of_int (pl_weekly ent) *
            (if pl_interval p = Some ''year'' then coalesce (ct_weeks_year c) 53 else ct_weeks_month c)))"

definition cycleUuPack :: "pack_item \<Rightarrow> rat" where
  "cycleUuPack k = of_int (packTotalUu k)"

record econ_row =
  er_label :: string
  er_price :: rat
  er_feeWorst :: rat
  er_feeIndia :: rat
  er_uu :: int
  er_uuCost :: rat
  er_contribution :: rat
  er_breakEven :: "rat option"
  er_refundLoss :: rat
  er_disputeLoss :: rat

definition chargeRow :: "catalog \<Rightarrow> bool \<Rightarrow> rat \<Rightarrow> string \<times> rat \<Rightarrow> econ_row" where
  "chargeRow c subscription uu lp =
     (case lp of (label, price) \<Rightarrow>
      let fees = ct_fees c; uuCost = uu * ct_cost_per_uu c; fw = feeWorst price subscription fees
      in \<lparr> er_label = label, er_price = price, er_feeWorst = r2 fw,
           er_feeIndia = r2 (feeIndiaDomestic price subscription fees),
           er_uu = math_round uu, er_uuCost = r2 uuCost,
           er_contribution = r2 (price - fw - uuCost),
           er_breakEven = (if uu > 0 then Some ((price - fw) / uu) else None),
           er_refundLoss = (if price > 0 then r2 (- price - fe_refund_fixed fees) else 0),
           er_disputeLoss = (if price > 0 then r2 (- price - fe_dispute_fixed fees) else 0) \<rparr>)"

definition planCharges :: "plan_item \<Rightarrow> (string \<times> rat) list" where
  "planCharges p =
     (case pl_intro p of
        Some i \<Rightarrow> [(''intro cycle'', in_amount i), (''renewal'', pl_price p)]
      | None \<Rightarrow>
          [(if pl_kind p = ''subscription'' then (if pl_interval p = Some ''year'' then ''yearly'' else ''monthly'')
            else if pl_kind p = ''free'' then ''free'' else ''one-time'', pl_price p)])"

definition worstCasePlan :: "plan_item \<Rightarrow> catalog \<Rightarrow> (econ_row list \<times> bool) option" where
  "worstCasePlan p c =
     (case cycleUuPlan p c of None \<Rightarrow> None
      | Some uu \<Rightarrow>
          let rows = map (chargeRow c (pl_kind p = ''subscription'') uu) (planCharges p)
          in Some (rows, pl_kind p = ''free'' \<or> list_all (\<lambda>r. er_contribution r \<ge> 0) rows))"

definition worstCasePack :: "pack_item \<Rightarrow> catalog \<Rightarrow> econ_row list \<times> bool" where
  "worstCasePack k c =
     (let rows = [chargeRow c False (cycleUuPack k) (''one-time'', pk_price k)]
      in (rows, list_all (\<lambda>r. er_contribution r \<ge> 0) rows))"

section \<open>The public shape\<close>

text \<open>The numbers of an item and whether it can be bought. A pack has no plan and no session; the units it
  credits stand in the weekly fields.\<close>

record listed_item =
  li_id :: string
  li_entitlement :: string
  li_sessionUu :: int
  li_weeklyUu :: int
  li_sessionTi :: int
  li_weeklyTi :: int
  li_purchasable :: bool
  li_availability :: "string option"
  li_gate :: bool

definition publicPlan :: "catalog \<Rightarrow> dodo_mode \<Rightarrow> bool \<Rightarrow> plan_item \<Rightarrow> string + listed_item" where
  "publicPlan c m allowed p =
     (case (worstCasePlan p c, entitlementPlan (pl_id p) c) of
        (Some (rows, gate), Some ent) \<Rightarrow>
          Inr \<lparr> li_id = pl_id p, li_entitlement = pl_id ent,
                li_sessionUu = pl_session ent, li_weeklyUu = pl_weekly ent,
                li_sessionTi = \<lfloor>of_int (pl_session ent) / of_int (ct_request_uu c) :: rat\<rfloor>,
                li_weeklyTi = \<lfloor>of_int (pl_weekly ent) / of_int (ct_request_uu c) :: rat\<rfloor>,
                li_purchasable = (if pl_kind p = ''free'' then False
                                  else allowed \<and> dodoProductId (pl_dodo p) m \<noteq> None \<and> gate),
                li_availability = (if pl_kind p = ''free'' then Some ''free'' else if \<not> allowed then Some ''soon'' else None),
                li_gate = gate \<rparr>
      | _ \<Rightarrow> Inl ''TypeError'')"

definition publicPack :: "catalog \<Rightarrow> dodo_mode \<Rightarrow> bool \<Rightarrow> pack_item \<Rightarrow> listed_item" where
  "publicPack c m allowed k =
     \<lparr> li_id = pk_id k, li_entitlement = [], li_sessionUu = 0, li_weeklyUu = packTotalUu k,
       li_sessionTi = 0, li_weeklyTi = \<lfloor>of_int (packTotalUu k) / of_int (ct_request_uu c) :: rat\<rfloor>,
       li_purchasable = (allowed \<and> dodoProductId (pk_dodo k) m \<noteq> None \<and> snd (worstCasePack k c)),
       li_availability = (if \<not> allowed then Some ''soon'' else None),
       li_gate = snd (worstCasePack k c) \<rparr>"

definition publicCatalog :: "catalog \<Rightarrow> dodo_mode \<Rightarrow> bool \<Rightarrow> string + listed_item list" where
  "publicCatalog c m allowed =
     bindR (mapR (publicPlan c m allowed) (ct_plans c))
       (\<lambda>ps. Inr (ps @ map (publicPack c m allowed) (ct_packs c)))"

section \<open>Checkout\<close>

fun split_on :: "char \<Rightarrow> string \<Rightarrow> string list" where
  "split_on c [] = [[]]"
| "split_on c (x # xs) =
     (if x = c then [] # split_on c xs
      else case split_on c xs of [] \<Rightarrow> [[x]] | w # ws \<Rightarrow> (x # w) # ws)"

definition testCheckoutAllowlist :: "string option \<Rightarrow> string list" where
  "testCheckoutAllowlist env =
     filter (\<lambda>s. s \<noteq> []) (map (\<lambda>s. map lower (trim s)) (split_on (CHR '','') (or_str env [])))"

text \<open>\<open>e.slice(e.lastIndexOf('@'))\<close>, of an address that has an \<open>@\<close>.\<close>

definition email_domain :: "string \<Rightarrow> string" where
  "email_domain e = CHR ''@'' # rev (takeWhile (\<lambda>c. c \<noteq> CHR ''@'') (rev e))"

definition checkoutAllowed :: "string option \<Rightarrow> dodo_mode \<Rightarrow> string option \<Rightarrow> bool" where
  "checkoutAllowed email m env =
     (if m \<noteq> Test then True
      else let e = map lower (trim (or_str email [])) in
           if e = [] \<or> CHR ''@'' \<notin> set e then False
           else list_ex (\<lambda>entry. entry = e \<or> (take 1 entry = ''@'' \<and> entry = email_domain e)) (testCheckoutAllowlist env))"

datatype checkout_error = UnknownItem | CheckoutNotAvailable | NotPurchasable | CatalogTypeError

record checkout_request =
  cr_product :: string
  cr_email :: "string option"
  cr_user :: string
  cr_item :: string
  cr_version :: string

text \<open>The body of the request to Dodo, or the error; \<open>item.dodo[mode]\<close> is a product id there.\<close>

definition ref_id :: "dodo_ref \<Rightarrow> string" where
  "ref_id r = (case r of Prod s \<Rightarrow> s | _ \<Rightarrow> [])"

definition createCheckout ::
  "catalog \<Rightarrow> dodo_mode \<Rightarrow> string option \<Rightarrow> string \<Rightarrow> string option \<Rightarrow> string \<Rightarrow> checkout_error + checkout_request" where
  "createCheckout c m env accountId email itemId =
     (let item = (case getPlan itemId c of
                    Some p \<Rightarrow> Some (pl_id p, pl_kind p = ''free'', pl_dodo p)
                  | None \<Rightarrow> map_option (\<lambda>k. (pk_id k, False, pk_dodo k)) (getPack itemId c))
      in case item of
           None \<Rightarrow> Inl UnknownItem
         | Some (i, isFree, dodo) \<Rightarrow>
             if isFree then Inl UnknownItem
             else if \<not> checkoutAllowed email m env then Inl CheckoutNotAvailable
             else case publicCatalog c m True of
                    Inl _ \<Rightarrow> Inl CatalogTypeError
                  | Inr listed \<Rightarrow>
                      (case find (\<lambda>x. li_id x = itemId) listed of
                         Some l \<Rightarrow>
                           if li_purchasable l
                           then Inr \<lparr> cr_product = ref_id (dodo_at dodo m), cr_email = or_null email,
                                      cr_user = accountId, cr_item = i, cr_version = ct_version c \<rparr>
                           else Inl NotPurchasable
                       | None \<Rightarrow> Inl NotPurchasable))"

section \<open>What the gate lets through\<close>

lemma r2_nonneg_iff: "r2 x \<ge> 0 \<longleftrightarrow> x \<ge> - 1 / 200"
proof -
  have "r2 x \<ge> 0 \<longleftrightarrow> 0 \<le> \<lfloor>x * 100 + 1 / 2\<rfloor>" by (simp add: r2_def math_round_def zero_le_divide_iff)
  also have "\<dots> \<longleftrightarrow> x \<ge> - 1 / 200" by (simp add: zero_le_floor) linarith
  finally show ?thesis .
qed

lemma chargeRow_contribution:
  "er_contribution (chargeRow c sub uu (l, price)) = r2 (price - feeWorst price sub (ct_fees c) - uu * ct_cost_per_uu c)"
  by (simp add: chargeRow_def Let_def)

lemma find_app: "find P (xs @ ys) = (case find P xs of None \<Rightarrow> find P ys | Some x \<Rightarrow> Some x)"
  by (induction xs) auto

lemma find_mapR:
  assumes "mapR f xs = Inr ys" and "\<And>x y. f x = Inr y \<Longrightarrow> k y = k' x"
  shows "(case find (\<lambda>x. k' x = i) xs of
            None \<Rightarrow> find (\<lambda>y. k y = i) ys = None
          | Some x \<Rightarrow> (\<exists>y. f x = Inr y \<and> find (\<lambda>y. k y = i) ys = Some y))"
  using assms(1)
proof (induction xs arbitrary: ys)
  case (Cons x xs)
  then obtain y zs where y: "f x = Inr y" and zs: "mapR f xs = Inr zs" and ys: "ys = y # zs"
    by (auto simp: bindR_Inr_iff)
  from assms(2) [OF y] have "k y = k' x" .
  with Cons.IH [OF zs] y show ?case unfolding ys by (auto split: option.splits)
qed simp

lemma publicPlan_id: "publicPlan c m a p = Inr l \<Longrightarrow> li_id l = pl_id p"
  by (auto simp: publicPlan_def split: option.splits prod.splits)

lemma listed_plan:
  assumes "publicCatalog c m a = Inr ls" and "getPlan i c = Some p"
  obtains l where "publicPlan c m a p = Inr l" and "find (\<lambda>x. li_id x = i) ls = Some l"
proof -
  from assms(1) obtain ps where ps: "mapR (publicPlan c m a) (ct_plans c) = Inr ps"
    and ls: "ls = ps @ map (publicPack c m a) (ct_packs c)" by (auto simp: publicCatalog_def bindR_Inr_iff)
  from find_mapR [OF ps, where k = li_id and k' = pl_id and i = i, OF publicPlan_id [of c m a]] assms(2)
  obtain l where "publicPlan c m a p = Inr l" "find (\<lambda>x. li_id x = i) ps = Some l" by (auto simp: getPlan_def)
  then show thesis using that ls by (simp add: find_app)
qed

lemma listed_pack:
  assumes "publicCatalog c m a = Inr ls" and "getPlan i c = None" and "getPack i c = Some k"
  shows "find (\<lambda>x. li_id x = i) ls = Some (publicPack c m a k)"
proof -
  from assms(1) obtain ps where ps: "mapR (publicPlan c m a) (ct_plans c) = Inr ps"
    and ls: "ls = ps @ map (publicPack c m a) (ct_packs c)" by (auto simp: publicCatalog_def bindR_Inr_iff)
  from find_mapR [OF ps, where k = li_id and k' = pl_id and i = i, OF publicPlan_id [of c m a]] assms(2)
  have "find (\<lambda>x. li_id x = i) ps = None" by (simp add: getPlan_def)
  moreover have "find (\<lambda>x. li_id x = i) (map (publicPack c m a) ks) = map_option (publicPack c m a) (find (\<lambda>k. pk_id k = i) ks)" for ks
    by (induction ks) (auto simp: publicPack_def)
  ultimately show ?thesis using ls assms(3) by (simp add: getPack_def find_app)
qed

text \<open>An item whose exact worst-case contribution of every charge is at least minus half a cent.\<close>

definition plan_covers_cost :: "catalog \<Rightarrow> plan_item \<Rightarrow> bool" where
  "plan_covers_cost c p \<longleftrightarrow>
     (case cycleUuPlan p c of None \<Rightarrow> False
      | Some uu \<Rightarrow> list_all (\<lambda>(l, price). price - feeWorst price (pl_kind p = ''subscription'') (ct_fees c) - uu * ct_cost_per_uu c \<ge> - 1 / 200)
                    (planCharges p))"

definition pack_covers_cost :: "catalog \<Rightarrow> pack_item \<Rightarrow> bool" where
  "pack_covers_cost c k \<longleftrightarrow>
     pk_price k - feeWorst (pk_price k) False (ct_fees c) - of_int (packTotalUu k) * ct_cost_per_uu c \<ge> - 1 / 200"

lemma charge_rows_nonneg:
  "list_all (\<lambda>r. er_contribution r \<ge> 0) (map (chargeRow c sub uu) cs) \<longleftrightarrow>
   list_all (\<lambda>(l, price). price - feeWorst price sub (ct_fees c) - uu * ct_cost_per_uu c \<ge> - 1 / 200) cs"
  by (induction cs) (auto simp: chargeRow_contribution r2_nonneg_iff)

lemma publicPlan_purchasable:
  assumes "publicPlan c m a p = Inr l" and "li_purchasable l"
  shows "pl_kind p \<noteq> ''free'' \<and> plan_covers_cost c p \<and> (\<exists>s. s \<noteq> [] \<and> dodo_at (pl_dodo p) m = Prod s)"
  using assms
  by (auto simp: publicPlan_def worstCasePlan_def plan_covers_cost_def charge_rows_nonneg Let_def dodoProductId_def or_null_def
      split: option.splits prod.splits if_splits dodo_ref.splits)

lemma publicPack_purchasable:
  assumes "li_purchasable (publicPack c m a k)"
  shows "pack_covers_cost c k \<and> (\<exists>s. s \<noteq> [] \<and> dodo_at (pk_dodo k) m = Prod s)"
  using assms
  by (auto simp: publicPack_def worstCasePack_def pack_covers_cost_def cycleUuPack_def chargeRow_contribution r2_nonneg_iff Let_def
      dodoProductId_def or_null_def split: if_splits dodo_ref.splits)

lemma createCheckout_cases:
  assumes "createCheckout c m env a email i = Inr r"
  obtains (plan) p where "getPlan i c = Some p" "plan_covers_cost c p" "pl_kind p \<noteq> ''free''"
      "dodo_at (pl_dodo p) m = Prod (cr_product r)" "cr_product r \<noteq> []" "cr_user r = a" "cr_item r = i" "checkoutAllowed email m env"
  | (pack) k where "getPlan i c = None" "getPack i c = Some k" "pack_covers_cost c k"
      "dodo_at (pk_dodo k) m = Prod (cr_product r)" "cr_product r \<noteq> []" "cr_user r = a" "cr_item r = i" "checkoutAllowed email m env"
proof (cases "getPlan i c")
  case (Some p)
  with assms obtain ls l where allowed: "checkoutAllowed email m env" and ls: "publicCatalog c m True = Inr ls"
    and l: "find (\<lambda>x. li_id x = i) ls = Some l" "li_purchasable l"
    and r: "r = \<lparr> cr_product = ref_id (dodo_at (pl_dodo p) m), cr_email = or_null email,
                  cr_user = a, cr_item = pl_id p, cr_version = ct_version c \<rparr>"
    by (auto simp: createCheckout_def Let_def split: if_splits sum.splits option.splits)
  from listed_plan [OF ls Some] l(1) have "publicPlan c m True p = Inr l" by (metis option.inject)
  from publicPlan_purchasable [OF this l(2)] obtain s where "pl_kind p \<noteq> ''free''" "plan_covers_cost c p" "s \<noteq> []"
    "dodo_at (pl_dodo p) m = Prod s" by blast
  moreover from Some have "pl_id p = i" by (auto simp: getPlan_def find_Some_iff)
  ultimately show thesis using plan [OF Some] allowed r by (simp add: ref_id_def)
next
  case None
  with assms obtain k ls l where k: "getPack i c = Some k" and allowed: "checkoutAllowed email m env"
    and ls: "publicCatalog c m True = Inr ls" and l: "find (\<lambda>x. li_id x = i) ls = Some l" "li_purchasable l"
    and r: "r = \<lparr> cr_product = ref_id (dodo_at (pk_dodo k) m), cr_email = or_null email,
                  cr_user = a, cr_item = pk_id k, cr_version = ct_version c \<rparr>"
    by (auto simp: createCheckout_def Let_def split: if_splits sum.splits option.splits)
  from listed_pack [OF ls None k] l have "li_purchasable (publicPack c m True k)" by simp
  from publicPack_purchasable [OF this] obtain s where "pack_covers_cost c k" "s \<noteq> []" "dodo_at (pk_dodo k) m = Prod s" by blast
  moreover from k have "pk_id k = i" by (auto simp: getPack_def find_Some_iff)
  ultimately show thesis using pack [OF None k] allowed r by (simp add: ref_id_def)
qed

section \<open>From the checkout back to the catalog\<close>

definition ref_ids :: "dodo_ref \<Rightarrow> string list" where
  "ref_ids r = (case r of Prod s \<Rightarrow> [s] | _ \<Rightarrow> [])"

text \<open>The product ids a mode uses. Nothing in the validation makes them distinct.\<close>

definition product_ids :: "catalog \<Rightarrow> dodo_mode \<Rightarrow> string list" where
  "product_ids c m = concat (map (\<lambda>p. ref_ids (dodo_at (pl_dodo p) m)) (ct_plans c)) @
                     concat (map (\<lambda>k. ref_ids (dodo_at (pk_dodo k) m)) (ct_packs c))"

fun item_id :: "cat_item \<Rightarrow> string" where
  "item_id (PlanItem p) = pl_id p"
| "item_id (PackItem k) = pk_id k"

fun covers_cost :: "catalog \<Rightarrow> cat_item \<Rightarrow> bool" where
  "covers_cost c (PlanItem p) = plan_covers_cost c p"
| "covers_cost c (PackItem k) = pack_covers_cost c k"

lemma same_ref_Some: "same_ref r (Some s) \<longleftrightarrow> s \<in> set (ref_ids r)"
  by (auto simp: same_ref_def ref_ids_def split: dodo_ref.splits)

lemma find_product:
  assumes "x \<in> set xs" and "f x = Prod s" and "distinct (concat (map (\<lambda>x. ref_ids (f x)) xs))"
  shows "find (\<lambda>x. same_ref (f x) (Some s)) xs = Some x"
  using assms
proof (induction xs)
  case (Cons y ys)
  show ?case
  proof (cases "y = x")
    case True
    with Cons.prems(2) show ?thesis by (simp add: same_ref_def)
  next
    case False
    with Cons.prems have "s \<in> set (concat (map (\<lambda>x. ref_ids (f x)) ys))" by (force simp: ref_ids_def)
    with Cons.prems(3) have "\<not> same_ref (f y) (Some s)" by (auto simp: same_ref_Some)
    with Cons False show ?thesis by simp
  qed
qed simp

lemma find_product_None:
  "s \<notin> set (concat (map (\<lambda>x. ref_ids (f x)) xs)) \<Longrightarrow> find (\<lambda>x. same_ref (f x) (Some s)) xs = None"
  by (induction xs) (auto simp: same_ref_Some)

lemma itemFor_plan:
  assumes "distinct (product_ids c m)" and "p \<in> set (ct_plans c)" and "dodo_at (pl_dodo p) m = Prod s"
  shows "itemForDodoProduct (Some s) m c = Some (PlanItem p)"
  using find_product [where f = "\<lambda>p. dodo_at (pl_dodo p) m", OF assms(2,3)] assms(1)
  by (simp add: itemForDodoProduct_def product_ids_def)

lemma itemFor_pack:
  assumes "distinct (product_ids c m)" and "k \<in> set (ct_packs c)" and "dodo_at (pk_dodo k) m = Prod s"
  shows "itemForDodoProduct (Some s) m c = Some (PackItem k)"
proof -
  from assms(2,3) have "s \<in> set (concat (map (\<lambda>k. ref_ids (dodo_at (pk_dodo k) m)) (ct_packs c)))"
    by (force simp: ref_ids_def)
  with assms(1) have "s \<notin> set (concat (map (\<lambda>p. ref_ids (dodo_at (pl_dodo p) m)) (ct_plans c)))"
    by (auto simp: product_ids_def)
  from find_product_None [where f = "\<lambda>p. dodo_at (pl_dodo p) m", OF this]
    find_product [where f = "\<lambda>k. dodo_at (pk_dodo k) m", OF assms(2,3)] assms(1)
  show ?thesis by (simp add: itemForDodoProduct_def product_ids_def)
qed

section \<open>The shipped catalog\<close>

text \<open>\<^verbatim>\<open>config/plan_catalog.v2.json\<close>.\<close>

definition sub_plan :: "string \<Rightarrow> rat \<Rightarrow> string \<Rightarrow> string option \<Rightarrow> string option \<Rightarrow> int \<Rightarrow> int \<Rightarrow> string \<Rightarrow> plan_item" where
  "sub_plan i price interval base ent session weekly dodo =
     \<lparr> pl_id = i, pl_kind = ''subscription'', pl_price = price, pl_interval = Some interval, pl_base = base,
       pl_entitlement = ent, pl_intro = None, pl_session = session, pl_weekly = weekly,
       pl_dodo = \<lparr> di_test = Prod dodo, di_live = Null \<rparr>, pl_inr = None \<rparr>"

definition shipped_plans :: "plan_item list" where
  "shipped_plans =
     [ \<lparr> pl_id = ''free'', pl_kind = ''free'', pl_price = 0, pl_interval = None, pl_base = None, pl_entitlement = None,
         pl_intro = None, pl_session = 100, pl_weekly = 500, pl_dodo = \<lparr> di_test = Undef, di_live = Undef \<rparr>, pl_inr = None \<rparr>,
       (sub_plan ''launch'' 19 ''month'' None (Some ''pro'') 1500 7500 ''pdt_0NoMERVal8bc4as1QxBFh'')
         \<lparr> pl_intro := Some \<lparr> in_amount = 5, in_days = 30 \<rparr> \<rparr>,
       sub_plan ''pro'' 19 ''month'' None None 1500 7500 ''pdt_0NoLWYJyptwAdEZCsc3ui'',
       sub_plan ''max'' 79 ''month'' None None 5000 30000 ''pdt_0NoMERbmVHn5d2jlpAAZX'',
       sub_plan ''pro_yearly'' 190 ''year'' (Some ''pro'') (Some ''pro'') 1500 7500 ''pdt_0NoNG215niHtH4Bar1Qvs'',
       sub_plan ''max_yearly'' 790 ''year'' (Some ''max'') (Some ''max'') 5000 30000 ''pdt_0NoNG22gitFEXmPp6EUgP'' ]"

definition shipped_pack :: "string \<Rightarrow> rat \<Rightarrow> int \<Rightarrow> int \<Rightarrow> string \<Rightarrow> pack_item" where
  "shipped_pack i price grant bonus dodo =
     \<lparr> pk_id = i, pk_price = price, pk_grant = grant, pk_bonus = Some bonus,
       pk_dodo = \<lparr> di_test = Prod dodo, di_live = Null \<rparr>, pk_inr = None \<rparr>"

definition shipped_packs :: "pack_item list" where
  "shipped_packs =
     [ shipped_pack ''pack_10'' 10 10000 0 ''pdt_0NoMEReibUHWGhnHdJBfK'',
       shipped_pack ''pack_50'' 50 50000 2500 ''pdt_0NoMERgL454CfiHbnYgdh'',
       shipped_pack ''pack_200'' 200 200000 20000 ''pdt_0NoMERhtlswnoRgwYjJ1f'' ]"

definition shipped_catalog :: catalog where
  "shipped_catalog =
     \<lparr> ct_version = ''2026-09-28.1'', ct_unit_usd = 1 / 1000, ct_request_uu = 10, ct_session_hours = 5,
       ct_thresholds = [70, 85, 95, 100], ct_plans = shipped_plans, ct_packs = shipped_packs,
       ct_fees = \<lparr> fe_base_pct = 4, fe_base_fixed = 2 / 5, fe_international_pct = 3 / 2, fe_subscription_pct = 1 / 2,
                    fe_india_pct = 4, fe_india_fixed = 3 / 20, fe_refund_fixed = 1, fe_dispute_fixed = 30 \<rparr>,
       ct_cost_per_uu = 0, ct_weeks_month = 443 / 100, ct_weeks_year = Some 53 \<rparr>"

lemmas shipped_defs = shipped_catalog_def shipped_plans_def shipped_packs_def sub_plan_def shipped_pack_def

lemma shipped_valid: "loadCatalog shipped_catalog = Inr shipped_catalog"
  by (simp add: loadCatalog_def validateCatalog_def planErrors_def packErrors_def shipped_defs)

lemma shipped_products_distinct: "distinct (product_ids shipped_catalog m)"
  by (cases m) (simp_all add: product_ids_def ref_ids_def shipped_defs)

section \<open>Properties\<close>


lemma shipped_checkout:
  "createCheckout shipped_catalog Test (Some ''a@b.c'') ''u1'' (Some ''A@b.c'') ''pack_50'' =
     Inr \<lparr> cr_product = ''pdt_0NoMERgL454CfiHbnYgdh'', cr_email = Some ''A@b.c'', cr_user = ''u1'',
           cr_item = ''pack_50'', cr_version = ''2026-09-28.1'' \<rparr>"
  by code_simp


end
