(* ===== verification/Pricing_Metering.thy ===== *)
theory Pricing_Metering
  imports Pricing_Catalog
begin

text \<open>
  The tables of Pricing V2 (\<^verbatim>\<open>pricing_v2/schema.mjs\<close>) and the metering of
  \<^verbatim>\<open>pricing_v2/metering.mjs\<close>. A request runs in one transaction under the advisory lock of its
  account, so it is one step on the tables. Times are milliseconds; \<open>weekStart\<close> stands for the
  database's \<open>date_trunc('week', ...)\<close> in a time zone, whose calendar the sources do not hold.
\<close>

section \<open>Tables\<close>

record entitlement_row =
  en_plan :: string
  en_version :: string
  en_session :: int
  en_weekly :: int
  en_status :: string
  en_ref :: string
  en_period :: "int option"

record subscription_row =
  sb_account :: string
  sb_mode :: dodo_mode
  sb_plan :: string
  sb_version :: string
  sb_status :: string
  sb_period :: "int option"
  sb_intro :: bool

record grant_row =
  gr_account :: string
  gr_pack :: string
  gr_uu :: int
  gr_bonus :: int
  gr_granted :: bool

datatype bucket = PlanBucket | PackBucket | CreditsBucket

record usage_row =
  us_account :: string
  us_key :: int
  us_uu :: int
  us_version :: string
  us_bucket :: bucket
  us_credits :: rat
  us_at :: int

datatype payment_kind = PaymentK | RefundK | DisputeK

record payment_row =
  py_kind :: payment_kind
  py_mode :: dodo_mode
  py_account :: string
  py_item :: string
  py_amount :: int
  py_currency :: string
  py_status :: string
  py_ref :: "string option"

record webhook_row =
  wh_type :: string
  wh_mode :: dodo_mode
  wh_outcome :: string

record dodo_revenue_row =
  rv_amount :: rat
  rv_test :: bool
  rv_billable :: bool

record source_row =
  so_amount :: rat
  so_currency :: string
  so_payer :: string
  so_test :: bool

text \<open>Revenue rows are unique by client, operation and request; payment sources by transaction hash.\<close>

record pv2 =
  p2_events :: "(string, webhook_row) jsmap"
  p2_subs :: "(string, subscription_row) jsmap"
  p2_ents :: "(string, entitlement_row) jsmap"
  p2_balances :: "(string, int) jsmap"
  p2_grants :: "(string, grant_row) jsmap"
  p2_usage :: "usage_row list"
  p2_notices :: "(string \<times> string \<times> int option \<times> rat) list"
  p2_payments :: "(string, payment_row) jsmap"
  p2_revenue :: "(string \<times> string \<times> string, dodo_revenue_row) jsmap"
  p2_sources :: "(string, source_row) jsmap"

definition empty_pv2 :: pv2 where
  "empty_pv2 = \<lparr> p2_events = [], p2_subs = [], p2_ents = [], p2_balances = [], p2_grants = [], p2_usage = [],
                 p2_notices = [], p2_payments = [], p2_revenue = [], p2_sources = [] \<rparr>"

section \<open>Metering\<close>

definition crossedThresholds :: "int \<Rightarrow> int \<Rightarrow> int \<Rightarrow> rat list \<Rightarrow> rat list" where
  "crossedThresholds before after cap thresholds =
     (if cap = 0 then []
      else filter (\<lambda>t. (of_int before / of_int cap) * 100 < t \<and> (of_int after / of_int cap) * 100 \<ge> t) thresholds)"

text \<open>The plan, the session cap and the weekly cap of an account; the free plan where it has no active one.\<close>

definition capsOf :: "catalog \<Rightarrow> string \<Rightarrow> pv2 \<Rightarrow> (string \<times> int \<times> int) option" where
  "capsOf c a s =
     (case map_of (p2_ents s) a of
        Some e \<Rightarrow> if en_status e = ''active'' then Some (en_plan e, en_session e, en_weekly e)
                  else map_option (\<lambda>f. (''free'', pl_session f, pl_weekly f)) (getPlan ''free'' c)
      | None \<Rightarrow> map_option (\<lambda>f. (''free'', pl_session f, pl_weekly f)) (getPlan ''free'' c))"

definition hours_ms :: "catalog \<Rightarrow> int" where
  "hours_ms c = ct_session_hours c * 3600000"

definition sum_uu :: "(usage_row \<Rightarrow> bool) \<Rightarrow> usage_row list \<Rightarrow> int" where
  "sum_uu P us = sum_list (map us_uu (filter P us))"

definition plan_row :: "string \<Rightarrow> usage_row \<Rightarrow> bool" where
  "plan_row a u \<longleftrightarrow> us_account u = a \<and> us_bucket u = PlanBucket"

text \<open>The rows the window query reads, and its two sums.\<close>

definition windowRows :: "catalog \<Rightarrow> string \<Rightarrow> int \<Rightarrow> int \<Rightarrow> pv2 \<Rightarrow> usage_row list" where
  "windowRows c a now wk s =
     filter (\<lambda>u. plan_row a u \<and> us_at u > min (now - hours_ms c) wk) (p2_usage s)"

definition session_used :: "catalog \<Rightarrow> string \<Rightarrow> int \<Rightarrow> int \<Rightarrow> pv2 \<Rightarrow> int" where
  "session_used c a now wk s = sum_uu (\<lambda>u. us_at u > now - hours_ms c) (windowRows c a now wk s)"

definition weekly_used :: "catalog \<Rightarrow> string \<Rightarrow> int \<Rightarrow> int \<Rightarrow> pv2 \<Rightarrow> int" where
  "weekly_used c a now wk s = sum_uu (\<lambda>u. us_at u \<ge> wk) (windowRows c a now wk s)"

definition session_oldest :: "catalog \<Rightarrow> string \<Rightarrow> int \<Rightarrow> int \<Rightarrow> pv2 \<Rightarrow> int option" where
  "session_oldest c a now wk s =
     (case filter (\<lambda>u. us_at u > now - hours_ms c) (windowRows c a now wk s) of
        [] \<Rightarrow> None | u # us \<Rightarrow> Some (foldl min (us_at u) (map us_at us)))"

record usage_report =
  ur_plan :: string
  ur_session_used :: int
  ur_session_cap :: int
  ur_session_resets :: "int option"
  ur_weekly_used :: int
  ur_weekly_cap :: int
  ur_weekly_resets :: int

datatype meter_result =
    CoveredByPlan usage_report "(string \<times> rat) list"
  | CoveredByPack usage_report int
  | UseCredits usage_report
  | Stop string usage_report "int option" "string list"

definition ledger_row :: "catalog \<Rightarrow> string \<Rightarrow> int \<Rightarrow> int \<Rightarrow> bucket \<Rightarrow> rat \<Rightarrow> usage_row" where
  "ledger_row c a key now b credits =
     \<lparr> us_account = a, us_key = key, us_uu = ct_request_uu c, us_version = ct_version c, us_bucket = b,
       us_credits = credits, us_at = now \<rparr>"

definition ledger :: "catalog \<Rightarrow> string \<Rightarrow> int \<Rightarrow> int \<Rightarrow> bucket \<Rightarrow> rat \<Rightarrow> pv2 \<Rightarrow> pv2" where
  "ledger c a key now b credits s = s \<lparr> p2_usage := p2_usage s @ [ledger_row c a key now b credits] \<rparr>"

text \<open>\<open>ON CONFLICT DO NOTHING\<close> on the notices, whose primary key is the whole row.\<close>

definition insertNotice :: "string \<times> string \<times> int option \<times> rat \<Rightarrow> pv2 \<Rightarrow> pv2" where
  "insertNotice n s = (if n \<in> set (p2_notices s) then s else s \<lparr> p2_notices := p2_notices s @ [n] \<rparr>)"

definition week_ms :: int where "week_ms = 7 * 24 * 3600000"

definition usageOf :: "catalog \<Rightarrow> (string \<times> int \<times> int) \<Rightarrow> string \<Rightarrow> int \<Rightarrow> int \<Rightarrow> pv2 \<Rightarrow> usage_report" where
  "usageOf c caps a now wk s =
     (case caps of (planId, sessionCap, weeklyCap) \<Rightarrow>
      \<lparr> ur_plan = planId, ur_session_used = session_used c a now wk s, ur_session_cap = sessionCap,
        ur_session_resets = map_option (\<lambda>t. t + hours_ms c) (session_oldest c a now wk s),
        ur_weekly_used = weekly_used c a now wk s, ur_weekly_cap = weeklyCap, ur_weekly_resets = wk + week_ms \<rparr>)"

definition notices_of :: "catalog \<Rightarrow> usage_report \<Rightarrow> (string \<times> int option \<times> rat) list" where
  "notices_of c u =
     map (\<lambda>t. (''session'', ur_session_resets u, t))
       (crossedThresholds (ur_session_used u) (ur_session_used u + ct_request_uu c) (ur_session_cap u) (ct_thresholds c)) @
     map (\<lambda>t. (''weekly'', Some (ur_weekly_resets u), t))
       (crossedThresholds (ur_weekly_used u) (ur_weekly_used u + ct_request_uu c) (ur_weekly_cap u) (ct_thresholds c))"

text \<open>Neither the plan nor a pack covers the request: on to the credits, or the hard stop and what can be done.\<close>

definition uncovered :: "int \<Rightarrow> bool \<Rightarrow> usage_report \<Rightarrow> meter_result" where
  "uncovered uu creditAutoUse u =
     (if creditAutoUse then UseCredits u
      else let limited = (if ur_session_used u + uu > ur_session_cap u then ''session'' else ''weekly'') in
           Stop limited u (if limited = ''session'' then ur_session_resets u else Some (ur_weekly_resets u))
             (filter (\<lambda>p. p \<noteq> ur_plan u) [''pro'', ''max'']))"

definition meterIntelligence ::
  "catalog \<Rightarrow> (string \<Rightarrow> int \<Rightarrow> int) \<Rightarrow> string \<Rightarrow> int \<Rightarrow> string \<Rightarrow> bool \<Rightarrow> int \<Rightarrow> pv2 \<Rightarrow> (string + meter_result) \<times> pv2" where
  "meterIntelligence c weekStart a key tz creditAutoUse now s =
     (case capsOf c a s of
        None \<Rightarrow> (Inl ''TypeError'', s)
      | Some caps \<Rightarrow>
          let uu = ct_request_uu c; u = usageOf c caps a now (weekStart tz now) s in
          if ur_session_used u + uu \<le> ur_session_cap u \<and> ur_weekly_used u + uu \<le> ur_weekly_cap u
          then let ns = notices_of c u;
                   s1 = ledger c a key now PlanBucket 0 s;
                   s2 = fold (\<lambda>(w, k, t). insertNotice (a, w, k, t)) ns s1
               in (Inr (CoveredByPlan (u \<lparr> ur_session_used := ur_session_used u + uu, ur_weekly_used := ur_weekly_used u + uu \<rparr>)
                          (map (\<lambda>(w, k, t). (w, t)) ns)), s2)
          else case map_of (p2_balances s) a of
                 Some b \<Rightarrow>
                   if b \<ge> uu
                   then (Inr (CoveredByPack u (b - uu)),
                         ledger c a key now PackBucket 0 (s \<lparr> p2_balances := mset_key a (b - uu) (p2_balances s) \<rparr>))
                   else (Inr (uncovered uu creditAutoUse u), s)
               | None \<Rightarrow> (Inr (uncovered uu creditAutoUse u), s))"

text \<open>The callback of a request paid by credits, run after the caller's deduction.\<close>

definition recordCredits :: "catalog \<Rightarrow> string \<Rightarrow> int \<Rightarrow> int \<Rightarrow> rat \<Rightarrow> pv2 \<Rightarrow> pv2" where
  "recordCredits c a key now usdt s = ledger c a key now CreditsBucket usdt s"

end
