(* ===== verification/Pricing_Webhooks.thy ===== *)
theory Pricing_Webhooks
  imports Pricing_Metering
begin

text \<open>
  The Dodo webhooks of Pricing V2 (\<^verbatim>\<open>pricing_v2/webhooks.mjs\<close>): verification of a delivery, and the
  one transaction that turns an event into payments, entitlements, pack balances and revenue
  rows. HMAC, base64 and the parsing of the body are arguments. A delivery that throws is rolled
  back; the writes to the shadow ledger run after the commit and are returned as a list.
\<close>

section \<open>Verification\<close>

record webhook_headers =
  wk_id :: "string option"
  wk_timestamp :: "string option"
  wk_signature :: "string option"

text \<open>\<open>part.split(',')\<close> and its first two elements.\<close>

definition sig_part :: "string \<Rightarrow> string \<times> string" where
  "sig_part p = (case split_on (CHR '','') p of [] \<Rightarrow> ([], []) | [v] \<Rightarrow> (v, []) | v # x # _ \<Rightarrow> (v, x))"

definition verifyStandardWebhook ::
  "(string \<Rightarrow> string) \<Rightarrow> (string \<Rightarrow> string \<Rightarrow> string) \<Rightarrow> rat \<Rightarrow> rat \<Rightarrow> webhook_headers \<Rightarrow> string \<Rightarrow> string \<Rightarrow> bool" where
  "verifyStandardWebhook base64 hmac toleranceSec now h rawBody secret =
     (if \<not> truthy (wk_id h) \<or> \<not> truthy (wk_timestamp h) \<or> \<not> truthy (wk_signature h) \<or> secret = [] then False
      else case text_number (the (wk_timestamp h)) of
             Fin ts \<Rightarrow>
               if \<bar>now / 1000 - ts\<bar> > toleranceSec then False
               else let key = base64 (if take 6 secret = ''whsec_'' then drop 6 secret else secret);
                        expected = hmac key (the (wk_id h) @ ''.'' @ the (wk_timestamp h) @ ''.'' @ rawBody)
                    in list_ex (\<lambda>part. case sig_part part of (ver, sig) \<Rightarrow>
                                  if ver \<noteq> ''v1'' \<or> sig = [] then False else base64 sig = expected)
                         (split_on (CHR '' '') (the (wk_signature h)))
           | _ \<Rightarrow> False)"

section \<open>Events\<close>

record event_data =
  ed_checkout :: "string option"
  ed_user :: "string option"
  ed_meta_product :: "string option"
  ed_subscription :: "string option"
  ed_payment :: "string option"
  ed_refund :: "string option"
  ed_dispute :: "string option"
  ed_product :: "string option"
  ed_cart :: "string option"
  ed_total :: "int option"
  ed_amount :: "int option"
  ed_currency :: "string option"
  ed_next_billing :: "int option"

record dodo_event =
  ev_type :: string
  ev_data :: event_data

definition starts :: "string \<Rightarrow> string \<Rightarrow> bool" where
  "starts p t \<longleftrightarrow> take (length p) t = p"

text \<open>A payment row of kind \<open>payment\<close>; a null id finds nothing.\<close>

definition find_payment :: "string option \<Rightarrow> pv2 \<Rightarrow> payment_row option" where
  "find_payment i s =
     (case i of None \<Rightarrow> None
      | Some k \<Rightarrow> (case map_of (p2_payments s) k of
                     Some r \<Rightarrow> if py_kind r = PaymentK then Some r else None | None \<Rightarrow> None))"

definition accountFor :: "event_data \<Rightarrow> pv2 \<Rightarrow> string option" where
  "accountFor d s =
     (if ed_checkout d = Some ''v2'' \<and> ed_user d \<noteq> None then ed_user d
      else case (if truthy (ed_subscription d) then map_of (p2_subs s) (the (ed_subscription d)) else None) of
             Some r \<Rightarrow> Some (sb_account r)
           | None \<Rightarrow> if truthy (ed_payment d) then map_option py_account (find_payment (ed_payment d) s) else None)"

definition productOf :: "event_data \<Rightarrow> string option" where
  "productOf d =
     (if truthy (ed_product d) then ed_product d
      else if truthy (ed_cart d) then ed_cart d else or_null (ed_meta_product d))"

section \<open>Writes\<close>

definition grantPlan :: "catalog \<Rightarrow> string \<Rightarrow> string \<Rightarrow> int option \<Rightarrow> string \<Rightarrow> pv2 \<Rightarrow> string + pv2" where
  "grantPlan c a planId periodEnd ref s =
     (case entitlementPlan planId c of
        None \<Rightarrow> Inl ''TypeError''
      | Some ent \<Rightarrow>
          let old = (case map_of (p2_ents s) a of None \<Rightarrow> None | Some e \<Rightarrow> en_period e);
              row = \<lparr> en_plan = planId, en_version = ct_version c, en_session = pl_session ent, en_weekly = pl_weekly ent,
                      en_status = ''active'', en_ref = ref, en_period = (if periodEnd = None then old else periodEnd) \<rparr>
          in Inr (s \<lparr> p2_ents := mset_key a row (p2_ents s) \<rparr>))"

definition setEntitlementStatus :: "string \<Rightarrow> string \<Rightarrow> string \<Rightarrow> pv2 \<Rightarrow> pv2" where
  "setEntitlementStatus a status ref s =
     (case map_of (p2_ents s) a of
        None \<Rightarrow> s
      | Some e \<Rightarrow> s \<lparr> p2_ents := mset_key a (e \<lparr> en_status := status, en_ref := ref \<rparr>) (p2_ents s) \<rparr>)"

definition revenueRow :: "string \<Rightarrow> string \<Rightarrow> rat \<Rightarrow> string \<Rightarrow> dodo_mode \<Rightarrow> bool \<Rightarrow> pv2 \<Rightarrow> pv2" where
  "revenueRow requestId a amountUsd opType m billable s =
     s \<lparr> p2_revenue := snd (insert_if_absent (''acct:'' @ a, opType, requestId)
                              \<lparr> rv_amount = amountUsd, rv_test = (m = Test), rv_billable = billable \<rparr> (p2_revenue s)) \<rparr>"

definition sourceRow :: "string \<Rightarrow> string \<Rightarrow> rat \<Rightarrow> string \<Rightarrow> dodo_mode \<Rightarrow> pv2 \<Rightarrow> pv2" where
  "sourceRow tx a amountUsd currency m s =
     s \<lparr> p2_sources := snd (insert_if_absent tx
                              \<lparr> so_amount = amountUsd, so_currency = currency, so_payer = ''acct:'' @ a, so_test = (m = Test) \<rparr>
                              (p2_sources s)) \<rparr>"

text \<open>The two statements that credit a pack; the grant has no conflict clause.\<close>

definition grantPack :: "string \<Rightarrow> string \<Rightarrow> pack_item \<Rightarrow> pv2 \<Rightarrow> string + pv2" where
  "grantPack pay a k s =
     (case map_of (p2_grants s) pay of
        Some _ \<Rightarrow> Inl ''unique_violation''
      | None \<Rightarrow>
          let g = \<lparr> gr_account = a, gr_pack = pk_id k, gr_uu = packTotalUu k, gr_bonus = bonusUu k, gr_granted = True \<rparr>;
              b = coalesce (map_of (p2_balances s) a) 0
          in Inr (s \<lparr> p2_grants := mset_key pay g (p2_grants s),
                      p2_balances := mset_key a (b + packTotalUu k) (p2_balances s) \<rparr>))"

datatype ledger_call =
    LedgerWrite string rat bool
  | LedgerReverse string rat bool

section \<open>The branches of an event\<close>

definition applyPayment ::
  "catalog \<Rightarrow> dodo_mode \<Rightarrow> event_data \<Rightarrow> string \<Rightarrow> cat_item \<Rightarrow> pv2 \<Rightarrow> string + (string \<times> ledger_call list \<times> pv2)" where
  "applyPayment c m d a item s =
     (case ed_payment d of
        None \<Rightarrow> Inl ''not_null_violation''
      | Some pay \<Rightarrow>
          let minor = coalesce (ed_total d) 0; amountUsd = of_int minor / 100; currency = or_str (ed_currency d) ''USD'' in
          case map_of (p2_payments s) pay of
            Some _ \<Rightarrow> Inr (''payment_already_applied'', [], s)
          | None \<Rightarrow>
              let row = \<lparr> py_kind = PaymentK, py_mode = m, py_account = a, py_item = item_id item, py_amount = minor,
                          py_currency = currency, py_status = ''succeeded'', py_ref = or_null (ed_subscription d) \<rparr>;
                  s1 = s \<lparr> p2_payments := mset_key pay row (p2_payments s) \<rparr>;
                  requestId = ''dodo:v2:'' @ pay;
                  opType = (case item of PackItem _ \<Rightarrow> ''pack_purchase'' | PlanItem _ \<Rightarrow> ''subscription_payment'');
                  s2 = sourceRow (''dodo:'' @ pay) a amountUsd currency m (revenueRow requestId a amountUsd opType m True s1);
                  after = [LedgerWrite requestId amountUsd (m = Test)]
              in (case item of
                    PackItem k \<Rightarrow> bindR (grantPack pay a k s2) (\<lambda>s3. Inr (''pack_granted'', after, s3))
                  | PlanItem p \<Rightarrow> bindR (grantPlan c a (pl_id p) None (''payment:'' @ pay) s2)
                                    (\<lambda>s3. Inr (''plan_payment_recorded'', after, s3))))"

definition has_intro :: "cat_item \<Rightarrow> bool" where
  "has_intro item = (case item of PlanItem p \<Rightarrow> pl_intro p \<noteq> None | PackItem _ \<Rightarrow> False)"

definition upsertSubscription ::
  "catalog \<Rightarrow> dodo_mode \<Rightarrow> string \<Rightarrow> string \<Rightarrow> cat_item \<Rightarrow> string \<Rightarrow> int option \<Rightarrow> pv2 \<Rightarrow> pv2" where
  "upsertSubscription c m subId a item status nextBilling s =
     (let intro = (has_intro item \<and> status = ''active'');
          row = (case map_of (p2_subs s) subId of
                   None \<Rightarrow> \<lparr> sb_account = a, sb_mode = m, sb_plan = item_id item, sb_version = ct_version c,
                              sb_status = status, sb_period = nextBilling, sb_intro = intro \<rparr>
                 | Some r \<Rightarrow> r \<lparr> sb_status := status, sb_period := (if nextBilling = None then sb_period r else nextBilling),
                                  sb_plan := item_id item, sb_intro := intro \<rparr>)
      in s \<lparr> p2_subs := mset_key subId row (p2_subs s) \<rparr>)"

text \<open>What the status of the subscription does to the entitlement of the account.\<close>

definition entitlementOf ::
  "catalog \<Rightarrow> string \<Rightarrow> string \<Rightarrow> string \<Rightarrow> string \<Rightarrow> int option \<Rightarrow> pv2 \<Rightarrow> string + (string \<times> ledger_call list \<times> pv2)" where
  "entitlementOf c a planId ref status nextBilling s =
     (if status = ''active'' \<or> status = ''renewed'' then
        bindR (grantPlan c a planId nextBilling (ref @ status) s) (\<lambda>t. Inr (''entitlement_'' @ status, [], t))
      else if status = ''on_hold'' then
        Inr (''entitlement_on_hold'', [], setEntitlementStatus a ''on_hold'' (ref @ ''on_hold'') s)
      else if status = ''cancelled'' \<or> status = ''expired'' \<or> status = ''failed'' then
        Inr (''entitlement_revoked'', [], setEntitlementStatus a ''revoked'' (ref @ status) s)
      else if status = ''plan_changed'' then
        bindR (grantPlan c a planId nextBilling (ref @ ''plan_changed'') s) (\<lambda>t. Inr (''entitlement_plan_changed'', [], t))
      else Inr (''subscription_'' @ status @ ''_noted'', [], s))"

definition applySubscription ::
  "catalog \<Rightarrow> dodo_mode \<Rightarrow> event_data \<Rightarrow> string \<Rightarrow> cat_item \<Rightarrow> string \<Rightarrow> pv2 \<Rightarrow> string + (string \<times> ledger_call list \<times> pv2)" where
  "applySubscription c m d a item status s =
     (case ed_subscription d of
        None \<Rightarrow> Inl ''not_null_violation''
      | Some subId \<Rightarrow>
          entitlementOf c a (item_id item) (''sub:'' @ subId @ '':'') status (ed_next_billing d)
            (upsertSubscription c m subId a item status (ed_next_billing d) s))"

text \<open>An absent id is printed as \<open>undefined\<close> in a template.\<close>

definition shown :: "string option \<Rightarrow> string" where
  "shown i = (case i of None \<Rightarrow> ''undefined'' | Some x \<Rightarrow> x)"

definition reverse ::
  "string \<Rightarrow> string \<Rightarrow> int \<Rightarrow> dodo_mode \<Rightarrow> string \<Rightarrow> payment_row \<Rightarrow> pv2 \<Rightarrow> ledger_call list \<times> pv2" where
  "reverse why i amountMinor m origId orig s =
     (let requestId = ''dodo:v2:'' @ why @ '':'' @ i; amt = of_int amountMinor / 100;
          s1 = revenueRow requestId (py_account orig) (- amt) ''refund_reversal'' m False s;
          s2 = (case map_of (p2_grants s1) origId of
                  Some g \<Rightarrow>
                    if gr_granted g
                    then s1 \<lparr> p2_balances := (case map_of (p2_balances s1) (py_account orig) of
                                                 None \<Rightarrow> p2_balances s1
                                               | Some b \<Rightarrow> mset_key (py_account orig) (max 0 (b - gr_uu g)) (p2_balances s1)),
                              p2_grants := mset_key origId (g \<lparr> gr_granted := False \<rparr>) (p2_grants s1) \<rparr>
                    else setEntitlementStatus (py_account orig) ''revoked'' (why @ '':'' @ i) s1
                | None \<Rightarrow> setEntitlementStatus (py_account orig) ''revoked'' (why @ '':'' @ i) s1)
      in ([LedgerReverse requestId amt (m = Test)], s2))"

definition upsertReversal ::
  "string \<Rightarrow> payment_kind \<Rightarrow> dodo_mode \<Rightarrow> string \<Rightarrow> payment_row \<Rightarrow> int \<Rightarrow> string \<Rightarrow> pv2 \<Rightarrow> pv2" where
  "upsertReversal key pkind m origId orig amountMinor stage s =
     (let row = (case map_of (p2_payments s) key of
                   Some r \<Rightarrow> r \<lparr> py_status := stage \<rparr>
                 | None \<Rightarrow> \<lparr> py_kind = pkind, py_mode = m, py_account = py_account orig, py_item = py_item orig,
                             py_amount = amountMinor, py_currency = py_currency orig, py_status = stage, py_ref = Some origId \<rparr>)
      in s \<lparr> p2_payments := mset_key key row (p2_payments s) \<rparr>)"

text \<open>\<open>t.split('.')[1]\<close>, of a type that starts with the kind and a dot.\<close>

definition event_stage :: "string \<Rightarrow> string" where
  "event_stage t = takeWhile (\<lambda>ch. ch \<noteq> CHR ''.'') (drop 1 (dropWhile (\<lambda>ch. ch \<noteq> CHR ''.'') t))"

definition reversalStage ::
  "bool \<Rightarrow> string \<Rightarrow> string \<Rightarrow> string \<Rightarrow> int \<Rightarrow> dodo_mode \<Rightarrow> string \<Rightarrow> payment_row \<Rightarrow> pv2 \<Rightarrow> string \<times> ledger_call list \<times> pv2" where
  "reversalStage isRefund t stage i amountMinor m origId orig s =
     (if isRefund \<and> stage = ''succeeded'' then
        (case reverse ''refund'' i amountMinor m origId orig s of (after, s2) \<Rightarrow> (''refund_reversed'', after, s2))
      else if \<not> isRefund \<and> stage = ''opened'' then
        (''dispute_hold'', [], setEntitlementStatus (py_account orig) ''on_hold'' (''dispute:'' @ i @ '':opened'') s)
      else if \<not> isRefund \<and> (stage = ''won'' \<or> stage = ''cancelled'') then
        (''dispute_released'', [], setEntitlementStatus (py_account orig) ''active'' (''dispute:'' @ i @ '':'' @ stage) s)
      else if \<not> isRefund \<and> (stage = ''lost'' \<or> stage = ''accepted'') then
        (case reverse ''dispute'' i amountMinor m origId orig s of (after, s2) \<Rightarrow> (''dispute_reversed'', after, s2))
      else (t @ ''_noted'', [], s))"

definition applyReversal ::
  "dodo_mode \<Rightarrow> string \<Rightarrow> event_data \<Rightarrow> pv2 \<Rightarrow> string \<times> ledger_call list \<times> pv2" where
  "applyReversal m t d s =
     (case find_payment (ed_payment d) s of
        None \<Rightarrow> (''ignored_unknown_payment'', [], s)
      | Some orig \<Rightarrow>
          let origId = the (ed_payment d);
              isRefund = starts ''refund.'' t;
              i = shown (if isRefund then ed_refund d else ed_dispute d);
              stage = event_stage t;
              amountMinor = coalesce (ed_amount d) (py_amount orig)
          in reversalStage isRefund t stage i amountMinor m origId orig
               (upsertReversal ((if isRefund then ''refund:'' else ''dispute:'') @ i)
                  (if isRefund then RefundK else DisputeK) m origId orig amountMinor stage s))"

definition applyEvent ::
  "catalog \<Rightarrow> dodo_mode \<Rightarrow> dodo_event \<Rightarrow> pv2 \<Rightarrow> string + (string \<times> ledger_call list \<times> pv2)" where
  "applyEvent c m e s =
     (let d = ev_data e; t = ev_type e; acct = accountFor d s; item = itemForDodoProduct (productOf d) m c in
      if \<not> truthy acct \<or> (item = None \<and> \<not> starts ''refund.'' t \<and> \<not> starts ''dispute.'' t)
      then Inr (if truthy acct then ''ignored_not_catalog'' else ''ignored_not_v2'', [], s)
      else if t = ''payment.succeeded'' then applyPayment c m d (the acct) (the item) s
      else if t = ''payment.failed'' then Inr (''payment_failed_noted'', [], s)
      else if starts ''subscription.'' t then applySubscription c m d (the acct) (the item) (drop 13 t) s
      else if starts ''refund.'' t \<or> starts ''dispute.'' t then Inr (applyReversal m t d s)
      else Inr (''ignored'', [], s))"

definition processDodoEvent ::
  "catalog \<Rightarrow> dodo_mode \<Rightarrow> string \<Rightarrow> dodo_event \<Rightarrow> pv2 \<Rightarrow> (string + (string \<times> ledger_call list)) \<times> pv2" where
  "processDodoEvent c m webhookId e s =
     (case map_of (p2_events s) webhookId of
        Some _ \<Rightarrow> (Inr (''duplicate'', []), s)
      | None \<Rightarrow>
          (case applyEvent c m e s of
             Inl err \<Rightarrow> (Inl err, s)
           | Inr (outcome, after, t) \<Rightarrow>
               (Inr (outcome, after),
                t \<lparr> p2_events := mset_key webhookId \<lparr> wh_type = ev_type e, wh_mode = m, wh_outcome = outcome \<rparr> (p2_events t) \<rparr>)))"

text \<open>The Express handler: status, body and the tables left.\<close>

definition dodoV2WebhookHandler ::
  "(string \<Rightarrow> string) \<Rightarrow> (string \<Rightarrow> string \<Rightarrow> string) \<Rightarrow> (string \<Rightarrow> dodo_event option) \<Rightarrow> catalog \<Rightarrow> dodo_mode \<Rightarrow> string \<Rightarrow> rat \<Rightarrow>
   webhook_headers \<Rightarrow> string \<Rightarrow> pv2 \<Rightarrow> (nat \<times> string) \<times> pv2" where
  "dodoV2WebhookHandler base64 hmac parse c m secret now h raw s =
     (if \<not> verifyStandardWebhook base64 hmac 300 now h raw secret then ((401, ''bad_signature''), s)
      else case parse raw of
             None \<Rightarrow> ((400, ''bad_json''), s)
           | Some e \<Rightarrow>
               (case processDodoEvent c m (the (wk_id h)) e s of
                  (Inl err, t) \<Rightarrow> ((500, ''processing_failed''), t)
                | (Inr (outcome, after), t) \<Rightarrow> ((200, outcome), t)))"

section \<open>Sums over a table\<close>

definition msum :: "('v \<Rightarrow> int) \<Rightarrow> ('k, 'v) jsmap \<Rightarrow> int" where
  "msum f m = sum_list (map (\<lambda>(k, v). f v) m)"

lemma msum_insert: "map_of m k = None \<Longrightarrow> msum f (mset_key k v m) = msum f m + f v"
  by (simp add: msum_def mset_key_fresh)

lemma msum_update:
  "mwf m \<Longrightarrow> map_of m k = Some v \<Longrightarrow> msum f (mset_key k w m) = msum f m - f v + f w"
proof (induction m)
  case (Cons x m)
  obtain j u where x: "x = (j, u)" by force
  show ?case
  proof (cases "j = k")
    case True
    with Cons.prems x show ?thesis by (simp add: msum_def)
  next
    case False
    with Cons x show ?thesis by (simp add: msum_def)
  qed
qed simp

lemma msum_member:
  "mwf m \<Longrightarrow> (\<And>k v. map_of m k = Some v \<Longrightarrow> 0 \<le> f v) \<Longrightarrow> map_of m k = Some v \<Longrightarrow> f v \<le> msum f m"
proof -
  assume m: "mwf m" "\<And>k v. map_of m k = Some v \<Longrightarrow> 0 \<le> f v" "map_of m k = Some v"
  have "f v \<in> set (map (\<lambda>(k, v). f v) m)" using map_of_SomeD [OF m(3)] by force
  moreover have "\<forall>x \<in> set (map (\<lambda>(k, v). f v) m). 0 \<le> x" using m(1,2) by (auto simp: map_of_eq_Some_iff)
  ultimately show ?thesis unfolding msum_def by (rule sum_list_member_le [rotated])
qed

section \<open>Steps\<close>

text \<open>Deliveries of any event under any webhook id, metered requests at any time, and credit rows.\<close>

inductive pv2_step :: "catalog \<Rightarrow> (string \<Rightarrow> int \<Rightarrow> int) \<Rightarrow> (string \<Rightarrow> string) \<Rightarrow> pv2 \<Rightarrow> pv2 \<Rightarrow> bool"
  for c weekStart tzOf where
  deliver: "processDodoEvent c m w e s = (r, t) \<Longrightarrow> pv2_step c weekStart tzOf s t"
| request: "meterIntelligence c weekStart a key (tzOf a) auto now s = (r, t) \<Longrightarrow> pv2_step c weekStart tzOf s t"
| credits: "t = recordCredits c a key now usdt s \<Longrightarrow> pv2_step c weekStart tzOf s t"

abbreviation pv2_reach :: "catalog \<Rightarrow> (string \<Rightarrow> int \<Rightarrow> int) \<Rightarrow> (string \<Rightarrow> string) \<Rightarrow> pv2 \<Rightarrow> bool" where
  "pv2_reach c weekStart tzOf s \<equiv> (pv2_step c weekStart tzOf)\<^sup>*\<^sup>* empty_pv2 s"

section \<open>What each write leaves alone\<close>

lemma revenueRow_frame [simp]:
  "p2_grants (revenueRow q a x op m b s) = p2_grants s" "p2_balances (revenueRow q a x op m b s) = p2_balances s"
  "p2_usage (revenueRow q a x op m b s) = p2_usage s" "p2_payments (revenueRow q a x op m b s) = p2_payments s"
  "p2_ents (revenueRow q a x op m b s) = p2_ents s" "p2_events (revenueRow q a x op m b s) = p2_events s"
  by (simp_all add: revenueRow_def)

lemma sourceRow_frame [simp]:
  "p2_grants (sourceRow x a y cu m s) = p2_grants s" "p2_balances (sourceRow x a y cu m s) = p2_balances s"
  "p2_usage (sourceRow x a y cu m s) = p2_usage s" "p2_payments (sourceRow x a y cu m s) = p2_payments s"
  "p2_ents (sourceRow x a y cu m s) = p2_ents s" "p2_events (sourceRow x a y cu m s) = p2_events s"
  by (simp_all add: sourceRow_def)

lemma setEntitlementStatus_frame [simp]:
  "p2_grants (setEntitlementStatus a st r s) = p2_grants s" "p2_balances (setEntitlementStatus a st r s) = p2_balances s"
  "p2_usage (setEntitlementStatus a st r s) = p2_usage s" "p2_payments (setEntitlementStatus a st r s) = p2_payments s"
  "p2_events (setEntitlementStatus a st r s) = p2_events s"
  by (simp_all add: setEntitlementStatus_def split: option.splits)

lemma grantPlan_frame:
  assumes "grantPlan c a p pe r s = Inr t"
  shows "p2_grants t = p2_grants s" "p2_balances t = p2_balances s" "p2_usage t = p2_usage s"
    "p2_payments t = p2_payments s" "p2_events t = p2_events s"
  using assms by (auto simp: grantPlan_def Let_def split: option.splits)

lemma upsertSubscription_frame [simp]:
  "p2_grants (upsertSubscription c m i a it st nb s) = p2_grants s" "p2_balances (upsertSubscription c m i a it st nb s) = p2_balances s"
  "p2_usage (upsertSubscription c m i a it st nb s) = p2_usage s" "p2_payments (upsertSubscription c m i a it st nb s) = p2_payments s"
  "p2_ents (upsertSubscription c m i a it st nb s) = p2_ents s" "p2_events (upsertSubscription c m i a it st nb s) = p2_events s"
  by (simp_all add: upsertSubscription_def Let_def)

lemma upsertReversal_frame [simp]:
  "p2_grants (upsertReversal k pk m i orig x st s) = p2_grants s" "p2_balances (upsertReversal k pk m i orig x st s) = p2_balances s"
  "p2_usage (upsertReversal k pk m i orig x st s) = p2_usage s" "p2_ents (upsertReversal k pk m i orig x st s) = p2_ents s"
  "p2_events (upsertReversal k pk m i orig x st s) = p2_events s"
  by (simp_all add: upsertReversal_def Let_def)

lemma grantPack_frame:
  assumes "grantPack pay a k s = Inr t"
  shows "p2_usage t = p2_usage s" "p2_payments t = p2_payments s" "p2_ents t = p2_ents s" "p2_events t = p2_events s"
  using assms by (auto simp: grantPack_def Let_def split: option.splits)

lemma insertNotices_frame [simp]:
  "p2_usage (fold (\<lambda>(w, k, t). insertNotice (a, w, k, t)) ns s) = p2_usage s"
  "p2_balances (fold (\<lambda>(w, k, t). insertNotice (a, w, k, t)) ns s) = p2_balances s"
  "p2_grants (fold (\<lambda>(w, k, t). insertNotice (a, w, k, t)) ns s) = p2_grants s"
  "p2_ents (fold (\<lambda>(w, k, t). insertNotice (a, w, k, t)) ns s) = p2_ents s"
  "p2_payments (fold (\<lambda>(w, k, t). insertNotice (a, w, k, t)) ns s) = p2_payments s"
  by (induction ns arbitrary: s) (auto simp: insertNotice_def)

end
