(* ===== verification/Pricing_Invariants.thy ===== *)
theory Pricing_Invariants
  imports Pricing_Webhooks Single_Use
begin

text \<open>
  What holds in every state of the Pricing V2 tables: pack balances are backed by purchases, plan
  usage stays inside both windows, a payment is applied once, and what a refund or a won dispute
  does to the rest of the account.
\<close>

section \<open>Pack balances\<close>

definition pack_balance :: "string \<Rightarrow> pv2 \<Rightarrow> int" where
  "pack_balance a s = coalesce (map_of (p2_balances s) a) 0"

text \<open>Units of the packs bought and not reversed, of all packs ever bought, and used from packs.\<close>

definition granted_uu :: "string \<Rightarrow> pv2 \<Rightarrow> int" where
  "granted_uu a s = msum (\<lambda>g. if gr_account g = a \<and> gr_granted g then gr_uu g else 0) (p2_grants s)"

definition bought_uu :: "string \<Rightarrow> pv2 \<Rightarrow> int" where
  "bought_uu a s = msum (\<lambda>g. if gr_account g = a then gr_uu g else 0) (p2_grants s)"

definition pack_used :: "string \<Rightarrow> pv2 \<Rightarrow> int" where
  "pack_used a s = sum_uu (\<lambda>u. us_account u = a \<and> us_bucket u = PackBucket) (p2_usage s)"

definition pack_inv :: "pv2 \<Rightarrow> bool" where
  "pack_inv s \<longleftrightarrow> mwf (p2_grants s) \<and> (\<forall>k g. map_of (p2_grants s) k = Some g \<longrightarrow> 0 \<le> gr_uu g \<and>
       (\<exists>r. map_of (p2_payments s) k = Some r \<and> py_kind r = PaymentK \<and> py_account r = gr_account g)) \<and>
     (\<forall>a. 0 \<le> pack_balance a s \<and> pack_balance a s \<le> granted_uu a s \<and> pack_balance a s + pack_used a s \<le> bought_uu a s)"

lemma sum_uu_snoc [simp]: "sum_uu P (us @ [u]) = sum_uu P us + (if P u then us_uu u else 0)"
  by (simp add: sum_uu_def)

lemma pack_inv_payment:
  assumes "pack_inv s" and "map_of (p2_grants s) k = Some g"
  obtains r where "map_of (p2_payments s) k = Some r" "py_kind r = PaymentK" "py_account r = gr_account g"
  using assms unfolding pack_inv_def by blast

lemma pack_inv_frame:
  assumes "pack_inv s" and "p2_grants t = p2_grants s" "p2_balances t = p2_balances s" "p2_usage t = p2_usage s"
    and "\<And>k r. map_of (p2_payments s) k = Some r \<Longrightarrow> py_kind r = PaymentK \<Longrightarrow>
           \<exists>r'. map_of (p2_payments t) k = Some r' \<and> py_kind r' = PaymentK \<and> py_account r' = py_account r"
  shows "pack_inv t"
proof -
  have "0 \<le> gr_uu g \<and> (\<exists>r. map_of (p2_payments t) k = Some r \<and> py_kind r = PaymentK \<and> py_account r = gr_account g)"
    if g: "map_of (p2_grants t) k = Some g" for k g
  proof -
    from g assms(1,2) have "0 \<le> gr_uu g \<and> (\<exists>r. map_of (p2_payments s) k = Some r \<and> py_kind r = PaymentK \<and> py_account r = gr_account g)"
      by (simp add: pack_inv_def)
    then show ?thesis using assms(5) [of k] by fastforce
  qed
  with assms(1-4) show ?thesis by (simp add: pack_inv_def pack_balance_def granted_uu_def bought_uu_def pack_used_def)
qed

lemma pack_inv_grantPack:
  assumes inv: "pack_inv s" and g: "grantPack pay a k s = Inr t" and k: "0 \<le> packTotalUu k"
    and pay: "map_of (p2_payments s) pay = Some r" "py_kind r = PaymentK" "py_account r = a"
  shows "pack_inv t"
proof -
  let ?g = "\<lparr> gr_account = a, gr_pack = pk_id k, gr_uu = packTotalUu k, gr_bonus = bonusUu k, gr_granted = True \<rparr>"
  from g have fresh: "map_of (p2_grants s) pay = None"
    and t: "t = s \<lparr> p2_grants := mset_key pay ?g (p2_grants s),
                    p2_balances := mset_key a (pack_balance a s + packTotalUu k) (p2_balances s) \<rparr>"
    by (auto simp: grantPack_def Let_def pack_balance_def split: option.splits)
  have bal: "pack_balance b t = pack_balance b s + (if b = a then packTotalUu k else 0)" for b
    by (auto simp: t pack_balance_def)
  have gr: "granted_uu b t = granted_uu b s + (if b = a then packTotalUu k else 0)"
    and bo: "bought_uu b t = bought_uu b s + (if b = a then packTotalUu k else 0)"
    and us: "pack_used b t = pack_used b s" for b
    using fresh by (auto simp: t granted_uu_def bought_uu_def pack_used_def msum_insert)
  from inv have "mwf (p2_grants t)" by (simp add: t pack_inv_def)
  moreover have "0 \<le> gr_uu x \<and> (\<exists>r. map_of (p2_payments t) j = Some r \<and> py_kind r = PaymentK \<and> py_account r = gr_account x)"
    if "map_of (p2_grants t) j = Some x" for j x
    using that inv k pay by (auto simp: t pack_inv_def simp del: map_of_eq_Some_iff split: if_splits)
  ultimately show ?thesis using inv k by (auto simp: pack_inv_def bal gr bo us simp del: map_of_eq_Some_iff)
qed

lemma pack_inv_reverse_grant:
  assumes inv: "pack_inv s" and g: "map_of (p2_grants s) i = Some g" "gr_granted g" and a: "a = gr_account g"
    and t: "t = s \<lparr> p2_balances := (case map_of (p2_balances s) a of None \<Rightarrow> p2_balances s
                                    | Some b \<Rightarrow> mset_key a (max 0 (b - gr_uu g)) (p2_balances s)),
                    p2_grants := mset_key i (g \<lparr> gr_granted := False \<rparr>) (p2_grants s) \<rparr>"
  shows "pack_inv t"
proof -
  from inv have wf: "mwf (p2_grants s)"
    and nn: "\<And>k g. map_of (p2_grants s) k = Some g \<Longrightarrow> 0 \<le> gr_uu g"
    by (auto simp: pack_inv_def simp del: map_of_eq_Some_iff)
  let ?f = "\<lambda>b x. if gr_account x = b \<and> gr_granted x then gr_uu x else 0"
  have gr: "granted_uu b t = granted_uu b s - (if b = a then gr_uu g else 0)"
    and bo: "bought_uu b t = bought_uu b s" and us: "pack_used b t = pack_used b s" for b
    using msum_update [OF wf g(1)] g(2) by (auto simp: t granted_uu_def bought_uu_def pack_used_def a)
  have bal: "pack_balance b t = (if b = a then max 0 (pack_balance a s - gr_uu g) else pack_balance b s)" for b
    using nn [OF g(1)] by (auto simp: t pack_balance_def split: option.splits)
  have "?f a g \<le> msum (?f a) (p2_grants s)"
    by (rule msum_member [OF wf _ g(1)]) (use nn in \<open>auto simp del: map_of_eq_Some_iff\<close>)
  then have le: "gr_uu g \<le> granted_uu a s" using g(2) by (simp add: granted_uu_def a)
  have rows: "0 \<le> gr_uu x \<and> (\<exists>r. map_of (p2_payments t) j = Some r \<and> py_kind r = PaymentK \<and> py_account r = gr_account x)"
    if "map_of (p2_grants t) j = Some x" for j x
    using that inv g(1) by (auto simp: t pack_inv_def simp del: map_of_eq_Some_iff split: if_splits)
  have "0 \<le> pack_balance b s \<and> pack_balance b s \<le> granted_uu b s \<and> pack_balance b s + pack_used b s \<le> bought_uu b s" for b
    using inv by (simp add: pack_inv_def)
  then have "0 \<le> pack_balance b t \<and> pack_balance b t \<le> granted_uu b t \<and> pack_balance b t + pack_used b t \<le> bought_uu b t" for b
    using le nn [OF g(1)] by (auto simp: bal gr bo us max_def) (smt (verit, best))+
  moreover from wf have "mwf (p2_grants t)" by (simp add: t)
  ultimately show ?thesis using rows unfolding pack_inv_def by blast
qed

lemma itemFor_in:
  assumes "itemForDodoProduct i m c = Some item"
  shows "(\<exists>p \<in> set (ct_plans c). item = PlanItem p) \<or> (\<exists>k \<in> set (ct_packs c). item = PackItem k)"
  using assms by (auto simp: itemForDodoProduct_def find_Some_iff split: option.splits)

lemma valid_pack:
  assumes "loadCatalog c = Inr c" and "k \<in> set (ct_packs c)"
  shows "0 \<le> packTotalUu k"
proof -
  from assms have "packErrors k = []"
    by (auto simp: loadCatalog_def validateCatalog_def Let_def split: if_splits)
  then show ?thesis by (auto simp: packErrors_def packTotalUu_def bonusUu_def split: if_splits option.splits)
qed

text \<open>A payment that is applied is recorded first, then grants its item.\<close>

lemma applyPayment_cases:
  assumes "applyPayment c m d a item s = Inr (out, l, t)"
  obtains (known) pay r where "ed_payment d = Some pay" "map_of (p2_payments s) pay = Some r" "t = s" "out = ''payment_already_applied''"
  | (pack) pay r u k where "ed_payment d = Some pay" "map_of (p2_payments s) pay = None" "item = PackItem k" "out = ''pack_granted''"
      "grantPack pay a k u = Inr t" "p2_payments u = mset_key pay r (p2_payments s)" "py_kind r = PaymentK" "py_account r = a"
      "p2_grants u = p2_grants s" "p2_balances u = p2_balances s" "p2_usage u = p2_usage s" "p2_ents u = p2_ents s" "p2_events u = p2_events s"
  | (plan) pay r u p where "ed_payment d = Some pay" "map_of (p2_payments s) pay = None" "item = PlanItem p" "out = ''plan_payment_recorded''"
      "grantPlan c a (pl_id p) None (''payment:'' @ pay) u = Inr t" "p2_payments u = mset_key pay r (p2_payments s)"
      "py_kind r = PaymentK" "py_account r = a"
      "p2_grants u = p2_grants s" "p2_balances u = p2_balances s" "p2_usage u = p2_usage s" "p2_ents u = p2_ents s" "p2_events u = p2_events s"
proof -
  from assms obtain pay where pay: "ed_payment d = Some pay" by (auto simp: applyPayment_def split: option.splits)
  show thesis
  proof (cases "map_of (p2_payments s) pay")
    case (Some r)
    with assms pay show thesis by (intro known [OF pay Some]) (simp_all add: applyPayment_def Let_def)
  next
    case None
    define r where "r = \<lparr> py_kind = PaymentK, py_mode = m, py_account = a, py_item = item_id item, py_amount = coalesce (ed_total d) 0,
      py_currency = or_str (ed_currency d) ''USD'', py_status = ''succeeded'', py_ref = or_null (ed_subscription d) \<rparr>"
    define x :: rat where "x = of_int (coalesce (ed_total d) 0) / 100"
    define u where "u = sourceRow (''dodo:'' @ pay) a x (or_str (ed_currency d) ''USD'') m
       (revenueRow (''dodo:v2:'' @ pay) a x (case item of PackItem _ \<Rightarrow> ''pack_purchase'' | PlanItem _ \<Rightarrow> ''subscription_payment'') m True
         (s \<lparr> p2_payments := mset_key pay r (p2_payments s) \<rparr>))"
    have u: "p2_payments u = mset_key pay r (p2_payments s)" "p2_grants u = p2_grants s" "p2_balances u = p2_balances s"
      "p2_usage u = p2_usage s" "p2_ents u = p2_ents s" "p2_events u = p2_events s" by (simp_all add: u_def)
    have r: "py_kind r = PaymentK" "py_account r = a" by (simp_all add: r_def)
    show thesis
    proof (cases item)
      case (PlanItem p)
      with assms pay None have "grantPlan c a (pl_id p) None (''payment:'' @ pay) u = Inr t" "out = ''plan_payment_recorded''"
        by (auto simp: applyPayment_def Let_def u_def r_def x_def bindR_Inr_iff)
      with plan [OF pay None PlanItem] u r show thesis by blast
    next
      case (PackItem k)
      with assms pay None have "grantPack pay a k u = Inr t" "out = ''pack_granted''"
        by (auto simp: applyPayment_def Let_def u_def r_def x_def bindR_Inr_iff)
      with pack [OF pay None PackItem] u r show thesis by blast
    qed
  qed
qed

lemma pack_inv_applyPayment:
  assumes inv: "pack_inv s" and ap: "applyPayment c m d a item s = Inr (out, l, t)"
    and k: "\<And>k. item = PackItem k \<Longrightarrow> 0 \<le> packTotalUu k"
  shows "pack_inv t"
  using ap
proof (cases rule: applyPayment_cases)
  case known
  with inv show ?thesis by simp
next
  case (pack pay r u k)
  have "pack_inv u" by (rule pack_inv_frame [OF inv]) (use pack in auto)
  moreover have "map_of (p2_payments u) pay = Some r" using pack by simp
  ultimately show ?thesis using pack_inv_grantPack pack k by blast
next
  case (plan pay r u p)
  have "pack_inv u" by (rule pack_inv_frame [OF inv]) (use plan in auto)
  then show ?thesis by (rule pack_inv_frame) (use grantPlan_frame [OF plan(5)] in auto)
qed

lemma four_cases:
  "(A \<Longrightarrow> P) \<Longrightarrow> (\<not> A \<Longrightarrow> B \<Longrightarrow> P) \<Longrightarrow> (\<not> A \<Longrightarrow> \<not> B \<Longrightarrow> C \<Longrightarrow> P) \<Longrightarrow> (\<not> A \<Longrightarrow> \<not> B \<Longrightarrow> \<not> C \<Longrightarrow> P) \<Longrightarrow> P"
  by blast

lemma entitlementOf_cases:
  assumes "entitlementOf c a planId ref st nb u = Inr (out, l, t)"
  shows "(\<exists>r. grantPlan c a planId nb r u = Inr t) \<or> (\<exists>x r. t = setEntitlementStatus a x r u) \<or> t = u"
proof -
  have g: "bindR (grantPlan c a planId nb r u) (\<lambda>t. Inr (q, [], t)) = Inr (out, l, t) \<Longrightarrow> grantPlan c a planId nb r u = Inr t" for r q
    by (cases "grantPlan c a planId nb r u") simp_all
  show ?thesis
  proof (cases rule: four_cases [where A = "st = ''active'' \<or> st = ''renewed''" and B = "st = ''on_hold''"
        and C = "st = ''cancelled'' \<or> st = ''expired'' \<or> st = ''failed''"])
    case 1
    from assms have "grantPlan c a planId nb (ref @ st) u = Inr t" unfolding entitlementOf_def if_P [OF 1] by (rule g)
    then show ?thesis by blast
  next
    case 2
    from assms have "t = setEntitlementStatus a ''on_hold'' (ref @ ''on_hold'') u"
      unfolding entitlementOf_def if_not_P [OF 2(1)] if_P [OF 2(2)] by simp
    then show ?thesis by blast
  next
    case 3
    from assms have "t = setEntitlementStatus a ''revoked'' (ref @ st) u"
      unfolding entitlementOf_def if_not_P [OF 3(1)] if_not_P [OF 3(2)] if_P [OF 3(3)] by simp
    then show ?thesis by blast
  next
    case 4
    show ?thesis
    proof (cases "st = ''plan_changed''")
      case True
      from assms have "grantPlan c a planId nb (ref @ ''plan_changed'') u = Inr t"
        unfolding entitlementOf_def if_not_P [OF 4(1)] if_not_P [OF 4(2)] if_not_P [OF 4(3)] if_P [OF True] by (rule g)
      then show ?thesis by blast
    next
      case False
      from assms have "t = u"
        unfolding entitlementOf_def if_not_P [OF 4(1)] if_not_P [OF 4(2)] if_not_P [OF 4(3)] if_not_P [OF False] by simp
      then show ?thesis by blast
    qed
  qed
qed

lemma applySubscription_cases:
  assumes "applySubscription c m d a item st s = Inr (out, l, t)"
  obtains i u where "ed_subscription d = Some i" "u = upsertSubscription c m i a item st (ed_next_billing d) s"
    "(\<exists>r. grantPlan c a (item_id item) (ed_next_billing d) r u = Inr t) \<or> (\<exists>x r. t = setEntitlementStatus a x r u) \<or> t = u"
proof -
  from assms obtain i where i: "ed_subscription d = Some i" by (auto simp: applySubscription_def split: option.splits)
  show thesis by (rule that [OF i refl]) (rule entitlementOf_cases, rule assms [unfolded applySubscription_def i option.case])
qed

lemma applySubscription_frame:
  assumes "applySubscription c m d a item st s = Inr (out, l, t)"
  shows "p2_grants t = p2_grants s \<and> p2_balances t = p2_balances s \<and> p2_usage t = p2_usage s \<and> p2_payments t = p2_payments s"
  using assms
proof (cases rule: applySubscription_cases)
  case (1 i u)
  from 1(3) have "p2_grants t = p2_grants u \<and> p2_balances t = p2_balances u \<and> p2_usage t = p2_usage u \<and> p2_payments t = p2_payments u"
    by (elim disjE exE conjE) (simp_all add: grantPlan_frame)
  then show ?thesis by (simp add: 1(2))
qed

lemma pack_inv_applySubscription:
  assumes inv: "pack_inv s" and ap: "applySubscription c m d a item st s = Inr (out, l, t)"
  shows "pack_inv t"
  by (rule pack_inv_frame [OF inv]) (use applySubscription_frame [OF ap] in simp_all)

lemma payments_upsertReversal:
  "map_of (p2_payments s) k = Some r \<Longrightarrow>
   \<exists>r'. map_of (p2_payments (upsertReversal key pk m i orig x st s)) k = Some r' \<and> py_kind r' = py_kind r \<and> py_account r' = py_account r"
  by (auto simp: upsertReversal_def Let_def split: option.splits)

lemma pack_inv_reverse:
  assumes inv: "pack_inv s" and rv: "reverse why i x m origId orig s = (l, t)"
    and orig: "map_of (p2_payments s) origId = Some r" "py_account r = py_account orig"
  shows "pack_inv t"
proof -
  let ?s = "revenueRow (''dodo:v2:'' @ why @ '':'' @ i) (py_account orig) (- (of_int x / 100)) ''refund_reversal'' m False s"
  have s: "pack_inv ?s" by (rule pack_inv_frame [OF inv]) auto
  show ?thesis
  proof (cases "\<exists>g. map_of (p2_grants s) origId = Some g \<and> gr_granted g")
    case True
    then obtain g where g: "map_of (p2_grants s) origId = Some g" "gr_granted g" by blast
    from pack_inv_payment [OF inv g(1)] orig have acct: "py_account orig = gr_account g" by auto
    show ?thesis
      by (rule pack_inv_reverse_grant [OF s _ g(2) acct, of origId]) (use rv g in \<open>auto simp: reverse_def Let_def split: option.splits\<close>)
  next
    case False
    then have "t = setEntitlementStatus (py_account orig) ''revoked'' (why @ '':'' @ i) ?s"
      using rv by (auto simp: reverse_def Let_def split: option.splits if_splits)
    then show ?thesis by (intro pack_inv_frame [OF s]) auto
  qed
qed

lemma reversalStage_cases:
  assumes "reversalStage isRefund ty stage i x m p orig u = (out, l, t)"
  shows "t = u \<or> (\<exists>st r. t = setEntitlementStatus (py_account orig) st r u) \<or> (\<exists>why. reverse why i x m p orig u = (l, t))"
proof -
  have r: "(case reverse why i x m p orig u of (after, v) \<Rightarrow> (q, after, v)) = (out, l, t) \<Longrightarrow> reverse why i x m p orig u = (l, t)" for why q
    by (cases "reverse why i x m p orig u") simp
  show ?thesis
  proof (cases rule: four_cases [where A = "isRefund \<and> stage = ''succeeded''" and B = "\<not> isRefund \<and> stage = ''opened''"
        and C = "\<not> isRefund \<and> (stage = ''won'' \<or> stage = ''cancelled'')"])
    case 1
    from assms have "reverse ''refund'' i x m p orig u = (l, t)" unfolding reversalStage_def if_P [OF 1] by (rule r)
    then show ?thesis by blast
  next
    case 2
    from assms have "t = setEntitlementStatus (py_account orig) ''on_hold'' (''dispute:'' @ i @ '':opened'') u"
      unfolding reversalStage_def if_not_P [OF 2(1)] if_P [OF 2(2)] by simp
    then show ?thesis by blast
  next
    case 3
    from assms have "t = setEntitlementStatus (py_account orig) ''active'' (''dispute:'' @ i @ '':'' @ stage) u"
      unfolding reversalStage_def if_not_P [OF 3(1)] if_not_P [OF 3(2)] if_P [OF 3(3)] by simp
    then show ?thesis by blast
  next
    case 4
    show ?thesis
    proof (cases "\<not> isRefund \<and> (stage = ''lost'' \<or> stage = ''accepted'')")
      case True
      from assms have "reverse ''dispute'' i x m p orig u = (l, t)"
        unfolding reversalStage_def if_not_P [OF 4(1)] if_not_P [OF 4(2)] if_not_P [OF 4(3)] if_P [OF True] by (rule r)
      then show ?thesis by blast
    next
      case False
      from assms have "t = u"
        unfolding reversalStage_def if_not_P [OF 4(1)] if_not_P [OF 4(2)] if_not_P [OF 4(3)] if_not_P [OF False] by simp
      then show ?thesis by blast
    qed
  qed
qed

text \<open>A refund or a dispute of a known payment records itself, then holds, releases or reverses.\<close>

lemma applyReversal_cases:
  assumes "applyReversal m ty d s = (out, l, t)"
  obtains (unknown) "find_payment (ed_payment d) s = None" "t = s"
  | (known) orig p key pk i x u where "find_payment (ed_payment d) s = Some orig" "ed_payment d = Some p"
      "map_of (p2_payments s) p = Some orig" "py_kind orig = PaymentK"
      "u = upsertReversal key pk m p orig x (event_stage ty) s"
      "t = u \<or> (\<exists>st r. t = setEntitlementStatus (py_account orig) st r u) \<or> (\<exists>why. reverse why i x m p orig u = (l, t))"
proof (cases "find_payment (ed_payment d) s")
  case None
  with assms show thesis by (intro unknown) (simp_all add: applyReversal_def)
next
  case (Some orig)
  obtain p where p: "ed_payment d = Some p" "map_of (p2_payments s) p = Some orig" "py_kind orig = PaymentK"
    using Some by (auto simp: find_payment_def split: option.splits if_splits)
  define i where "i = shown (if starts ''refund.'' ty then ed_refund d else ed_dispute d)"
  define x where "x = coalesce (ed_amount d) (py_amount orig)"
  define key where "key = (if starts ''refund.'' ty then ''refund:'' else ''dispute:'') @ i"
  define pk where "pk = (if starts ''refund.'' ty then RefundK else DisputeK)"
  define u where "u = upsertReversal key pk m p orig x (event_stage ty) s"
  note Some' = Some [unfolded p(1)]
  have "reversalStage (starts ''refund.'' ty) ty (event_stage ty) i x m p orig u = (out, l, t)"
    using assms unfolding applyReversal_def p(1) Some' option.case Let_def option.sel i_def x_def key_def pk_def u_def .
  from reversalStage_cases [OF this]
  have "t = u \<or> (\<exists>st r. t = setEntitlementStatus (py_account orig) st r u) \<or> (\<exists>why. reverse why i x m p orig u = (l, t))" .
  with known [OF Some p u_def] show thesis by blast
qed

lemma pack_inv_applyReversal:
  assumes inv: "pack_inv s" and ap: "applyReversal m ty d s = (out, l, t)"
  shows "pack_inv t"
  using ap
proof (cases rule: applyReversal_cases)
  case unknown
  with inv show ?thesis by simp
next
  case (known orig p key pk i x u)
  have u: "pack_inv u"
    unfolding known(5) by (rule pack_inv_frame [OF inv]) (simp_all, metis payments_upsertReversal)
  have set: "pack_inv (setEntitlementStatus a st r u)" for a st r by (rule pack_inv_frame [OF u]) auto
  from payments_upsertReversal [OF known(3)] obtain r where r: "map_of (p2_payments u) p = Some r" "py_account r = py_account orig"
    unfolding known(5) by blast
  from known(6) u set pack_inv_reverse [OF u _ r] show ?thesis by blast
qed

text \<open>The body of an event, by the branch it takes.\<close>

lemma applyEvent_cases:
  assumes "applyEvent c m e s = Inr (out, l, t)"
  obtains (nothing) "t = s"
  | (payment) a item where "itemForDodoProduct (productOf (ev_data e)) m c = Some item" "accountFor (ev_data e) s = Some a"
      "ev_type e = ''payment.succeeded''" "applyPayment c m (ev_data e) a item s = Inr (out, l, t)"
  | (subscription) a item where "itemForDodoProduct (productOf (ev_data e)) m c = Some item"
      "applySubscription c m (ev_data e) a item (drop 13 (ev_type e)) s = Inr (out, l, t)"
  | (reversal) "applyReversal m (ev_type e) (ev_data e) s = (out, l, t)"
proof -
  define d ty acct item where "d = ev_data e" and "ty = ev_type e" and "acct = accountFor d s"
    and "item = itemForDodoProduct (productOf d) m c"
  note eq = assms [unfolded applyEvent_def Let_def, folded d_def ty_def, folded acct_def item_def]
  show thesis
  proof (cases "\<not> truthy acct \<or> (item = None \<and> \<not> starts ''refund.'' ty \<and> \<not> starts ''dispute.'' ty)")
    case True
    show thesis by (rule nothing) (use eq [unfolded if_P [OF True]] in simp)
  next
    case live: False
    note eq1 = eq [unfolded if_not_P [OF live]]
    from live obtain a where a: "acct = Some a" by (cases acct) auto
    show thesis
    proof (cases "ty = ''payment.succeeded''")
      case True
      with live obtain i where i: "item = Some i" by (auto simp: starts_def)
      show thesis
        by (rule payment [of i a])
          (use i a True eq1 in \<open>simp_all add: item_def acct_def d_def ty_def\<close>)
    next
      case not_pay: False
      note eq2 = eq1 [unfolded if_not_P [OF not_pay]]
      show thesis
      proof (cases "ty = ''payment.failed''")
        case True
        show thesis by (rule nothing) (use eq2 [unfolded if_P [OF True]] in simp)
      next
        case not_failed: False
        note eq3 = eq2 [unfolded if_not_P [OF not_failed]]
        show thesis
        proof (cases "starts ''subscription.'' ty")
          case True
          then have "\<not> starts ''refund.'' ty" "\<not> starts ''dispute.'' ty" by (cases ty; auto simp: starts_def)+
          with live obtain i where i: "item = Some i" by auto
          show thesis
            by (rule subscription [of i a]) (use i a eq3 [unfolded if_P [OF True]] in \<open>simp_all add: item_def d_def ty_def\<close>)
        next
          case False
          note eq4 = eq3 [unfolded if_not_P [OF False]]
          show thesis
          proof (cases "starts ''refund.'' ty \<or> starts ''dispute.'' ty")
            case True
            show thesis by (rule reversal) (use eq4 [unfolded if_P [OF True]] in \<open>simp add: d_def ty_def\<close>)
          next
            case False
            show thesis by (rule nothing) (use eq4 [unfolded if_not_P [OF False]] in simp)
          qed
        qed
      qed
    qed
  qed
qed

lemma pack_inv_applyEvent:
  assumes ok: "loadCatalog c = Inr c" and inv: "pack_inv s" and ap: "applyEvent c m e s = Inr (out, l, t)"
  shows "pack_inv t"
  using ap
proof (cases rule: applyEvent_cases)
  case nothing
  with inv show ?thesis by simp
next
  case (payment a item)
  from itemFor_in [OF payment(1)] valid_pack [OF ok] have "\<And>k. item = PackItem k \<Longrightarrow> 0 \<le> packTotalUu k" by auto
  then show ?thesis by (rule pack_inv_applyPayment [OF inv payment(4)])
next
  case (subscription a item)
  show ?thesis by (rule pack_inv_applySubscription [OF inv subscription(2)])
next
  case reversal
  show ?thesis by (rule pack_inv_applyReversal [OF inv reversal])
qed

section \<open>A metered request\<close>

text \<open>What a request does to the tables: nothing, a plan row, or a pack row with the balance reduced.\<close>

lemma meter_cases:
  assumes "meterIntelligence c ws a key tz auto now s = (r, t)"
  obtains (nothing) "t = s" "\<forall>u n. r \<noteq> Inr (CoveredByPlan u n)"
  | (plan) p sc wc where "capsOf c a s = Some (p, sc, wc)" "session_used c a now (ws tz now) s + ct_request_uu c \<le> sc"
      "weekly_used c a now (ws tz now) s + ct_request_uu c \<le> wc"
      "p2_usage t = p2_usage s @ [ledger_row c a key now PlanBucket 0]" "p2_balances t = p2_balances s" "p2_grants t = p2_grants s"
      "p2_ents t = p2_ents s" "p2_payments t = p2_payments s"
  | (pack) b where "map_of (p2_balances s) a = Some b" "ct_request_uu c \<le> b"
      "p2_usage t = p2_usage s @ [ledger_row c a key now PackBucket 0]"
      "p2_balances t = mset_key a (b - ct_request_uu c) (p2_balances s)" "p2_grants t = p2_grants s" "p2_ents t = p2_ents s"
      "p2_payments t = p2_payments s"
proof (cases "capsOf c a s")
  case None
  show thesis by (rule nothing) (use assms None in \<open>auto simp: meterIntelligence_def\<close>)
next
  case (Some caps)
  obtain p sc wc where caps: "caps = (p, sc, wc)" by (cases caps)
  define u where "u = usageOf c caps a now (ws tz now) s"
  have u: "ur_session_used u = session_used c a now (ws tz now) s" "ur_weekly_used u = weekly_used c a now (ws tz now) s"
    "ur_session_cap u = sc" "ur_weekly_cap u = wc" by (simp_all add: u_def usageOf_def caps)
  note eq = assms [unfolded meterIntelligence_def Some option.case Let_def, folded u_def]
  show thesis
  proof (cases "ur_session_used u + ct_request_uu c \<le> ur_session_cap u \<and> ur_weekly_used u + ct_request_uu c \<le> ur_weekly_cap u")
    case True
    show thesis
      by (rule plan) (use eq [unfolded if_P [OF True]] True Some caps u in \<open>auto simp: ledger_def\<close>)
  next
    case False
    note eq1 = eq [unfolded if_not_P [OF False]]
    show thesis
    proof (cases "\<exists>b. map_of (p2_balances s) a = Some b \<and> ct_request_uu c \<le> b")
      case True
      then obtain b where b: "map_of (p2_balances s) a = Some b" "ct_request_uu c \<le> b" by blast
      show thesis by (rule pack [OF b]) (use eq1 b in \<open>auto simp: ledger_def\<close>)
    next
      case False
      show thesis by (rule nothing) (use eq1 False in \<open>auto simp: uncovered_def Let_def split: option.splits if_splits\<close>)
    qed
  qed
qed

lemma pack_inv_meter:
  assumes uu: "0 \<le> ct_request_uu c" and inv: "pack_inv s" and m: "meterIntelligence c ws a key tz auto now s = (r, t)"
  shows "pack_inv t"
  using m
proof (cases rule: meter_cases)
  case nothing
  with inv show ?thesis by simp
next
  case plan
  have us: "pack_used b t = pack_used b s" and bal: "pack_balance b t = pack_balance b s" and gr: "granted_uu b t = granted_uu b s"
    and bo: "bought_uu b t = bought_uu b s" for b
    by (simp_all add: pack_used_def pack_balance_def granted_uu_def bought_uu_def plan ledger_row_def)
  from inv show ?thesis unfolding pack_inv_def us bal gr bo plan(6) plan(8) .
next
  case (pack b)
  have us: "pack_used x t = pack_used x s + (if x = a then ct_request_uu c else 0)"
    and bal: "pack_balance x t = pack_balance x s - (if x = a then ct_request_uu c else 0)"
    and gr: "granted_uu x t = granted_uu x s" and bo: "bought_uu x t = bought_uu x s" for x
    using pack(1) by (auto simp: pack_used_def pack_balance_def granted_uu_def bought_uu_def pack ledger_row_def)
  have "0 \<le> pack_balance x t \<and> pack_balance x t \<le> granted_uu x t \<and> pack_balance x t + pack_used x t \<le> bought_uu x t" for x
  proof -
    have "0 \<le> pack_balance x s \<and> pack_balance x s \<le> granted_uu x s \<and> pack_balance x s + pack_used x s \<le> bought_uu x s"
      using inv by (simp add: pack_inv_def)
    moreover have "x = a \<Longrightarrow> pack_balance x s = b" using pack(1) by (simp add: pack_balance_def)
    ultimately show ?thesis using pack(2) uu unfolding us bal gr bo by auto
  qed
  with inv show ?thesis unfolding pack_inv_def pack(5) pack(7) by blast
qed

end
