(* ===== verification/Pricing_V2.thy ===== *)
theory Pricing_V2
  imports Pricing_Invariants
begin

text \<open>
  The properties of Pricing V2 over its whole history: deliveries of webhooks in any order and any
  number of times, metered requests at any time, and credit rows, from empty tables.
\<close>

section \<open>Usage inside the windows\<close>

definition session_limit :: "catalog \<Rightarrow> int" where
  "session_limit c = foldr max (map pl_session (ct_plans c)) 0"

definition weekly_limit :: "catalog \<Rightarrow> int" where
  "weekly_limit c = foldr max (map pl_weekly (ct_plans c)) 0"

lemma foldr_max_ge: "x \<in> set xs \<Longrightarrow> x \<le> foldr max xs (0::int)"
  by (induction xs) auto

lemma foldr_max_nonneg: "0 \<le> foldr max xs (0::int)"
  by (induction xs) auto

definition plan_used :: "string \<Rightarrow> (int \<Rightarrow> bool) \<Rightarrow> pv2 \<Rightarrow> int" where
  "plan_used a P s = sum_uu (\<lambda>u. plan_row a u \<and> P (us_at u)) (p2_usage s)"

lemma session_used_eq: "session_used c a now wk s = plan_used a (\<lambda>t. t > now - hours_ms c) s"
  by (auto simp: session_used_def plan_used_def sum_uu_def windowRows_def intro!: arg_cong [of _ _ sum_list] arg_cong [of _ _ "map us_uu"]
      filter_cong)

lemma weekly_used_eq: "weekly_used c a now wk s = plan_used a (\<lambda>t. t \<ge> wk \<and> t > min (now - hours_ms c) wk) s"
  by (auto simp: weekly_used_def plan_used_def sum_uu_def windowRows_def intro!: arg_cong [of _ _ sum_list] arg_cong [of _ _ "map us_uu"]
      filter_cong)

lemma sum_uu_mono:
  "\<forall>u \<in> set us. 0 \<le> us_uu u \<Longrightarrow> (\<And>u. P u \<Longrightarrow> Q u) \<Longrightarrow> sum_uu P us \<le> sum_uu Q us"
proof (induction us)
  case (Cons u us)
  then have "sum_uu P us \<le> sum_uu Q us" by simp
  with Cons.prems show ?case by (auto simp: sum_uu_def)
qed (simp add: sum_uu_def)

definition ents_ok :: "catalog \<Rightarrow> pv2 \<Rightarrow> bool" where
  "ents_ok c s \<longleftrightarrow> (\<forall>a e. map_of (p2_ents s) a = Some e \<longrightarrow> en_session e \<le> session_limit c \<and> en_weekly e \<le> weekly_limit c)"

definition windows_ok :: "catalog \<Rightarrow> (string \<Rightarrow> int \<Rightarrow> int) \<Rightarrow> (string \<Rightarrow> string) \<Rightarrow> pv2 \<Rightarrow> bool" where
  "windows_ok c ws tzOf s \<longleftrightarrow> (\<forall>u \<in> set (p2_usage s). 0 \<le> us_uu u) \<and>
     (\<forall>a t. plan_used a (\<lambda>x. t - hours_ms c < x \<and> x \<le> t) s \<le> session_limit c) \<and>
     (\<forall>a w. plan_used a (\<lambda>x. ws (tzOf a) x = w \<and> w < x) s \<le> weekly_limit c)"

lemma getPlan_limits:
  assumes "getPlan i c = Some p"
  shows "pl_session p \<le> session_limit c \<and> pl_weekly p \<le> weekly_limit c"
proof -
  from assms have "p \<in> set (ct_plans c)" by (auto simp: getPlan_def find_Some_iff)
  then show ?thesis by (auto simp: session_limit_def weekly_limit_def intro!: foldr_max_ge)
qed

lemma capsOf_limits:
  assumes "ents_ok c s" and "capsOf c a s = Some (p, sc, wc)"
  shows "sc \<le> session_limit c \<and> wc \<le> weekly_limit c"
  using assms getPlan_limits [of "''free''" c]
  by (auto simp: capsOf_def ents_ok_def simp del: map_of_eq_Some_iff split: option.splits if_splits)

lemma ents_ok_grantPlan:
  assumes "ents_ok c s" and "grantPlan c a p pe r s = Inr t"
  shows "ents_ok c t"
proof -
  from assms(2) obtain ent old where ent: "entitlementPlan p c = Some ent"
    and t: "t = s \<lparr> p2_ents := mset_key a \<lparr> en_plan = p, en_version = ct_version c, en_session = pl_session ent, en_weekly = pl_weekly ent,
                      en_status = ''active'', en_ref = r, en_period = old \<rparr> (p2_ents s) \<rparr>"
    by (auto simp: grantPlan_def Let_def split: option.splits)
  from ent have "pl_session ent \<le> session_limit c \<and> pl_weekly ent \<le> weekly_limit c"
    by (auto simp: entitlementPlan_def dest: getPlan_limits split: option.splits if_splits)
  with assms(1) show ?thesis by (auto simp: ents_ok_def t simp del: map_of_eq_Some_iff)
qed

lemma ents_ok_status: "ents_ok c s \<Longrightarrow> ents_ok c (setEntitlementStatus a st r s)"
  by (auto simp: ents_ok_def setEntitlementStatus_def simp del: map_of_eq_Some_iff split: option.splits)

lemma ents_ok_frame: "ents_ok c s \<Longrightarrow> p2_ents t = p2_ents s \<Longrightarrow> ents_ok c t"
  by (simp add: ents_ok_def)

lemma reverse_usage: "reverse why i x m p orig u = (l, t) \<Longrightarrow> p2_usage t = p2_usage u"
  by (auto simp: reverse_def Let_def split: option.splits if_splits)

lemma ents_ok_reverse:
  assumes ok: "ents_ok c u" and rv: "reverse why i x m p orig u = (l, t)"
  shows "ents_ok c t"
proof -
  define v where "v = revenueRow (''dodo:v2:'' @ why @ '':'' @ i) (py_account orig) (- (of_int x / 100)) ''refund_reversal'' m False u"
  have v: "ents_ok c v" by (rule ents_ok_frame [OF ok]) (simp add: v_def)
  have "p2_ents t = p2_ents v \<or> t = setEntitlementStatus (py_account orig) ''revoked'' (why @ '':'' @ i) v"
    using rv by (auto simp: reverse_def Let_def v_def split: option.splits if_splits)
  then show ?thesis using ents_ok_frame [OF v] ents_ok_status [OF v] by blast
qed

lemma applyEvent_ents:
  assumes ok: "ents_ok c s" and ap: "applyEvent c m e s = Inr (out, l, t)"
  shows "ents_ok c t \<and> p2_usage t = p2_usage s"
  using ap
proof (cases rule: applyEvent_cases)
  case nothing
  with ok show ?thesis by simp
next
  case (payment a item)
  from payment(4) show ?thesis
  proof (cases rule: applyPayment_cases)
    case known
    with ok show ?thesis by simp
  next
    case (pack pay r u k)
    then show ?thesis using grantPack_frame [OF pack(5)] ents_ok_frame [OF ok] by simp
  next
    case (plan pay r u p)
    then show ?thesis using grantPlan_frame [OF plan(5)] ents_ok_grantPlan [OF _ plan(5)] ents_ok_frame [OF ok] by simp
  qed
next
  case (subscription a item)
  from subscription(2) show ?thesis
  proof (cases rule: applySubscription_cases)
    case (1 i u)
    have u: "ents_ok c u" "p2_usage u = p2_usage s" using ents_ok_frame [OF ok] 1(2) by simp_all
    from 1(3) show ?thesis using u ents_ok_grantPlan [OF u(1)] ents_ok_status [OF u(1)] grantPlan_frame(3)
      by (elim disjE exE) (metis, simp, simp)
  qed
next
  case reversal
  then show ?thesis
  proof (cases rule: applyReversal_cases)
    case unknown
    with ok show ?thesis by simp
  next
    case (known orig p key pk i x u)
    have u: "ents_ok c u" "p2_usage u = p2_usage s" using ents_ok_frame [OF ok] known(5) by simp_all
    from known(6) show ?thesis using u ents_ok_status [OF u(1)] ents_ok_reverse [OF u(1)] reverse_usage
      by (elim disjE exE) (simp, simp, metis)
  qed
qed

lemma plan_used_snoc:
  "p2_usage t = p2_usage s @ [ledger_row c a key now b cr] \<Longrightarrow>
   plan_used x P t = plan_used x P s + (if x = a \<and> b = PlanBucket \<and> P now then ct_request_uu c else 0)"
  by (auto simp: plan_used_def ledger_row_def plan_row_def)

lemma windows_plan_row:
  assumes uu: "0 \<le> ct_request_uu c" and w: "windows_ok c ws tzOf s" and ents: "ents_ok c s"
    and caps: "capsOf c a s = Some (p, sc, wc)" "session_used c a now (ws (tzOf a) now) s + ct_request_uu c \<le> sc"
      "weekly_used c a now (ws (tzOf a) now) s + ct_request_uu c \<le> wc"
    and t: "p2_usage t = p2_usage s @ [ledger_row c a key now PlanBucket 0]"
  shows "windows_ok c ws tzOf t"
proof -
  let ?W = "ws (tzOf a) now"
  from w have nn: "\<forall>u \<in> set (p2_usage s). 0 \<le> us_uu u" by (simp add: windows_ok_def)
  from capsOf_limits [OF ents caps(1)] caps
  have lim: "plan_used a (\<lambda>x. x > now - hours_ms c) s + ct_request_uu c \<le> session_limit c"
    "plan_used a (\<lambda>x. x \<ge> ?W \<and> x > min (now - hours_ms c) ?W) s + ct_request_uu c \<le> weekly_limit c"
    by (simp_all add: session_used_eq weekly_used_eq)
  have mono: "(\<And>x. P x \<Longrightarrow> Q x) \<Longrightarrow> plan_used a P s \<le> plan_used a Q s" for P Q
    unfolding plan_used_def by (rule sum_uu_mono [OF nn]) blast
  have "plan_used b (\<lambda>x. y - hours_ms c < x \<and> x \<le> y) t \<le> session_limit c" for b y
  proof (cases "b = a \<and> y - hours_ms c < now \<and> now \<le> y")
    case True
    then have "plan_used a (\<lambda>x. y - hours_ms c < x \<and> x \<le> y) s \<le> plan_used a (\<lambda>x. x > now - hours_ms c) s"
      by (intro mono) auto
    with True lim(1) show ?thesis by (simp add: plan_used_snoc [OF t])
  next
    case False
    with w show ?thesis by (auto simp: plan_used_snoc [OF t] windows_ok_def)
  qed
  moreover have "plan_used b (\<lambda>x. ws (tzOf b) x = y \<and> y < x) t \<le> weekly_limit c" for b y
  proof (cases "b = a \<and> ?W = y \<and> y < now")
    case True
    then have "plan_used a (\<lambda>x. ws (tzOf a) x = y \<and> y < x) s \<le> plan_used a (\<lambda>x. x \<ge> ?W \<and> x > min (now - hours_ms c) ?W) s"
      by (intro mono) auto
    with True lim(2) show ?thesis by (simp add: plan_used_snoc [OF t])
  next
    case False
    with w show ?thesis by (auto simp: plan_used_snoc [OF t] windows_ok_def)
  qed
  moreover have "\<forall>u \<in> set (p2_usage t). 0 \<le> us_uu u" using nn uu by (simp add: t ledger_row_def)
  ultimately show ?thesis by (simp add: windows_ok_def)
qed

lemma windows_other_row:
  assumes "0 \<le> ct_request_uu c" and "windows_ok c ws tzOf s"
    and "p2_usage t = p2_usage s @ [ledger_row c a key now b cr]" and "b \<noteq> PlanBucket"
  shows "windows_ok c ws tzOf t"
  using assms(1,2,4) by (auto simp: windows_ok_def plan_used_snoc [OF assms(3)] assms(3) ledger_row_def)

section \<open>The invariant of a step\<close>

definition pv2_inv :: "catalog \<Rightarrow> (string \<Rightarrow> int \<Rightarrow> int) \<Rightarrow> (string \<Rightarrow> string) \<Rightarrow> pv2 \<Rightarrow> bool" where
  "pv2_inv c ws tzOf s \<longleftrightarrow> pack_inv s \<and> ents_ok c s \<and> windows_ok c ws tzOf s"

lemma processDodoEvent_cases:
  assumes "processDodoEvent c m w e s = (r, t)"
  obtains "t = s"
  | out l u where "applyEvent c m e s = Inr (out, l, u)" "r = Inr (out, l)" "map_of (p2_events s) w = None"
      "t = u \<lparr> p2_events := mset_key w \<lparr> wh_type = ev_type e, wh_mode = m, wh_outcome = out \<rparr> (p2_events u) \<rparr>"
  using assms by (auto simp: processDodoEvent_def split: option.splits sum.splits prod.splits)

lemma windows_ok_usage: "windows_ok c ws tzOf s \<Longrightarrow> p2_usage t = p2_usage s \<Longrightarrow> windows_ok c ws tzOf t"
  by (simp add: windows_ok_def plan_used_def)

lemma pv2_inv_step:
  assumes ok: "loadCatalog c = Inr c" and uu: "0 \<le> ct_request_uu c"
    and step: "pv2_step c ws tzOf s t" and inv: "pv2_inv c ws tzOf s"
  shows "pv2_inv c ws tzOf t"
  using step
proof cases
  case (deliver m w e r)
  from deliver show ?thesis
  proof (cases rule: processDodoEvent_cases)
    case 1
    with inv show ?thesis by simp
  next
    case (2 out l u)
    from inv have s: "pack_inv s" "ents_ok c s" "windows_ok c ws tzOf s" by (simp_all add: pv2_inv_def)
    from pack_inv_applyEvent [OF ok s(1) 2(1)] have "pack_inv t" by (rule pack_inv_frame) (auto simp: 2(4))
    with applyEvent_ents [OF s(2) 2(1)] ents_ok_frame [of c u t] windows_ok_usage [OF s(3), of t] 2(4)
    show ?thesis by (simp add: pv2_inv_def)
  qed
next
  case (request a key auto now r)
  from inv have s: "pack_inv s" "ents_ok c s" "windows_ok c ws tzOf s" by (simp_all add: pv2_inv_def)
  have p: "pack_inv t" by (rule pack_inv_meter [OF uu s(1) request])
  from request show ?thesis
  proof (cases rule: meter_cases)
    case nothing
    with inv show ?thesis by simp
  next
    case (plan p sc wc)
    from windows_plan_row [OF uu s(3,2) plan(1-4)] p ents_ok_frame [OF s(2) plan(7)] show ?thesis by (simp add: pv2_inv_def)
  next
    case (pack b)
    from windows_other_row [OF uu s(3) pack(3)] p ents_ok_frame [OF s(2) pack(6)] show ?thesis by (simp add: pv2_inv_def)
  qed
next
  case (credits a key now usdt)
  from inv have s: "pack_inv s" "ents_ok c s" "windows_ok c ws tzOf s" by (simp_all add: pv2_inv_def)
  have t: "p2_usage t = p2_usage s @ [ledger_row c a key now CreditsBucket usdt]" "p2_ents t = p2_ents s"
    "p2_grants t = p2_grants s" "p2_balances t = p2_balances s" "p2_payments t = p2_payments s"
    by (simp_all add: credits recordCredits_def ledger_def)
  have "pack_inv t"
    using s(1) by (simp add: pack_inv_def pack_used_def pack_balance_def granted_uu_def bought_uu_def t ledger_row_def)
  with windows_other_row [OF uu s(3) t(1)] ents_ok_frame [OF s(2) t(2)] show ?thesis by (simp add: pv2_inv_def)
qed

lemma pv2_reach_inv:
  assumes "loadCatalog c = Inr c" and "0 \<le> ct_request_uu c" and "pv2_reach c ws tzOf s"
  shows "pv2_inv c ws tzOf s"
  using assms(3)
proof (induction rule: rtranclp_induct)
  case base
  show ?case
    by (simp add: pv2_inv_def pack_inv_def ents_ok_def windows_ok_def empty_pv2_def pack_balance_def granted_uu_def bought_uu_def msum_def
        pack_used_def plan_used_def sum_uu_def session_limit_def weekly_limit_def foldr_max_nonneg)
next
  case (step s t)
  from pv2_inv_step [OF assms(1,2) step.hyps(2) step.IH] show ?case .
qed

section \<open>Payments stay recorded\<close>

lemma mset_key_dom: "map_of m k \<noteq> None \<Longrightarrow> map_of (mset_key j v m) k \<noteq> None"
  by simp

lemma applyEvent_payments:
  assumes ap: "applyEvent c m e s = Inr (out, l, t)" and k: "map_of (p2_payments s) p \<noteq> None"
  shows "map_of (p2_payments t) p \<noteq> None"
  using ap
proof (cases rule: applyEvent_cases)
  case nothing
  with k show ?thesis by simp
next
  case (payment a item)
  from payment(4) show ?thesis
  proof (cases rule: applyPayment_cases)
    case known
    with k show ?thesis by simp
  next
    case (pack pay r u k)
    with k grantPack_frame(2) [OF pack(5)] \<open>map_of (p2_payments s) p \<noteq> None\<close> show ?thesis by simp
  next
    case (plan pay r u q)
    with k grantPlan_frame(4) [OF plan(5)] show ?thesis by simp
  qed
next
  case (subscription a item)
  with applySubscription_frame [OF subscription(2)] k show ?thesis by simp
next
  case reversal
  then show ?thesis
  proof (cases rule: applyReversal_cases)
    case unknown
    with k show ?thesis by simp
  next
    case (known orig q key pk i x u)
    from k payments_upsertReversal [of s p] have u: "map_of (p2_payments u) p \<noteq> None" unfolding known(5) by blast
    have "reverse why i x m q orig u = (l, t) \<Longrightarrow> p2_payments t = p2_payments u" for why
      by (auto simp: reverse_def Let_def split: option.splits if_splits)
    with known(6) u show ?thesis by auto
  qed
qed

lemma step_payments:
  assumes "pv2_step c ws tzOf s t" and "map_of (p2_payments s) p \<noteq> None"
  shows "map_of (p2_payments t) p \<noteq> None"
  using assms(1)
proof cases
  case (deliver m w e r)
  from deliver show ?thesis
  proof (cases rule: processDodoEvent_cases)
    case 1
    with assms(2) show ?thesis by simp
  next
    case (2 out l u)
    with applyEvent_payments [OF 2(1) assms(2)] show ?thesis by simp
  qed
next
  case (request a key auto now r)
  from request show ?thesis by (cases rule: meter_cases) (use assms(2) in simp_all)
next
  case (credits a key now usdt)
  with assms(2) show ?thesis by (simp add: recordCredits_def ledger_def)
qed

text \<open>A delivery that records a payment for the first time.\<close>

definition record_payment :: "catalog \<Rightarrow> string \<Rightarrow> dodo_mode \<times> string \<times> dodo_event \<Rightarrow> pv2 \<Rightarrow> pv2 option" where
  "record_payment c p q s =
     (case q of (m, w, e) \<Rightarrow>
      let t = snd (processDodoEvent c m w e s) in
      if map_of (p2_payments s) p = None \<and> map_of (p2_payments t) p \<noteq> None then Some t else None)"

interpretation payment_token: single_use
  "record_payment c p q" "pv2_step c ws tzOf" "\<lambda>s. map_of (p2_payments s) p \<noteq> None"
  for c p q ws tzOf
proof
  fix s t
  show "record_payment c p q s = Some t \<Longrightarrow> map_of (p2_payments t) p \<noteq> None"
    by (auto simp: record_payment_def Let_def split: prod.splits if_splits)
  show "pv2_step c ws tzOf s t \<Longrightarrow> map_of (p2_payments s) p \<noteq> None \<Longrightarrow> map_of (p2_payments t) p \<noteq> None"
    by (rule step_payments)
  show "map_of (p2_payments s) p \<noteq> None \<Longrightarrow> record_payment c p q s = None"
    by (auto simp: record_payment_def Let_def split: prod.splits)
qed

text \<open>A recorded payment changes nothing but the list of deliveries.\<close>

lemma recorded_payment_inert:
  assumes "processDodoEvent c m w e s = (r, t)" and "ev_type e = ''payment.succeeded''"
    and "ed_payment (ev_data e) = Some p" and "map_of (p2_payments s) p \<noteq> None"
  shows "\<exists>x. t = s \<lparr> p2_events := x \<rparr>"
  using assms(1)
proof (cases rule: processDodoEvent_cases)
  case 1
  then have "t = s \<lparr> p2_events := p2_events s \<rparr>" by simp
  then show ?thesis ..
next
  case (2 out l u)
  have "u = s"
    using 2(1)
  proof (cases rule: applyEvent_cases)
    case nothing
    then show ?thesis .
  next
    case (payment a item)
    with assms(3,4) show ?thesis by (auto simp: applyPayment_def Let_def simp del: map_of_eq_None_iff)
  next
    case (subscription a item)
    have "\<not> starts ''subscription.'' (ev_type e)" by (simp add: assms(2) starts_def)
    with 2(1) assms(2-4) show ?thesis
      by (auto simp: applyEvent_def applyPayment_def Let_def simp del: map_of_eq_None_iff split: if_splits option.splits)
  next
    case reversal
    have "\<not> starts ''refund.'' (ev_type e)" "\<not> starts ''dispute.'' (ev_type e)" by (simp_all add: assms(2) starts_def)
    with 2(1) assms(2-4) show ?thesis
      by (auto simp: applyEvent_def applyPayment_def Let_def simp del: map_of_eq_None_iff split: if_splits option.splits)
  qed
  with 2(4) show ?thesis by blast
qed

lemma deliver_pack:
  assumes "map_of (p2_events s) w = None" and "ev_type e = ''payment.succeeded''" and "ed_payment (ev_data e) = Some p"
    and "accountFor (ev_data e) s = Some a" and "a \<noteq> []"
    and "itemForDodoProduct (productOf (ev_data e)) m c = Some (PackItem k)"
    and "map_of (p2_payments s) p = None" and "map_of (p2_grants s) p = None"
    and "processDodoEvent c m w e s = (r, t)"
  shows "(\<exists>l. r = Inr (''pack_granted'', l)) \<and> pack_balance a t = pack_balance a s + packTotalUu k \<and> map_of (p2_payments t) p \<noteq> None"
  using assms
  by (auto simp: processDodoEvent_def applyEvent_def applyPayment_def grantPack_def pack_balance_def Let_def)

section \<open>Properties\<close>

text \<open>
  C13: in every state of the tables, the pack balance of an account is not negative, is at most what its
  packs that were not reversed are worth, and together with what it spent from packs at most what it bought.\<close>

theorem pack_balance_backed:
  assumes "loadCatalog c = Inr c" and "0 \<le> ct_request_uu c" and "pv2_reach c ws tzOf s"
  shows "0 \<le> pack_balance a s \<and> pack_balance a s \<le> granted_uu a s \<and> pack_balance a s + pack_used a s \<le> bought_uu a s"
  using pv2_reach_inv [OF assms] by (simp add: pv2_inv_def pack_inv_def)

text \<open>
  C14: whatever requests, deliveries and plan changes happen in whatever order, the plan units an account
  uses inside any stretch of the session's length, and inside any calendar week after its first instant,
  never exceed the largest allowance of a plan in the catalog.\<close>

theorem usage_windows_bounded:
  assumes "loadCatalog c = Inr c" and "0 \<le> ct_request_uu c" and "pv2_reach c ws tzOf s"
  shows "plan_used a (\<lambda>x. t - hours_ms c < x \<and> x \<le> t) s \<le> session_limit c \<and>
         plan_used a (\<lambda>x. ws (tzOf a) x = w \<and> w < x) s \<le> weekly_limit c"
  using pv2_reach_inv [OF assms] by (simp_all add: pv2_inv_def windows_ok_def)

text \<open>
  C12: the first delivery of a pack payment credits exactly the pack with its bonus, and any later
  delivery of that payment, under any webhook id, in any mode and after anything else happened, changes
  nothing but the list of deliveries.\<close>

theorem payment_grants_once:
  assumes "loadCatalog c = Inr c" and "0 \<le> ct_request_uu c" and "pv2_reach c ws tzOf s"
    and "map_of (p2_events s) w = None" and "ev_type e = ''payment.succeeded''" and "ed_payment (ev_data e) = Some p"
    and "accountFor (ev_data e) s = Some a" and "a \<noteq> []"
    and "itemForDodoProduct (productOf (ev_data e)) m c = Some (PackItem k)"
    and "map_of (p2_payments s) p = None"
    and "processDodoEvent c m w e s = (r, t)"
    and "(pv2_step c ws tzOf)\<^sup>*\<^sup>* t u"
    and "ev_type e' = ''payment.succeeded''" and "ed_payment (ev_data e') = Some p"
    and "processDodoEvent c m' w' e' u = (r', v)"
  shows "pack_balance a t = pack_balance a s + packTotalUu k \<and> (\<exists>x. v = u \<lparr> p2_events := x \<rparr>)"
proof -
  have "pack_inv s" using pv2_reach_inv [OF assms(1-3)] by (simp add: pv2_inv_def)
  then have "map_of (p2_grants s) p = None"
    using assms(10) pack_inv_payment [of s p] by (metis not_None_eq)
  from deliver_pack [OF assms(4-10) this assms(11)]
  have t: "pack_balance a t = pack_balance a s + packTotalUu k" "map_of (p2_payments t) p \<noteq> None" by simp_all
  from recorded_payment_inert [OF assms(15,13,14) payment_token.spent_ever [OF assms(12) t(2)]] t(1) show ?thesis by simp
qed

section \<open>Concrete histories\<close>

definition pv2_data :: "string \<Rightarrow> string \<Rightarrow> event_data" where
  "pv2_data product pay =
     \<lparr> ed_checkout = Some ''v2'', ed_user = Some ''u1'', ed_meta_product = None, ed_subscription = Some ''s1'', ed_payment = Some pay,
       ed_refund = Some ''r1'', ed_dispute = Some ''d1'', ed_product = Some product, ed_cart = None, ed_total = Some 1000,
       ed_amount = None, ed_currency = Some ''USD'', ed_next_billing = None \<rparr>"

definition pv2_event :: "string \<Rightarrow> string \<Rightarrow> string \<Rightarrow> dodo_event" where
  "pv2_event ty product pay = \<lparr> ev_type = ty, ev_data = pv2_data product pay \<rparr>"

definition pack10 :: string where "pack10 = ''pdt_0NoMEReibUHWGhnHdJBfK''"

definition max_plan :: string where "max_plan = ''pdt_0NoMERbmVHn5d2jlpAAZX''"

fun deliveries :: "catalog \<Rightarrow> (string \<times> dodo_event) list \<Rightarrow> pv2 \<Rightarrow> pv2" where
  "deliveries c [] s = s"
| "deliveries c ((w, e) # es) s = deliveries c es (snd (processDodoEvent c Test w e s))"

lemma deliveries_steps: "(pv2_step c ws tzOf)\<^sup>*\<^sup>* s (deliveries c es s)"
proof (induction es arbitrary: s)
  case (Cons x es)
  obtain w e where x: "x = (w, e)" by force
  have "pv2_step c ws tzOf s (snd (processDodoEvent c Test w e s))"
    by (rule pv2_step.deliver [of c Test w e s "fst (processDodoEvent c Test w e s)"]) simp
  with Cons show ?case by (auto simp: x intro: converse_rtranclp_into_rtranclp)
qed simp

definition bought_two :: pv2 where
  "bought_two = deliveries shipped_catalog
     [(''w1'', pv2_event ''payment.succeeded'' pack10 ''p1''), (''w2'', pv2_event ''payment.succeeded'' pack10 ''p2'')] empty_pv2"

lemma bought_two_reach: "pv2_reach shipped_catalog ws tzOf bought_two"
  unfolding bought_two_def by (rule deliveries_steps)

lemma shipped_uu: "0 \<le> ct_request_uu shipped_catalog"
  by (simp add: shipped_catalog_def)

lemma bought_two_values: "pack_balance ''u1'' bought_two = 20000 \<and> bought_uu ''u1'' bought_two = 20000"
  by code_simp

theorem pack_balance_backed_witness:
  "pack_balance ''u1'' bought_two = 20000 \<and> pack_balance ''u1'' bought_two \<le> granted_uu ''u1'' bought_two"
  using pack_balance_backed [OF shipped_valid shipped_uu bought_two_reach, of "''u1''"] bought_two_values by simp

text \<open>Two requests on the free plan, within an hour of the week that starts at zero.\<close>

definition two_requests :: pv2 where
  "two_requests = snd (meterIntelligence shipped_catalog (\<lambda>_ _. 0) ''u1'' 7 ''UTC'' False 2000
     (snd (meterIntelligence shipped_catalog (\<lambda>_ _. 0) ''u1'' 7 ''UTC'' False 1000 empty_pv2)))"

lemma meter_step:
  "pv2_reach c ws (\<lambda>_. tz) s \<Longrightarrow> pv2_reach c ws (\<lambda>_. tz) (snd (meterIntelligence c ws a key tz auto now s))"
  using pv2_step.request [where tzOf = "\<lambda>_. tz" and t = "snd (meterIntelligence c ws a key tz auto now s)" and
      r = "fst (meterIntelligence c ws a key tz auto now s)" and a = a and key = key and auto = auto and now = now and
      c = c and weekStart = ws and s = s]
  by (simp add: rtranclp.rtrancl_into_rtrancl)

lemma two_requests_reach: "pv2_reach shipped_catalog (\<lambda>_ _. 0) (\<lambda>_. ''UTC'') two_requests"
  unfolding two_requests_def by (intro meter_step) simp

lemma two_requests_used: "plan_used ''u1'' (\<lambda>x. 5000 - hours_ms shipped_catalog < x \<and> x \<le> 5000) two_requests = 20"
  by code_simp

lemma shipped_limits: "session_limit shipped_catalog = 5000 \<and> weekly_limit shipped_catalog = 30000"
  by code_simp

theorem usage_windows_bounded_witness:
  "plan_used ''u1'' (\<lambda>x. 5000 - hours_ms shipped_catalog < x \<and> x \<le> 5000) two_requests = 20 \<and>
   plan_used ''u1'' (\<lambda>x. 5000 - hours_ms shipped_catalog < x \<and> x \<le> 5000) two_requests \<le> 5000"
  using usage_windows_bounded [OF shipped_valid shipped_uu two_requests_reach, of "''u1''" 5000 0] two_requests_used shipped_limits
  by simp

definition bought_one :: pv2 where
  "bought_one = snd (processDodoEvent shipped_catalog Test ''w1'' (pv2_event ''payment.succeeded'' pack10 ''p1'') empty_pv2)"

lemma first_payment:
  "accountFor (pv2_data pack10 ''p1'') empty_pv2 = Some ''u1'' \<and>
   itemForDodoProduct (productOf (pv2_data pack10 ''p1'')) Test shipped_catalog =
     Some (PackItem (shipped_pack ''pack_10'' 10 10000 0 ''pdt_0NoMEReibUHWGhnHdJBfK''))"
  by code_simp

lemma empty_tables [simp]:
  "p2_events empty_pv2 = []" "p2_payments empty_pv2 = []" "p2_grants empty_pv2 = []" "pack_balance a empty_pv2 = 0"
  by (simp_all add: empty_pv2_def pack_balance_def)

theorem payment_grants_once_witness:
  "pack_balance ''u1'' bought_one = 10000 \<and>
   (\<exists>x. snd (processDodoEvent shipped_catalog Live ''w9'' (pv2_event ''payment.succeeded'' max_plan ''p1'') bought_one)
          = bought_one \<lparr> p2_events := x \<rparr>)"
proof -
  let ?e = "pv2_event ''payment.succeeded'' pack10 ''p1''" and ?e' = "pv2_event ''payment.succeeded'' max_plan ''p1''"
  have p: "processDodoEvent shipped_catalog Test ''w1'' ?e empty_pv2 =
      (fst (processDodoEvent shipped_catalog Test ''w1'' ?e empty_pv2), bought_one)" by (simp add: bought_one_def)
  have q: "processDodoEvent shipped_catalog Live ''w9'' ?e' bought_one =
      (fst (processDodoEvent shipped_catalog Live ''w9'' ?e' bought_one), snd (processDodoEvent shipped_catalog Live ''w9'' ?e' bought_one))"
    by simp
  show ?thesis
    using payment_grants_once [OF shipped_valid shipped_uu rtranclp.rtrancl_refl [of "pv2_step shipped_catalog (\<lambda>_ _. 0) (\<lambda>_. [])"]
        _ _ _ _ _ _ _ p rtranclp.rtrancl_refl _ _ q, of "''p1''" "''u1''" "shipped_pack ''pack_10'' 10 10000 0 ''pdt_0NoMEReibUHWGhnHdJBfK''"]
      first_payment
    by (simp add: pv2_event_def pv2_data_def packTotalUu_def bonusUu_def shipped_pack_def)
qed

section \<open>Disputes and refunds\<close>

lemma deliver_reversal:
  assumes "map_of (p2_events s) w = None" and "accountFor (ev_data e) s = Some b" and "b \<noteq> []"
    and "ev_type e = ''dispute.'' @ st \<or> ev_type e = ''refund.'' @ st"
    and "applyReversal m (ev_type e) (ev_data e) s = (out, l, u)"
  shows "processDodoEvent c m w e s =
     (Inr (out, l), u \<lparr> p2_events := mset_key w \<lparr> wh_type = ev_type e, wh_mode = m, wh_outcome = out \<rparr> (p2_events u) \<rparr>)"
  using assms by (auto simp: processDodoEvent_def applyEvent_def Let_def starts_def)

text \<open>
  C40: a dispute that is won sets the entitlement of the account to active whatever it was: also one
  that a cancellation, an expiry or a refund had revoked.\<close>

theorem dispute_win_restores_plan:
  assumes "map_of (p2_events s) w = None" and "ev_type e = ''dispute.won''"
    and "accountFor (ev_data e) s = Some b" and "b \<noteq> []"
    and "find_payment (ed_payment (ev_data e)) s = Some orig" and "map_of (p2_ents s) (py_account orig) = Some en"
    and "processDodoEvent c m w e s = (r, t)"
  shows "\<exists>ref. map_of (p2_ents t) (py_account orig) = Some (en \<lparr> en_status := ''active'', en_ref := ref \<rparr>)"
proof -
  obtain out l u where ap: "applyReversal m (ev_type e) (ev_data e) s = (out, l, u)"
    by (cases "applyReversal m (ev_type e) (ev_data e) s") blast
  have "event_stage ''dispute.won'' = ''won''" "\<not> starts ''refund.'' ''dispute.won''" by (simp_all add: event_stage_def starts_def)
  with ap assms(2,5,6) have "\<exists>ref. map_of (p2_ents u) (py_account orig) = Some (en \<lparr> en_status := ''active'', en_ref := ref \<rparr>)"
    by (auto simp: applyReversal_def reversalStage_def setEntitlementStatus_def Let_def)
  moreover have "ev_type e = ''dispute.'' @ ''won'' \<or> ev_type e = ''refund.'' @ ''won''" by (simp add: assms(2))
  ultimately show ?thesis using deliver_reversal [OF assms(1,3,4) _ ap, of "''won''" c] assms(7) by auto
qed

definition cancelled_plan :: pv2 where
  "cancelled_plan = deliveries shipped_catalog
     [(''w1'', pv2_event ''payment.succeeded'' max_plan ''p1''), (''w2'', pv2_event ''subscription.cancelled'' max_plan ''p1'')] empty_pv2"

lemma cancelled_plan_rows:
  "map_option en_status (map_of (p2_ents cancelled_plan) ''u1'') = Some ''revoked'' \<and>
   map_option py_account (find_payment (Some ''p1'') cancelled_plan) = Some ''u1'' \<and>
   map_of (p2_events cancelled_plan) ''w3'' = None"
  by code_simp

theorem dispute_win_restores_plan_witness:
  "map_option en_status (map_of (p2_ents cancelled_plan) ''u1'') = Some ''revoked'' \<and>
   map_option en_status (map_of (p2_ents (snd (processDodoEvent shipped_catalog Test ''w3''
      (pv2_event ''dispute.won'' max_plan ''p1'') cancelled_plan))) ''u1'') = Some ''active''"
proof -
  let ?e = "pv2_event ''dispute.won'' max_plan ''p1''"
  obtain en orig where en: "map_of (p2_ents cancelled_plan) ''u1'' = Some en" and o: "find_payment (Some ''p1'') cancelled_plan = Some orig"
    and a: "py_account orig = ''u1''"
    using cancelled_plan_rows by (auto simp del: map_of_eq_Some_iff)
  show ?thesis
    using dispute_win_restores_plan [of cancelled_plan "''w3''" ?e "''u1''" orig en shipped_catalog Test
        "fst (processDodoEvent shipped_catalog Test ''w3'' ?e cancelled_plan)" "snd (processDodoEvent shipped_catalog Test ''w3'' ?e cancelled_plan)"]
      cancelled_plan_rows en o a
    by (auto simp: pv2_event_def pv2_data_def accountFor_def simp del: map_of_eq_Some_iff)
qed

text \<open>
  The refund of a pack takes the units of that pack from the whole balance of the account, whichever
  pack they came from; and a reversal of the same payment that follows under another id revokes the plan
  of the account, which that payment never bought.\<close>

theorem reversals_of_a_pack:
  assumes "map_of (p2_grants s) p = Some g" and "gr_granted g" and "map_of (p2_balances s) (py_account orig) = Some b"
    and "reverse ''refund'' i x m p orig s = (l, t)"
    and "map_of (p2_ents s) (py_account orig) = Some en"
    and "reverse ''dispute'' j y m p orig t = (l', u)"
  shows "map_of (p2_balances t) (py_account orig) = Some (max 0 (b - gr_uu g)) \<and> p2_ents t = p2_ents s \<and>
         p2_balances u = p2_balances t \<and>
         map_of (p2_ents u) (py_account orig) = Some (en \<lparr> en_status := ''revoked'', en_ref := ''dispute:'' @ j \<rparr>)"
proof -
  have t: "map_of (p2_balances t) (py_account orig) = Some (max 0 (b - gr_uu g))" "p2_ents t = p2_ents s"
    "map_of (p2_grants t) p = Some (g \<lparr> gr_granted := False \<rparr>)"
    using assms(1-4) by (auto simp: reverse_def Let_def)
  define v where "v = revenueRow (''dodo:v2:dispute:'' @ j) (py_account orig) (- (of_int y / 100)) ''refund_reversal'' m False t"
  have "u = setEntitlementStatus (py_account orig) ''revoked'' (''dispute:'' @ j) v"
    using assms(6) t(3) by (auto simp: reverse_def Let_def v_def)
  moreover have "map_of (p2_ents v) (py_account orig) = Some en" "p2_balances v = p2_balances t"
    using assms(5) t(2) by (simp_all add: v_def)
  ultimately show ?thesis using t(1,2) by (simp add: setEntitlementStatus_def)
qed

definition packs_and_plan :: pv2 where
  "packs_and_plan = deliveries shipped_catalog [(''w3'', pv2_event ''payment.succeeded'' max_plan ''p3'')] bought_two"

lemma packs_and_plan_rows:
  "map_option gr_granted (map_of (p2_grants packs_and_plan) ''p1'') = Some True \<and>
   map_option gr_uu (map_of (p2_grants packs_and_plan) ''p1'') = Some 10000 \<and>
   map_of (p2_balances packs_and_plan) ''u1'' = Some 20000 \<and>
   map_option en_status (map_of (p2_ents packs_and_plan) ''u1'') = Some ''active'' \<and>
   map_option py_account (map_of (p2_payments packs_and_plan) ''p1'') = Some ''u1''"
  by code_simp

definition after_refund :: "payment_row \<Rightarrow> pv2" where
  "after_refund orig = snd (reverse ''refund'' ''r1'' 1000 Test ''p1'' orig packs_and_plan)"

theorem reversals_of_a_pack_witness:
  "\<exists>orig. map_of (p2_payments packs_and_plan) ''p1'' = Some orig \<and>
     map_of (p2_balances (after_refund orig)) ''u1'' = Some 10000 \<and>
     map_option en_status (map_of (p2_ents (snd (reverse ''dispute'' ''d1'' 1000 Test ''p1'' orig (after_refund orig)))) ''u1'') = Some ''revoked''"
proof -
  obtain g en orig where r: "map_of (p2_grants packs_and_plan) ''p1'' = Some g" "gr_granted g" "gr_uu g = 10000"
    "map_of (p2_ents packs_and_plan) ''u1'' = Some en" "map_of (p2_payments packs_and_plan) ''p1'' = Some orig" "py_account orig = ''u1''"
    using packs_and_plan_rows by (auto simp del: map_of_eq_Some_iff)
  have a: "reverse ''refund'' ''r1'' 1000 Test ''p1'' orig packs_and_plan =
      (fst (reverse ''refund'' ''r1'' 1000 Test ''p1'' orig packs_and_plan), after_refund orig)" by (simp add: after_refund_def)
  let ?d = "reverse ''dispute'' ''d1'' 1000 Test ''p1'' orig (after_refund orig)"
  have d: "?d = (fst ?d, snd ?d)" by simp
  show ?thesis
    using reversals_of_a_pack [OF r(1,2) _ a _ d, of 20000 en] r(3-6) packs_and_plan_rows by simp
qed

end
