(* ===== verification/Spec2Isabelle.thy ===== *)
theory Spec2Isabelle
  imports Fee_Ledger Persistent_Journal Recovery_Scheduler Kernel_Router Kernel_Properties Market_Agents Gateway_Types
    Api_Keys Pricing_V2
begin

text \<open>
  \<^bold>\<open>Satelink: a verification library.\<close>

  Satelink sells machine workloads.  The library models four parts of the API server
  (\<^verbatim>\<open>apps/api/src/\<close>): the routing kernel, the market that feeds it with suppliers, the public
  RPC gateway with its billing, and the accounts behind it: keys, wallets, deposits and plans.

  \<^emph>\<open>Kernel.\<close>  A request is routed through the \<^emph>\<open>routing kernel\<close>
  (\<^verbatim>\<open>apps/api/src/vnext/\<close>): suppliers are discovered and quoted, one is chosen by
  weighted scores, the payment is settled, the supplier executes, a fee is computed, and the
  transaction is closed.  Every phase is memoised under an idempotency key and appended to a
  hash-chained journal, so that a crashed process can resume.  Around the kernel stand the fee
  engine and ledger, the supplier registry with its health monitor, the durable stores, the
  outbound spending guard, the treasury, withdrawals, the x402 payment adapters and the HTTP routes.

  \<^emph>\<open>Market\<close> (\<^verbatim>\<open>vnext/market/\<close>).  Suppliers are discovered in public registries, benchmarked,
  scored and entered into the supplier registry.

  \<^emph>\<open>RPC gateway\<close> (\<^verbatim>\<open>workloads/rpc_gateway/\<close>, \<^verbatim>\<open>billing/\<close>, \<^verbatim>\<open>capacity/\<close>).  A JSON-RPC call is
  authorized by a read-only preflight (or, for anonymous callers, by a rate limit), served from a cache, from a
  network node or from a chain of providers behind circuit breakers, and charged only once it has been
  served: from the prepaid balance of an account or, on the path \<open>new\<close> of the capacity flag, from a
  signed authorization.  What was charged is booked as a revenue row.

  \<^emph>\<open>Accounts\<close> (\<^verbatim>\<open>billing/\<close>, \<^verbatim>\<open>services/\<close>, \<^verbatim>\<open>pricing_v2/\<close>).  A wallet is bound to an API key by a
  signature over a challenge that works once.  Money comes in on the chain, where a watcher scans the vault's events
  and a key may claim a transaction, or through Dodo, whose webhooks turn payments, refunds and disputes into
  entitlements and packs of usage units; metering spends first the plan, then the packs, then the credits.

  \<^bold>\<open>Theories, bottom up.\<close>

  \<^item> \<^verbatim>\<open>Sat_Prelude\<close>: results as sums with the error on the left, state transformers that may
    throw (\<open>em\<close>), numbers and maps of JavaScript, decimal texts; the lemmas shared by all.
  \<^item> \<^verbatim>\<open>Canonical_Json\<close>: \<^verbatim>\<open>utils/canonical_json.js\<close>.  The canonical text identifies an object.
  \<^item> \<^verbatim>\<open>Money\<close>, \<^verbatim>\<open>Fee_Engine\<close>, \<^verbatim>\<open>Fee_Ledger\<close>: \<^verbatim>\<open>fees/\<close>.  Amounts are
    unbounded integers (BigInt); conversions are exact or refused, fees are conserved and bounded, a
    transaction is charged once.
  \<^item> \<^verbatim>\<open>Journal\<close>, \<^verbatim>\<open>Persistent_Journal\<close>: \<^verbatim>\<open>kernel/journal.js\<close> and its durable twin.  Both
    interpret the locale \<open>event_log\<close>.  SHA-256 is a parameter; tamper evidence is stated up to
    a collision on the texts hashed.
  \<^item> \<^verbatim>\<open>Durable_Store\<close>: the memory store and the PostgreSQL store; both interpret the locale
    \<open>once_ledger\<close> (insert-if-absent), and the second refines the first.
  \<^item> \<^verbatim>\<open>Idempotency\<close>: the promise cache as a step relation, and the durable store's \<open>run\<close>;
    both interpret \<open>once_runner\<close>, the durable one also \<open>durable_runner\<close>.
  \<^item> \<^verbatim>\<open>Outbound_Guard\<close>, \<^verbatim>\<open>Treasury\<close>, \<^verbatim>\<open>Withdrawal\<close>: money leaving, money earned, payouts.
    Operations that await between a check and a write are split there and interleaved.
  \<^item> \<^verbatim>\<open>Decision_Engine\<close>, \<^verbatim>\<open>Supplier_Registry\<close>: \<^verbatim>\<open>routing/\<close> and \<^verbatim>\<open>registry/\<close>,
    with the locale \<open>registry_mutator\<close> for the operations that the durable wrapper persists.
  \<^item> \<^verbatim>\<open>Kernel\<close>, \<^verbatim>\<open>Kernel_Invariants\<close>, \<^verbatim>\<open>Kernel_Replay\<close>, \<^verbatim>\<open>Kernel_Saga\<close>: the kernel's
    \<open>execute\<close>, one definition per phase.  The locale \<open>kernel_relation\<close> lifts a relation
    kept by each phase to the whole execution; its interpretations give growth, effects at most
    once, the hash chain, the saga and the refunds.
  \<^item> \<^verbatim>\<open>Kernel_Adapters\<close>, \<^verbatim>\<open>X402_Adapters\<close>: the workload and settlement adapters.
  \<^item> \<^verbatim>\<open>Reliability\<close>, \<^verbatim>\<open>Recovery_Scheduler\<close>: recovery after a crash, its retries and timer.
  \<^item> \<^verbatim>\<open>Kernel_Router\<close>: the HTTP routes and the resale of x402 resources.
  \<^item> \<^verbatim>\<open>Kernel_Properties\<close>: what an execution guarantees, over all of these.
  \<^item> \<^verbatim>\<open>Market_Scoring\<close>, \<^verbatim>\<open>Market_Sources\<close>, \<^verbatim>\<open>Market_Store\<close>, \<^verbatim>\<open>Market_Agents\<close>:
    health scores and their decay, the registries and their normalisation over a parameter for the network, the
    bounded series with their replay from the journal, the discovery and benchmark rounds.
  \<^item> \<^verbatim>\<open>Rpc_Providers\<close>: the provider table as a function of the environment, aliases, look-ups.
  \<^item> \<^verbatim>\<open>Circuit_Breakers\<close>: the breaker of the providers, kept in Redis, and that of the nodes,
    kept in memory and a table; both interpret the locale \<open>quarantine\<close>.
  \<^item> \<^verbatim>\<open>Rpc_Limits\<close>: \<^verbatim>\<open>rate_limiter.js\<close> and \<^verbatim>\<open>cache.js\<close>.  The daily limit is exact for
    requests one after the other; the cache returns what was stored until it expires.
  \<^item> \<^verbatim>\<open>Rpc_Router\<close>: \<^verbatim>\<open>load_balancer.js\<close>, \<^verbatim>\<open>node_dispatcher.js\<close>, \<^verbatim>\<open>router.js\<close>.  The
    attempt loop terminates, a healthy provider is found, a failure means that all were tried.
  \<^item> \<^verbatim>\<open>Credit_Service\<close>: \<^verbatim>\<open>billing/credit_service.mjs\<close> with the account controls, plan buckets and
    session keys it uses.  Books balance, a charge is exact or leaves no trace, a deposit counts once.
  \<^item> \<^verbatim>\<open>Capacity\<close>: \<^verbatim>\<open>capacity/capacity_enforcement.js\<close> with \<^verbatim>\<open>lib/flags.js\<close>.  An authorization is
    never overdrawn, one layer pays, the dual window serves the legacy decision.
  \<^item> \<^verbatim>\<open>Rpc_Gateway\<close>: the endpoint itself, with \<^verbatim>\<open>middleware/credit_gate.js\<close> and
    \<^verbatim>\<open>rpc_billing.js\<close>; it composes the five theories above.
  \<^item> \<^verbatim>\<open>Gateway_Billing\<close>: data only when charged, no charge without data, revenue equal to what
    was collected.  The locale \<open>charging\<close> is what the endpoint relies on; the prepaid charge and the
    capacity layer interpret it.
  \<^item> \<^verbatim>\<open>Gateway_Types\<close>: the tables behind the endpoint stay keyed on every branch.
  \<^item> \<^verbatim>\<open>Deposit_Listener\<close>: \<^verbatim>\<open>billing/deposit_validation.mjs\<close> and \<^verbatim>\<open>services/deposit_listener.js\<close>, over the
    tables of \<^verbatim>\<open>Credit_Service\<close>.  No deposit is skipped unless a statement fails, the watcher catches up, and a
    poll ends exactly when its chunks are not empty.
  \<^item> \<^verbatim>\<open>Single_Use\<close>: the locale \<open>single_use\<close> of what counts once; the challenges and the deposit hashes of
    \<^verbatim>\<open>Api_Keys\<close> and the payments of \<^verbatim>\<open>Pricing_V2\<close> interpret it.
  \<^item> \<^verbatim>\<open>Api_Keys\<close>: \<^verbatim>\<open>billing/wallet_challenge.mjs\<close> and the routes of \<^verbatim>\<open>billing/api_keys_route.mjs\<close> that change
    state.  The invariant \<open>keys_inv\<close> carries, over any history of requests, that a wallet on a key was proved by a
    signature and is on no other key; a challenge works once; a claimed deposit is credited to its sender.
  \<^item> \<^verbatim>\<open>Pricing_Catalog\<close>: the catalog with its validation, economics and checkout, and the shipped catalog.
  \<^item> \<^verbatim>\<open>Pricing_Metering\<close>, \<^verbatim>\<open>Pricing_Webhooks\<close>: the tables of \<^verbatim>\<open>pricing_v2/schema.mjs\<close>, the metering of a request
    and the transaction of a webhook.
  \<^item> \<^verbatim>\<open>Pricing_Invariants\<close>, \<^verbatim>\<open>Pricing_V2\<close>: the invariants of these tables over deliveries and requests in any
    order (\<open>pv2_step\<close>): balances backed by purchases, usage inside both windows, payments applied once.

  \<^bold>\<open>Conventions.\<close>  A JavaScript object is a record, a Map an association list in insertion
  order, an exception the left summand, an \<open>async\<close> operation a state transformer, split at its
  awaits where interleaving matters.  The clock, the random source, SHA-256, HMAC, base64, keccak,
  \<open>fetch\<close>, JSON parsing, the wallet, the recovery of a signer and the facilitator are parameters.  Doubles in scores, latencies and
  amounts are exact rationals, the weights of the load balancer real numbers.  Redis is a map whose
  entries expire, and whether it answers is an argument.  One SQL statement is one step: which
  statements fail, which rows are locked and what other requests do to the tables between two steps are
  arguments too; a transaction that is refused or throws leaves the tables as they were.  Strings are lists of bytes.  The only loop with a bound is the recovery
  attempt loop, which counts the attempts of the code; the loop over providers terminates because
  each attempt removes one, the node phase has the two attempts of the code.  The watcher's loop over
  block ranges, which a bad configuration keeps from ending, is a partial function into \<open>option\<close>.

  \<^bold>\<open>Not modelled.\<close>  The DDL of the PostgreSQL store and two of its listing queries, the machine
  explanation of a fee, the constructors that read keys from the environment and the
  observability-only wiring of the kernel's router; of the gateway the response headers, the prose of the
  payment instructions, metrics, the WebSocket endpoint and the health monitor, which only observe; of
  the billing the schema checks, the shadow ledger, which is off by default, and the granting of plans outside
  Pricing V2; of the account routes the read-only ones; of Pricing V2 its reports, the price labels and the daily
  reconciliation.  The deduction of \<^verbatim>\<open>Credit_Service\<close> is that with the flag of Pricing V2 off; the metering that
  the flag puts in front of it is \<^verbatim>\<open>Pricing_Metering\<close>.  Outside these parts: the web applications, the contracts, and the
  administrative and monitoring routers of the API server, which are mostly input and output around SQL queries.
\<close>

end
